(* ===== verification/Prelude.thy ===== *)
theory Prelude
  imports Main "HOL-Library.AList" "HOL-Library.Char_ord" "HOL-Library.Word"
begin

text \<open>
  What every component shares: the part of Go's \<^verbatim>\<open>strings\<close> and \<^verbatim>\<open>strconv\<close> packages that
  the sources call, written on byte strings, and Go maps as association lists.

  \<^item> A Go \<^verbatim>\<open>string\<close> or \<^verbatim>\<open>[]byte\<close> is a \<^typ>\<open>string\<close>: an Isabelle character is one byte, so
    \<^const>\<open>length\<close> is \<^verbatim>\<open>len\<close> and indexing is bytewise, as in Go.
  \<^item> The case functions and \<^verbatim>\<open>strings.Fields\<close> follow Go on ASCII; a byte above 127 is left
    alone and is never white space.
  \<^item> A Go \<^verbatim>\<open>map\<close> is a list of key/value pairs with distinct keys. Its order is the order in which
    one iteration visits the map, which Go leaves open: a statement that holds for every such
    list holds for every visiting order.
\<close>

unbundle bit_operations_syntax

type_synonym ('k, 'v) gomap = "('k \<times> 'v) list"

named_theorems gomap_simps "rewriting of Go maps kept as association lists"
named_theorems invs "preservation of a component's invariant by its operations"
named_theorems frames "what an operation leaves unchanged"

section \<open>Maps\<close>

text \<open>\<^verbatim>\<open>m[k] = v\<close>, \<^verbatim>\<open>delete(m, k)\<close> and \<^verbatim>\<open>_, ok := m[k]\<close>.\<close>

abbreviation mput :: "'k \<Rightarrow> 'v \<Rightarrow> ('k, 'v) gomap \<Rightarrow> ('k, 'v) gomap" where
  "mput k v m \<equiv> AList.update k v m"

abbreviation mdel :: "'k \<Rightarrow> ('k, 'v) gomap \<Rightarrow> ('k, 'v) gomap" where
  "mdel k m \<equiv> AList.delete k m"

definition mhas :: "('k, 'v) gomap \<Rightarrow> 'k \<Rightarrow> bool" where
  "mhas m k = (map_of m k \<noteq> None)"

definition wf_map :: "('k, 'v) gomap \<Rightarrow> bool" where
  "wf_map m = distinct (map fst m)"

lemma mhas_iff: "mhas m k \<longleftrightarrow> k \<in> fst ` set m"
  by (simp add: mhas_def map_of_eq_None_iff)

lemma mhas_Some: "map_of m k = Some v \<Longrightarrow> mhas m k"
  by (simp add: mhas_def)

lemma mhas_Nil [simp]: "\<not> mhas [] k"
  by (simp add: mhas_def)

lemma wf_map_Nil [simp]: "wf_map []"
  by (simp add: wf_map_def)

lemma wf_map_put [simp, intro]: "wf_map m \<Longrightarrow> wf_map (mput k v m)"
  by (simp add: wf_map_def distinct_update)

lemma wf_map_del [simp, intro]: "wf_map m \<Longrightarrow> wf_map (mdel k m)"
  by (simp add: wf_map_def distinct_delete)

lemma map_of_put [simp, gomap_simps]: "map_of (mput k v m) k' = (if k' = k then Some v else map_of m k')"
  by (simp add: update_conv')

lemma map_of_del [simp, gomap_simps]: "map_of (mdel k m) k' = (if k' = k then None else map_of m k')"
  by (simp add: delete_conv')

lemma mhas_put [simp]: "mhas (mput k v m) k' \<longleftrightarrow> k' = k \<or> mhas m k'"
  by (simp add: mhas_def)

lemma mhas_del [simp]: "mhas (mdel k m) k' \<longleftrightarrow> k' \<noteq> k \<and> mhas m k'"
  by (simp add: mhas_def)

lemma keys_put [simp]: "fst ` set (mput k v m) = insert k (fst ` set m)"
  by (induction m) auto

lemma keys_del [simp]: "fst ` set (mdel k m) = fst ` set m - {k}"
  by (force simp: AList.delete_eq)

lemma map_of_iff_mem: "wf_map m \<Longrightarrow> map_of m k = Some v \<longleftrightarrow> (k, v) \<in> set m"
  by (simp add: wf_map_def map_of_eq_Some_iff)

lemma mdel_absent: "\<not> mhas m k \<Longrightarrow> mdel k m = m"
  by (force simp: mhas_iff AList.delete_eq intro!: filter_True)

lemma length_put: "length (mput k v m) = (if mhas m k then length m else Suc (length m))"
  by (induction m) (auto simp: mhas_def)

lemma length_del: "wf_map m \<Longrightarrow> length (mdel k m) = (if mhas m k then length m - 1 else length m)"
proof (induction m)
  case Nil
  show ?case by simp
next
  case (Cons p m)
  obtain a b where p: "p = (a, b)" by (cases p)
  with Cons.prems have wf: "wf_map m" and na: "\<not> mhas m a"
    by (auto simp: wf_map_def mhas_iff)
  show ?case
  proof (cases "a = k")
    case True
    with p na show ?thesis by (simp add: mdel_absent mhas_def)
  next
    case False
    have "mhas m k \<Longrightarrow> 0 < length m" by (cases m) (auto simp: mhas_def)
    with False p Cons.IH [OF wf] show ?thesis by (auto simp: mhas_def)
  qed
qed

section \<open>Byte strings\<close>

text \<open>\<^verbatim>\<open>strings.IndexByte\<close>, with \<^const>\<open>None\<close> for Go's \<^verbatim>\<open>-1\<close>.\<close>

fun index_byte :: "char \<Rightarrow> string \<Rightarrow> nat option" where
  "index_byte c [] = None"
| "index_byte c (x # xs) = (if x = c then Some 0 else map_option Suc (index_byte c xs))"

lemma index_byte_None [simp]: "index_byte c s = None \<longleftrightarrow> c \<notin> set s"
  by (induction s) auto

lemma index_byte_absent: "c \<notin> set s \<Longrightarrow> index_byte c s = None"
  by simp

lemma index_byte_Some: "index_byte c s = Some i \<Longrightarrow> i < length s \<and> s ! i = c \<and> c \<notin> set (take i s)"
proof (induction s arbitrary: i)
  case Nil
  then show ?case by simp
next
  case (Cons x s)
  then show ?case by (cases i) (auto split: if_splits)
qed

lemma index_byte_append: "c \<notin> set u \<Longrightarrow> index_byte c (u @ c # v) = Some (length u)"
  by (induction u) auto

text \<open>\<^verbatim>\<open>strings.TrimLeft\<close> with a one-byte cutset, \<^verbatim>\<open>TrimRight\<close>, \<^verbatim>\<open>TrimPrefix\<close>, \<^verbatim>\<open>TrimSuffix\<close>.\<close>

definition trim_left :: "char \<Rightarrow> string \<Rightarrow> string" where
  "trim_left c s = dropWhile (\<lambda>x. x = c) s"

definition trim_right :: "char \<Rightarrow> string \<Rightarrow> string" where
  "trim_right c s = rev (dropWhile (\<lambda>x. x = c) (rev s))"

definition has_prefix :: "string \<Rightarrow> string \<Rightarrow> bool" where
  "has_prefix p s = (take (length p) s = p)"

definition trim_prefix :: "string \<Rightarrow> string \<Rightarrow> string" where
  "trim_prefix p s = (if has_prefix p s then drop (length p) s else s)"

definition has_suffix :: "string \<Rightarrow> string \<Rightarrow> bool" where
  "has_suffix p s = (length p \<le> length s \<and> drop (length s - length p) s = p)"

definition trim_suffix :: "string \<Rightarrow> string \<Rightarrow> string" where
  "trim_suffix p s = (if has_suffix p s then take (length s - length p) s else s)"

lemma trim_left_length [simp]: "length (trim_left c s) \<le> length s"
  by (simp add: trim_left_def length_dropWhile_le)

lemma trim_left_id [simp]: "s \<noteq> [] \<Longrightarrow> hd s \<noteq> c \<Longrightarrow> trim_left c s = s"
  by (cases s) (auto simp: trim_left_def)

lemma trim_left_Nil [simp]: "trim_left c [] = []"
  by (simp add: trim_left_def)

lemma trim_suffix_append [simp]: "trim_suffix p (s @ p) = s"
  by (simp add: trim_suffix_def has_suffix_def)

text \<open>\<^verbatim>\<open>strings.Split\<close> with a one-byte separator, and \<^verbatim>\<open>strings.Join\<close>.\<close>

fun split_on :: "char \<Rightarrow> string \<Rightarrow> string list" where
  "split_on c [] = [[]]"
| "split_on c (x # xs) =
     (if x = c then [] # split_on c xs
      else (case split_on c xs of [] \<Rightarrow> [[x]] | y # ys \<Rightarrow> (x # y) # ys))"

fun join_with :: "string \<Rightarrow> string list \<Rightarrow> string" where
  "join_with sep [] = []"
| "join_with sep [x] = x"
| "join_with sep (x # y # ys) = x @ sep @ join_with sep (y # ys)"

lemma split_on_ne [simp]: "split_on c s \<noteq> []"
  by (induction s) (auto split: list.splits)

lemma split_on_no_sep: "c \<notin> set s \<Longrightarrow> split_on c s = [s]"
  by (induction s) auto

lemma split_on_append: "c \<notin> set u \<Longrightarrow> split_on c (u @ c # v) = u # split_on c v"
  by (induction u) auto

lemma split_on_join:
  "xs \<noteq> [] \<Longrightarrow> \<forall>x \<in> set xs. c \<notin> set x \<Longrightarrow> split_on c (join_with [c] xs) = xs"
proof (induction "[c]" xs rule: join_with.induct)
  case (2 x)
  then show ?case by (simp add: split_on_no_sep)
next
  case (3 x y ys)
  then show ?case by (simp add: split_on_append)
qed simp

lemma join_split_on: "join_with [c] (split_on c s) = s"
proof (induction s)
  case (Cons x s)
  obtain y ys where sp: "split_on c s = y # ys"
    using split_on_ne [of c s] by (cases "split_on c s") auto
  show ?case
  proof (cases "x = c")
    case True
    with sp Cons.IH show ?thesis by simp
  next
    case False
    with sp Cons.IH show ?thesis by (cases ys) auto
  qed
qed simp

lemma split_on_pieces: "p \<in> set (split_on c s) \<Longrightarrow> c \<notin> set p"
  by (induction s arbitrary: p) (auto split: if_splits list.splits)

text \<open>ASCII case mapping, \<^verbatim>\<open>strings.ToUpper\<close> and \<^verbatim>\<open>strings.ToLower\<close>.\<close>

definition is_upper :: "char \<Rightarrow> bool" where
  "is_upper c = (CHR ''A'' \<le> c \<and> c \<le> CHR ''Z'')"

definition is_lower :: "char \<Rightarrow> bool" where
  "is_lower c = (CHR ''a'' \<le> c \<and> c \<le> CHR ''z'')"

definition is_digit :: "char \<Rightarrow> bool" where
  "is_digit c = (CHR ''0'' \<le> c \<and> c \<le> CHR ''9'')"

definition up_byte :: "char \<Rightarrow> char" where
  "up_byte c = (if is_lower c then char_of (of_char c - (32::nat)) else c)"

definition low_byte :: "char \<Rightarrow> char" where
  "low_byte c = (if is_upper c then char_of (of_char c + (32::nat)) else c)"

definition to_upper :: "string \<Rightarrow> string" where
  "to_upper s = map up_byte s"

definition to_lower :: "string \<Rightarrow> string" where
  "to_lower s = map low_byte s"

lemma up_byte_idem [simp]: "up_byte (up_byte c) = up_byte c"
proof -
  have "\<forall>c. up_byte (up_byte c) = up_byte c" by code_simp
  then show ?thesis by blast
qed

lemma low_byte_idem [simp]: "low_byte (low_byte c) = low_byte c"
proof -
  have "\<forall>c. low_byte (low_byte c) = low_byte c" by code_simp
  then show ?thesis by blast
qed

lemma to_upper_idem [simp]: "to_upper (to_upper s) = to_upper s"
  by (simp add: to_upper_def)

lemma to_lower_idem [simp]: "to_lower (to_lower s) = to_lower s"
  by (simp add: to_lower_def)

text \<open>\<^verbatim>\<open>strings.Fields\<close> and \<^verbatim>\<open>strings.TrimSpace\<close> on ASCII white space.\<close>

definition is_space :: "char \<Rightarrow> bool" where
  "is_space c = (c \<in> set [CHR '' '', CHR 0x09, CHR 0x0A, CHR 0x0B, CHR 0x0C, CHR 0x0D])"

fun fields_acc :: "string \<Rightarrow> string \<Rightarrow> string list" where
  "fields_acc cur [] = (if cur = [] then [] else [rev cur])"
| "fields_acc cur (x # xs) =
     (if is_space x then (if cur = [] then fields_acc [] xs else rev cur # fields_acc [] xs)
      else fields_acc (x # cur) xs)"

definition fields :: "string \<Rightarrow> string list" where
  "fields s = fields_acc [] s"

definition trim_space :: "string \<Rightarrow> string" where
  "trim_space s = rev (dropWhile is_space (rev (dropWhile is_space s)))"

section \<open>Numbers as text\<close>

text \<open>
  \<^verbatim>\<open>strconv.FormatInt(n, 10)\<close> and the sources' own \<^verbatim>\<open>itoaPositive\<close> write decimal digits;
  \<^verbatim>\<open>strconv.ParseInt(s, 10, 64)\<close> and \<^verbatim>\<open>strconv.Atoi\<close> (64-bit \<^verbatim>\<open>int\<close>) read an optional sign and
  decimal digits and fail outside the 64-bit range.
\<close>

definition digit_char :: "nat \<Rightarrow> char" where
  "digit_char d = char_of (48 + d)"

fun digits_acc :: "nat \<Rightarrow> string \<Rightarrow> string" where
  "digits_acc n acc = (if n = 0 then acc else digits_acc (n div 10) (digit_char (n mod 10) # acc))"

declare digits_acc.simps [simp del]

definition itoa_nat :: "nat \<Rightarrow> string" where
  "itoa_nat n = (if n = 0 then ''0'' else digits_acc n [])"

definition format_int :: "int \<Rightarrow> string" where
  "format_int i = (if i < 0 then CHR ''-'' # itoa_nat (nat (- i)) else itoa_nat (nat i))"

definition digit_val :: "char \<Rightarrow> nat" where
  "digit_val c = of_char c - 48"

definition digits_val :: "string \<Rightarrow> nat" where
  "digits_val s = foldl (\<lambda>n c. 10 * n + digit_val c) 0 s"

definition parse_int :: "string \<Rightarrow> int option" where
  "parse_int s =
     (let (neg, ds) =
        (case s of [] \<Rightarrow> (False, [])
         | c # cs \<Rightarrow> if c = CHR ''-'' then (True, cs) else if c = CHR ''+'' then (False, cs) else (False, s))
      in if ds = [] \<or> \<not> list_all is_digit ds then None
         else let v = int (digits_val ds); i = (if neg then - v else v)
              in if - (2 ^ 63) \<le> i \<and> i < 2 ^ 63 then Some i else None)"

lemma digit_char_val: "d < 10 \<Longrightarrow> digit_val (digit_char d) = d \<and> is_digit (digit_char d)"
proof -
  have "\<forall>d \<in> set [0..<10]. digit_val (digit_char d) = d \<and> is_digit (digit_char d)" by code_simp
  then show "d < 10 \<Longrightarrow> digit_val (digit_char d) = d \<and> is_digit (digit_char d)" by auto
qed

lemma digits_acc_val:
  "foldl (\<lambda>n c. 10 * n + digit_val c) 0 (digits_acc n acc) = foldl (\<lambda>n c. 10 * n + digit_val c) n acc"
proof (induction n acc rule: digits_acc.induct)
  case (1 n acc)
  then show ?case
    by (cases "n = 0") (simp_all add: digits_acc.simps [of n] digits_acc.simps [of 0] digit_char_val)
qed

lemma digits_acc_digits: "list_all is_digit acc \<Longrightarrow> list_all is_digit (digits_acc n acc)"
proof (induction n acc rule: digits_acc.induct)
  case (1 n acc)
  then show ?case
    by (cases "n = 0") (simp_all add: digits_acc.simps [of n] digits_acc.simps [of 0] digit_char_val)
qed

lemma digits_acc_Nil: "digits_acc n acc = [] \<longleftrightarrow> n = 0 \<and> acc = []"
proof (induction n acc rule: digits_acc.induct)
  case (1 n acc)
  then show ?case
    by (cases "n = 0") (simp_all add: digits_acc.simps [of n] digits_acc.simps [of 0])
qed

lemma itoa_nat_digits: "list_all is_digit (itoa_nat n) \<and> itoa_nat n \<noteq> []"
proof -
  have "is_digit CHR ''0''" by code_simp
  then show ?thesis
    by (simp add: itoa_nat_def digits_acc_digits digits_acc_Nil)
qed

lemma itoa_nat_val: "digits_val (itoa_nat n) = n"
proof (cases "n = 0")
  case True
  have "digits_val (itoa_nat 0) = 0" by code_simp
  with True show ?thesis by simp
next
  case False
  then show ?thesis by (simp add: itoa_nat_def digits_val_def digits_acc_val)
qed

text \<open>What \<^verbatim>\<open>FormatInt\<close> writes, \<^verbatim>\<open>ParseInt\<close> reads back, inside the 64-bit range.\<close>

lemma is_digit_not_sign: "is_digit c \<Longrightarrow> c \<noteq> CHR ''-'' \<and> c \<noteq> CHR ''+''"
proof -
  have "\<forall>c. is_digit c \<longrightarrow> c \<noteq> CHR ''-'' \<and> c \<noteq> CHR ''+''" by code_simp
  then show "is_digit c \<Longrightarrow> c \<noteq> CHR ''-'' \<and> c \<noteq> CHR ''+''" by blast
qed

lemma parse_int_itoa: "n < 2 ^ 63 \<Longrightarrow> parse_int (itoa_nat n) = Some (int n)"
proof -
  assume n: "n < 2 ^ 63"
  obtain d ds where d: "itoa_nat n = d # ds"
    using itoa_nat_digits [of n] by (cases "itoa_nat n") auto
  with itoa_nat_digits [of n] have dig: "list_all is_digit (d # ds)" by simp
  with is_digit_not_sign [of d] have "d \<noteq> CHR ''-''" and "d \<noteq> CHR ''+''" by simp_all
  moreover have "digits_val (d # ds) = n" using itoa_nat_val [of n] d by simp
  moreover have "int n < 2 ^ 63" using n by (simp flip: of_nat_less_iff)
  moreover have "- (2 ^ 63) \<le> int n" by simp
  ultimately show ?thesis using d dig by (simp add: parse_int_def Let_def)
qed

lemma parse_int_format:
  assumes "- (2 ^ 63) \<le> i" "i < 2 ^ 63"
  shows "parse_int (format_int i) = Some i"
proof (cases "i < 0")
  case False
  with assms have "nat i < 2 ^ 63" by (simp add: nat_less_iff)
  with False show ?thesis by (simp add: format_int_def parse_int_itoa)
next
  case True
  with assms itoa_nat_digits [of "nat (- i)"] itoa_nat_val [of "nat (- i)"]
  show ?thesis by (simp add: format_int_def parse_int_def Let_def)
qed

end
