(* ===== verification/Membership.thy ===== *)
theory Membership
  imports Prelude
begin

text \<open>
  Membership flags of a channel member, \<^verbatim>\<open>internal/state/channel.go\<close>: an 8-bit word with one bit for
  each of operator, voice and safe-channel creator, and the prefixes that \<^verbatim>\<open>NAMES\<close> and \<^verbatim>\<open>WHO\<close> show.
\<close>

type_synonym membership = "8 word"

definition MemberOp :: membership where
  "MemberOp = push_bit 0 1"

definition MemberVoice :: membership where
  "MemberVoice = push_bit 1 1"

definition MemberCreator :: membership where
  "MemberCreator = push_bit 2 1"

definition mem_is_op :: "membership \<Rightarrow> bool" where
  "mem_is_op m = (m AND MemberOp \<noteq> 0 \<or> m AND MemberCreator \<noteq> 0)"

definition mem_is_voice :: "membership \<Rightarrow> bool" where
  "mem_is_voice m = (m AND MemberVoice \<noteq> 0)"

definition mem_is_creator :: "membership \<Rightarrow> bool" where
  "mem_is_creator m = (m AND MemberCreator \<noteq> 0)"

definition mem_prefix :: "membership \<Rightarrow> string" where
  "mem_prefix m =
     (if mem_is_creator m then ''!'' else if mem_is_op m then ''@'' else if mem_is_voice m then ''+'' else '''')"

definition mem_multi_prefix :: "membership \<Rightarrow> string" where
  "mem_multi_prefix m =
     (if mem_is_creator m then ''!'' else '''') @ (if m AND MemberOp \<noteq> 0 then ''@'' else '''') @
     (if mem_is_voice m then ''+'' else '''')"

text \<open>The words behind \<^verbatim>\<open>cur | flags\<close> and \<^verbatim>\<open>cur &^ (flags &^ MemberCreator)\<close>.\<close>

definition mem_or :: "membership \<Rightarrow> membership \<Rightarrow> membership" where
  "mem_or cur flags = cur OR flags"

definition mem_clear :: "membership \<Rightarrow> membership \<Rightarrow> membership" where
  "mem_clear cur flags = cur AND NOT (flags AND NOT MemberCreator)"

lemma flag_bits: "MemberOp = 1" "MemberVoice = 2" "MemberCreator = 4"
  by (simp_all add: MemberOp_def MemberVoice_def MemberCreator_def)

lemma and_flag:
  "m AND MemberOp = 0 \<longleftrightarrow> \<not> bit m 0" "m AND MemberVoice = 0 \<longleftrightarrow> \<not> bit m 1"
  "m AND MemberCreator = 0 \<longleftrightarrow> \<not> bit m 2"
  by (simp_all only: MemberOp_def MemberVoice_def MemberCreator_def bit_iff_and_push_bit_not_eq_0 not_not)

lemma mem_bits:
  "mem_is_op m \<longleftrightarrow> bit m 0 \<or> bit m 2" "mem_is_voice m \<longleftrightarrow> bit m 1" "mem_is_creator m \<longleftrightarrow> bit m 2"
  by (simp_all only: mem_is_op_def mem_is_voice_def mem_is_creator_def and_flag not_not)

lemma flag_bit_iff:
  "bit MemberOp n \<longleftrightarrow> n = 0" "bit MemberVoice n \<longleftrightarrow> n = 1" "bit MemberCreator n \<longleftrightarrow> n = 2"
  by (auto simp: MemberOp_def MemberVoice_def MemberCreator_def bit_simps simp del: push_bit_of_1)

lemma mem_zero [simp]: "\<not> mem_is_op 0" "\<not> mem_is_voice 0" "\<not> mem_is_creator 0"
  by (simp_all add: mem_bits)

lemma mem_flags [simp]:
  "mem_is_op MemberOp" "mem_is_op MemberCreator" "\<not> mem_is_op MemberVoice"
  "mem_is_creator MemberCreator" "\<not> mem_is_creator MemberOp" "\<not> mem_is_creator MemberVoice"
  "mem_is_voice MemberVoice" "\<not> mem_is_voice MemberOp" "\<not> mem_is_voice MemberCreator"
  by (simp_all add: mem_bits flag_bit_iff)

lemma creator_is_op: "mem_is_creator m \<Longrightarrow> mem_is_op m"
  by (simp add: mem_bits)

lemma mem_or_op [simp]: "mem_is_op (mem_or m MemberOp)" "mem_is_voice (mem_or m MemberOp) = mem_is_voice m"
  by (simp_all add: mem_or_def mem_bits bit_simps flag_bit_iff)

lemma mem_or_voice [simp]: "mem_is_voice (mem_or m MemberVoice)" "mem_is_op (mem_or m MemberVoice) = mem_is_op m"
  by (simp_all add: mem_or_def mem_bits bit_simps flag_bit_iff)

lemma mem_or_creator: "mem_is_creator m \<Longrightarrow> mem_is_creator (mem_or m f)"
  by (simp add: mem_or_def mem_bits bit_simps)

lemma bit_mem_clear: "bit (mem_clear m f) n \<longleftrightarrow> bit m n \<and> (n = 2 \<or> \<not> bit f n)"
  by (auto simp: mem_clear_def bit_simps flag_bit_iff dest: bit_imp_le_length)

lemma mem_clear_creator [simp]: "mem_is_creator (mem_clear m f) = mem_is_creator m"
  by (simp add: mem_bits bit_mem_clear)

lemma mem_clear_op: "mem_is_op (mem_clear m MemberOp) = mem_is_creator m"
  by (simp add: mem_bits bit_mem_clear flag_bit_iff)

lemma mem_clear_voice: "\<not> mem_is_voice (mem_clear m MemberVoice)"
  "mem_is_op (mem_clear m MemberVoice) = mem_is_op m"
  by (simp_all add: mem_bits bit_mem_clear flag_bit_iff)

text \<open>
  The single prefix is the first of the prefixes a multi-prefix client sees, except for a flag word
  with no flag set, which shows none in either form.
\<close>

lemma prefix_is_head: "mem_prefix m = take 1 (mem_multi_prefix m)"
  by (auto simp: mem_prefix_def mem_multi_prefix_def mem_bits and_flag simp del: One_nat_def)

end
