(* ===== verification/Casemap.thy ===== *)
theory Casemap
  imports Prelude
begin

text \<open>
  Case folding of nicknames and channel names, \<^verbatim>\<open>internal/state/casemap.go\<close>. Every index of the
  world is keyed by a folded name; the locale \<open>name_fold\<close> is what those indexes rely on, and it is
  interpreted on \<open>Fold\<close> for both mappings.
\<close>

datatype case_mapping = CaseMappingRFC1459 | CaseMappingASCII

definition case_mapping_string :: "case_mapping \<Rightarrow> string" where
  "case_mapping_string m = (case m of CaseMappingASCII \<Rightarrow> ''ascii'' | _ \<Rightarrow> ''rfc1459'')"

definition fold_byte :: "case_mapping \<Rightarrow> char \<Rightarrow> char" where
  "fold_byte m c =
     (if CHR ''A'' \<le> c \<and> c \<le> CHR ''Z'' then char_of (of_char c + (32::nat))
      else if m = CaseMappingASCII then c
      else if c = CHR ''['' then CHR ''{''
      else if c = CHR '']'' then CHR ''}''
      else if c = CHR 0x5C then CHR ''|''
      else if c = CHR ''^'' then CHR ''~''
      else c)"

definition fold_name :: "case_mapping \<Rightarrow> string \<Rightarrow> string" where
  "fold_name m s = (if s = [] then s else map (fold_byte m) s)"

text \<open>\<^verbatim>\<open>Equal\<close> compares the lengths and then the folded bytes one by one.\<close>

fun equal_bytes :: "case_mapping \<Rightarrow> string \<Rightarrow> string \<Rightarrow> bool" where
  "equal_bytes m (x # xs) (y # ys) = (if fold_byte m x \<noteq> fold_byte m y then False else equal_bytes m xs ys)"
| "equal_bytes m _ _ = True"

definition equal_names :: "case_mapping \<Rightarrow> string \<Rightarrow> string \<Rightarrow> bool" where
  "equal_names m a b = (if length a \<noteq> length b then False else equal_bytes m a b)"

section \<open>The contract of a folding function\<close>

locale name_fold =
  fixes canon :: "string \<Rightarrow> string"
  assumes canon_idem: "canon (canon s) = canon s"
    and canon_length: "length (canon s) = length s"
    and canon_append: "canon (s @ t) = canon s @ canon t"
begin

lemma canon_Nil [simp]: "canon [] = []"
  using canon_length [of "[]"] by simp

lemma canon_Nil_iff [simp]: "canon s = [] \<longleftrightarrow> s = []"
  using canon_length [of s] by (metis length_0_conv)

lemma canon_eq_length: "canon s = canon t \<Longrightarrow> length s = length t"
  by (metis canon_length)

lemma canon_representative: "canon s = t \<Longrightarrow> canon t = t"
  using canon_idem by blast

end

lemma fold_byte_idem [simp]: "fold_byte m (fold_byte m c) = fold_byte m c"
proof -
  have "\<forall>c. fold_byte CaseMappingRFC1459 (fold_byte CaseMappingRFC1459 c) = fold_byte CaseMappingRFC1459 c"
    by code_simp
  moreover have "\<forall>c. fold_byte CaseMappingASCII (fold_byte CaseMappingASCII c) = fold_byte CaseMappingASCII c"
    by code_simp
  ultimately show ?thesis by (cases m) blast+
qed

lemma fold_name_map: "fold_name m s = map (fold_byte m) s"
  by (simp add: fold_name_def)

interpretation folding: name_fold "fold_name m" for m
  by unfold_locales (simp_all add: fold_name_map)

declare folding.canon_idem [simp] folding.canon_length [simp]

lemma equal_bytes_fold: "length a = length b \<Longrightarrow> equal_bytes m a b \<longleftrightarrow> fold_name m a = fold_name m b"
  by (induction m a b rule: equal_bytes.induct) (auto simp: fold_name_map)

text \<open>The first byte of a name survives folding when it is one of the channel prefixes.\<close>

lemma fold_byte_prefix_char:
  "x \<in> set ''#&+!'' \<Longrightarrow> fold_byte m c = x \<longleftrightarrow> c = x"
proof -
  have R: "\<forall>x \<in> set ''#&+!''. \<forall>c. (fold_byte CaseMappingRFC1459 c = x) = (c = x)" by code_simp
  have A: "\<forall>x \<in> set ''#&+!''. \<forall>c. (fold_byte CaseMappingASCII c = x) = (c = x)" by code_simp
  show "x \<in> set ''#&+!'' \<Longrightarrow> fold_byte m c = x \<longleftrightarrow> c = x"
    by (cases m) (use R A in blast)+
qed

lemma fold_name_hd: "s \<noteq> [] \<Longrightarrow> hd (fold_name m s) = fold_byte m (hd s)"
  by (cases s) (simp_all add: fold_name_map)

text \<open>
  \<open>Equal\<close> decides exactly the equality of the folded names, so a comparison with \<open>Equal\<close> and a
  lookup under a folded key never disagree, for either mapping.
\<close>

theorem equal_iff_fold: "equal_names m a b \<longleftrightarrow> fold_name m a = fold_name m b"
proof (cases "length a = length b")
  case True
  then show ?thesis by (simp add: equal_names_def equal_bytes_fold)
next
  case False
  then show ?thesis using folding.canon_eq_length [of m a b] by (auto simp: equal_names_def)
qed

text \<open>Names equal under the ASCII mapping are equal under the wider RFC 1459 mapping.\<close>

lemma fold_byte_refines: "fold_byte CaseMappingRFC1459 (fold_byte CaseMappingASCII c) = fold_byte CaseMappingRFC1459 c"
proof -
  have "\<forall>c. fold_byte CaseMappingRFC1459 (fold_byte CaseMappingASCII c) = fold_byte CaseMappingRFC1459 c"
    by code_simp
  then show ?thesis by blast
qed

lemma ascii_refines_rfc1459:
  "fold_name CaseMappingASCII a = fold_name CaseMappingASCII b \<Longrightarrow>
   fold_name CaseMappingRFC1459 a = fold_name CaseMappingRFC1459 b"
proof -
  assume "fold_name CaseMappingASCII a = fold_name CaseMappingASCII b"
  then have "map (fold_byte CaseMappingRFC1459) (fold_name CaseMappingASCII a) =
             map (fold_byte CaseMappingRFC1459) (fold_name CaseMappingASCII b)" by simp
  then show ?thesis by (simp add: fold_name_map fold_byte_refines comp_def)
qed

end
