(* ===== verification/Glob.thy ===== *)
theory Glob
  imports Casemap
begin

text \<open>
  The glob matcher behind bans, exceptions, quiets, operator host masks and \<^verbatim>\<open>WHO\<close> masks:
  \<^verbatim>\<open>globMatch\<close>, \<^verbatim>\<open>GlobMatchHost\<close> and \<^verbatim>\<open>HasGlobWildcard\<close> of \<^verbatim>\<open>internal/state/channel.go\<close>. The source's
  loop with its one backtrack point is \<open>glob_loop\<close>; \<open>glob_spec\<close> is the reference semantics of a
  glob. The loop is sound for it, and complete for every subject without an asterisk.
\<close>

text \<open>
  The loop state is \<^verbatim>\<open>pi\<close>, \<^verbatim>\<open>si\<close> and the pair \<^verbatim>\<open>starP\<close>, \<^verbatim>\<open>starS\<close>, which is \<^const>\<open>None\<close> while
  \<^verbatim>\<open>starP\<close> is \<^verbatim>\<open>-1\<close>. The three cases of the source's \<^verbatim>\<open>switch\<close> are tried in its order.
\<close>

fun skip_stars :: "string \<Rightarrow> string" where
  "skip_stars [] = []"
| "skip_stars (c # p) = (if c = CHR ''*'' then skip_stars p else c # p)"

function glob_loop :: "string \<Rightarrow> string \<Rightarrow> nat \<Rightarrow> nat \<Rightarrow> (nat \<times> nat) option \<Rightarrow> bool" where
  "glob_loop p s pi si star =
     (if si < length s then
        (if pi < length p \<and> (p ! pi = s ! si \<or> p ! pi = CHR ''?'') then
           glob_loop p s (Suc pi) (Suc si) star
         else if pi < length p \<and> p ! pi = CHR ''*'' then
           glob_loop p s (Suc pi) si (Some (pi, si))
         else (case star of
             Some (sp, ss) \<Rightarrow> glob_loop p s (Suc sp) (Suc ss) (Some (sp, Suc ss))
           | None \<Rightarrow> False))
      else skip_stars (drop pi p) = [])"
  by pat_completeness auto
termination
  by (relation "measures
        [\<lambda>(p, s, pi, si, star). max (length p - pi) (case star of None \<Rightarrow> 0 | Some (sp, ss) \<Rightarrow> length p - Suc sp),
         \<lambda>(p, s, pi, si, star). (case star of None \<Rightarrow> 0 | Some (sp, ss) \<Rightarrow> length s - ss),
         \<lambda>(p, s, pi, si, star). length s - si]")
    (auto split: option.splits)

declare glob_loop.simps [simp del]

definition glob_match :: "string \<Rightarrow> string \<Rightarrow> bool" where
  "glob_match pattern s = glob_loop pattern s 0 0 None"

definition glob_match_host :: "string \<Rightarrow> string \<Rightarrow> bool" where
  "glob_match_host pattern s = glob_match (to_lower pattern) (to_lower s)"

fun has_glob_wildcard :: "string \<Rightarrow> bool" where
  "has_glob_wildcard [] = False"
| "has_glob_wildcard (c # s) = (if c = CHR ''*'' \<or> c = CHR ''?'' then True else has_glob_wildcard s)"

section \<open>The reference semantics\<close>

text \<open>An asterisk stands for any run of bytes, a question mark for one byte.\<close>

fun glob_spec :: "string \<Rightarrow> string \<Rightarrow> bool" where
  "glob_spec [] s = (s = [])"
| "glob_spec (c # p) s =
     (if c = CHR ''*'' then (\<exists>k \<le> length s. glob_spec p (drop k s))
      else (case s of [] \<Rightarrow> False | x # s' \<Rightarrow> (c = CHR ''?'' \<or> c = x) \<and> glob_spec p s'))"

lemma spec_star_drop: "glob_spec (CHR ''*'' # p) (drop k s) \<Longrightarrow> j \<le> k \<Longrightarrow> k \<le> length s \<Longrightarrow>
  glob_spec (CHR ''*'' # p) (drop j s)"
proof -
  assume a: "glob_spec (CHR ''*'' # p) (drop k s)" and jk: "j \<le> k" "k \<le> length s"
  from a obtain i where i: "i \<le> length s - k" "glob_spec p (drop i (drop k s))" by auto
  have "drop (k - j + i) (drop j s) = drop i (drop k s)" using jk by (simp add: add.commute)
  with i jk show ?thesis by (auto intro!: exI [of _ "k - j + i"])
qed

lemma spec_prefix:
  assumes "glob_spec (mid @ p) s" "CHR ''*'' \<notin> set mid"
  shows "length mid \<le> length s \<and> glob_spec p (drop (length mid) s)"
  using assms by (induction mid arbitrary: s) (auto split: list.splits)

lemma spec_empty: "glob_spec p [] \<longleftrightarrow> skip_stars p = []"
  by (induction p) auto

text \<open>What the loop still has to decide, read off its state.\<close>

definition glob_goal :: "string \<Rightarrow> string \<Rightarrow> nat \<Rightarrow> nat \<Rightarrow> (nat \<times> nat) option \<Rightarrow> bool" where
  "glob_goal p s pi si star =
     (glob_spec (drop pi p) (drop si s) \<or>
      (case star of None \<Rightarrow> False
       | Some (sp, ss) \<Rightarrow> \<exists>k. ss < k \<and> k \<le> length s \<and> glob_spec (drop (Suc sp) p) (drop k s)))"

text \<open>
  The backtrack point: the pattern between it and \<^verbatim>\<open>pi\<close> has no asterisk and has matched, byte for
  byte, the subject between it and \<^verbatim>\<open>si\<close>.
\<close>

definition glob_inv :: "string \<Rightarrow> string \<Rightarrow> nat \<Rightarrow> nat \<Rightarrow> (nat \<times> nat) option \<Rightarrow> bool" where
  "glob_inv p s pi si star =
     (pi \<le> length p \<and> si \<le> length s \<and>
      (case star of None \<Rightarrow> True
       | Some (sp, ss) \<Rightarrow> sp < pi \<and> p ! sp = CHR ''*'' \<and> ss \<le> si \<and> pi - Suc sp = si - ss \<and>
           CHR ''*'' \<notin> set (take (pi - Suc sp) (drop (Suc sp) p))))"

lemma drop_step: "i < length xs \<Longrightarrow> drop i xs = xs ! i # drop (Suc i) xs"
  by (simp add: Cons_nth_drop_Suc)

lemma mid_split:
  assumes "sp < pi" "pi \<le> length p"
  shows "drop (Suc sp) p = take (pi - Suc sp) (drop (Suc sp) p) @ drop pi p"
  using assms by (metis (no_types, lifting) append_take_drop_id drop_drop le_add_diff_inverse2 Suc_leI)

lemma mid_length:
  assumes "sp < pi" "pi \<le> length p"
  shows "length (take (pi - Suc sp) (drop (Suc sp) p)) = pi - Suc sp"
  using assms by simp

lemma take_Suc_drop:
  assumes "sp < pi" "pi < length p"
  shows "take (Suc pi - Suc sp) (drop (Suc sp) p) = take (pi - Suc sp) (drop (Suc sp) p) @ [p ! pi]"
proof -
  have "take (Suc (pi - Suc sp)) (drop (Suc sp) p) =
        take (pi - Suc sp) (drop (Suc sp) p) @ [drop (Suc sp) p ! (pi - Suc sp)]"
    using assms by (intro take_Suc_conv_app_nth) simp
  with assms show ?thesis by (simp add: Suc_diff_Suc)
qed

text \<open>The four ways a round of the loop goes.\<close>

lemma loop_cases:
  obtains (fin) "\<not> si < length s"
    | (lit) "si < length s" "pi < length p" "p ! pi = s ! si \<or> p ! pi = CHR ''?''"
    | (star) "si < length s" "pi < length p" "\<not> (p ! pi = s ! si \<or> p ! pi = CHR ''?'')" "p ! pi = CHR ''*''"
    | (retry) "si < length s" "\<not> (pi < length p \<and> (p ! pi = s ! si \<or> p ! pi = CHR ''?''))"
        "\<not> (pi < length p \<and> p ! pi = CHR ''*'')"
  by blast

text \<open>Soundness: a match the loop reports is one.\<close>

lemma glob_loop_sound:
  "glob_loop p s pi si star \<Longrightarrow> (\<And>sp ss. star = Some (sp, ss) \<Longrightarrow> ss \<le> si) \<Longrightarrow> si \<le> length s \<Longrightarrow>
   glob_goal p s pi si star"
proof (induction p s pi si star rule: glob_loop.induct)
  case (1 p s pi si star)
  note step = glob_loop.simps [of p s pi si star]
  show ?case
  proof (cases rule: loop_cases [where si = si and s = s and pi = pi and p = p])
    case fin
    with "1.prems" step show ?thesis by (simp add: glob_goal_def spec_empty)
  next
    case lit
    with "1.prems" step have "glob_loop p s (Suc pi) (Suc si) star" by simp
    with "1.IH"(1) lit "1.prems" have "glob_goal p s (Suc pi) (Suc si) star" by fastforce
    moreover have "glob_spec (drop (Suc pi) p) (drop (Suc si) s) \<Longrightarrow> glob_spec (drop pi p) (drop si s)"
      using lit by (auto simp: drop_step intro!: exI [of _ 1])
    ultimately show ?thesis by (auto simp: glob_goal_def)
  next
    case star
    with "1.prems" step have "glob_loop p s (Suc pi) si (Some (pi, si))" by simp
    with "1.IH"(2) star "1.prems" have "glob_goal p s (Suc pi) si (Some (pi, si))" by simp
    then have "\<exists>k. si \<le> k \<and> k \<le> length s \<and> glob_spec (drop (Suc pi) p) (drop k s)"
      using star(1) by (auto simp: glob_goal_def intro: less_imp_le)
    then obtain k where k: "si \<le> k" "k \<le> length s" "glob_spec (drop (Suc pi) p) (drop k s)"
      by blast
    then have "glob_spec (drop pi p) (drop si s)"
      using star by (auto simp: drop_step [of pi p] intro!: exI [of _ "k - si"])
    then show ?thesis by (simp add: glob_goal_def)
  next
    case retry
    with "1.prems" step obtain sp ss where st: "star = Some (sp, ss)"
      and l: "glob_loop p s (Suc sp) (Suc ss) (Some (sp, Suc ss))"
      by (auto split: option.splits)
    with "1.prems" retry have "ss \<le> si" by simp
    with retry "1.IH"(3) [OF _ _ _ st refl] l st have "glob_goal p s (Suc sp) (Suc ss) (Some (sp, Suc ss))"
      by simp
    then have "\<exists>k. ss < k \<and> k \<le> length s \<and> glob_spec (drop (Suc sp) p) (drop k s)"
      using \<open>ss \<le> si\<close> retry(1) unfolding glob_goal_def by (auto intro: Suc_lessD exI [of _ "Suc ss"])
    with st show ?thesis by (auto simp: glob_goal_def)
  qed
qed

text \<open>
  A match that starts later than the backtrack point must begin with the bytes the pattern has matched since, so it leaves a
  match of the rest of the pattern just as much later than \<^verbatim>\<open>si\<close>.
\<close>

lemma later_match:
  assumes "glob_inv p s pi si (Some (sp, ss))" "k \<le> length s" "glob_spec (drop (Suc sp) p) (drop k s)"
  shows "k + (si - ss) \<le> length s \<and> glob_spec (drop pi p) (drop (k + (si - ss)) s)"
proof -
  let ?mid = "take (pi - Suc sp) (drop (Suc sp) p)"
  have iv: "sp < pi" "pi \<le> length p" "pi - Suc sp = si - ss" "CHR ''*'' \<notin> set ?mid"
    using assms(1) by (auto simp: glob_inv_def)
  have "drop (Suc sp) p = ?mid @ drop pi p" using iv(1,2) by (rule mid_split)
  with assms(3) iv(4) have "length ?mid \<le> length (drop k s)" "glob_spec (drop pi p) (drop (length ?mid) (drop k s))"
    using spec_prefix by metis+
  moreover have "length ?mid = si - ss" using mid_length [OF iv(1,2)] iv(3) by simp
  ultimately show ?thesis using assms(2) by (simp add: add.commute)
qed

lemma goal_cases:
  assumes "glob_goal p s pi si star" "\<not> glob_spec (drop pi p) (drop si s)"
  obtains sp ss k where "star = Some (sp, ss)" "ss < k" "k \<le> length s" "glob_spec (drop (Suc sp) p) (drop k s)"
  using assms by (auto simp: glob_goal_def split: option.splits)

lemma goal_at_end:
  assumes "glob_goal p s pi (length s) star" "glob_inv p s pi (length s) star"
  shows "glob_spec (drop pi p) []"
proof (rule ccontr)
  assume "\<not> glob_spec (drop pi p) []"
  with assms(1) obtain sp ss k where st: "star = Some (sp, ss)" "ss < k" "k \<le> length s" "glob_spec (drop (Suc sp) p) (drop k s)"
    by (auto elim: goal_cases)
  moreover have "ss \<le> length s" using assms(2) st(1) by (simp add: glob_inv_def)
  ultimately show False using later_match [of p s pi "length s" sp ss k] assms(2) by auto
qed

lemma goal_at_star:
  assumes "glob_goal p s pi si star" "glob_inv p s pi si star" "pi < length p" "p ! pi = CHR ''*''"
  shows "glob_spec (drop pi p) (drop si s)"
proof (rule ccontr)
  assume no: "\<not> glob_spec (drop pi p) (drop si s)"
  with assms(1) obtain sp ss k where st: "star = Some (sp, ss)" "ss < k" "k \<le> length s" "glob_spec (drop (Suc sp) p) (drop k s)"
    by (rule goal_cases)
  have "k + (si - ss) \<le> length s" "glob_spec (drop pi p) (drop (k + (si - ss)) s)"
    using later_match [of p s pi si sp ss k] assms(2) st by simp_all
  moreover have "drop pi p = CHR ''*'' # drop (Suc pi) p" using assms(3,4) by (simp add: drop_step)
  moreover have "si \<le> k + (si - ss)" using st(2) by simp
  ultimately show False using no by (metis spec_star_drop)
qed

lemma inv_literal:
  assumes "glob_inv p s pi si star" "si < length s" "pi < length p" "p ! pi \<noteq> CHR ''*''"
  shows "glob_inv p s (Suc pi) (Suc si) star"
proof (cases star)
  case (Some x)
  obtain sp ss where st: "star = Some (sp, ss)" using Some by (cases x) auto
  have iv: "sp < pi" "p ! sp = CHR ''*''" "ss \<le> si" "pi - Suc sp = si - ss"
    "CHR ''*'' \<notin> set (take (pi - Suc sp) (drop (Suc sp) p))"
    using assms(1) st by (auto simp: glob_inv_def)
  have "CHR ''*'' \<notin> set (take (Suc pi - Suc sp) (drop (Suc sp) p))"
    unfolding take_Suc_drop [OF iv(1) assms(3)] using iv(5) assms(4) by simp
  moreover have "Suc pi - Suc sp = Suc si - ss" using iv by arith
  ultimately show ?thesis using st iv assms(2,3) by (simp add: glob_inv_def)
qed (use assms in \<open>simp add: glob_inv_def\<close>)

text \<open>Completeness, for a subject without an asterisk: the loop finds every match.\<close>

lemma glob_loop_complete:
  "glob_goal p s pi si star \<Longrightarrow> glob_inv p s pi si star \<Longrightarrow> CHR ''*'' \<notin> set s \<Longrightarrow> glob_loop p s pi si star"
proof (induction p s pi si star rule: glob_loop.induct)
  case (1 p s pi si star)
  note step = glob_loop.simps [of p s pi si star]
  have bounds: "pi \<le> length p" "si \<le> length s" using "1.prems"(2) by (auto simp: glob_inv_def)
  have ns: "si < length s \<Longrightarrow> s ! si \<noteq> CHR ''*''" using "1.prems"(3) by (metis nth_mem)
  show ?case
  proof (cases rule: loop_cases [where si = si and s = s and pi = pi and p = p])
    case fin
    then have "si = length s" using bounds by simp
    with goal_at_end [of p s pi star] "1.prems"(1,2) glob_loop.simps [of p s pi "length s" star] show ?thesis
      by (simp add: spec_empty)
  next
    case lit
    have c: "p ! pi \<noteq> CHR ''*''" using lit ns by auto
    have "glob_goal p s (Suc pi) (Suc si) star" using "1.prems"(1) lit c by (auto simp: glob_goal_def drop_step)
    with inv_literal [OF "1.prems"(2) lit(1,2) c] have "glob_loop p s (Suc pi) (Suc si) star"
      using "1.IH"(1) lit "1.prems"(3) by simp
    with lit show ?thesis by (simp add: step)
  next
    case star
    have "glob_spec (drop pi p) (drop si s)" using goal_at_star "1.prems"(1,2) star(2,4) by blast
    then obtain i where i: "i \<le> length s - si" "glob_spec (drop (Suc pi) p) (drop (si + i) s)"
      using star by (auto simp: drop_step [of pi p] add.commute)
    then have "glob_goal p s (Suc pi) si (Some (pi, si))"
      using star(1) by (cases i) (auto simp: glob_goal_def intro!: exI [of _ "si + i"])
    moreover have "glob_inv p s (Suc pi) si (Some (pi, si))" using star by (simp add: glob_inv_def)
    ultimately have "glob_loop p s (Suc pi) si (Some (pi, si))" using "1.IH"(2) star "1.prems"(3) by simp
    with star show ?thesis by (simp add: step)
  next
    case retry
    have "\<not> glob_spec (drop pi p) (drop si s)" using retry by (cases "pi < length p") (auto simp: drop_step)
    with "1.prems"(1) obtain sp ss k where st: "star = Some (sp, ss)" and k: "ss < k" "k \<le> length s" "glob_spec (drop (Suc sp) p) (drop k s)"
      by (rule goal_cases)
    have "glob_goal p s (Suc sp) (Suc ss) (Some (sp, Suc ss))"
      using k by (cases "k = Suc ss") (auto simp: glob_goal_def)
    moreover have "glob_inv p s (Suc sp) (Suc ss) (Some (sp, Suc ss))"
      using "1.prems"(2) st bounds retry(1) by (simp add: glob_inv_def)
    ultimately have "glob_loop p s (Suc sp) (Suc ss) (Some (sp, Suc ss))" using "1.IH"(3) [OF _ _ _ st refl] retry "1.prems"(3) by simp
    moreover have "glob_loop p s pi si star = glob_loop p s (Suc sp) (Suc ss) (Some (sp, Suc ss))"
      unfolding step using retry st by auto
    ultimately show ?thesis by simp
  qed
qed

lemma glob_match_sound: "glob_match p s \<Longrightarrow> glob_spec p s"
  using glob_loop_sound [of p s 0 0 None] by (simp add: glob_match_def glob_goal_def)

lemma glob_match_complete: "glob_spec p s \<Longrightarrow> CHR ''*'' \<notin> set s \<Longrightarrow> glob_match p s"
  using glob_loop_complete [of p s 0 0 None] by (simp add: glob_match_def glob_goal_def glob_inv_def)

text \<open>
  C37: The matcher never reports a match that is not one, whatever the subject, and it decides the glob
  exactly when the subject contains no asterisk.
\<close>

theorem glob_match_iff_spec:
  "(glob_match p s \<longrightarrow> glob_spec p s) \<and> (CHR ''*'' \<notin> set s \<longrightarrow> glob_match p s = glob_spec p s)"
  using glob_match_sound glob_match_complete by blast

lemma glob_match_iff_spec_witness:
  "CHR ''*'' \<notin> set ''mal!ice@bad.example'' \<and>
   glob_match ''*!*ice@bad.*'' ''mal!ice@bad.example'' \<and> glob_spec ''*!*ice@bad.*'' ''mal!ice@bad.example''"
proof -
  have a: "CHR ''*'' \<notin> set ''mal!ice@bad.example''" by code_simp
  have b: "glob_match ''*!*ice@bad.*'' ''mal!ice@bad.example''" by code_simp
  show ?thesis using a b glob_match_iff_spec [of "''*!*ice@bad.*''" "''mal!ice@bad.example''"] by simp
qed

text \<open>The matcher is incomplete on a subject with an asterisk: its literal case comes before its wildcard
  case, so an asterisk of the pattern that meets an asterisk of the subject is spent on that one byte and
  no backtrack point is kept.
\<close>

theorem glob_match_misses_literal_star:
  "glob_spec ''*!*@bad.example'' ''mal!*x@bad.example'' \<and> \<not> glob_match ''*!*@bad.example'' ''mal!*x@bad.example''"
proof
  show "glob_spec ''*!*@bad.example'' ''mal!*x@bad.example''" by code_simp
  show "\<not> glob_match ''*!*@bad.example'' ''mal!*x@bad.example''" by code_simp
qed

text \<open>A pattern without wildcards is compared literally, the fast path \<open>HasGlobWildcard\<close> guards.\<close>

lemma spec_no_wildcard: "\<not> has_glob_wildcard p \<Longrightarrow> glob_spec p s \<longleftrightarrow> p = s"
  by (induction p arbitrary: s) (auto split: if_splits list.splits)

lemma has_glob_wildcard_iff: "has_glob_wildcard p \<longleftrightarrow> CHR ''*'' \<in> set p \<or> CHR ''?'' \<in> set p"
  by (induction p) auto

lemma literal_match: "\<not> has_glob_wildcard p \<Longrightarrow> glob_match p s \<longleftrightarrow> p = s"
  by (metis glob_match_sound glob_match_complete spec_no_wildcard has_glob_wildcard_iff)

lemma glob_match_refl: "CHR ''*'' \<notin> set s \<Longrightarrow> glob_match s s"
proof -
  have "glob_spec s s" if "CHR ''*'' \<notin> set s" for s using that by (induction s) auto
  then show "CHR ''*'' \<notin> set s \<Longrightarrow> glob_match s s" using glob_match_complete by blast
qed

end
