(* ===== verification/Channel.thy ===== *)
theory Channel
  imports Membership Glob
begin

text \<open>
  One channel, \<^verbatim>\<open>internal/state/channel.go\<close>: its record, membership, boolean and parameter modes, the
  four mask lists, pending invites, the mode word and the restore of persisted state. A method of the
  source that takes the channel's mutex is one function here; a method that mutates returns the new
  channel with the source's result. The four mask lists meet one contract, the locale \<open>mask_list\<close>.

  Times are nanoseconds since the Unix epoch; \<open>zero_time\<close> is Go's zero \<^verbatim>\<open>time.Time\<close>.
\<close>

type_synonym uid = nat
type_synonym time = int

definition zero_time :: time where
  "zero_time = - 62135596800000000000"

definition unix_seconds :: "time \<Rightarrow> int" where
  "unix_seconds t = t div 1000000000"

record channel_modes =
  m_inviteOnly :: bool
  m_moderated :: bool
  m_noExternal :: bool
  m_private :: bool
  m_secret :: bool
  m_topicLocked :: bool
  m_anonymous :: bool
  m_serverReop :: bool

definition no_modes :: channel_modes where
  "no_modes = \<lparr>m_inviteOnly = False, m_moderated = False, m_noExternal = False, m_private = False,
     m_secret = False, m_topicLocked = False, m_anonymous = False, m_serverReop = False\<rparr>"

record channel =
  ch_name :: string
  ch_createdAt :: time
  ch_topic :: string
  ch_topicSetBy :: string
  ch_topicSetAt :: time
  ch_key :: string
  ch_limit :: int
  ch_modes :: channel_modes
  ch_members :: "(uid, membership) gomap"
  ch_bans :: "(string, time) gomap"
  ch_exceptions :: "(string, time) gomap"
  ch_invexes :: "(string, time) gomap"
  ch_quiets :: "(string, time) gomap"
  ch_invites :: "(uid, unit) gomap"

definition new_channel :: "string \<Rightarrow> time \<Rightarrow> channel" where
  "new_channel name now =
     \<lparr>ch_name = name, ch_createdAt = now, ch_topic = [], ch_topicSetBy = [], ch_topicSetAt = zero_time,
      ch_key = [], ch_limit = 0, ch_modes = no_modes\<lparr>m_noExternal := True, m_topicLocked := True\<rparr>,
      ch_members = [], ch_bans = [], ch_exceptions = [], ch_invexes = [], ch_quiets = [], ch_invites = []\<rparr>"

section \<open>Timestamp, topic\<close>

definition channel_TS :: "channel \<Rightarrow> int" where
  "channel_TS c = ch_createdAt c"

definition adopt_older_TS :: "int \<Rightarrow> channel \<Rightarrow> channel \<times> bool" where
  "adopt_older_TS ts c =
     (if ts \<le> 0 then (c, False)
      else if ts \<ge> ch_createdAt c then (c, False)
      else (c\<lparr>ch_createdAt := ts\<rparr>, True))"

definition reset_membership_flags :: "channel \<Rightarrow> channel" where
  "reset_membership_flags c = c\<lparr>ch_members := map (\<lambda>(i, m). (i, 0)) (ch_members c)\<rparr>"

definition set_topic :: "string \<Rightarrow> string \<Rightarrow> time \<Rightarrow> channel \<Rightarrow> channel" where
  "set_topic text setBy at c = c\<lparr>ch_topic := text, ch_topicSetBy := setBy, ch_topicSetAt := at\<rparr>"

section \<open>Members\<close>

definition member_count :: "channel \<Rightarrow> nat" where
  "member_count c = length (ch_members c)"

definition is_member :: "uid \<Rightarrow> channel \<Rightarrow> bool" where
  "is_member uid c = mhas (ch_members c) uid"

text \<open>Reading a missing key of a Go map gives the zero value.\<close>

definition membership_of :: "uid \<Rightarrow> channel \<Rightarrow> membership" where
  "membership_of uid c = (case map_of (ch_members c) uid of None \<Rightarrow> 0 | Some m \<Rightarrow> m)"

definition member_ids :: "channel \<Rightarrow> uid list" where
  "member_ids c = map fst (ch_members c)"

definition add_member :: "uid \<Rightarrow> bool \<Rightarrow> channel \<Rightarrow> channel \<times> membership \<times> bool" where
  "add_member uid isFirst c =
     (case map_of (ch_members c) uid of
        Some existing \<Rightarrow> (c, existing, False)
      | None \<Rightarrow>
          let m = (if isFirst \<and> ch_name c \<noteq> [] then
                     (if hd (ch_name c) = CHR ''+'' then 0
                      else if hd (ch_name c) = CHR ''!'' then MemberCreator
                      else MemberOp)
                   else 0)
          in (c\<lparr>ch_members := mput uid m (ch_members c)\<rparr>, m, True))"

definition remove_member :: "uid \<Rightarrow> channel \<Rightarrow> channel \<times> bool" where
  "remove_member uid c =
     (if \<not> mhas (ch_members c) uid then (c, False)
      else (c\<lparr>ch_members := mdel uid (ch_members c)\<rparr>, True))"

definition set_membership :: "uid \<Rightarrow> membership \<Rightarrow> channel \<Rightarrow> channel \<times> bool" where
  "set_membership uid m c =
     (if \<not> mhas (ch_members c) uid then (c, False)
      else (c\<lparr>ch_members := mput uid m (ch_members c)\<rparr>, True))"

definition add_membership :: "uid \<Rightarrow> membership \<Rightarrow> channel \<Rightarrow> channel \<times> membership \<times> bool" where
  "add_membership uid flags c =
     (case map_of (ch_members c) uid of
        None \<Rightarrow> (c, 0, False)
      | Some cur \<Rightarrow> (c\<lparr>ch_members := mput uid (mem_or cur flags) (ch_members c)\<rparr>, mem_or cur flags, True))"

definition remove_membership :: "uid \<Rightarrow> membership \<Rightarrow> channel \<Rightarrow> channel \<times> membership \<times> bool" where
  "remove_membership uid flags c =
     (case map_of (ch_members c) uid of
        None \<Rightarrow> (c, 0, False)
      | Some cur \<Rightarrow> (c\<lparr>ch_members := mput uid (mem_clear cur flags) (ch_members c)\<rparr>, mem_clear cur flags, True))"

definition sorted_member_ids :: "channel \<Rightarrow> uid list" where
  "sorted_member_ids c = sort (member_ids c)"

section \<open>Boolean modes, key, limit\<close>

text \<open>
  \<^verbatim>\<open>boolModePtr\<close> returns a pointer to the flag of a mode byte or nil; here it is the flag's value, and
  \<open>put_bool_mode\<close> writes through it.
\<close>

definition bool_mode_ptr :: "char \<Rightarrow> channel_modes \<Rightarrow> bool option" where
  "bool_mode_ptr mode ms =
     (if mode = CHR ''i'' then Some (m_inviteOnly ms)
      else if mode = CHR ''m'' then Some (m_moderated ms)
      else if mode = CHR ''n'' then Some (m_noExternal ms)
      else if mode = CHR ''p'' then Some (m_private ms)
      else if mode = CHR ''s'' then Some (m_secret ms)
      else if mode = CHR ''t'' then Some (m_topicLocked ms)
      else if mode = CHR ''a'' then Some (m_anonymous ms)
      else if mode = CHR ''r'' then Some (m_serverReop ms)
      else None)"

definition put_bool_mode :: "char \<Rightarrow> bool \<Rightarrow> channel_modes \<Rightarrow> channel_modes" where
  "put_bool_mode mode on ms =
     (if mode = CHR ''i'' then ms\<lparr>m_inviteOnly := on\<rparr>
      else if mode = CHR ''m'' then ms\<lparr>m_moderated := on\<rparr>
      else if mode = CHR ''n'' then ms\<lparr>m_noExternal := on\<rparr>
      else if mode = CHR ''p'' then ms\<lparr>m_private := on\<rparr>
      else if mode = CHR ''s'' then ms\<lparr>m_secret := on\<rparr>
      else if mode = CHR ''t'' then ms\<lparr>m_topicLocked := on\<rparr>
      else if mode = CHR ''a'' then ms\<lparr>m_anonymous := on\<rparr>
      else if mode = CHR ''r'' then ms\<lparr>m_serverReop := on\<rparr>
      else ms)"

definition set_bool_mode :: "char \<Rightarrow> bool \<Rightarrow> channel \<Rightarrow> channel \<times> bool" where
  "set_bool_mode mode on c =
     (case bool_mode_ptr mode (ch_modes c) of
        None \<Rightarrow> (c, False)
      | Some v \<Rightarrow> if v = on then (c, False)
                  else (c\<lparr>ch_modes := put_bool_mode mode on (ch_modes c)\<rparr>, True))"

definition set_key :: "string \<Rightarrow> channel \<Rightarrow> channel \<times> bool" where
  "set_key k c = (if ch_key c = k then (c, False) else (c\<lparr>ch_key := k\<rparr>, True))"

definition set_limit :: "int \<Rightarrow> channel \<Rightarrow> channel \<times> bool" where
  "set_limit n c =
     (let l = (if n < 0 then 0 else n)
      in if ch_limit c = l then (c, False) else (c\<lparr>ch_limit := l\<rparr>, True))"

section \<open>Mask lists\<close>

definition matches_any :: "(string, time) gomap \<Rightarrow> string \<Rightarrow> (string \<Rightarrow> string) \<Rightarrow> bool" where
  "matches_any masks hostmask foldf =
     (let folded = foldf hostmask in list_ex (\<lambda>(msk, _). glob_match (foldf msk) folded) masks)"

definition add_ban :: "string \<Rightarrow> time \<Rightarrow> channel \<Rightarrow> channel \<times> bool" where
  "add_ban msk at c = (if mhas (ch_bans c) msk then (c, False)
     else (c\<lparr>ch_bans := mput msk at (ch_bans c)\<rparr>, True))"

definition remove_ban :: "string \<Rightarrow> channel \<Rightarrow> channel \<times> bool" where
  "remove_ban msk c = (if \<not> mhas (ch_bans c) msk then (c, False)
     else (c\<lparr>ch_bans := mdel msk (ch_bans c)\<rparr>, True))"

definition matches_ban :: "string \<Rightarrow> (string \<Rightarrow> string) \<Rightarrow> channel \<Rightarrow> bool" where
  "matches_ban hostmask foldf c = matches_any (ch_bans c) hostmask foldf"

definition add_exception :: "string \<Rightarrow> time \<Rightarrow> channel \<Rightarrow> channel \<times> bool" where
  "add_exception msk at c = (if mhas (ch_exceptions c) msk then (c, False)
     else (c\<lparr>ch_exceptions := mput msk at (ch_exceptions c)\<rparr>, True))"

definition remove_exception :: "string \<Rightarrow> channel \<Rightarrow> channel \<times> bool" where
  "remove_exception msk c = (if \<not> mhas (ch_exceptions c) msk then (c, False)
     else (c\<lparr>ch_exceptions := mdel msk (ch_exceptions c)\<rparr>, True))"

definition matches_exception :: "string \<Rightarrow> (string \<Rightarrow> string) \<Rightarrow> channel \<Rightarrow> bool" where
  "matches_exception hostmask foldf c = matches_any (ch_exceptions c) hostmask foldf"

definition add_invex :: "string \<Rightarrow> time \<Rightarrow> channel \<Rightarrow> channel \<times> bool" where
  "add_invex msk at c = (if mhas (ch_invexes c) msk then (c, False)
     else (c\<lparr>ch_invexes := mput msk at (ch_invexes c)\<rparr>, True))"

definition remove_invex :: "string \<Rightarrow> channel \<Rightarrow> channel \<times> bool" where
  "remove_invex msk c = (if \<not> mhas (ch_invexes c) msk then (c, False)
     else (c\<lparr>ch_invexes := mdel msk (ch_invexes c)\<rparr>, True))"

definition matches_invex :: "string \<Rightarrow> (string \<Rightarrow> string) \<Rightarrow> channel \<Rightarrow> bool" where
  "matches_invex hostmask foldf c = matches_any (ch_invexes c) hostmask foldf"

definition add_quiet :: "string \<Rightarrow> time \<Rightarrow> channel \<Rightarrow> channel \<times> bool" where
  "add_quiet msk at c = (if mhas (ch_quiets c) msk then (c, False)
     else (c\<lparr>ch_quiets := mput msk at (ch_quiets c)\<rparr>, True))"

definition remove_quiet :: "string \<Rightarrow> channel \<Rightarrow> channel \<times> bool" where
  "remove_quiet msk c = (if \<not> mhas (ch_quiets c) msk then (c, False)
     else (c\<lparr>ch_quiets := mdel msk (ch_quiets c)\<rparr>, True))"

definition matches_quiet :: "string \<Rightarrow> (string \<Rightarrow> string) \<Rightarrow> channel \<Rightarrow> bool" where
  "matches_quiet hostmask foldf c = matches_any (ch_quiets c) hostmask foldf"

definition add_invite :: "uid \<Rightarrow> channel \<Rightarrow> channel \<times> bool" where
  "add_invite uid c = (if mhas (ch_invites c) uid then (c, False)
     else (c\<lparr>ch_invites := mput uid () (ch_invites c)\<rparr>, True))"

definition consume_invite :: "uid \<Rightarrow> channel \<Rightarrow> channel \<times> bool" where
  "consume_invite uid c = (if \<not> mhas (ch_invites c) uid then (c, False)
     else (c\<lparr>ch_invites := mdel uid (ch_invites c)\<rparr>, True))"

section \<open>The mode word and the restore of persisted state\<close>

definition mode_string :: "channel \<Rightarrow> string \<times> string list" where
  "mode_string c =
     (let ms = ch_modes c in
      (''+'' @ (if m_noExternal ms then ''n'' else '''') @ (if m_topicLocked ms then ''t'' else '''') @
        (if m_moderated ms then ''m'' else '''') @ (if m_inviteOnly ms then ''i'' else '''') @
        (if m_private ms then ''p'' else '''') @ (if m_secret ms then ''s'' else '''') @
        (if m_anonymous ms then ''a'' else '''') @ (if m_serverReop ms then ''r'' else '''') @
        (if ch_key c \<noteq> [] then ''k'' else '''') @ (if ch_limit c > 0 then ''l'' else ''''),
       (if ch_key c \<noteq> [] then [ch_key c] else []) @
        (if ch_limit c > 0 then [itoa_nat (nat (ch_limit c))] else [])))"

fun restore_modes :: "string \<Rightarrow> channel_modes \<Rightarrow> channel_modes" where
  "restore_modes [] ms = ms"
| "restore_modes (x # w) ms =
     restore_modes w
       (if x = CHR ''+'' then ms
        else if x = CHR ''i'' then ms\<lparr>m_inviteOnly := True\<rparr>
        else if x = CHR ''m'' then ms\<lparr>m_moderated := True\<rparr>
        else if x = CHR ''n'' then ms\<lparr>m_noExternal := True\<rparr>
        else if x = CHR ''p'' then ms\<lparr>m_private := True\<rparr>
        else if x = CHR ''s'' then ms\<lparr>m_secret := True\<rparr>
        else if x = CHR ''t'' then ms\<lparr>m_topicLocked := True\<rparr>
        else if x = CHR ''a'' then ms\<lparr>m_anonymous := True\<rparr>
        else if x = CHR ''r'' then ms\<lparr>m_serverReop := True\<rparr>
        else ms)"

definition restore_state ::
  "string \<Rightarrow> string \<Rightarrow> time \<Rightarrow> string \<Rightarrow> string \<Rightarrow> int \<Rightarrow> (string, time) gomap \<Rightarrow> (string, time) gomap \<Rightarrow>
   (string, time) gomap \<Rightarrow> (string, time) gomap \<Rightarrow> channel \<Rightarrow> channel" where
  "restore_state topic topicSetBy topicSetAt modeWord key limit bans exceptions invexes quiets c =
     c\<lparr>ch_topic := topic, ch_topicSetBy := topicSetBy, ch_topicSetAt := topicSetAt, ch_key := key,
       ch_limit := limit, ch_modes := restore_modes modeWord no_modes,
       ch_bans := fold (\<lambda>(k, v). mput k v) bans [],
       ch_exceptions := fold (\<lambda>(k, v). mput k v) exceptions [],
       ch_invexes := fold (\<lambda>(k, v). mput k v) invexes [],
       ch_quiets := fold (\<lambda>(k, v). mput k v) quiets []\<rparr>"

section \<open>The contract of a mask list\<close>

text \<open>
  What the mode handler, the join policy and the speak policy rely on in each of the four lists: an add
  or a remove reports whether it changed the list, and a host matches the list when it matches one mask.
\<close>

lemma matches_any_iff: "matches_any ms h f \<longleftrightarrow> (\<exists>m. mhas ms m \<and> glob_match (f m) (f h))"
  by (force simp: matches_any_def Let_def list_ex_iff mhas_iff)

locale mask_list =
  fixes masks :: "channel \<Rightarrow> (string, time) gomap"
    and add :: "string \<Rightarrow> time \<Rightarrow> channel \<Rightarrow> channel \<times> bool"
    and remove :: "string \<Rightarrow> channel \<Rightarrow> channel \<times> bool"
    and matches :: "string \<Rightarrow> (string \<Rightarrow> string) \<Rightarrow> channel \<Rightarrow> bool"
  assumes add_new: "\<not> mhas (masks c) m \<Longrightarrow> snd (add m t c) \<and> masks (fst (add m t c)) = mput m t (masks c)"
    and add_old: "mhas (masks c) m \<Longrightarrow> add m t c = (c, False)"
    and remove_old: "mhas (masks c) m \<Longrightarrow> snd (remove m c) \<and> masks (fst (remove m c)) = mdel m (masks c)"
    and remove_new: "\<not> mhas (masks c) m \<Longrightarrow> remove m c = (c, False)"
    and matches_iff: "matches h f c \<longleftrightarrow> (\<exists>m. mhas (masks c) m \<and> glob_match (f m) (f h))"
    and add_members: "ch_members (fst (add m t c)) = ch_members c"
    and remove_members: "ch_members (fst (remove m c)) = ch_members c"
begin

lemma has_add [simp]: "mhas (masks (fst (add m t c))) m' \<longleftrightarrow> m' = m \<or> mhas (masks c) m'"
  by (cases "mhas (masks c) m") (auto simp: add_new add_old)

lemma has_remove [simp]: "mhas (masks (fst (remove m c))) m' \<longleftrightarrow> m' \<noteq> m \<and> mhas (masks c) m'"
  by (cases "mhas (masks c) m") (auto simp: remove_old remove_new)

lemma changed_add: "snd (add m t c) \<longleftrightarrow> \<not> mhas (masks c) m"
  by (cases "mhas (masks c) m") (auto simp: add_new add_old)

lemma changed_remove: "snd (remove m c) \<longleftrightarrow> mhas (masks c) m"
  by (cases "mhas (masks c) m") (auto simp: remove_old remove_new)

lemma add_again: "add m t' (fst (add m t c)) = (fst (add m t c), False)"
  by (simp add: add_old)

lemma remove_add: "\<not> mhas (masks c) m \<Longrightarrow> map_of (masks (fst (remove m (fst (add m t c))))) = map_of (masks c)"
  by (auto simp: remove_old add_new fun_eq_iff mhas_def)

lemma wf_add: "wf_map (masks c) \<Longrightarrow> wf_map (masks (fst (add m t c)))"
  by (cases "mhas (masks c) m") (simp_all add: add_new add_old)

lemma wf_remove: "wf_map (masks c) \<Longrightarrow> wf_map (masks (fst (remove m c)))"
  by (cases "mhas (masks c) m") (simp_all add: remove_old remove_new)

lemma matches_add: "matches h f (fst (add m t c)) \<longleftrightarrow> glob_match (f m) (f h) \<or> matches h f c"
  by (auto simp: matches_iff)

lemma matches_remove: "matches h f (fst (remove m c)) \<longleftrightarrow> (\<exists>m'. m' \<noteq> m \<and> mhas (masks c) m' \<and> glob_match (f m') (f h))"
  by (auto simp: matches_iff)

end

lemmas mask_list_defs =
  add_ban_def remove_ban_def matches_ban_def add_exception_def remove_exception_def matches_exception_def
  add_invex_def remove_invex_def matches_invex_def add_quiet_def remove_quiet_def matches_quiet_def

interpretation bans: mask_list ch_bans add_ban remove_ban matches_ban
  by unfold_locales (simp_all add: mask_list_defs matches_any_iff)

interpretation exceptions: mask_list ch_exceptions add_exception remove_exception matches_exception
  by unfold_locales (simp_all add: mask_list_defs matches_any_iff)

interpretation invexes: mask_list ch_invexes add_invex remove_invex matches_invex
  by unfold_locales (simp_all add: mask_list_defs matches_any_iff)

interpretation quiets: mask_list ch_quiets add_quiet remove_quiet matches_quiet
  by unfold_locales (simp_all add: mask_list_defs matches_any_iff)

section \<open>Well-formed channels\<close>

text \<open>Every map of a channel has distinct keys; the invariant every operation keeps.\<close>

definition wf_channel :: "channel \<Rightarrow> bool" where
  "wf_channel c =
     (wf_map (ch_members c) \<and> wf_map (ch_bans c) \<and> wf_map (ch_exceptions c) \<and> wf_map (ch_invexes c) \<and>
      wf_map (ch_quiets c) \<and> wf_map (ch_invites c))"

lemma wf_new_channel [invs]: "wf_channel (new_channel n t)"
  by (simp add: wf_channel_def new_channel_def)

lemma wf_map_zeroed: "wf_map (map (\<lambda>(i, m). (i, z)) xs) = wf_map xs"
  by (simp add: wf_map_def comp_def case_prod_unfold)

lemma wf_map_foldput: "wf_map acc \<Longrightarrow> wf_map (fold (\<lambda>(k, v). mput k v) xs acc)"
  by (induction xs arbitrary: acc) auto

lemma wf_adopt [invs]: "wf_channel c \<Longrightarrow> wf_channel (fst (adopt_older_TS ts c))"
  by (simp add: wf_channel_def adopt_older_TS_def)

lemma wf_reset [invs]: "wf_channel c \<Longrightarrow> wf_channel (reset_membership_flags c)"
  by (simp add: wf_channel_def reset_membership_flags_def wf_map_zeroed)

lemma wf_set_topic [invs]: "wf_channel c \<Longrightarrow> wf_channel (set_topic x y z c)"
  by (simp add: wf_channel_def set_topic_def)

lemma wf_add_member [invs]: "wf_channel c \<Longrightarrow> wf_channel (fst (add_member u b c))"
  by (simp add: wf_channel_def add_member_def Let_def split: option.split)

lemma wf_remove_member [invs]: "wf_channel c \<Longrightarrow> wf_channel (fst (remove_member u c))"
  by (simp add: wf_channel_def remove_member_def)

lemma wf_set_membership [invs]: "wf_channel c \<Longrightarrow> wf_channel (fst (set_membership u m c))"
  by (simp add: wf_channel_def set_membership_def)

lemma wf_add_membership [invs]: "wf_channel c \<Longrightarrow> wf_channel (fst (add_membership u f c))"
  by (simp add: wf_channel_def add_membership_def split: option.split)

lemma wf_remove_membership [invs]: "wf_channel c \<Longrightarrow> wf_channel (fst (remove_membership u f c))"
  by (simp add: wf_channel_def remove_membership_def split: option.split)

lemma wf_set_bool_mode [invs]: "wf_channel c \<Longrightarrow> wf_channel (fst (set_bool_mode x b c))"
  by (simp add: wf_channel_def set_bool_mode_def split: option.split)

lemma wf_set_key [invs]: "wf_channel c \<Longrightarrow> wf_channel (fst (set_key k c))"
  by (simp add: wf_channel_def set_key_def)

lemma wf_set_limit [invs]: "wf_channel c \<Longrightarrow> wf_channel (fst (set_limit n c))"
  by (simp add: wf_channel_def set_limit_def Let_def)

lemma wf_mask_ops [invs]:
  assumes "wf_channel c"
  shows "wf_channel (fst (add_ban m t c))" "wf_channel (fst (remove_ban m c))"
    "wf_channel (fst (add_exception m t c))" "wf_channel (fst (remove_exception m c))"
    "wf_channel (fst (add_invex m t c))" "wf_channel (fst (remove_invex m c))"
    "wf_channel (fst (add_quiet m t c))" "wf_channel (fst (remove_quiet m c))"
  using assms by (simp_all add: wf_channel_def mask_list_defs)

lemma wf_invite_ops [invs]:
  assumes "wf_channel c"
  shows "wf_channel (fst (add_invite u c))" "wf_channel (fst (consume_invite u c))"
  using assms by (simp_all add: wf_channel_def add_invite_def consume_invite_def)

lemma wf_restore [invs]: "wf_channel c \<Longrightarrow> wf_channel (restore_state a b d e k l bs es is qs c)"
  by (simp add: wf_channel_def restore_state_def wf_map_foldput)

section \<open>Membership after each operation\<close>

lemma is_member_add [simp]: "is_member v (fst (add_member u b c)) \<longleftrightarrow> v = u \<or> is_member v c"
  by (auto simp: is_member_def add_member_def Let_def mhas_def split: option.split)

lemma is_member_remove [simp]: "is_member v (fst (remove_member u c)) \<longleftrightarrow> v \<noteq> u \<and> is_member v c"
  by (auto simp: is_member_def remove_member_def mhas_def)

lemma is_member_new [simp]: "\<not> is_member v (new_channel n t)"
  by (simp add: is_member_def new_channel_def)

lemma remove_member_frames [simp, frames]:
  "ch_name (fst (remove_member u c)) = ch_name c" "ch_modes (fst (remove_member u c)) = ch_modes c"
  by (simp_all add: remove_member_def)

lemma membership_remove_member [simp]: "v \<noteq> u \<Longrightarrow> membership_of v (fst (remove_member u c)) = membership_of v c"
  by (simp add: membership_of_def remove_member_def)

lemma membership_add_other: "v \<noteq> u \<Longrightarrow> membership_of v (fst (add_member u b c)) = membership_of v c"
  by (simp add: membership_of_def add_member_def Let_def split: option.split)

lemma add_member_result:
  "fst (snd (add_member u b c)) = membership_of u (fst (add_member u b c))"
  "snd (snd (add_member u b c)) = (\<not> is_member u c)"
  by (auto simp: add_member_def membership_of_def is_member_def mhas_def Let_def split: option.split)

lemma member_ids_iff: "u \<in> set (member_ids c) \<longleftrightarrow> is_member u c"
  by (simp add: member_ids_def is_member_def mhas_iff)

lemma distinct_member_ids: "wf_channel c \<Longrightarrow> distinct (member_ids c)"
  by (simp add: wf_channel_def wf_map_def member_ids_def)

lemma member_count_0: "member_count c = 0 \<longleftrightarrow> (\<forall>u. \<not> is_member u c)"
  by (cases "ch_members c") (auto simp: member_count_def is_member_def mhas_def)

lemma is_member_frames [simp, frames]:
  "is_member u (fst (adopt_older_TS ts c)) = is_member u c"
  "is_member u (reset_membership_flags c) = is_member u c"
  "is_member u (set_topic x y z c) = is_member u c"
  "is_member u (fst (set_bool_mode md b c)) = is_member u c"
  "is_member u (fst (set_key k c)) = is_member u c"
  "is_member u (fst (set_limit n c)) = is_member u c"
  "is_member u (fst (add_membership v f c)) = is_member u c"
  "is_member u (fst (remove_membership v f c)) = is_member u c"
  "is_member u (fst (set_membership v m c)) = is_member u c"
  "is_member u (fst (add_invite v c)) = is_member u c"
  "is_member u (fst (consume_invite v c)) = is_member u c"
  "is_member u (restore_state a b' d e k l bs es is qs c) = is_member u c"
proof -
  show "is_member u (reset_membership_flags c) = is_member u c"
    by (force simp: is_member_def reset_membership_flags_def mhas_iff)
qed (auto simp: is_member_def adopt_older_TS_def set_topic_def set_bool_mode_def set_key_def set_limit_def Let_def
      add_membership_def remove_membership_def set_membership_def add_invite_def consume_invite_def
      restore_state_def mhas_def split: option.split)

lemma is_member_masks [simp, frames]:
  "is_member u (fst (add_ban m t c)) = is_member u c" "is_member u (fst (remove_ban m c)) = is_member u c"
  "is_member u (fst (add_exception m t c)) = is_member u c" "is_member u (fst (remove_exception m c)) = is_member u c"
  "is_member u (fst (add_invex m t c)) = is_member u c" "is_member u (fst (remove_invex m c)) = is_member u c"
  "is_member u (fst (add_quiet m t c)) = is_member u c" "is_member u (fst (remove_quiet m c)) = is_member u c"
  by (simp_all add: is_member_def mask_list_defs)

lemma creator_survives_remove_membership [simp]:
  "mem_is_creator (membership_of u (fst (remove_membership v f c))) = mem_is_creator (membership_of u c)"
  by (auto simp: membership_of_def remove_membership_def split: option.split)

text \<open>A member's flags after a grant or a revocation.\<close>

lemma membership_of_grant:
  "is_member v c \<Longrightarrow> membership_of u (fst (add_membership v f c)) =
     (if u = v then mem_or (membership_of v c) f else membership_of u c)"
  by (auto simp: membership_of_def add_membership_def is_member_def mhas_def)

lemma membership_of_revoke:
  "is_member v c \<Longrightarrow> membership_of u (fst (remove_membership v f c)) =
     (if u = v then mem_clear (membership_of v c) f else membership_of u c)"
  by (auto simp: membership_of_def remove_membership_def is_member_def mhas_def)

lemma reset_membership: "membership_of u (reset_membership_flags c) = 0"
proof -
  have "map_of (map (\<lambda>(i, m). (i, 0)) xs) u = (case map_of xs u of None \<Rightarrow> None | Some _ \<Rightarrow> Some (0::membership))" for xs :: "(uid, membership) gomap"
    by (induction xs) auto
  then show ?thesis by (simp add: membership_of_def reset_membership_flags_def split: option.split)
qed

section \<open>Boolean modes\<close>

lemma bool_mode_ptr_put:
  "bool_mode_ptr x ms \<noteq> None \<Longrightarrow>
   bool_mode_ptr y (put_bool_mode x on ms) = (if y = x then Some on else bool_mode_ptr y ms)"
  unfolding bool_mode_ptr_def put_bool_mode_def by (auto split: if_splits)

lemma set_bool_mode_value:
  "bool_mode_ptr x (ch_modes c) \<noteq> None \<Longrightarrow> bool_mode_ptr x (ch_modes (fst (set_bool_mode x on c))) = Some on"
  by (auto simp: set_bool_mode_def bool_mode_ptr_put split: option.split)

lemma set_bool_mode_changed:
  "snd (set_bool_mode x on c) \<longleftrightarrow> bool_mode_ptr x (ch_modes c) = Some (\<not> on)"
  by (auto simp: set_bool_mode_def split: option.split)

section \<open>What persists\<close>

text \<open>
  The mode word of a channel, read back by \<open>restore_state\<close>, gives the same boolean modes: the key and
  limit letters are skipped and those values come from their own columns.
\<close>

lemma restore_modes_append: "restore_modes (v @ w) ms = restore_modes w (restore_modes v ms)"
  by (induction v arbitrary: ms) auto

lemma restore_mode_word: "restore_modes (fst (mode_string c)) no_modes = ch_modes c"
  by (cases "ch_modes c") (simp add: mode_string_def Let_def restore_modes_append no_modes_def)

lemma fold_put_map_of: "map_of (fold (\<lambda>(k, v). mput k v) xs acc) k =
   (case map_of (rev xs) k of None \<Rightarrow> map_of acc k | Some v \<Rightarrow> Some v)"
  by (induction xs arbitrary: acc) (auto simp: map_add_def split: option.split)

lemma fold_put_same: "wf_map xs \<Longrightarrow> map_of (fold (\<lambda>(k, v). mput k v) xs []) = map_of xs"
proof
  fix k
  assume wf: "wf_map xs"
  then have "map_of (rev xs) = map_of xs"
    by (intro map_of_inject_set [THEN iffD2]) (simp_all add: wf_map_def rev_map [symmetric])
  then show "map_of (fold (\<lambda>(k, v). mput k v) xs []) k = map_of xs k"
    by (simp add: fold_put_map_of split: option.split)
qed

end
