(* ===== verification/World.thy ===== *)
theory World
  imports Channel
begin

text \<open>
  The users and channels of one node, \<^verbatim>\<open>internal/state/user.go\<close> and \<^verbatim>\<open>internal/state/world.go\<close>.

  \<^item> A \<^verbatim>\<open>*User\<close> is its ID: \<^verbatim>\<open>AddUser\<close> gives every object it admits a fresh one. \<open>w_store\<close> holds the
    objects, also those no index points to any more, since a connection keeps its pointer;
    \<open>w_byID\<close> and \<open>w_byNick\<close> are the two indexes.
  \<^item> A \<^verbatim>\<open>*Channel\<close> is its folded name, the key it has in \<open>w_byChannel\<close>; \<open>upd_channel\<close> is a method
    call on the pointer.
  \<^item> \<^verbatim>\<open>nextUserID\<close> is an unbounded counter; 2 to the power of 64 admissions are out of reach of a process.
  \<^item> An operation of the source holds the world's mutex, and is one function here.

  The nick indexes meet the contract \<open>nick_directory\<close>, on which registration, \<^verbatim>\<open>NICK\<close> and federation
  rely.
\<close>

record user =
  u_ID :: uid
  u_Nick :: string
  u_User :: string
  u_Host :: string
  u_Realname :: string
  u_Modes :: string
  u_Registered :: bool
  u_ConnectAt :: time
  u_HomeServer :: string
  u_TS :: int
  u_Away :: string
  u_Account :: string
  u_Service :: bool
  u_ServiceType :: string
  u_ServiceDistribution :: string

definition zero_user :: user where
  "zero_user = \<lparr>u_ID = 0, u_Nick = [], u_User = [], u_Host = [], u_Realname = [], u_Modes = [],
     u_Registered = False, u_ConnectAt = zero_time, u_HomeServer = [], u_TS = 0, u_Away = [],
     u_Account = [], u_Service = False, u_ServiceType = [], u_ServiceDistribution = []\<rparr>"

definition is_remote :: "user \<Rightarrow> bool" where
  "is_remote u = (u_HomeServer u \<noteq> [])"

definition hostmask :: "user \<Rightarrow> string" where
  "hostmask u =
     (let usr = (if u_User u = [] then u_Nick u else u_User u);
          host = (if u_Host u = [] then ''unknown'' else u_Host u)
      in u_Nick u @ ''!'' @ usr @ ''@'' @ host)"

datatype state_error = ErrNickInUse | ErrNoSuchUser | ErrNoSuchChannel | ErrEmptyNick

record world =
  w_mapping :: case_mapping
  w_store :: "uid \<Rightarrow> user"
  w_byNick :: "(string, uid) gomap"
  w_byID :: "(uid, unit) gomap"
  w_byChannel :: "(string, channel) gomap"
  w_nextID :: nat

definition new_world :: "case_mapping \<Rightarrow> world" where
  "new_world m = \<lparr>w_mapping = m, w_store = (\<lambda>_. zero_user), w_byNick = [], w_byID = [],
     w_byChannel = [], w_nextID = 0\<rparr>"

abbreviation wfold :: "world \<Rightarrow> string \<Rightarrow> string" where
  "wfold w \<equiv> fold_name (w_mapping w)"

section \<open>Users\<close>

definition user_count :: "world \<Rightarrow> nat" where
  "user_count w = length (w_byID w)"

definition find_by_nick :: "string \<Rightarrow> world \<Rightarrow> uid option" where
  "find_by_nick nick w = (if nick = [] then None else map_of (w_byNick w) (wfold w nick))"

definition find_by_id :: "uid \<Rightarrow> world \<Rightarrow> uid option" where
  "find_by_id uid w = (if mhas (w_byID w) uid then Some uid else None)"

definition add_user :: "user \<Rightarrow> time \<Rightarrow> world \<Rightarrow> world \<times> (state_error + uid)" where
  "add_user u now w =
     (if u_Nick u = [] then (w, Inl ErrEmptyNick)
      else let key = wfold w (u_Nick u) in
        if mhas (w_byNick w) key then (w, Inl ErrNickInUse)
        else let uid = Suc (w_nextID w);
                 u' = u\<lparr>u_ID := uid, u_ConnectAt := (if u_ConnectAt u = zero_time then now else u_ConnectAt u)\<rparr>
             in (w\<lparr>w_nextID := uid, w_store := (w_store w)(uid := u'),
                   w_byNick := mput key uid (w_byNick w), w_byID := mput uid () (w_byID w)\<rparr>, Inr uid))"

definition remove_user :: "uid \<Rightarrow> world \<Rightarrow> world \<times> bool" where
  "remove_user uid w =
     (if \<not> mhas (w_byID w) uid then (w, False)
      else (w\<lparr>w_byID := mdel uid (w_byID w),
              w_byNick := mdel (wfold w (u_Nick (w_store w uid))) (w_byNick w)\<rparr>, True))"

definition upd_user :: "uid \<Rightarrow> (user \<Rightarrow> user) \<Rightarrow> world \<Rightarrow> world" where
  "upd_user uid f w = w\<lparr>w_store := (w_store w)(uid := f (w_store w uid))\<rparr>"

definition rename_user :: "uid \<Rightarrow> string \<Rightarrow> world \<Rightarrow> world \<times> state_error option" where
  "rename_user uid newNick w =
     (if newNick = [] then (w, Some ErrEmptyNick)
      else if \<not> mhas (w_byID w) uid then (w, Some ErrNoSuchUser)
      else let oldKey = wfold w (u_Nick (w_store w uid)); newKey = wfold w newNick in
        if oldKey = newKey then (upd_user uid (\<lambda>u. u\<lparr>u_Nick := newNick\<rparr>) w, None)
        else if mhas (w_byNick w) newKey then (w, Some ErrNickInUse)
        else (upd_user uid (\<lambda>u. u\<lparr>u_Nick := newNick\<rparr>) w
                \<lparr>w_byNick := mput newKey uid (mdel oldKey (w_byNick w))\<rparr>, None))"

definition snapshot :: "world \<Rightarrow> user list" where
  "snapshot w = map (w_store w \<circ> fst) (w_byID w)"

section \<open>Channels\<close>

definition find_channel :: "string \<Rightarrow> world \<Rightarrow> channel option" where
  "find_channel name w = (if name = [] then None else map_of (w_byChannel w) (wfold w name))"

definition upd_channel :: "string \<Rightarrow> (channel \<Rightarrow> channel) \<Rightarrow> world \<Rightarrow> world" where
  "upd_channel name f w =
     (case map_of (w_byChannel w) (wfold w name) of
        None \<Rightarrow> w
      | Some ch \<Rightarrow> w\<lparr>w_byChannel := mput (wfold w name) (f ch) (w_byChannel w)\<rparr>)"

definition ensure_channel :: "string \<Rightarrow> time \<Rightarrow> world \<Rightarrow> world \<times> channel \<times> bool" where
  "ensure_channel name now w =
     (let key = wfold w name in
      case map_of (w_byChannel w) key of
        Some ch \<Rightarrow> (w, ch, False)
      | None \<Rightarrow> let ch = new_channel name now
                in (w\<lparr>w_byChannel := mput key ch (w_byChannel w)\<rparr>, ch, True))"

definition is_safe_name :: "string \<Rightarrow> bool" where
  "is_safe_name name = (name \<noteq> [] \<and> hd name = CHR ''!'')"

record join_result =
  jr_channel :: channel
  jr_mem :: membership
  jr_added :: bool

definition join_channel :: "uid \<Rightarrow> string \<Rightarrow> time \<Rightarrow> world \<Rightarrow> world \<times> (state_error + join_result)" where
  "join_channel uid name now w =
     (if find_by_id uid w = None then (w, Inl ErrNoSuchUser)
      else let (w1, ch, created) = ensure_channel name now w;
               resurrected = (\<not> created \<and> member_count ch = 0 \<and> is_safe_name name \<and> m_serverReop (ch_modes ch));
               (ch1, mem, added) = add_member uid created ch;
               (ch2, mem2) = (if added \<and> resurrected \<and> \<not> mem_is_op mem
                              then (case add_membership uid MemberOp ch1 of (c, m, _) \<Rightarrow> (c, m))
                              else (ch1, mem))
           in (upd_channel name (\<lambda>_. ch2) w1, Inr \<lparr>jr_channel = ch2, jr_mem = mem2, jr_added = added\<rparr>))"

definition drop_channel :: "string \<Rightarrow> world \<Rightarrow> world" where
  "drop_channel name w = w\<lparr>w_byChannel := mdel (wfold w name) (w_byChannel w)\<rparr>"

definition part_channel :: "uid \<Rightarrow> string \<Rightarrow> world \<Rightarrow> world \<times> (state_error + bool)" where
  "part_channel uid name w =
     (case find_channel name w of
        None \<Rightarrow> (w, Inl ErrNoSuchChannel)
      | Some ch \<Rightarrow>
          (case remove_member uid ch of
             (_, False) \<Rightarrow> (w, Inl ErrNoSuchUser)
           | (ch1, True) \<Rightarrow>
               let w1 = upd_channel name (\<lambda>_. ch1) w in
               if member_count ch1 = 0 then
                 (if is_safe_name name \<and> m_serverReop (ch_modes ch1) then (w1, Inr False)
                  else (drop_channel name w1, Inr True))
               else (w1, Inr False)))"

definition channel_count :: "world \<Rightarrow> nat" where
  "channel_count w = length (w_byChannel w)"

definition channels_snapshot :: "world \<Rightarrow> channel list" where
  "channels_snapshot w = map snd (w_byChannel w)"

definition user_channels :: "uid \<Rightarrow> world \<Rightarrow> channel list" where
  "user_channels uid w = filter (is_member uid) (map snd (w_byChannel w))"

section \<open>Well-formed worlds\<close>

text \<open>
  The two user indexes describe the same set of users: every key of \<open>w_byNick\<close> is the folded nickname
  of the user it names, and every user of \<open>w_byID\<close> is found under its folded nickname. A channel sits
  under its folded name.
\<close>

definition index_ok :: "(string, uid) gomap \<Rightarrow> (uid, unit) gomap \<Rightarrow> (uid \<Rightarrow> string) \<Rightarrow> bool" where
  "index_ok bn bi key =
     (wf_map bn \<and> wf_map bi \<and>
      (\<forall>k uid. map_of bn k = Some uid \<longrightarrow> mhas bi uid \<and> key uid = k) \<and>
      (\<forall>uid. mhas bi uid \<longrightarrow> map_of bn (key uid) = Some uid))"

definition wf_users :: "world \<Rightarrow> bool" where
  "wf_users w =
     (index_ok (w_byNick w) (w_byID w) (\<lambda>uid. wfold w (u_Nick (w_store w uid))) \<and>
      (\<forall>uid. mhas (w_byID w) uid \<longrightarrow>
         u_ID (w_store w uid) = uid \<and> uid \<le> w_nextID w \<and> u_Nick (w_store w uid) \<noteq> []))"

definition wf_channels :: "world \<Rightarrow> bool" where
  "wf_channels w =
     (wf_map (w_byChannel w) \<and>
      (\<forall>k ch. map_of (w_byChannel w) k = Some ch \<longrightarrow> k = wfold w (ch_name ch) \<and> wf_channel ch))"

definition wf_world :: "world \<Rightarrow> bool" where
  "wf_world w = (wf_users w \<and> wf_channels w)"

lemma wf_new_world [invs]: "wf_world (new_world m)"
  by (simp add: wf_world_def wf_users_def wf_channels_def new_world_def index_ok_def)

lemma mapping_frames [simp, frames]:
  "w_mapping (fst (add_user u t w)) = w_mapping w" "w_mapping (fst (remove_user v w)) = w_mapping w"
  "w_mapping (fst (rename_user v n w)) = w_mapping w" "w_mapping (upd_user v f w) = w_mapping w"
  "w_mapping (upd_channel c g w) = w_mapping w" "w_mapping (drop_channel c w) = w_mapping w"
  "w_mapping (fst (ensure_channel c t w)) = w_mapping w"
  by (simp_all add: add_user_def remove_user_def rename_user_def upd_user_def upd_channel_def
      drop_channel_def ensure_channel_def Let_def split: option.split)

lemma channel_frames [simp, frames]:
  "w_byChannel (fst (add_user u t w)) = w_byChannel w" "w_byChannel (fst (remove_user v w)) = w_byChannel w"
  "w_byChannel (fst (rename_user v n w)) = w_byChannel w" "w_byChannel (upd_user v f w) = w_byChannel w"
  by (simp_all add: add_user_def remove_user_def rename_user_def upd_user_def Let_def)

lemma user_frames [simp, frames]:
  "w_byNick (upd_channel c g w) = w_byNick w" "w_byID (upd_channel c g w) = w_byID w"
  "w_store (upd_channel c g w) = w_store w" "w_nextID (upd_channel c g w) = w_nextID w"
  "w_byNick (drop_channel c w) = w_byNick w" "w_byID (drop_channel c w) = w_byID w"
  "w_store (drop_channel c w) = w_store w" "w_nextID (drop_channel c w) = w_nextID w"
  "w_byNick (fst (ensure_channel c t w)) = w_byNick w" "w_byID (fst (ensure_channel c t w)) = w_byID w"
  "w_store (fst (ensure_channel c t w)) = w_store w" "w_nextID (fst (ensure_channel c t w)) = w_nextID w"
  by (simp_all add: upd_channel_def drop_channel_def ensure_channel_def Let_def split: option.split)

lemma wf_users_cong:
  "w_mapping w' = w_mapping w \<Longrightarrow> w_byNick w' = w_byNick w \<Longrightarrow> w_byID w' = w_byID w \<Longrightarrow>
   w_store w' = w_store w \<Longrightarrow> w_nextID w' = w_nextID w \<Longrightarrow> wf_users w' = wf_users w"
  by (simp add: wf_users_def)

lemma wf_channels_cong:
  "w_mapping w' = w_mapping w \<Longrightarrow> w_byChannel w' = w_byChannel w \<Longrightarrow> wf_channels w' = wf_channels w"
  by (simp add: wf_channels_def)

text \<open>Reading the invariant.\<close>

lemma index_okD:
  assumes "index_ok bn bi key"
  shows "wf_map bn" "wf_map bi" "map_of bn k = Some uid \<Longrightarrow> mhas bi uid \<and> key uid = k"
    "mhas bi uid \<Longrightarrow> map_of bn (key uid) = Some uid"
  using assms unfolding index_ok_def by blast+

lemma index_okI:
  "wf_map bn \<Longrightarrow> wf_map bi \<Longrightarrow> (\<And>k uid. map_of bn k = Some uid \<Longrightarrow> mhas bi uid \<and> key uid = k) \<Longrightarrow>
   (\<And>uid. mhas bi uid \<Longrightarrow> map_of bn (key uid) = Some uid) \<Longrightarrow> index_ok bn bi key"
  unfolding index_ok_def by blast

lemma index_ok_inj: "index_ok bn bi key \<Longrightarrow> mhas bi a \<Longrightarrow> mhas bi b \<Longrightarrow> key a = key b \<Longrightarrow> a = b"
  by (metis index_okD(4) option.inject)

lemma index_ok_cong:
  assumes ok: "index_ok bn bi key" and eq: "\<And>v. mhas bi v \<Longrightarrow> key' v = key v"
  shows "index_ok bn bi key'"
proof (rule index_okI)
  show "mhas bi v \<and> key' v = k" if "map_of bn k = Some v" for k v
    using index_okD(3) [OF ok that] eq by auto
  show "map_of bn (key' v) = Some v" if "mhas bi v" for v
    using index_okD(4) [OF ok that] eq [OF that] by simp
qed (use index_okD(1,2) [OF ok] in blast)+

lemma index_ok_insert:
  assumes ok: "index_ok bn bi key" and free: "map_of bn k = None" and fresh: "\<not> mhas bi u"
    and key': "key' u = k" "\<And>v. v \<noteq> u \<Longrightarrow> key' v = key v"
  shows "index_ok (mput k u bn) (mput u () bi) key'"
proof -
  have "mhas (mput u () bi) v \<and> key' v = j" if "map_of (mput k u bn) j = Some v" for j v
  proof (cases "j = k")
    case True
    with that key'(1) show ?thesis by simp
  next
    case False
    with that index_okD(3) [OF ok, of j v] have "mhas bi v" "key v = j" by simp_all
    with fresh key'(2) [of v] show ?thesis by auto
  qed
  moreover have "map_of (mput k u bn) (key' v) = Some v" if "mhas (mput u () bi) v" for v
  proof (cases "v = u")
    case True
    with key'(1) show ?thesis by simp
  next
    case False
    with that have "map_of bn (key v) = Some v" using index_okD(4) [OF ok] by simp
    moreover from this free have "key v \<noteq> k" by auto
    ultimately show ?thesis using False key'(2) by simp
  qed
  ultimately show ?thesis using index_okD(1,2) [OF ok] by (intro index_okI wf_map_put wf_map_del) blast+
qed

lemma index_ok_remove:
  assumes ok: "index_ok bn bi key" and u: "mhas bi u"
  shows "index_ok (mdel (key u) bn) (mdel u bi) key"
proof -
  have "mhas (mdel u bi) v \<and> key v = j" if "map_of (mdel (key u) bn) j = Some v" for j v
    using that index_okD(3) [OF ok, of j v] by (auto split: if_splits)
  moreover have "map_of (mdel (key u) bn) (key v) = Some v" if "mhas (mdel u bi) v" for v
  proof -
    from that have v: "v \<noteq> u" "mhas bi v" by simp_all
    with index_ok_inj [OF ok v(2) u] have "key v \<noteq> key u" by blast
    with v index_okD(4) [OF ok] show ?thesis by simp
  qed
  ultimately show ?thesis using index_okD(1,2) [OF ok] by (intro index_okI wf_map_put wf_map_del) blast+
qed

lemma index_ok_rename:
  assumes ok: "index_ok bn bi key" and u: "mhas bi u" and free: "map_of bn k = None"
    and key': "key' u = k" "\<And>v. v \<noteq> u \<Longrightarrow> key' v = key v"
  shows "index_ok (mput k u (mdel (key u) bn)) bi key'"
proof -
  have "mhas bi v \<and> key' v = j" if "map_of (mput k u (mdel (key u) bn)) j = Some v" for j v
  proof (cases "j = k")
    case True
    with that key'(1) u show ?thesis by simp
  next
    case False
    with that have j: "j \<noteq> key u" "map_of bn j = Some v" by (auto split: if_splits)
    with index_okD(3) [OF ok j(2)] have "mhas bi v" "key v = j" by simp_all
    with j(1) key'(2) [of v] show ?thesis by auto
  qed
  moreover have "map_of (mput k u (mdel (key u) bn)) (key' v) = Some v" if v: "mhas bi v" for v
  proof (cases "v = u")
    case True
    with key'(1) show ?thesis by simp
  next
    case False
    with index_ok_inj [OF ok v u] have "key v \<noteq> key u" by blast
    moreover have m: "map_of bn (key v) = Some v" using index_okD(4) [OF ok v] .
    moreover from m free have "key v \<noteq> k" by auto
    ultimately show ?thesis using False key'(2) by simp
  qed
  ultimately show ?thesis using index_okD(1,2) [OF ok] by (intro index_okI wf_map_put wf_map_del) blast+
qed

lemma wf_users_index: "wf_users w \<Longrightarrow> index_ok (w_byNick w) (w_byID w) (\<lambda>uid. wfold w (u_Nick (w_store w uid)))"
  by (simp add: wf_users_def)

lemma wf_usersD:
  assumes "wf_users w" "mhas (w_byID w) uid"
  shows "map_of (w_byNick w) (wfold w (u_Nick (w_store w uid))) = Some uid"
    "u_ID (w_store w uid) = uid" "uid \<le> w_nextID w" "u_Nick (w_store w uid) \<noteq> []"
  using assms index_okD(4) [OF wf_users_index [OF assms(1)] assms(2)] by (simp_all add: wf_users_def)

lemma wf_users_nickD:
  assumes "wf_users w" "map_of (w_byNick w) k = Some uid"
  shows "mhas (w_byID w) uid" "wfold w (u_Nick (w_store w uid)) = k"
  using index_okD(3) [OF wf_users_index [OF assms(1)] assms(2)] by simp_all

lemma wf_channelsD:
  assumes "wf_channels w" "map_of (w_byChannel w) k = Some ch"
  shows "k = wfold w (ch_name ch)" "wf_channel ch"
  using assms by (auto simp: wf_channels_def)

lemma find_by_nick_Some:
  assumes "wf_users w" "find_by_nick n w = Some uid"
  shows "mhas (w_byID w) uid" "wfold w n = wfold w (u_Nick (w_store w uid))" "u_ID (w_store w uid) = uid"
proof -
  have m: "map_of (w_byNick w) (wfold w n) = Some uid"
    using assms(2) by (simp add: find_by_nick_def split: if_splits)
  show "mhas (w_byID w) uid" using wf_users_nickD(1) [OF assms(1) m] .
  then show "u_ID (w_store w uid) = uid" by (rule wf_usersD(2) [OF assms(1)])
  show "wfold w n = wfold w (u_Nick (w_store w uid))" using wf_users_nickD(2) [OF assms(1) m] by simp
qed

lemma find_by_nick_self:
  assumes "wf_users w" "mhas (w_byID w) uid"
  shows "find_by_nick (u_Nick (w_store w uid)) w = Some uid"
  using wf_usersD [OF assms] by (simp add: find_by_nick_def)

lemma find_by_nick_fold: "wfold w a = wfold w b \<Longrightarrow> find_by_nick a w = find_by_nick b w"
  by (auto simp: find_by_nick_def fold_name_map)

lemma find_channel_fold: "wfold w a = wfold w b \<Longrightarrow> find_channel a w = find_channel b w"
  by (auto simp: find_channel_def fold_name_map)

lemma find_channel_wf:
  assumes "wf_channels w" "find_channel n w = Some ch"
  shows "wf_channel ch" "wfold w n = wfold w (ch_name ch)"
  using assms wf_channelsD [OF assms(1)] by (auto simp: find_channel_def split: if_splits)

section \<open>Every operation keeps the world well formed\<close>

lemma wf_worldI: "wf_users w' \<Longrightarrow> wf_channels w \<Longrightarrow> w_mapping w' = w_mapping w \<Longrightarrow>
  w_byChannel w' = w_byChannel w \<Longrightarrow> wf_world w'"
  using wf_channels_cong [of w' w] by (simp add: wf_world_def)

lemma wf_worldD: "wf_world w \<Longrightarrow> wf_users w" "wf_world w \<Longrightarrow> wf_channels w"
  by (simp_all add: wf_world_def)

lemma fresh_id: "wf_users w \<Longrightarrow> \<not> mhas (w_byID w) (Suc (w_nextID w))"
  using wf_usersD(3) [of w "Suc (w_nextID w)"] by auto

lemma wf_add_user [invs]: "wf_world w \<Longrightarrow> wf_world (fst (add_user u t w))"
proof -
  assume wf: "wf_world w"
  note wu = wf_worldD(1) [OF wf]
  show ?thesis
  proof (cases "u_Nick u = [] \<or> mhas (w_byNick w) (wfold w (u_Nick u))")
    case True
    then have "fst (add_user u t w) = w" by (auto simp: add_user_def Let_def)
    with wf show ?thesis by simp
  next
    case False
    let ?w' = "fst (add_user u t w)"
    have st: "v \<noteq> Suc (w_nextID w) \<Longrightarrow> w_store ?w' v = w_store w v"
      "u_Nick (w_store ?w' (Suc (w_nextID w))) = u_Nick u" "u_ID (w_store ?w' (Suc (w_nextID w))) = Suc (w_nextID w)"
      "w_byNick ?w' = mput (wfold w (u_Nick u)) (Suc (w_nextID w)) (w_byNick w)"
      "w_byID ?w' = mput (Suc (w_nextID w)) () (w_byID w)" "w_nextID ?w' = Suc (w_nextID w)" for v
      using False by (simp_all add: add_user_def Let_def)
    have "index_ok (w_byNick ?w') (w_byID ?w') (\<lambda>v. wfold ?w' (u_Nick (w_store ?w' v)))"
      unfolding st(4,5)
    proof (rule index_ok_insert [OF wf_users_index [OF wu]])
      show "map_of (w_byNick w) (wfold w (u_Nick u)) = None" using False by (simp add: mhas_def)
      show "\<not> mhas (w_byID w) (Suc (w_nextID w))" using wu by (rule fresh_id)
    qed (use st(1,2) in \<open>simp_all\<close>)
    moreover have "u_ID (w_store ?w' v) = v \<and> v \<le> w_nextID ?w' \<and> u_Nick (w_store ?w' v) \<noteq> []"
      if "mhas (w_byID ?w') v" for v
    proof (cases "v = Suc (w_nextID w)")
      case True
      with st False show ?thesis by simp
    next
      case ne: False
      with that st(5) have "mhas (w_byID w) v" by simp
      from wf_usersD(2-4) [OF wu this] ne st(1) [of v] st(6) show ?thesis by simp
    qed
    ultimately have "wf_users ?w'" unfolding wf_users_def by blast
    then show ?thesis using wf_worldD(2) [OF wf] by (rule wf_worldI) simp_all
  qed
qed

lemma wf_remove_user [invs]: "wf_world w \<Longrightarrow> wf_world (fst (remove_user v w))"
proof -
  assume wf: "wf_world w"
  note wu = wf_worldD(1) [OF wf]
  have "wf_users (fst (remove_user v w))"
  proof (cases "mhas (w_byID w) v")
    case True
    from index_ok_remove [OF wf_users_index [OF wu] True] wu True
    show ?thesis by (simp add: wf_users_def remove_user_def)
  next
    case False
    with wu show ?thesis by (simp add: remove_user_def)
  qed
  then show ?thesis using wf_worldD(2) [OF wf] by (rule wf_worldI) simp_all
qed

text \<open>A field update that keeps the ID and the folded nickname.\<close>

lemma wf_upd_user [invs]:
  assumes "wf_world w" "\<And>u. u_ID (f u) = u_ID u" "\<And>u. u_Nick (f u) = u_Nick u"
  shows "wf_world (upd_user v f w)"
proof -
  have "wf_users (upd_user v f w)"
  proof -
    let ?w' = "upd_user v f w"
    have st: "u_Nick (w_store ?w' x) = u_Nick (w_store w x)" "u_ID (w_store ?w' x) = u_ID (w_store w x)"
      "w_byNick ?w' = w_byNick w" "w_byID ?w' = w_byID w" "w_nextID ?w' = w_nextID w" for x
      using assms(2,3) by (simp_all add: upd_user_def)
    show ?thesis using wf_worldD(1) [OF assms(1)] by (simp add: wf_users_def st)
  qed
  then show ?thesis using wf_worldD(2) [OF assms(1)] by (rule wf_worldI) simp_all
qed

lemma wf_rename_user [invs]: "wf_world w \<Longrightarrow> wf_world (fst (rename_user v n w))"
proof -
  assume wf: "wf_world w"
  note wu = wf_worldD(1) [OF wf]
  let ?w' = "fst (rename_user v n w)"
  have "wf_users ?w'"
  proof (cases "n = [] \<or> \<not> mhas (w_byID w) v \<or>
      (wfold w (u_Nick (w_store w v)) \<noteq> wfold w n \<and> mhas (w_byNick w) (wfold w n))")
    case True
    then have "?w' = w" by (auto simp: rename_user_def Let_def)
    with wu show ?thesis by simp
  next
    case False
    then have n: "n \<noteq> []" and v: "mhas (w_byID w) v" by auto
    have st: "w_store ?w' = (w_store w)(v := (w_store w v)\<lparr>u_Nick := n\<rparr>)" "w_byID ?w' = w_byID w"
      "w_nextID ?w' = w_nextID w"
      using False by (auto simp: rename_user_def upd_user_def Let_def)
    have "index_ok (w_byNick ?w') (w_byID ?w') (\<lambda>x. wfold ?w' (u_Nick (w_store ?w' x)))"
    proof (cases "wfold w (u_Nick (w_store w v)) = wfold w n")
      case True
      then have "w_byNick ?w' = w_byNick w" using n v by (simp add: rename_user_def upd_user_def)
      then show ?thesis unfolding st(2)
        using index_ok_cong [OF wf_users_index [OF wu], of "\<lambda>x. wfold ?w' (u_Nick (w_store ?w' x))"] True st(1)
        by simp
    next
      case ne: False
      then have nk: "w_byNick ?w' = mput (wfold w n) v (mdel (wfold w (u_Nick (w_store w v))) (w_byNick w))"
        using n v False by (simp add: rename_user_def upd_user_def Let_def)
      show ?thesis unfolding nk st(2)
      proof (rule index_ok_rename [OF wf_users_index [OF wu] v])
        show "map_of (w_byNick w) (wfold w n) = None" using ne False by (auto simp: mhas_def)
      qed (simp_all add: st(1))
    qed
    moreover have "\<forall>x. mhas (w_byID ?w') x \<longrightarrow>
       u_ID (w_store ?w' x) = x \<and> x \<le> w_nextID ?w' \<and> u_Nick (w_store ?w' x) \<noteq> []"
      using wf_usersD(2-4) [OF wu] n by (simp add: st)
    ultimately show ?thesis unfolding wf_users_def by blast
  qed
  then show ?thesis using wf_worldD(2) [OF wf] by (rule wf_worldI) simp_all
qed

lemma wf_upd_channel [invs]:
  assumes "wf_world w" "\<And>c. map_of (w_byChannel w) (wfold w n) = Some c \<Longrightarrow> wf_channel c \<Longrightarrow> wf_channel (f c)"
    "\<And>c. map_of (w_byChannel w) (wfold w n) = Some c \<Longrightarrow> wfold w (ch_name (f c)) = wfold w (ch_name c)"
  shows "wf_world (upd_channel n f w)"
proof -
  have wc: "wf_channels w" using assms(1) by (simp add: wf_world_def)
  have "wf_channels (upd_channel n f w)"
    using wc assms(2,3) by (auto simp: wf_channels_def upd_channel_def split: option.split)
  then show ?thesis
    using assms(1) wf_users_cong [of "upd_channel n f w" w] by (simp add: wf_world_def)
qed

lemma wf_drop_channel [invs]: "wf_world w \<Longrightarrow> wf_world (drop_channel n w)"
  using wf_users_cong [of "drop_channel n w" w]
  by (auto simp: wf_world_def wf_channels_def drop_channel_def)

lemma new_channel_name [simp]: "ch_name (new_channel n t) = n"
  by (simp add: new_channel_def)

lemma wf_ensure_channel [invs]: "wf_world w \<Longrightarrow> wf_world (fst (ensure_channel n t w))"
  using wf_users_cong [of "fst (ensure_channel n t w)" w]
  by (auto simp: wf_world_def wf_channels_def ensure_channel_def Let_def wf_new_channel split: option.split)

lemma ensure_channel_result:
  assumes "wf_channels w" "ensure_channel n t w = (w1, ch, created)"
  shows "map_of (w_byChannel w1) (wfold w n) = Some ch" "wf_channel ch" "wfold w (ch_name ch) = wfold w n"
    "created \<longleftrightarrow> map_of (w_byChannel w) (wfold w n) = None"
  using assms wf_channelsD [OF assms(1)]
  by (auto simp: ensure_channel_def Let_def wf_new_channel split: option.splits)

section \<open>The nick directory\<close>

text \<open>
  What the callers of the nick indexes rely on. \<open>same\<close> is equality under the case mapping, \<open>holder\<close> the
  lookup, \<open>nick_of\<close> the display nickname of an indexed user.
\<close>

locale nick_directory =
  fixes inv :: "'w \<Rightarrow> bool"
    and same :: "'w \<Rightarrow> string \<Rightarrow> string \<Rightarrow> bool"
    and holder :: "string \<Rightarrow> 'w \<Rightarrow> uid option"
    and nick_of :: "uid \<Rightarrow> 'w \<Rightarrow> string"
    and admit :: "user \<Rightarrow> time \<Rightarrow> 'w \<Rightarrow> 'w \<times> (state_error + uid)"
    and expel :: "uid \<Rightarrow> 'w \<Rightarrow> 'w \<times> bool"
    and rename :: "uid \<Rightarrow> string \<Rightarrow> 'w \<Rightarrow> 'w \<times> state_error option"
  assumes holder_nick: "inv w \<Longrightarrow> holder n w = Some v \<Longrightarrow> same w n (nick_of v w)"
    and holder_same: "inv w \<Longrightarrow> same w n m \<Longrightarrow> holder n w = holder m w"
    and same_sym: "same w n m \<Longrightarrow> same w m n"
    and admit_ok: "inv w \<Longrightarrow> admit u t w = (w', Inr v) \<Longrightarrow>
      inv w' \<and> (\<forall>m. holder m w' = (if same w m (u_Nick u) then Some v else holder m w)) \<and>
      holder (u_Nick u) w = None"
    and admit_taken: "inv w \<Longrightarrow> admit u t w = (w', Inl e) \<Longrightarrow> w' = w"
    and expel_ok: "inv w \<Longrightarrow> expel v w = (w', True) \<Longrightarrow>
      inv w' \<and> (\<forall>m. holder m w' = (if holder m w = Some v then None else holder m w))"
    and rename_ok: "inv w \<Longrightarrow> rename v n w = (w', None) \<Longrightarrow>
      inv w' \<and> (\<forall>m. holder m w' = (if same w m n then Some v else if holder m w = Some v then None else holder m w)) \<and>
      (holder n w = None \<or> holder n w = Some v)"
    and rename_taken: "inv w \<Longrightarrow> rename v n w = (w', Some e) \<Longrightarrow> w' = w"
begin

text \<open>No operation lets two users hold one name, and a refused one changes nothing.\<close>

lemma admit_fresh: "inv w \<Longrightarrow> admit u t w = (w', Inr v) \<Longrightarrow> same w m (u_Nick u) \<Longrightarrow> holder m w = None"
  using admit_ok [of w u t w' v] holder_same [of w m "u_Nick u"] by simp

lemma rename_no_steal:
  "inv w \<Longrightarrow> rename v n w = (w', None) \<Longrightarrow> holder m w = Some x \<Longrightarrow> x \<noteq> v \<Longrightarrow> holder m w' = Some x"
  using rename_ok [of w v n w'] holder_same [of w m n] by auto

lemma expel_others: "inv w \<Longrightarrow> expel v w = (w', True) \<Longrightarrow> holder m w = Some x \<Longrightarrow> x \<noteq> v \<Longrightarrow> holder m w' = Some x"
  using expel_ok [of w v w'] by simp

lemma rename_inv: "inv w \<Longrightarrow> inv (fst (rename v n w))"
  using rename_ok [of w v n] rename_taken [of w v n] by (cases "rename v n w"; cases "snd (rename v n w)") auto

lemma admit_inv: "inv w \<Longrightarrow> inv (fst (admit u t w))"
  using admit_ok [of w u t] admit_taken [of w u t] by (cases "admit u t w"; cases "snd (admit u t w)") auto

end

definition same_name :: "world \<Rightarrow> string \<Rightarrow> string \<Rightarrow> bool" where
  "same_name w a b = (wfold w a = wfold w b)"

definition nick_at :: "uid \<Rightarrow> world \<Rightarrow> string" where
  "nick_at uid w = u_Nick (w_store w uid)"

lemma fold_Nil_iff [simp]: "fold_name m s = [] \<longleftrightarrow> s = []"
  by (simp add: fold_name_map)

lemma byNick_ne: "wf_users w \<Longrightarrow> map_of (w_byNick w) [] = None"
  using wf_users_nickD [of w "[]"] wf_usersD(4) [of w] by (metis fold_Nil_iff option.exhaust)

lemma find_by_nick_map: "wf_users w \<Longrightarrow> find_by_nick n w = map_of (w_byNick w) (wfold w n)"
  by (simp add: find_by_nick_def byNick_ne fold_name_def)

lemma holder_iff: "wf_users w \<Longrightarrow> mhas (w_byID w) v \<Longrightarrow>
  find_by_nick m w = Some v \<longleftrightarrow> wfold w m = wfold w (u_Nick (w_store w v))"
  using find_by_nick_Some(2) find_by_nick_self find_by_nick_fold by metis

lemma add_user_cases:
  "add_user u t w = (w', Inr v) \<Longrightarrow>
     u_Nick u \<noteq> [] \<and> v = Suc (w_nextID w) \<and> map_of (w_byNick w) (wfold w (u_Nick u)) = None \<and>
     w_byNick w' = mput (wfold w (u_Nick u)) v (w_byNick w) \<and> w_byID w' = mput v () (w_byID w) \<and>
     w_mapping w' = w_mapping w \<and> w_byChannel w' = w_byChannel w \<and>
     w_store w' = (w_store w)(v := u\<lparr>u_ID := v, u_ConnectAt := (if u_ConnectAt u = zero_time then t else u_ConnectAt u)\<rparr>)"
  by (auto simp: add_user_def Let_def mhas_def split: if_splits)

lemma rename_user_cases:
  assumes "rename_user v n w = (w', None)"
  shows "n \<noteq> []" "mhas (w_byID w) v"
    "wfold w (u_Nick (w_store w v)) = wfold w n \<or> map_of (w_byNick w) (wfold w n) = None"
    "map_of (w_byNick w') = (if wfold w (u_Nick (w_store w v)) = wfold w n then map_of (w_byNick w)
       else (map_of (w_byNick w))(wfold w (u_Nick (w_store w v)) := None, wfold w n := Some v))"
    "w_store w' = (w_store w)(v := (w_store w v)\<lparr>u_Nick := n\<rparr>)" "w_byID w' = w_byID w"
    "w_mapping w' = w_mapping w" "w_byChannel w' = w_byChannel w"
  using assms by (auto simp: rename_user_def upd_user_def Let_def mhas_def fun_eq_iff split: if_splits)

interpretation nicks: nick_directory wf_world same_name find_by_nick nick_at add_user remove_user rename_user
proof
  fix w n v assume "wf_world w" "find_by_nick n w = Some v"
  then show "same_name w n (nick_at v w)"
    using find_by_nick_Some(2) by (simp add: same_name_def nick_at_def wf_world_def)
next
  fix w n m assume "wf_world w" "same_name w n m"
  then show "find_by_nick n w = find_by_nick m w" unfolding same_name_def by (intro find_by_nick_fold)
next
  fix w n m assume "same_name w n m"
  then show "same_name w m n" by (simp add: same_name_def)
next
  fix w u t w' v assume wf: "wf_world w" and ok: "add_user u t w = (w', Inr v)"
  then have wf': "wf_world w'" using wf_add_user [of w u t] by simp
  note c = add_user_cases [OF ok]
  have "find_by_nick m w' = (if same_name w m (u_Nick u) then Some v else find_by_nick m w)" for m
    using c find_by_nick_map [OF wf_worldD(1) [OF wf]] find_by_nick_map [OF wf_worldD(1) [OF wf']]
    by (simp add: same_name_def)
  moreover have "find_by_nick (u_Nick u) w = None"
    using c find_by_nick_map [OF wf_worldD(1) [OF wf]] by simp
  ultimately show "wf_world w' \<and>
      (\<forall>m. find_by_nick m w' = (if same_name w m (u_Nick u) then Some v else find_by_nick m w)) \<and>
      find_by_nick (u_Nick u) w = None" using wf' by simp
next
  fix w u t w' e assume "add_user u t w = (w', Inl e)"
  then show "w' = w" by (auto simp: add_user_def Let_def split: if_splits)
next
  fix w v w' assume wf: "wf_world w" and ok: "remove_user v w = (w', True)"
  then have wf': "wf_world w'" using wf_remove_user [of w v] by simp
  have v: "mhas (w_byID w) v" and w': "w_byNick w' = mdel (wfold w (u_Nick (w_store w v))) (w_byNick w)"
    "w_mapping w' = w_mapping w"
    using ok by (auto simp: remove_user_def split: if_splits)
  have "find_by_nick m w' = (if find_by_nick m w = Some v then None else find_by_nick m w)" for m
    using holder_iff [OF wf_worldD(1) [OF wf] v, of m] w'
      find_by_nick_map [OF wf_worldD(1) [OF wf]] find_by_nick_map [OF wf_worldD(1) [OF wf']] by simp
  with wf' show "wf_world w' \<and>
      (\<forall>m. find_by_nick m w' = (if find_by_nick m w = Some v then None else find_by_nick m w))" by simp
next
  fix w v n w' assume wf: "wf_world w" and ok: "rename_user v n w = (w', None)"
  then have wf': "wf_world w'" using wf_rename_user [of w v n] by simp
  note c = rename_user_cases [OF ok]
  note h = holder_iff [OF wf_worldD(1) [OF wf] c(2)]
  note f = find_by_nick_map [OF wf_worldD(1) [OF wf]] find_by_nick_map [OF wf_worldD(1) [OF wf']]
  have "find_by_nick m w' = (if same_name w m n then Some v else if find_by_nick m w = Some v then None else find_by_nick m w)" for m
    using h [of m] h [of n] f c(4,7) by (auto simp: same_name_def)
  moreover have "find_by_nick n w = None \<or> find_by_nick n w = Some v"
    using h [of n] f c(3) by auto
  ultimately show "wf_world w' \<and>
      (\<forall>m. find_by_nick m w' = (if same_name w m n then Some v else if find_by_nick m w = Some v then None else find_by_nick m w)) \<and>
      (find_by_nick n w = None \<or> find_by_nick n w = Some v)" using wf' by simp
next
  fix w v n w' e assume "rename_user v n w = (w', Some e)"
  then show "w' = w" by (auto simp: rename_user_def Let_def split: if_splits)
qed

section \<open>Channel lookup after updates\<close>

lemma find_channel_upd [simp]:
  "find_channel m (upd_channel n f w) =
     (if wfold w m = wfold w n then map_option f (find_channel m w) else find_channel m w)"
  by (auto simp: find_channel_def upd_channel_def split: option.split)

lemma find_channel_drop [simp]:
  "find_channel m (drop_channel n w) = (if wfold w m = wfold w n then None else find_channel m w)"
  by (simp add: find_channel_def drop_channel_def)

lemma find_channel_users [simp]:
  "find_channel m (fst (add_user u t w)) = find_channel m w"
  "find_channel m (fst (remove_user v w)) = find_channel m w"
  "find_channel m (fst (rename_user v n w)) = find_channel m w"
  "find_channel m (upd_user v g w) = find_channel m w"
  by (simp_all add: find_channel_def)

lemma find_by_nick_channels [simp]:
  "find_by_nick m (upd_channel n f w) = find_by_nick m w"
  "find_by_nick m (drop_channel n w) = find_by_nick m w"
  "find_by_nick m (fst (ensure_channel n t w)) = find_by_nick m w"
  by (simp_all add: find_by_nick_def)

lemma find_channel_ensure:
  "find_channel m (fst (ensure_channel n t w)) =
     (if m \<noteq> [] \<and> wfold w m = wfold w n \<and> find_channel m w = None then Some (new_channel n t) else find_channel m w)"
  by (auto simp: find_channel_def ensure_channel_def Let_def split: option.split)

end
