(* ===== verification/History.thy ===== *)
theory History
  imports Casemap Channel
begin

text \<open>
  The three bounded histories of the daemon: the \<^verbatim>\<open>WHOWAS\<close> ring of \<^verbatim>\<open>internal/state/whowas.go\<close>,
  the log ring of \<^verbatim>\<open>internal/logging/ring.go\<close> and the log ring of a bot,
  \<^verbatim>\<open>internal/bots/logring.go\<close>. They are written differently (a growing slice with a head index, a
  preallocated slice with a write index and a counter) and keep one contract, \<open>bounded_history\<close>: after
  each push the contents are the last entries pushed, as many as the capacity allows, oldest first.
\<close>

section \<open>The contract\<close>

definition lastn :: "nat \<Rightarrow> 'e list \<Rightarrow> 'e list" where
  "lastn n xs = drop (length xs - n) xs"

lemma lastn_all [simp]: "length xs \<le> n \<Longrightarrow> lastn n xs = xs"
  by (simp add: lastn_def)

lemma length_lastn [simp]: "length (lastn n xs) = min n (length xs)"
  by (simp add: lastn_def)

lemma lastn_lastn_snoc: "lastn n (lastn n xs @ ys) = lastn n (xs @ ys)"
proof (cases "length xs \<le> n")
  case False
  let ?k = "length xs - n"
  have "lastn n (drop ?k xs @ ys) = drop (length ys) (drop ?k (xs @ ys))"
    using False by (simp add: lastn_def)
  also have "\<dots> = drop (length xs + length ys - n) (xs @ ys)"
    using False by (simp only: drop_drop) (intro arg_cong2 [of _ _ _ _ drop] refl; simp)
  finally show ?thesis by (simp add: lastn_def)
qed simp

lemma map_lastn: "map f (lastn n xs) = lastn n (map f xs)"
  by (simp add: lastn_def drop_map)

lemma lastn_full: "length xs = n \<Longrightarrow> 0 < n \<Longrightarrow> lastn n (xs @ [e]) = tl xs @ [e]"
  by (cases xs) (auto simp: lastn_def)

text \<open>
  \<open>accepts v\<close> tells whether a push keeps the value, and \<open>entry r v\<close> is what it stores: the value itself, or
  the value with its sequence number.
\<close>

locale bounded_history =
  fixes inv :: "'r \<Rightarrow> bool"
    and limit :: "'r \<Rightarrow> nat"
    and contents :: "'r \<Rightarrow> 'e list"
    and accepts :: "'v \<Rightarrow> bool"
    and entry :: "'r \<Rightarrow> 'v \<Rightarrow> 'e"
    and push :: "'v \<Rightarrow> 'r \<Rightarrow> 'r"
  assumes bounded: "inv r \<Longrightarrow> length (contents r) \<le> limit r"
    and push_inv: "inv r \<Longrightarrow> inv (push v r)"
    and push_limit: "inv r \<Longrightarrow> limit (push v r) = limit r"
    and push_ignored: "\<not> accepts v \<Longrightarrow> push v r = r"
    and push_contents: "inv r \<Longrightarrow> accepts v \<Longrightarrow> contents (push v r) = lastn (limit r) (contents r @ [entry r v])"
begin

text \<open>The entries a run of pushes stores, in order.\<close>

primrec stored :: "'r \<Rightarrow> 'v list \<Rightarrow> 'e list" where
  "stored r [] = []"
| "stored r (v # vs) = (if accepts v then entry r v # stored (push v r) vs else stored r vs)"

lemma fold_push_inv: "inv r \<Longrightarrow> inv (fold push vs r)"
  by (induction vs arbitrary: r) (simp_all add: push_inv)

lemma fold_push: "inv r \<Longrightarrow> contents (fold push vs r) = lastn (limit r) (contents r @ stored r vs)"
proof (induction vs arbitrary: r)
  case Nil
  then show ?case by (simp add: bounded)
next
  case (Cons v vs)
  show ?case
  proof (cases "accepts v")
    case True
    have "contents (fold push (v # vs) r) = lastn (limit r) (lastn (limit r) (contents r @ [entry r v]) @ stored (push v r) vs)"
      using Cons.IH [OF push_inv [OF Cons.prems]] Cons.prems True by (simp add: push_limit push_contents)
    with True show ?thesis by (simp add: lastn_lastn_snoc)
  next
    case False
    with Cons show ?thesis by (simp add: push_ignored)
  qed
qed

lemma length_stored: "length (stored r vs) = length (filter accepts vs)"
  by (induction vs arbitrary: r) simp_all

lemma retained:
  "inv r \<Longrightarrow> length (contents (fold push vs r)) = min (limit r) (length (contents r) + length (filter accepts vs))"
  by (simp add: fold_push length_stored)

lemma stored_plain: "(\<And>r v. entry r v = g v) \<Longrightarrow> stored r vs = map g (filter accepts vs)"
  by (induction vs arbitrary: r) simp_all

end

text \<open>Overwriting the oldest slot of a full ring drops it and appends the new entry.\<close>

lemma rotate_split: "h \<le> length xs \<Longrightarrow> rotate h xs = drop h xs @ take h xs"
  using rotate_append [of "take h xs" "drop h xs"] by simp

lemma rotate_overwrite:
  assumes "h < length xs"
  shows "rotate (Suc h) (xs[h := e]) = tl (rotate h xs) @ [e]"
proof -
  have "rotate (Suc h) (xs[h := e]) = drop (Suc h) xs @ take h xs @ [e]"
    using assms rotate_append [of "take h xs @ [e]" "drop (Suc h) xs"] by (simp add: upd_conv_take_nth_drop)
  moreover have "tl (rotate h xs) = drop (Suc h) xs @ take h xs"
    using assms by (simp add: rotate_split drop_Suc tl_drop)
  ultimately show ?thesis by simp
qed

lemma rotate_overwrite_mod:
  "h < length xs \<Longrightarrow> rotate ((h + 1) mod length xs) (xs[h := e]) = tl (rotate h xs) @ [e]"
  using rotate_overwrite [of h xs e] rotate_conv_mod [of "Suc h" "xs[h := e]"] by simp

section \<open>The \<open>WHOWAS\<close> ring\<close>

record whowas_entry =
  we_Nick :: string
  we_User :: string
  we_Host :: string
  we_Realname :: string
  we_Server :: string
  we_When :: time

record whowas =
  wh_mapping :: case_mapping
  wh_cap :: nat
  wh_entries :: "whowas_entry list"
  wh_head :: nat
  wh_full :: bool

definition new_whowas :: "int \<Rightarrow> case_mapping \<Rightarrow> whowas" where
  "new_whowas capacity m =
     (let c = (if capacity \<le> 0 then 1024 else nat capacity)
      in \<lparr>wh_mapping = m, wh_cap = c, wh_entries = [], wh_head = 0, wh_full = False\<rparr>)"

definition whowas_record :: "whowas_entry \<Rightarrow> whowas \<Rightarrow> whowas" where
  "whowas_record e w =
     (if we_Nick e = [] then w
      else if \<not> wh_full w then
        (let w1 = w\<lparr>wh_entries := wh_entries w @ [e]\<rparr>
         in if length (wh_entries w1) = wh_cap w1 then w1\<lparr>wh_full := True, wh_head := 0\<rparr> else w1)
      else w\<lparr>wh_entries := (wh_entries w)[wh_head w := e], wh_head := (wh_head w + 1) mod wh_cap w\<rparr>)"

text \<open>
  The slot of the i-th newest entry. In the full case \<^verbatim>\<open>head - 1 - i + cap\<close> is not negative, as i is less
  than the capacity.
\<close>

definition whowas_slot :: "whowas \<Rightarrow> nat \<Rightarrow> nat" where
  "whowas_slot w i =
     (if wh_full w then (wh_head w + wh_cap w - 1 - i) mod wh_cap w else length (wh_entries w) - 1 - i)"

fun whowas_scan :: "whowas \<Rightarrow> string \<Rightarrow> int \<Rightarrow> nat list \<Rightarrow> whowas_entry list \<Rightarrow> whowas_entry list" where
  "whowas_scan w key mx [] out = out"
| "whowas_scan w key mx (i # is) out =
     (let e = wh_entries w ! whowas_slot w i in
      if fold_name (wh_mapping w) (we_Nick e) \<noteq> key then whowas_scan w key mx is out
      else let out' = out @ [e] in
        if mx > 0 \<and> int (length out') \<ge> mx then out' else whowas_scan w key mx is out')"

definition whowas_lookup :: "string \<Rightarrow> int \<Rightarrow> whowas \<Rightarrow> whowas_entry list" where
  "whowas_lookup nick mx w =
     (if nick = [] then [] else whowas_scan w (fold_name (wh_mapping w) nick) mx [0..<length (wh_entries w)] [])"

definition whowas_len :: "whowas \<Rightarrow> nat" where
  "whowas_len w = length (wh_entries w)"

definition wf_whowas :: "whowas \<Rightarrow> bool" where
  "wf_whowas w =
     (0 < wh_cap w \<and> length (wh_entries w) \<le> wh_cap w \<and> wh_head w < wh_cap w \<and>
      (wh_full w \<longleftrightarrow> length (wh_entries w) = wh_cap w) \<and> (\<not> wh_full w \<longrightarrow> wh_head w = 0))"

definition whowas_contents :: "whowas \<Rightarrow> whowas_entry list" where
  "whowas_contents w = rotate (wh_head w) (wh_entries w)"

lemma wf_new_whowas: "wf_whowas (new_whowas n m)"
  by (simp add: wf_whowas_def new_whowas_def Let_def)

lemma wf_whowas_record: "wf_whowas w \<Longrightarrow> wf_whowas (whowas_record e w)"
  by (auto simp: wf_whowas_def whowas_record_def Let_def)

lemma whowas_record_contents:
  assumes wf: "wf_whowas w" and ne: "we_Nick e \<noteq> []"
  shows "whowas_contents (whowas_record e w) = lastn (wh_cap w) (whowas_contents w @ [e])"
proof (cases "wh_full w")
  case True
  with wf have h: "wh_head w < length (wh_entries w)" "length (wh_entries w) = wh_cap w" "0 < wh_cap w"
    by (auto simp: wf_whowas_def)
  with rotate_overwrite_mod [OF h(1), of e] True ne lastn_full [of "rotate (wh_head w) (wh_entries w)"] show ?thesis
    by (simp add: whowas_contents_def whowas_record_def)
next
  case False
  with wf have "wh_head w = 0" "length (wh_entries w) < wh_cap w" by (auto simp: wf_whowas_def)
  with False ne show ?thesis by (simp add: whowas_contents_def whowas_record_def Let_def)
qed

lemma whowas_slot_contents:
  assumes wf: "wf_whowas w" and i: "i < length (wh_entries w)"
  shows "wh_entries w ! whowas_slot w i = rev (whowas_contents w) ! i"
proof (cases "wh_full w")
  case True
  with wf have l: "length (wh_entries w) = wh_cap w" by (simp add: wf_whowas_def)
  have "rev (whowas_contents w) ! i = wh_entries w ! ((wh_head w + (wh_cap w - Suc i)) mod wh_cap w)"
    using i l by (simp add: whowas_contents_def rev_nth nth_rotate)
  moreover have "wh_head w + (wh_cap w - Suc i) = wh_head w + wh_cap w - 1 - i" using i l by simp
  ultimately show ?thesis using True by (simp add: whowas_slot_def)
next
  case False
  with wf have "wh_head w = 0" by (simp add: wf_whowas_def)
  with False i show ?thesis by (simp add: whowas_slot_def whowas_contents_def rev_nth)
qed

lemma whowas_scan_take:
  assumes "\<And>i. i \<in> set is \<Longrightarrow> wh_entries w ! whowas_slot w i = f i" "mx \<le> 0 \<or> int (length out) < mx"
  shows "whowas_scan w key mx is out =
    (let hits = out @ filter (\<lambda>e. fold_name (wh_mapping w) (we_Nick e) = key) (map f is)
     in if mx > 0 then take (nat mx) hits else hits)"
  using assms
proof (induction "is" arbitrary: out)
  case Nil
  then show ?case by auto
next
  case (Cons i "is")
  show ?case
  proof (cases "fold_name (wh_mapping w) (we_Nick (f i)) = key")
    case False
    with Cons show ?thesis by (simp add: Let_def)
  next
    case True
    show ?thesis
    proof (cases "mx > 0 \<and> int (length (out @ [f i])) \<ge> mx")
      case stop: True
      with Cons.prems(2) have "nat mx = Suc (length out)" by auto
      with stop True Cons.prems(1) show ?thesis by (simp add: Let_def)
    next
      case False
      then have "mx \<le> 0 \<or> int (length (out @ [f i])) < mx" by auto
      with Cons.IH [of "out @ [f i]"] False True Cons.prems(1) show ?thesis by (simp add: Let_def)
    qed
  qed
qed

interpretation whowas_ring: bounded_history wf_whowas wh_cap whowas_contents "\<lambda>e. we_Nick e \<noteq> []" "\<lambda>_ e. e" whowas_record
proof
  show "length (whowas_contents r) \<le> wh_cap r" if "wf_whowas r" for r
    using that by (simp add: wf_whowas_def whowas_contents_def)
  show "wh_cap (whowas_record v r) = wh_cap r" if "wf_whowas r" for v r
    by (simp add: whowas_record_def Let_def)
  show "whowas_record v r = r" if "\<not> we_Nick v \<noteq> []" for v r
    using that by (simp add: whowas_record_def)
qed (simp_all add: wf_whowas_record whowas_record_contents)

lemma whowas_lookup_contents:
  assumes "wf_whowas w" "nick \<noteq> []"
  shows "whowas_lookup nick mx w =
    (let hits = filter (\<lambda>e. fold_name (wh_mapping w) (we_Nick e) = fold_name (wh_mapping w) nick) (rev (whowas_contents w))
     in if mx > 0 then take (nat mx) hits else hits)"
proof -
  let ?c = "rev (whowas_contents w)"
  have l: "length (wh_entries w) = length ?c" by (simp add: whowas_contents_def)
  have "map ((!) ?c) [0..<length (wh_entries w)] = ?c" unfolding l by (rule map_nth)
  moreover have "whowas_scan w (fold_name (wh_mapping w) nick) mx [0..<length (wh_entries w)] [] =
    (let hits = [] @ filter (\<lambda>e. fold_name (wh_mapping w) (we_Nick e) = fold_name (wh_mapping w) nick)
                  (map ((!) ?c) [0..<length (wh_entries w)])
     in if mx > 0 then take (nat mx) hits else hits)"
    by (rule whowas_scan_take) (use assms(1) whowas_slot_contents in auto)
  ultimately show ?thesis using assms(2) by (simp add: whowas_lookup_def)
qed

lemma fold_whowas_mapping: "wh_mapping (fold whowas_record es w) = wh_mapping w"
proof (induction es arbitrary: w)
  case (Cons e es)
  have "wh_mapping (whowas_record e w) = wh_mapping w" by (simp add: whowas_record_def Let_def)
  with Cons show ?case by simp
qed simp

text \<open>
  The WHOWAS ring answers a lookup with the entries recorded under that name, newest first, at most
  as many as asked for, out of the last \<^verbatim>\<open>cap\<close> entries recorded; entries without a nickname never enter.
\<close>

theorem whowas_lookup_newest_first:
  "whowas_lookup nick mx (fold whowas_record es (new_whowas n m)) =
     (let kept = lastn (if n \<le> 0 then 1024 else nat n) (filter (\<lambda>e. we_Nick e \<noteq> []) es);
          hits = (if nick = [] then [] else filter (\<lambda>e. fold_name m (we_Nick e) = fold_name m nick) (rev kept))
      in if mx > 0 then take (nat mx) hits else hits)"
proof (cases "nick = []")
  case True
  then show ?thesis by (simp add: whowas_lookup_def)
next
  case False
  let ?w = "fold whowas_record es (new_whowas n m)"
  have "whowas_contents ?w = lastn (wh_cap (new_whowas n m)) (filter (\<lambda>e. we_Nick e \<noteq> []) es)"
    using whowas_ring.fold_push [of "new_whowas n m" es, OF wf_new_whowas] whowas_ring.stored_plain [of "\<lambda>e. e" "new_whowas n m" es]
    by (simp add: whowas_contents_def new_whowas_def Let_def)
  moreover have "wh_cap (new_whowas n m) = (if n \<le> 0 then 1024 else nat n)" "wh_mapping ?w = m"
    by (simp_all add: fold_whowas_mapping) (simp_all add: new_whowas_def Let_def)
  ultimately show ?thesis
    using whowas_lookup_contents [of ?w nick mx] whowas_ring.fold_push_inv [of "new_whowas n m" es, OF wf_new_whowas] False
    by simp
qed

section \<open>The log rings\<close>

text \<open>
  The two log rings store entries with a sequence number, the count of appends so far. \<^verbatim>\<open>total\<close> is a
  \<^verbatim>\<open>uint64\<close> that no process wraps. The attribute map of a log entry is opaque, of type \<open>'a\<close>; slots not
  written yet hold the zero entry, given with the capacity.
\<close>

record 'a log_entry =
  le_Seq :: nat
  le_Time :: time
  le_Level :: string
  le_Message :: string
  le_Attrs :: 'a

record 'a ring =
  rb_capacity :: nat
  rb_entries :: "'a log_entry list"
  rb_next :: nat
  rb_total :: nat

definition new_ring_buffer :: "int \<Rightarrow> 'a log_entry \<Rightarrow> 'a ring" where
  "new_ring_buffer capacity z =
     (let c = (if capacity \<le> 0 then 10000 else nat capacity)
      in \<lparr>rb_capacity = c, rb_entries = replicate c z, rb_next = 0, rb_total = 0\<rparr>)"

definition ring_len :: "'a ring \<Rightarrow> nat" where
  "ring_len r = (if rb_total r < rb_capacity r then rb_total r else rb_capacity r)"

definition ring_append :: "'a log_entry \<Rightarrow> 'a ring \<Rightarrow> 'a ring" where
  "ring_append e r =
     (let total = rb_total r + 1 in
      r\<lparr>rb_total := total, rb_entries := (rb_entries r)[rb_next r := e\<lparr>le_Seq := total\<rparr>],
        rb_next := (rb_next r + 1) mod rb_capacity r\<rparr>)"

definition snapshot_locked :: "'a ring \<Rightarrow> 'a log_entry list" where
  "snapshot_locked r =
     (let count = (if rb_total r < rb_capacity r then rb_total r else rb_capacity r);
          start = (if rb_total r \<ge> rb_capacity r then rb_next r else 0)
      in map (\<lambda>i. rb_entries r ! ((start + i) mod rb_capacity r)) [0..<count])"

fun since_loop :: "nat \<Rightarrow> 'a log_entry list \<Rightarrow> 'a log_entry list" where
  "since_loop seq [] = []"
| "since_loop seq (e # es) = (if le_Seq e > seq then e # es else since_loop seq es)"

definition ring_since :: "nat \<Rightarrow> 'a ring \<Rightarrow> 'a log_entry list" where
  "ring_since seq r = since_loop seq (snapshot_locked r)"

text \<open>The ring of a bot: an entry without attributes.\<close>

definition new_bot_log_ring :: "int \<Rightarrow> unit log_entry \<Rightarrow> unit ring" where
  "new_bot_log_ring capacity z =
     (let c = (if capacity \<le> 0 then 1000 else nat capacity)
      in \<lparr>rb_capacity = c, rb_entries = replicate c z, rb_next = 0, rb_total = 0\<rparr>)"

definition bot_log_append :: "string \<Rightarrow> string \<Rightarrow> time \<Rightarrow> unit ring \<Rightarrow> unit ring" where
  "bot_log_append level message at r =
     (let total = rb_total r + 1 in
      r\<lparr>rb_total := total,
        rb_entries := (rb_entries r)[rb_next r :=
          \<lparr>le_Seq = total, le_Time = at, le_Level = level, le_Message = message, le_Attrs = ()\<rparr>],
        rb_next := (rb_next r + 1) mod rb_capacity r\<rparr>)"

definition bot_log_since :: "nat \<Rightarrow> unit ring \<Rightarrow> unit log_entry list" where
  "bot_log_since seq r =
     (let count = (if rb_total r < rb_capacity r then rb_total r else rb_capacity r);
          start = (if rb_total r \<ge> rb_capacity r then rb_next r else 0)
      in if count = 0 then []
         else filter (\<lambda>e. le_Seq e > seq) (map (\<lambda>i. rb_entries r ! ((start + i) mod rb_capacity r)) [0..<count]))"

definition wf_ring :: "'a ring \<Rightarrow> bool" where
  "wf_ring r =
     (0 < rb_capacity r \<and> length (rb_entries r) = rb_capacity r \<and> rb_next r < rb_capacity r \<and>
      (rb_total r < rb_capacity r \<longrightarrow> rb_next r = rb_total r) \<and>
      map le_Seq (snapshot_locked r) = [rb_total r - ring_len r + 1..<rb_total r + 1])"

lemma wf_new_ring_buffer: "wf_ring (new_ring_buffer n z)"
  by (simp add: wf_ring_def new_ring_buffer_def snapshot_locked_def ring_len_def Let_def)

lemma wf_new_bot_log_ring: "wf_ring (new_bot_log_ring n z)"
  by (simp add: wf_ring_def new_bot_log_ring_def snapshot_locked_def ring_len_def Let_def)

lemma length_snapshot: "length (snapshot_locked r) = ring_len r"
  by (simp add: snapshot_locked_def ring_len_def Let_def)

lemma snapshot_rotate:
  assumes "length (rb_entries r) = rb_capacity r" "0 < rb_capacity r" "rb_next r < rb_capacity r"
  shows "snapshot_locked r =
    (if rb_total r < rb_capacity r then take (rb_total r) (rb_entries r) else rotate (rb_next r) (rb_entries r))"
proof (cases "rb_total r < rb_capacity r")
  case True
  then show ?thesis using assms by (intro nth_equalityI) (simp_all add: snapshot_locked_def Let_def)
next
  case False
  then show ?thesis using assms by (intro nth_equalityI) (simp_all add: snapshot_locked_def Let_def nth_rotate)
qed

text \<open>\<open>ring_append\<close> and \<open>bot_log_append\<close> write a slot in the same way.\<close>

definition ring_put :: "'a log_entry \<Rightarrow> 'a ring \<Rightarrow> 'a ring" where
  "ring_put e r =
     r\<lparr>rb_total := rb_total r + 1, rb_entries := (rb_entries r)[rb_next r := e],
       rb_next := (rb_next r + 1) mod rb_capacity r\<rparr>"

lemma ring_append_put: "ring_append e r = ring_put (e\<lparr>le_Seq := rb_total r + 1\<rparr>) r"
  by (simp add: ring_append_def ring_put_def Let_def)

lemma bot_log_append_put: "bot_log_append l m t r =
  ring_put \<lparr>le_Seq = rb_total r + 1, le_Time = t, le_Level = l, le_Message = m, le_Attrs = ()\<rparr> r"
  by (simp add: bot_log_append_def ring_put_def Let_def)

lemma snapshot_put:
  assumes "length (rb_entries r) = rb_capacity r" "0 < rb_capacity r" "rb_next r < rb_capacity r"
    "rb_total r < rb_capacity r \<longrightarrow> rb_next r = rb_total r"
  shows "snapshot_locked (ring_put e r) = lastn (rb_capacity r) (snapshot_locked r @ [e])"
proof -
  have s: "snapshot_locked (ring_put e r) =
     (if rb_total r + 1 < rb_capacity r then take (rb_total r + 1) ((rb_entries r)[rb_next r := e])
      else rotate ((rb_next r + 1) mod rb_capacity r) ((rb_entries r)[rb_next r := e]))"
    using assms by (subst snapshot_rotate) (simp_all add: ring_put_def)
  consider (room) "rb_total r + 1 < rb_capacity r" | (last) "rb_total r + 1 = rb_capacity r" | (full) "rb_capacity r \<le> rb_total r"
    by linarith
  then show ?thesis
  proof cases
    case room
    with assms show ?thesis
      by (simp add: s snapshot_rotate [OF assms(1-3)] take_Suc_conv_app_nth)
  next
    case last
    then have n: "rb_next r = rb_total r" "Suc (rb_total r) = length (rb_entries r)" using assms by simp_all
    then have "(rb_entries r)[rb_next r := e] = take (rb_total r) (rb_entries r) @ [e]"
      by (simp add: upd_conv_take_nth_drop)
    with last n assms(1) show ?thesis by (simp add: s snapshot_rotate [OF assms(1-3)])
  next
    case full
    with rotate_overwrite_mod [of "rb_next r" "rb_entries r" e] assms lastn_full [of "rotate (rb_next r) (rb_entries r)"]
    show ?thesis by (simp add: s snapshot_rotate [OF assms(1-3)])
  qed
qed

lemma wf_ring_put: "wf_ring r \<Longrightarrow> le_Seq e = rb_total r + 1 \<Longrightarrow> wf_ring (ring_put e r)"
proof -
  assume wf: "wf_ring r" and e: "le_Seq e = rb_total r + 1"
  then have p: "length (rb_entries r) = rb_capacity r" "0 < rb_capacity r" "rb_next r < rb_capacity r"
    "rb_total r < rb_capacity r \<longrightarrow> rb_next r = rb_total r"
    "map le_Seq (snapshot_locked r) = [rb_total r - ring_len r + 1..<rb_total r + 1]"
    by (simp_all add: wf_ring_def)
  have "map le_Seq (snapshot_locked (ring_put e r)) =
      lastn (rb_capacity r) ([rb_total r - ring_len r + 1..<rb_total r + 1] @ [rb_total r + 1])"
    by (simp add: snapshot_put [OF p(1-4)] map_lastn p(5) e del: upt_Suc)
  also have "[rb_total r - ring_len r + 1..<rb_total r + 1] @ [rb_total r + 1] = [rb_total r - ring_len r + 1..<rb_total r + 2]"
    by simp
  also have "lastn (rb_capacity r) \<dots> = [rb_total r + 1 - ring_len (ring_put e r) + 1..<rb_total r + 2]"
    by (auto simp: lastn_def ring_len_def ring_put_def simp del: upt_Suc)
  finally show ?thesis using p by (auto simp: wf_ring_def ring_put_def mod_Suc)
qed

lemma wf_ring_parts:
  "wf_ring r \<Longrightarrow> length (rb_entries r) = rb_capacity r \<and> 0 < rb_capacity r \<and> rb_next r < rb_capacity r \<and>
     (rb_total r < rb_capacity r \<longrightarrow> rb_next r = rb_total r)"
  by (simp add: wf_ring_def)

interpretation log_ring: bounded_history wf_ring rb_capacity snapshot_locked "\<lambda>_. True"
  "\<lambda>r e. e\<lparr>le_Seq := rb_total r + 1\<rparr>" ring_append
proof
  show "length (snapshot_locked r) \<le> rb_capacity r" for r :: "'b ring"
    by (simp add: length_snapshot ring_len_def)
  show "rb_capacity (ring_append v r) = rb_capacity r" for v and r :: "'b ring"
    by (simp add: ring_append_def Let_def)
qed (auto simp: ring_append_put wf_ring_put snapshot_put dest: wf_ring_parts)

interpretation bot_ring: bounded_history wf_ring rb_capacity snapshot_locked "\<lambda>_. True"
  "\<lambda>r (l, m, t). \<lparr>le_Seq = rb_total r + 1, le_Time = t, le_Level = l, le_Message = m, le_Attrs = ()\<rparr>"
  "\<lambda>(l, m, t). bot_log_append l m t"
proof
  show "length (snapshot_locked r) \<le> rb_capacity r" for r :: "unit ring"
    by (simp add: length_snapshot ring_len_def)
  show "rb_capacity ((\<lambda>(l, m, t). bot_log_append l m t) v r) = rb_capacity r" for v r
    by (simp add: bot_log_append_def Let_def split: prod.split)
qed (auto simp: bot_log_append_put wf_ring_put snapshot_put dest: wf_ring_parts)

lemma filter_greater_upt: "filter (\<lambda>s. s > k) [a + 1..<b + 1] = [max a k + 1..<b + 1]"
proof (induction b)
  case (Suc b)
  then show ?case by (cases "a \<le> b"; cases "k \<le> b") (auto simp: max_def)
qed simp

text \<open>The sequence numbers ascend, so cutting at the first newer entry and filtering are the same.\<close>

lemma since_loop_filter: "sorted (map le_Seq es) \<Longrightarrow> since_loop n es = filter (\<lambda>e. le_Seq e > n) es"
  by (induction es) (auto intro!: filter_True [symmetric])

lemma ring_since_filter: "wf_ring r \<Longrightarrow> ring_since n r = filter (\<lambda>e. le_Seq e > n) (snapshot_locked r)"
  by (simp add: ring_since_def since_loop_filter wf_ring_def sorted_upt del: upt_Suc)

lemma bot_log_since_snapshot: "bot_log_since n r = filter (\<lambda>e. le_Seq e > n) (snapshot_locked r)"
  by (auto simp: bot_log_since_def snapshot_locked_def Let_def)

lemma fold_append_total: "rb_total (fold ring_append es r) = rb_total r + length es"
  by (induction es arbitrary: r) (simp_all add: ring_append_put ring_put_def)

lemma fold_append_capacity: "rb_capacity (fold ring_append es r) = rb_capacity r"
  by (induction es arbitrary: r) (simp_all add: ring_append_put ring_put_def)

text \<open>
  A reader that polls the log ring with the last sequence number it saw misses nothing that is still
  retained: the entries it gets are exactly the retained ones with a greater number, their numbers are
  consecutive up to the count of appends, and at least the last \<^verbatim>\<open>capacity\<close> appends are retained.
\<close>

theorem ring_since_complete:
  "map le_Seq (ring_since k (fold ring_append es (new_ring_buffer n z))) =
     [max (length es - (if n \<le> 0 then 10000 else nat n)) k + 1..<length es + 1]"
proof -
  let ?r = "fold ring_append es (new_ring_buffer n z)"
  have wf: "wf_ring ?r" using log_ring.fold_push_inv wf_new_ring_buffer by blast
  have t: "rb_total ?r = length es" by (simp add: fold_append_total) (simp add: new_ring_buffer_def Let_def)
  have c: "rb_capacity ?r = (if n \<le> 0 then 10000 else nat n)"
    by (simp add: fold_append_capacity) (simp add: new_ring_buffer_def Let_def)
  have l: "length es - ring_len ?r = length es - rb_capacity ?r" by (simp add: ring_len_def t)
  have "map le_Seq (ring_since k ?r) = filter (\<lambda>s. s > k) (map le_Seq (snapshot_locked ?r))"
    by (simp add: ring_since_filter [OF wf] filter_map comp_def)
  also have "\<dots> = filter (\<lambda>s. s > k) [length es - rb_capacity ?r + 1..<length es + 1]"
    using wf t l by (simp add: wf_ring_def del: upt_Suc)
  also have "\<dots> = [max (length es - rb_capacity ?r) k + 1..<length es + 1]"
    by (rule filter_greater_upt)
  finally show ?thesis unfolding c .
qed

end
