(* ===== verification/Message.thy ===== *)
theory Message
  imports Prelude "HOL-Library.List_Lexorder"
begin

text \<open>
  IRC messages on the wire: \<^verbatim>\<open>internal/protocol/message.go\<close>, \<^verbatim>\<open>parse.go\<close>, \<^verbatim>\<open>encode.go\<close> and the reply
  builder of \<^verbatim>\<open>numeric.go\<close>. A line is a byte string. Go's maps of tags are association lists; \<^verbatim>\<open>Bytes\<close> sorts
  the keys bytewise, the order \<open>List_Lexorder\<close> gives strings. Parsing a well-formed message's encoding
  gives the message back, up to the case of the command and the order of the tags.
\<close>

definition MaxMessageBytes :: nat where
  "MaxMessageBytes = 512"

definition MaxParams :: nat where
  "MaxParams = 15"

datatype protocol_error = ErrEmpty | ErrTooLong | ErrTooManyParams | ErrBadCommand | ErrBadTags

record message =
  msg_Tags :: "(string, string) gomap"
  msg_Prefix :: string
  msg_Command :: string
  msg_Params :: "string list"

definition msg_numeric :: "message \<Rightarrow> bool" where
  "msg_numeric m = (length (msg_Command m) = 3 \<and> list_all is_digit (msg_Command m))"

definition msg_trailing :: "message \<Rightarrow> string option" where
  "msg_trailing m = (if msg_Params m = [] then None else Some (last (msg_Params m)))"

definition with_tag :: "string \<Rightarrow> string \<Rightarrow> message \<Rightarrow> message" where
  "with_tag key value m = m\<lparr>msg_Tags := mput key value (msg_Tags m)\<rparr>"

section \<open>Commands and parameters\<close>

definition is_all_digits :: "string \<Rightarrow> bool" where
  "is_all_digits s = (s \<noteq> [] \<and> list_all is_digit s)"

definition valid_command :: "string \<Rightarrow> bool" where
  "valid_command s =
     (if s = [] then False
      else if is_all_digits s then length s = 3
      else list_all (\<lambda>c. is_lower c \<or> is_upper c) s)"

definition assert_no_space_crlf_nul :: "string \<Rightarrow> protocol_error option" where
  "assert_no_space_crlf_nul p =
     (if list_ex (\<lambda>c. c = CHR '' '' \<or> c = CHR 0x0D \<or> c = CHR 0x0A \<or> c = CHR 0x00) p then Some ErrBadCommand else None)"

definition assert_no_crlf_nul :: "string \<Rightarrow> protocol_error option" where
  "assert_no_crlf_nul p =
     (if list_ex (\<lambda>c. c = CHR 0x0D \<or> c = CHR 0x0A \<or> c = CHR 0x00) p then Some ErrBadCommand else None)"

definition assert_middle_param :: "string \<Rightarrow> protocol_error option" where
  "assert_middle_param p =
     (if p = [] then Some ErrBadCommand
      else if hd p = CHR '':'' then Some ErrBadCommand
      else assert_no_space_crlf_nul p)"

section \<open>Tags\<close>

fun escape_byte :: "char \<Rightarrow> string" where
  "escape_byte c =
     (if c = CHR '';'' then [CHR 0x5C, CHR '':'']
      else if c = CHR '' '' then [CHR 0x5C, CHR ''s'']
      else if c = CHR 0x5C then [CHR 0x5C, CHR 0x5C]
      else if c = CHR 0x0D then [CHR 0x5C, CHR ''r'']
      else if c = CHR 0x0A then [CHR 0x5C, CHR ''n'']
      else [c])"

definition escape_tag_value :: "string \<Rightarrow> string" where
  "escape_tag_value s =
     (if \<not> list_ex (\<lambda>c. c \<in> set [CHR '';'', CHR '' '', CHR 0x5C, CHR 0x0D, CHR 0x0A]) s then s
      else concat (map escape_byte s))"

definition unescape_byte :: "char \<Rightarrow> char" where
  "unescape_byte c =
     (if c = CHR '':'' then CHR '';''
      else if c = CHR ''s'' then CHR '' ''
      else if c = CHR 0x5C then CHR 0x5C
      else if c = CHR ''r'' then CHR 0x0D
      else if c = CHR ''n'' then CHR 0x0A
      else c)"

fun unescape_loop :: "string \<Rightarrow> string" where
  "unescape_loop [] = []"
| "unescape_loop [c] = (if c \<noteq> CHR 0x5C then [c] else [])"
| "unescape_loop (c # d # s) =
     (if c \<noteq> CHR 0x5C then c # unescape_loop (d # s) else unescape_byte d # unescape_loop s)"

definition unescape_tag_value :: "string \<Rightarrow> string" where
  "unescape_tag_value s = (if CHR 0x5C \<notin> set s then s else unescape_loop s)"

fun parse_tags_loop :: "string list \<Rightarrow> (string, string) gomap \<Rightarrow> protocol_error + (string, string) gomap" where
  "parse_tags_loop [] out = Inr out"
| "parse_tags_loop (tag # tags) out =
     (if tag = [] then Inl ErrBadTags
      else let (key, raw) = (case index_byte CHR ''='' tag of
                 None \<Rightarrow> (tag, [])
               | Some eq \<Rightarrow> (take eq tag, drop (eq + 1) tag))
           in if key = [] then Inl ErrBadTags
              else parse_tags_loop tags (mput key (unescape_tag_value raw) out))"

definition parse_tags :: "string \<Rightarrow> protocol_error + (string, string) gomap" where
  "parse_tags body = (if body = [] then Inl ErrBadTags else parse_tags_loop (split_on CHR '';'' body) [])"

section \<open>Parsing\<close>

text \<open>
  The three stages of \<^verbatim>\<open>Parse\<close>: the tag block, the prefix, then command and parameters. Each hands the
  rest of the line to the next.
\<close>

definition skip_word :: "string \<Rightarrow> (string \<times> string) option" where
  "skip_word s =
     (case index_byte CHR '' '' s of
        None \<Rightarrow> None
      | Some sp \<Rightarrow> Some (take sp s, trim_left CHR '' '' (drop (sp + 1) s)))"

function parse_params :: "string \<Rightarrow> string list \<Rightarrow> string list" where
  "parse_params s ps =
     (if s = [] then ps
      else if hd s = CHR '':'' then ps @ [tl s]
      else if length ps \<ge> MaxParams - 1 then ps @ [s]
      else (case skip_word s of
              None \<Rightarrow> ps @ [s]
            | Some (w, rest) \<Rightarrow> parse_params rest (ps @ [w])))"
  by auto
termination
proof (relation "measure (\<lambda>(s, ps). length s)")
  show "wf (measure (\<lambda>(s, ps). length s))" by simp
next
  fix s :: string and ps :: "string list" and x w rest
  assume "s \<noteq> []" "skip_word s = Some x" "(w, rest) = x"
  then obtain i where i: "index_byte CHR '' '' s = Some i" "rest = trim_left CHR '' '' (drop (i + 1) s)"
    by (auto simp: skip_word_def split: option.splits)
  have "length rest \<le> length (drop (i + 1) s)" unfolding i(2) by (rule trim_left_length)
  also have "\<dots> < length s" using \<open>s \<noteq> []\<close> by simp
  finally show "((rest, ps @ [w]), s, ps) \<in> measure (\<lambda>(s, ps). length s)" by simp
qed

declare parse_params.simps [simp del]

definition parse_command :: "(string, string) gomap \<Rightarrow> string \<Rightarrow> string \<Rightarrow> protocol_error + message" where
  "parse_command tags prefix s =
     (let (cmd, rest) = (case skip_word s of None \<Rightarrow> (s, []) | Some p \<Rightarrow> p) in
      if \<not> valid_command cmd then Inl ErrBadCommand
      else let ps = parse_params rest [] in
        if length ps > MaxParams then Inl ErrTooManyParams
        else Inr \<lparr>msg_Tags = tags, msg_Prefix = prefix,
                  msg_Command = (if is_all_digits cmd then cmd else to_upper cmd), msg_Params = ps\<rparr>)"

definition parse_prefix :: "(string, string) gomap \<Rightarrow> string \<Rightarrow> protocol_error + message" where
  "parse_prefix tags s =
     (if hd s = CHR '':'' then
        (case skip_word s of
           None \<Rightarrow> Inl ErrEmpty
         | Some (w, rest) \<Rightarrow> if rest = [] then Inl ErrEmpty else parse_command tags (tl w) rest)
      else parse_command tags [] s)"

definition parse :: "string \<Rightarrow> protocol_error + message" where
  "parse line =
     (if length line > MaxMessageBytes then Inl ErrTooLong
      else let s = trim_suffix [CHR 0x0D] (trim_suffix [CHR 0x0A] line) in
        if s = [] then Inl ErrEmpty
        else if hd s = CHR ''@'' then
          (case skip_word s of
             None \<Rightarrow> Inl ErrBadTags
           | Some (w, rest) \<Rightarrow>
               (case parse_tags (tl w) of
                  Inl e \<Rightarrow> Inl e
                | Inr tags \<Rightarrow> if rest = [] then Inl ErrEmpty else parse_prefix tags rest))
        else parse_prefix [] s)"

section \<open>Encoding\<close>

definition encode_tag :: "(string, string) gomap \<Rightarrow> string \<Rightarrow> string" where
  "encode_tag tags k =
     (let v = (case map_of tags k of None \<Rightarrow> [] | Some v \<Rightarrow> v)
      in k @ (if v \<noteq> [] then CHR ''='' # escape_tag_value v else []))"

definition encode_tags :: "(string, string) gomap \<Rightarrow> string" where
  "encode_tags tags =
     (if tags = [] then []
      else CHR ''@'' # join_with '';'' (map (encode_tag tags) (sort (map fst tags))) @ '' '')"

fun encode_params :: "string list \<Rightarrow> protocol_error + string" where
  "encode_params [] = Inr []"
| "encode_params [p] =
     (case assert_no_crlf_nul p of Some e \<Rightarrow> Inl e | None \<Rightarrow> Inr ('' :'' @ p))"
| "encode_params (p # q # ps) =
     (case assert_middle_param p of
        Some e \<Rightarrow> Inl e
      | None \<Rightarrow> (case encode_params (q # ps) of Inl e \<Rightarrow> Inl e | Inr out \<Rightarrow> Inr ('' '' @ p @ out)))"

definition msg_bytes :: "message \<Rightarrow> protocol_error + string" where
  "msg_bytes m =
     (if \<not> valid_command (msg_Command m) then Inl ErrBadCommand
      else if length (msg_Params m) > MaxParams then Inl ErrTooManyParams
      else (case encode_params (msg_Params m) of
              Inl e \<Rightarrow> Inl e
            | Inr ps \<Rightarrow>
                let out = encode_tags (msg_Tags m) @
                      (if msg_Prefix m \<noteq> [] then CHR '':'' # msg_Prefix m @ '' '' else []) @
                      (if is_all_digits (msg_Command m) then msg_Command m else to_upper (msg_Command m)) @
                      ps @ [CHR 0x0D, CHR 0x0A]
                in if length out > MaxMessageBytes then Inl ErrTooLong else Inr out))"

definition numeric_reply :: "string \<Rightarrow> string \<Rightarrow> string \<Rightarrow> string list \<Rightarrow> message" where
  "numeric_reply serverName target code params =
     \<lparr>msg_Tags = [], msg_Prefix = serverName, msg_Command = code,
       msg_Params = (if target = [] then ''*'' else target) # params\<rparr>"

section \<open>Round trips\<close>

lemma unescape_plain: "c \<noteq> CHR 0x5C \<Longrightarrow> unescape_loop (c # s) = c # unescape_loop s"
  by (cases s) simp_all

lemma unescape_escape_byte: "unescape_loop (escape_byte c @ s) = c # unescape_loop s"
  by (simp add: unescape_plain unescape_byte_def)

lemma unescape_escape: "unescape_tag_value (escape_tag_value s) = s"
proof -
  have loop: "unescape_loop (concat (map escape_byte s)) = s"
    by (induction s) (simp_all only: list.map concat.simps unescape_escape_byte unescape_loop.simps)
  show ?thesis
  proof (cases "list_ex (\<lambda>c. c \<in> set [CHR '';'', CHR '' '', CHR 0x5C, CHR 0x0D, CHR 0x0A]) s")
    case True
    then obtain c where "c \<in> set s" "c \<in> set [CHR '';'', CHR '' '', CHR 0x5C, CHR 0x0D, CHR 0x0A]"
      by (auto simp: list_ex_iff)
    then have "CHR 0x5C \<in> set (concat (map escape_byte s))" by (auto simp: image_iff intro!: bexI [of _ c])
    with True loop show ?thesis by (simp add: escape_tag_value_def unescape_tag_value_def)
  next
    case False
    then have "CHR 0x5C \<notin> set s" by (auto simp: list_ex_iff)
    with False show ?thesis by (simp add: escape_tag_value_def unescape_tag_value_def)
  qed
qed

text \<open>An escaped value holds no byte that ends a tag, the tag block or the line.\<close>

lemma escape_safe: "set (escape_tag_value s) \<inter> {CHR '';'', CHR '' '', CHR 0x0D, CHR 0x0A} = {}"
proof -
  have b: "set (escape_byte c) \<inter> {CHR '';'', CHR '' '', CHR 0x0D, CHR 0x0A} = {}" for c by simp
  have "set (concat (map escape_byte s)) \<inter> {CHR '';'', CHR '' '', CHR 0x0D, CHR 0x0A} = {}"
    using b by (auto simp del: escape_byte.simps)
  then show ?thesis by (auto simp: escape_tag_value_def list_ex_iff simp del: escape_byte.simps)
qed

lemma skip_word_append:
  "CHR '' '' \<notin> set w \<Longrightarrow> rest \<noteq> [] \<Longrightarrow> hd rest \<noteq> CHR '' '' \<Longrightarrow> skip_word (w @ CHR '' '' # rest) = Some (w, rest)"
  by (simp add: skip_word_def index_byte_append)

lemma skip_word_none: "CHR '' '' \<notin> set s \<Longrightarrow> skip_word s = None"
  by (simp add: skip_word_def index_byte_absent)

definition tag_key_ok :: "string \<Rightarrow> bool" where
  "tag_key_ok k = (k \<noteq> [] \<and> set k \<inter> {CHR ''='', CHR '';'', CHR '' ''} = {})"

definition tag_value :: "(string, string) gomap \<Rightarrow> string \<Rightarrow> string" where
  "tag_value tags k = (case map_of tags k of None \<Rightarrow> [] | Some v \<Rightarrow> v)"

lemma encode_tag_eq:
  "encode_tag tags k = k @ (if tag_value tags k \<noteq> [] then CHR ''='' # escape_tag_value (tag_value tags k) else [])"
  by (simp add: encode_tag_def tag_value_def Let_def)

lemma encode_tag_safe: "tag_key_ok k \<Longrightarrow> encode_tag tags k \<noteq> [] \<and> set (encode_tag tags k) \<inter> {CHR '';'', CHR '' ''} = {}"
  using escape_safe [of "tag_value tags k"] by (auto simp: encode_tag_eq tag_key_ok_def)

lemma parse_encoded_tags:
  "\<forall>k \<in> set ks. tag_key_ok k \<Longrightarrow>
   parse_tags_loop (map (encode_tag tags) ks) out = Inr (fold (\<lambda>k. mput k (tag_value tags k)) ks out)"
proof (induction ks arbitrary: out)
  case (Cons k ks)
  then have ok: "tag_key_ok k" by simp
  then have k: "k \<noteq> []" "CHR ''='' \<notin> set k" by (auto simp: tag_key_ok_def)
  have "unescape_tag_value [] = []" by (simp add: unescape_tag_value_def)
  with Cons k encode_tag_safe [OF ok, of tags] show ?case
    by (cases "tag_value tags k = []")
      (simp_all add: encode_tag_eq [of tags k] index_byte_append index_byte_absent unescape_escape)
qed simp

lemma fold_put_keys:
  "map_of (fold (\<lambda>k. mput k (f k)) ks out) k = (if k \<in> set ks then Some (f k) else map_of out k)"
  by (induction ks arbitrary: out) auto

lemma join_with_set: "set (join_with sep xs) \<subseteq> set sep \<union> \<Union> (set ` set xs)"
  by (induction sep xs rule: join_with.induct) auto

lemma parse_tags_encode:
  assumes "tags \<noteq> []" "\<forall>k \<in> fst ` set tags. tag_key_ok k"
  shows "\<exists>t. parse_tags (join_with '';'' (map (encode_tag tags) (sort (map fst tags)))) = Inr t \<and> map_of t = map_of tags"
proof -
  let ?ks = "sort (map fst tags)" let ?ps = "map (encode_tag tags) ?ks"
  have ok: "\<forall>k \<in> set ?ks. tag_key_ok k" using assms(2) by simp
  have "length ?ks = length tags" by simp
  with assms(1) have ne: "?ps \<noteq> []" by (metis length_0_conv length_map)
  have piece: "p \<noteq> [] \<and> CHR '';'' \<notin> set p \<and> CHR '' '' \<notin> set p" if "p \<in> set ?ps" for p
  proof -
    from that obtain k where "p = encode_tag tags k" "tag_key_ok k" using ok by auto
    then show ?thesis using encode_tag_safe [of k tags] by auto
  qed
  then have sep: "\<forall>p \<in> set ?ps. CHR '';'' \<notin> set p" by blast
  have sp: "split_on CHR '';'' (join_with '';'' ?ps) = ?ps" by (rule split_on_join [OF ne sep])
  have "join_with '';'' ?ps \<noteq> []"
  proof
    assume "join_with '';'' ?ps = []"
    with sp have "?ps = [[]]" by (metis split_on.simps(1))
    then have "[] \<in> set ?ps" by (metis list.set_intros(1))
    with piece show False by blast
  qed
  then have "parse_tags (join_with '';'' ?ps) = Inr (fold (\<lambda>k. mput k (tag_value tags k)) ?ks [])"
    by (simp only: parse_tags_def sp parse_encoded_tags [OF ok] if_False)
  moreover have "map_of (fold (\<lambda>k. mput k (tag_value tags k)) ?ks []) = map_of tags"
  proof
    fix k
    show "map_of (fold (\<lambda>k. mput k (tag_value tags k)) ?ks []) k = map_of tags k"
      using map_of_eq_None_iff [of tags k]
      by (cases "map_of tags k") (simp_all add: fold_put_keys tag_value_def)
  qed
  ultimately show ?thesis by blast
qed

lemma encode_tags_no_space:
  assumes "\<forall>k \<in> set ks. tag_key_ok k"
  shows "CHR '' '' \<notin> set (join_with '';'' (map (encode_tag tags) ks))"
proof
  assume "CHR '' '' \<in> set (join_with '';'' (map (encode_tag tags) ks))"
  then have "\<exists>p \<in> set (map (encode_tag tags) ks). CHR '' '' \<in> set p"
    using join_with_set [of "'';''" "map (encode_tag tags) ks"] by auto
  then obtain k where "k \<in> set ks" "CHR '' '' \<in> set (encode_tag tags k)" by auto
  with assms encode_tag_safe [of k tags] show False by auto
qed

lemma parse_encoded_params:
  "encode_params ps = Inr out \<Longrightarrow> length acc + length ps \<le> MaxParams \<Longrightarrow> ps \<noteq> [] \<Longrightarrow>
   \<exists>b. out = CHR '' '' # b \<and> b \<noteq> [] \<and> hd b \<noteq> CHR '' '' \<and> parse_params b acc = acc @ ps"
proof (induction ps arbitrary: out acc rule: encode_params.induct)
  case (2 p)
  then show ?case by (auto simp: parse_params.simps [of "CHR '':'' # p"] split: option.splits)
next
  case (3 p q ps)
  from "3.prems"(1) obtain out' where mid: "assert_middle_param p = None" and out': "encode_params (q # ps) = Inr out'"
    and out: "out = CHR '' '' # p @ out'"
    by (auto split: option.splits sum.splits)
  have "length (acc @ [p]) + length (q # ps) \<le> MaxParams" using "3.prems"(2) by simp
  then obtain b where b: "out' = CHR '' '' # b" "b \<noteq> []" "hd b \<noteq> CHR '' ''" "parse_params b (acc @ [p]) = acc @ p # q # ps"
    using "3.IH" [OF mid out'] by fastforce
  have p: "p \<noteq> []" "hd p \<noteq> CHR '':''" "CHR '' '' \<notin> set p"
    using mid by (auto simp: assert_middle_param_def assert_no_space_crlf_nul_def list_ex_iff split: if_splits)
  have "skip_word (p @ out') = Some (p, b)" using p b by (simp add: skip_word_append)
  moreover have "\<not> length acc \<ge> MaxParams - 1" using "3.prems"(2) by (simp add: MaxParams_def)
  ultimately have "parse_params (p @ out') acc = acc @ p # q # ps"
    using p b(4) by (subst parse_params.simps) simp
  moreover have "hd (p @ out') \<noteq> CHR '' ''" using p by (cases p) auto
  ultimately show ?case using out p(1) by simp
qed simp

lemma command_bytes:
  "valid_command c \<Longrightarrow> c \<noteq> [] \<and> (\<forall>x \<in> set c. is_digit x \<or> is_lower x \<or> is_upper x)"
  by (auto simp: valid_command_def is_all_digits_def list_all_iff split: if_splits)

lemma wire_chars:
  "is_digit x \<or> is_lower x \<or> is_upper x \<Longrightarrow> x \<notin> {CHR '' '', CHR '':'', CHR ''@'', CHR 0x0D, CHR 0x0A}"
proof -
  have "\<forall>x. is_digit x \<or> is_lower x \<or> is_upper x \<longrightarrow> x \<notin> set [CHR '' '', CHR '':'', CHR ''@'', CHR 0x0D, CHR 0x0A]"
    by code_simp
  then show "is_digit x \<or> is_lower x \<or> is_upper x \<Longrightarrow> x \<notin> {CHR '' '', CHR '':'', CHR ''@'', CHR 0x0D, CHR 0x0A}"
    unfolding list.set by blast
qed

lemma up_byte_kind: "is_digit (up_byte x) = is_digit x" "is_lower x \<or> is_upper x \<Longrightarrow> is_upper (up_byte x)"
  "is_digit x \<Longrightarrow> up_byte x = x"
proof -
  have "\<forall>x. is_digit (up_byte x) = is_digit x \<and> (is_lower x \<or> is_upper x \<longrightarrow> is_upper (up_byte x)) \<and> (is_digit x \<longrightarrow> up_byte x = x)"
    by code_simp
  then show "is_digit (up_byte x) = is_digit x" "is_lower x \<or> is_upper x \<Longrightarrow> is_upper (up_byte x)"
    "is_digit x \<Longrightarrow> up_byte x = x" by blast+
qed

definition wire_command :: "string \<Rightarrow> string" where
  "wire_command c = (if is_all_digits c then c else to_upper c)"

lemma wire_command_upper: "wire_command c = to_upper c"
  by (auto simp: wire_command_def is_all_digits_def to_upper_def list_all_iff up_byte_kind(3) intro!: map_idI [symmetric])

lemma wire_command_valid: "valid_command c \<Longrightarrow> valid_command (wire_command c)"
proof (cases "is_all_digits c")
  case False
  assume v: "valid_command c"
  with False have all: "list_all (\<lambda>x. is_lower x \<or> is_upper x) c" "c \<noteq> []" by (auto simp: valid_command_def split: if_splits)
  have "is_all_digits (to_upper c) = is_all_digits c"
    by (simp add: is_all_digits_def to_upper_def list_all_iff up_byte_kind)
  with False all show ?thesis
    by (auto simp: wire_command_def valid_command_def to_upper_def list_all_iff up_byte_kind)
qed (simp add: wire_command_def)

lemma wire_command_idem: "wire_command (wire_command c) = wire_command c"
  by (simp add: wire_command_upper)

lemma parse_command_encode:
  assumes "valid_command c" "encode_params ps = Inr out" "length ps \<le> MaxParams"
  shows "parse_command tags prefix (wire_command c @ out) =
    Inr \<lparr>msg_Tags = tags, msg_Prefix = prefix, msg_Command = wire_command c, msg_Params = ps\<rparr>"
proof -
  let ?c = "wire_command c"
  have v: "valid_command ?c" using assms(1) by (rule wire_command_valid)
  then have sp: "CHR '' '' \<notin> set ?c" using command_bytes wire_chars by blast
  have w: "(if is_all_digits ?c then ?c else to_upper ?c) = ?c"
    using wire_command_idem [of c] by (simp add: wire_command_def)
  show ?thesis
  proof (cases "ps = []")
    case True
    with assms(2) have "out = []" by simp
    with True v sp w show ?thesis
      by (simp add: parse_command_def skip_word_none parse_params.simps MaxParams_def)
  next
    case False
    with parse_encoded_params [OF assms(2), of "[]"] assms(3) obtain b where
      b: "out = CHR '' '' # b" "b \<noteq> []" "hd b \<noteq> CHR '' ''" "parse_params b [] = ps" by auto
    with v sp w assms(3) show ?thesis by (simp add: parse_command_def skip_word_append)
  qed
qed

lemma hd_append_ne: "xs \<noteq> [] \<Longrightarrow> hd (xs @ ys) = hd xs"
  by (cases xs) simp_all

lemma wire_command_hd: "valid_command c \<Longrightarrow> wire_command c \<noteq> [] \<and> hd (wire_command c) \<notin> {CHR '' '', CHR '':'', CHR ''@''}"
proof -
  assume "valid_command c"
  then have "valid_command (wire_command c)" by (rule wire_command_valid)
  then have "wire_command c \<noteq> []" "is_digit (hd (wire_command c)) \<or> is_lower (hd (wire_command c)) \<or> is_upper (hd (wire_command c))"
    using command_bytes by (blast intro: hd_in_set)+
  with wire_chars [of "hd (wire_command c)"] show ?thesis by simp
qed

lemma parse_prefix_encode:
  assumes "valid_command c" "encode_params ps = Inr out" "length ps \<le> MaxParams" "CHR '' '' \<notin> set prefix"
  defines "r \<equiv> (if prefix \<noteq> [] then CHR '':'' # prefix @ '' '' else []) @ wire_command c @ out"
  shows "parse_prefix tags r =
      Inr \<lparr>msg_Tags = tags, msg_Prefix = prefix, msg_Command = wire_command c, msg_Params = ps\<rparr>"
    and "r \<noteq> [] \<and> hd r \<noteq> CHR '' '' \<and> hd r \<noteq> CHR ''@''"
proof -
  note c = wire_command_hd [OF assms(1)]
  note b = parse_command_encode [OF assms(1-3)]
  have "skip_word (CHR '':'' # prefix @ '' '' @ wire_command c @ out) = Some (CHR '':'' # prefix, wire_command c @ out)"
    using skip_word_append [of "CHR '':'' # prefix" "wire_command c @ out"] assms(4) c by (simp add: hd_append_ne)
  with b c show "parse_prefix tags r =
      Inr \<lparr>msg_Tags = tags, msg_Prefix = prefix, msg_Command = wire_command c, msg_Params = ps\<rparr>"
    by (simp add: r_def parse_prefix_def hd_append_ne)
  from c show "r \<noteq> [] \<and> hd r \<noteq> CHR '' '' \<and> hd r \<noteq> CHR ''@''"
    by (simp add: r_def hd_append_ne)
qed

lemma trim_crlf: "trim_suffix [CHR 0x0D] (trim_suffix [CHR 0x0A] (s @ [CHR 0x0D, CHR 0x0A])) = s"
  using trim_suffix_append [of "[CHR 0x0A]" "s @ [CHR 0x0D]"] by simp

lemma msg_bytes_cases:
  assumes "msg_bytes m = Inr out"
  shows "\<exists>ps. encode_params (msg_Params m) = Inr ps \<and> valid_command (msg_Command m) \<and>
    length (msg_Params m) \<le> MaxParams \<and> length out \<le> MaxMessageBytes \<and>
    out = (encode_tags (msg_Tags m) @ (if msg_Prefix m \<noteq> [] then CHR '':'' # msg_Prefix m @ '' '' else []) @
      wire_command (msg_Command m) @ ps) @ [CHR 0x0D, CHR 0x0A]"
  using assms by (auto simp: msg_bytes_def wire_command_def Let_def split: if_splits sum.splits)

text \<open>
  C29: Parsing what \<^verbatim>\<open>Bytes\<close> writes gives the message back, with the command in upper case and the tags
  as the same map, when the prefix has no space and the tag keys are non-empty and without space,
  semicolon or equals sign. No condition on tag values or parameters: \<^verbatim>\<open>Bytes\<close> escapes or refuses them.
\<close>

theorem parse_msg_bytes:
  assumes "msg_bytes m = Inr out"
    and "\<forall>k \<in> fst ` set (msg_Tags m). tag_key_ok k" and "CHR '' '' \<notin> set (msg_Prefix m)"
  shows "\<exists>m'. parse out = Inr m' \<and> map_of (msg_Tags m') = map_of (msg_Tags m) \<and>
    msg_Prefix m' = msg_Prefix m \<and> msg_Command m' = to_upper (msg_Command m) \<and> msg_Params m' = msg_Params m"
proof -
  from msg_bytes_cases [OF assms(1)] obtain ps where
    ps: "encode_params (msg_Params m) = Inr ps" "valid_command (msg_Command m)" "length (msg_Params m) \<le> MaxParams"
      "length out \<le> MaxMessageBytes"
    and out: "out = (encode_tags (msg_Tags m) @ (if msg_Prefix m \<noteq> [] then CHR '':'' # msg_Prefix m @ '' '' else []) @
      wire_command (msg_Command m) @ ps) @ [CHR 0x0D, CHR 0x0A]" by blast
  define r where "r = (if msg_Prefix m \<noteq> [] then CHR '':'' # msg_Prefix m @ '' '' else []) @ wire_command (msg_Command m) @ ps"
  note pre = parse_prefix_encode [OF ps(2,1,3) assms(3), folded r_def]
  have s: "trim_suffix [CHR 0x0D] (trim_suffix [CHR 0x0A] out) = encode_tags (msg_Tags m) @ r"
    unfolding out trim_crlf r_def by simp
  have up: "wire_command (msg_Command m) = to_upper (msg_Command m)" by (rule wire_command_upper)
  show ?thesis
  proof (cases "msg_Tags m = []")
    case True
    then have "parse out = parse_prefix [] r"
      using ps(4) pre(2) s by (simp add: parse_def encode_tags_def)
    with pre(1) [of "[]"] up True show ?thesis by simp
  next
    case False
    let ?b = "join_with '';'' (map (encode_tag (msg_Tags m)) (sort (map fst (msg_Tags m))))"
    obtain t where t: "parse_tags ?b = Inr t" "map_of t = map_of (msg_Tags m)"
      using parse_tags_encode [OF False assms(2)] by blast
    have "CHR '' '' \<notin> set ?b"
      using assms(2) by (intro encode_tags_no_space) simp
    then have "skip_word (CHR ''@'' # ?b @ '' '' @ r) = Some (CHR ''@'' # ?b, r)"
      using skip_word_append [of "CHR ''@'' # ?b" r] pre(2) by simp
    with False ps(4) s t(1) pre(2) have "parse out = parse_prefix t r"
      by (simp add: parse_def encode_tags_def)
    with pre(1) [of t] up t(2) show ?thesis by simp
  qed
qed

definition demo_message :: message where
  "demo_message = \<lparr>msg_Tags = [(''id'', ''''), (''account'', ''a; b'')], msg_Prefix = ''srv'', msg_Command = ''privmsg'',
     msg_Params = [''#x'', '':hello there'']\<rparr>"

lemma parse_msg_bytes_witness:
  "\<exists>m'. parse (''@account=a'' @ [CHR 0x5C] @ '':'' @ [CHR 0x5C] @ ''sb;id :srv PRIVMSG #x ::hello there'' @ [CHR 0x0D, CHR 0x0A]) = Inr m' \<and>
     map_of (msg_Tags m') ''account'' = Some ''a; b'' \<and> msg_Params m' = [''#x'', '':hello there'']"
proof -
  have b: "msg_bytes demo_message =
      Inr (''@account=a'' @ [CHR 0x5C] @ '':'' @ [CHR 0x5C] @ ''sb;id :srv PRIVMSG #x ::hello there'' @ [CHR 0x0D, CHR 0x0A])"
    by code_simp
  have k: "\<forall>k \<in> fst ` set (msg_Tags demo_message). tag_key_ok k" "CHR '' '' \<notin> set (msg_Prefix demo_message)"
    by code_simp+
  have v: "map_of (msg_Tags demo_message) ''account'' = Some ''a; b''" "msg_Params demo_message = [''#x'', '':hello there'']"
    by (simp_all add: demo_message_def)
  from parse_msg_bytes [OF b k] v show ?thesis by auto
qed

section \<open>What a parsed message looks like\<close>

lemma skip_word_first: "skip_word s = Some (w, rest) \<Longrightarrow> CHR '' '' \<notin> set w \<and> (w \<noteq> [] \<longrightarrow> hd w = hd s)"
  using index_byte_Some [of "CHR '' ''" s] by (auto simp: skip_word_def split: option.splits)

lemma hd_trim_left: "trim_left c s \<noteq> [] \<Longrightarrow> hd (trim_left c s) \<noteq> c"
  unfolding trim_left_def by (rule hd_dropWhile)

lemma skip_word_rest: "skip_word s = Some (w, rest) \<Longrightarrow> rest \<noteq> [] \<Longrightarrow> hd rest \<noteq> CHR '' ''"
  using hd_trim_left by (auto simp: skip_word_def split: option.splits)

lemma skip_word_ne: "skip_word s = Some (w, rest) \<Longrightarrow> hd s \<noteq> CHR '' '' \<Longrightarrow> w \<noteq> []"
  using index_byte_Some [of "CHR '' ''" s] by (cases s) (auto simp: skip_word_def split: option.splits if_splits)

definition middle_ok :: "string \<Rightarrow> bool" where
  "middle_ok p = (p \<noteq> [] \<and> hd p \<noteq> CHR '':'' \<and> CHR '' '' \<notin> set p)"

lemma parse_params_normal:
  "s = [] \<or> hd s \<noteq> CHR '' '' \<Longrightarrow> length ps < MaxParams \<Longrightarrow> \<forall>p \<in> set ps. middle_ok p \<Longrightarrow>
   length (parse_params s ps) \<le> MaxParams \<and> (\<forall>p \<in> set (butlast (parse_params s ps)). middle_ok p)"
proof (induction s ps rule: parse_params.induct)
  case (1 s ps)
  consider (stop) "s = []" | (last) "s \<noteq> []" "hd s = CHR '':'' \<or> length ps \<ge> MaxParams - 1 \<or> skip_word s = None"
    | (word) w rest where "s \<noteq> []" "hd s \<noteq> CHR '':''" "\<not> length ps \<ge> MaxParams - 1" "skip_word s = Some (w, rest)"
    by (cases "skip_word s") auto
  then show ?case
  proof cases
    case stop
    with 1 show ?thesis by (simp add: parse_params.simps [of "[]"]) (meson in_set_butlastD)
  next
    case last
    then have "\<exists>q. parse_params s ps = ps @ [q]" by (auto simp: parse_params.simps [of s])
    with 1 show ?thesis by auto
  next
    case word
    then have ne: "hd s \<noteq> CHR '' ''" using "1.prems"(1) by simp
    have w: "middle_ok w"
      using skip_word_first [OF word(4)] skip_word_ne [OF word(4) ne] word by (simp add: middle_ok_def)
    have "parse_params s ps = parse_params rest (ps @ [w])" using word by (simp add: parse_params.simps [of s])
    moreover have "rest = [] \<or> hd rest \<noteq> CHR '' ''" using skip_word_rest [OF word(4)] by blast
    ultimately show ?thesis
      using "1.IH" [OF word(1-3) word(4), of "w" rest] word "1.prems" w by (simp add: MaxParams_def)
  qed
qed

definition message_normal :: "message \<Rightarrow> bool" where
  "message_normal m =
     (valid_command (msg_Command m) \<and> to_upper (msg_Command m) = msg_Command m \<and>
      length (msg_Params m) \<le> MaxParams \<and> (\<forall>p \<in> set (butlast (msg_Params m)). middle_ok p))"

lemma parse_command_normal:
  "parse_command tags pre s \<noteq> Inl ErrTooManyParams \<and> (\<forall>m. parse_command tags pre s = Inr m \<longrightarrow> message_normal m)"
proof -
  obtain cmd rest where sw: "(case skip_word s of None \<Rightarrow> (s, []) | Some p \<Rightarrow> p) = (cmd, rest)" by fastforce
  then have "rest = [] \<or> hd rest \<noteq> CHR '' ''" using skip_word_rest by (auto split: option.splits)
  then have n: "length (parse_params rest []) \<le> MaxParams" "\<forall>p \<in> set (butlast (parse_params rest [])). middle_ok p"
    using parse_params_normal [of rest "[]"] by (simp_all add: MaxParams_def)
  have "valid_command cmd \<Longrightarrow> valid_command (wire_command cmd)" by (rule wire_command_valid)
  moreover have "to_upper (wire_command cmd) = wire_command cmd" by (simp add: wire_command_upper)
  ultimately show ?thesis
    using n by (simp add: parse_command_def sw message_normal_def Let_def wire_command_def [symmetric])
qed

lemma parse_prefix_normal:
  "parse_prefix tags s \<noteq> Inl ErrTooManyParams \<and> (\<forall>m. parse_prefix tags s = Inr m \<longrightarrow> message_normal m)"
  using parse_command_normal by (auto simp: parse_prefix_def split: option.split)

lemma parse_tags_loop_error: "parse_tags_loop ts out = Inl e \<Longrightarrow> e = ErrBadTags"
  by (induction ts out rule: parse_tags_loop.induct) (auto split: if_splits option.splits)

lemma parse_tags_error: "parse_tags b \<noteq> Inl ErrTooManyParams"
  using parse_tags_loop_error [of "split_on CHR '';'' b" "[]" ErrTooManyParams] by (auto simp: parse_tags_def)

text \<open>
  C30: A message that parses is in normal form: a command of letters in upper case or of three digits, at
  most fifteen parameters, and every parameter but the last non-empty, without space and not starting
  with a colon. The check for too many parameters at the end of \<^verbatim>\<open>Parse\<close> never fires.
\<close>

theorem parse_normal:
  "(case parse line of Inr m \<Rightarrow> message_normal m | Inl e \<Rightarrow> e \<noteq> ErrTooManyParams)"
  using parse_prefix_normal parse_tags_error
  by (auto simp: parse_def Let_def split: sum.split option.split)

end
