(* ===== verification/Time_Format.thy ===== *)
theory Time_Format
  imports Channel
begin

text \<open>
  The layouts in which the daemon writes times: what Go's \<^verbatim>\<open>time.Time.Format\<close> prints in UTC for
  \<^verbatim>\<open>2006-01-02T15:04:05.000Z\<close> (the server-time tag), \<^verbatim>\<open>2006-01-02 15:04:05 UTC\<close> (\<^verbatim>\<open>RPL_CREATED\<close>,
  \<^verbatim>\<open>RPL_TIME\<close>, the services), \<^verbatim>\<open>2006-01-02 15:04\<close> (memos) and
  \<^verbatim>\<open>Mon Jan 2 15:04:05 2006 UTC\<close> (\<^verbatim>\<open>WHOWAS\<close>), and \<^verbatim>\<open>Duration.String\<close> of whole seconds. A time is a count
  of nanoseconds since the Unix epoch; the calendar is the proleptic Gregorian one. The daemon is taken
  to run in UTC.
\<close>

record civil =
  cv_year :: int
  cv_month :: int
  cv_day :: int

text \<open>Days since the epoch to a date, counting years from the first of March of year 0.\<close>

definition civil_of_days :: "int \<Rightarrow> civil" where
  "civil_of_days days =
     (let z = days + 719468; era = z div 146097; doe = z mod 146097;
          yoe = (doe - doe div 1460 + doe div 36524 - doe div 146096) div 365;
          doy = doe - (365 * yoe + yoe div 4 - yoe div 100);
          mp = (5 * doy + 2) div 153;
          m = (if mp < 10 then mp + 3 else mp - 9)
      in \<lparr>cv_year = yoe + era * 400 + (if m \<le> 2 then 1 else 0), cv_month = m,
          cv_day = doy - (153 * mp + 2) div 5 + 1\<rparr>)"

definition pad_left :: "nat \<Rightarrow> string \<Rightarrow> string" where
  "pad_left n s = replicate (n - length s) (CHR ''0'') @ s"

definition padded :: "nat \<Rightarrow> int \<Rightarrow> string" where
  "padded n i = pad_left n (itoa_nat (nat i))"

definition day_of :: "time \<Rightarrow> int" where
  "day_of t = unix_seconds t div 86400"

definition second_of_day :: "time \<Rightarrow> int" where
  "second_of_day t = unix_seconds t mod 86400"

definition format_date :: "time \<Rightarrow> string" where
  "format_date t =
     (let d = civil_of_days (day_of t)
      in padded 4 (cv_year d) @ ''-'' @ padded 2 (cv_month d) @ ''-'' @ padded 2 (cv_day d))"

definition format_clock :: "time \<Rightarrow> string" where
  "format_clock t =
     (let s = second_of_day t
      in padded 2 (s div 3600) @ '':'' @ padded 2 (s div 60 mod 60) @ '':'' @ padded 2 (s mod 60))"

definition format_server_time :: "time \<Rightarrow> string" where
  "format_server_time t = format_date t @ ''T'' @ format_clock t @ ''.'' @ padded 3 (t div 1000000 mod 1000) @ ''Z''"

definition format_utc :: "time \<Rightarrow> string" where
  "format_utc t = format_date t @ '' '' @ format_clock t @ '' UTC''"

definition format_minutes :: "time \<Rightarrow> string" where
  "format_minutes t = format_date t @ '' '' @ take 5 (format_clock t)"

definition weekday_name :: "int \<Rightarrow> string" where
  "weekday_name days = [''Thu'', ''Fri'', ''Sat'', ''Sun'', ''Mon'', ''Tue'', ''Wed''] ! nat (days mod 7)"

definition month_name :: "int \<Rightarrow> string" where
  "month_name m =
     [''Jan'', ''Feb'', ''Mar'', ''Apr'', ''May'', ''Jun'', ''Jul'', ''Aug'', ''Sep'', ''Oct'', ''Nov'', ''Dec''] ! nat (m - 1)"

definition format_whowas_time :: "time \<Rightarrow> string" where
  "format_whowas_time t =
     (let d = civil_of_days (day_of t)
      in weekday_name (day_of t) @ '' '' @ month_name (cv_month d) @ '' '' @ format_int (cv_day d) @ '' '' @
         format_clock t @ '' '' @ padded 4 (cv_year d) @ '' UTC'')"

text \<open>\<^verbatim>\<open>Duration.String\<close> on a whole number of seconds.\<close>

definition format_seconds :: "int \<Rightarrow> string" where
  "format_seconds n =
     (let h = n div 3600; m = n div 60 mod 60; s = n mod 60
      in (if h > 0 then format_int h @ ''h'' else []) @
         (if h > 0 \<or> m > 0 then format_int m @ ''m'' else []) @ format_int s @ ''s'')"

lemma format_examples:
  "civil_of_days 19782 = \<lparr>cv_year = 2024, cv_month = 2, cv_day = 29\<rparr>"
  "civil_of_days (- 719162) = \<lparr>cv_year = 1, cv_month = 1, cv_day = 1\<rparr>"
  "format_utc 0 = ''1970-01-01 00:00:00 UTC''"
  "format_seconds 240 = ''4m0s''"
  by code_simp+

end
