(* ===== verification/Storage.thy ===== *)
theory Storage
  imports Channel "HOL-Library.List_Lexorder"
begin

text \<open>
  The persistent store, \<^verbatim>\<open>internal/storage/storage.go\<close>, as the SQLite driver of
  \<^verbatim>\<open>internal/storage/sqlite/*.go\<close> implements it. A table is an association list under its primary key,
  and an operation is the effect of its SQL statement: unique and foreign keys of the migrations are
  checked, a delete cascades where the schema says so, and the driver's \<^verbatim>\<open>isUniqueViolation\<close> maps every
  failed constraint of an insert to \<^verbatim>\<open>ErrConflict\<close>. The database itself does not fail: no I/O errors, no
  busy timeouts. \<^verbatim>\<open>ErrOther\<close> stands for any other error text. Foreign keys are enforced, as they are for
  a database file.
\<close>

datatype storage_error = ErrNotFound | ErrConflict | ErrOther

record operator_rec =
  op_Name :: string
  op_HostMask :: string
  op_PasswordHash :: string
  op_Flags :: "string list"

record account =
  ac_ID :: string
  ac_Username :: string
  ac_PasswordHash :: string
  ac_Email :: string
  ac_Verified :: bool
  ac_CreatedAt :: time
  ac_UpdatedAt :: time

record nick_owner =
  no_Nick :: string
  no_AccountID :: string
  no_Primary :: bool
  no_CreatedAt :: time

record ban_record =
  br_Mask :: string
  br_SetBy :: string
  br_SetAt :: time

record channel_record =
  cr_Name :: string
  cr_Topic :: string
  cr_TopicSetBy :: string
  cr_TopicSetAt :: time
  cr_ModeWord :: string
  cr_Key :: string
  cr_Limit :: int
  cr_Bans :: "ban_record list"
  cr_Exceptions :: "ban_record list"
  cr_Invexes :: "ban_record list"
  cr_Quiets :: "ban_record list"

record registered_channel =
  rc_Channel :: string
  rc_FounderID :: string
  rc_Guard :: bool
  rc_KeepTopic :: bool
  rc_CreatedAt :: time
  rc_UpdatedAt :: time

record memo =
  mm_ID :: string
  mm_SenderID :: string
  mm_RecipientID :: string
  mm_Body :: string
  mm_Read :: bool
  mm_CreatedAt :: time

record audit_event =
  ae_Timestamp :: time
  ae_Type :: string
  ae_Actor :: string
  ae_Target :: string
  ae_Data :: "(string \<times> string list) list"

record store =
  st_operators :: "(string, operator_rec) gomap"
  st_accounts :: "(string, account) gomap"
  st_nickOwners :: "(string, nick_owner) gomap"
  st_channels :: "(string, channel_record) gomap"
  st_regChannels :: "(string, registered_channel) gomap"
  st_access :: "(string \<times> string, string) gomap"
  st_memos :: "(string, memo) gomap"
  st_events :: "audit_event list"

definition empty_store :: store where
  "empty_store = \<lparr>st_operators = [], st_accounts = [], st_nickOwners = [], st_channels = [],
     st_regChannels = [], st_access = [], st_memos = [], st_events = []\<rparr>"

section \<open>Operators\<close>

definition operators_get :: "string \<Rightarrow> store \<Rightarrow> operator_rec option" where
  "operators_get name st = map_of (st_operators st) name"

definition operators_list :: "store \<Rightarrow> operator_rec list" where
  "operators_list st = sort_key op_Name (map snd (st_operators st))"

definition operators_create :: "operator_rec \<Rightarrow> store \<Rightarrow> store \<times> storage_error option" where
  "operators_create op st =
     (if op_Name op = [] then (st, Some ErrOther)
      else if mhas (st_operators st) (op_Name op) then (st, Some ErrConflict)
      else (st\<lparr>st_operators := mput (op_Name op) op (st_operators st)\<rparr>, None))"

definition operators_update :: "operator_rec \<Rightarrow> store \<Rightarrow> store \<times> storage_error option" where
  "operators_update op st =
     (if op_Name op = [] then (st, Some ErrOther)
      else if \<not> mhas (st_operators st) (op_Name op) then (st, Some ErrNotFound)
      else (st\<lparr>st_operators := mput (op_Name op) op (st_operators st)\<rparr>, None))"

definition operators_delete :: "string \<Rightarrow> store \<Rightarrow> store \<times> storage_error option" where
  "operators_delete name st =
     (if mhas (st_operators st) name then (st\<lparr>st_operators := mdel name (st_operators st)\<rparr>, None)
      else (st, Some ErrNotFound))"

section \<open>Accounts and nick owners\<close>

definition accounts_get :: "string \<Rightarrow> store \<Rightarrow> account option" where
  "accounts_get username st = find (\<lambda>a. ac_Username a = username) (map snd (st_accounts st))"

definition accounts_get_by_id :: "string \<Rightarrow> store \<Rightarrow> account option" where
  "accounts_get_by_id i st = map_of (st_accounts st) i"

definition accounts_create :: "account \<Rightarrow> time \<Rightarrow> store \<Rightarrow> store \<times> storage_error option" where
  "accounts_create a now st =
     (if ac_Username a = [] then (st, Some ErrOther)
      else if mhas (st_accounts st) (ac_ID a) \<or> accounts_get (ac_Username a) st \<noteq> None then (st, Some ErrConflict)
      else (st\<lparr>st_accounts := mput (ac_ID a) (a\<lparr>ac_CreatedAt := now, ac_UpdatedAt := now\<rparr>) (st_accounts st)\<rparr>, None))"

definition accounts_update :: "account \<Rightarrow> time \<Rightarrow> store \<Rightarrow> store \<times> storage_error option" where
  "accounts_update a now st =
     (if ac_Username a = [] then (st, Some ErrOther)
      else case accounts_get (ac_Username a) st of
        None \<Rightarrow> (st, Some ErrNotFound)
      | Some old \<Rightarrow>
          (st\<lparr>st_accounts := mput (ac_ID old)
             (old\<lparr>ac_PasswordHash := ac_PasswordHash a, ac_Email := ac_Email a, ac_Verified := ac_Verified a,
                  ac_UpdatedAt := now\<rparr>) (st_accounts st)\<rparr>, None))"

text \<open>
  \<^verbatim>\<open>nick_owners\<close> and \<^verbatim>\<open>channel_access\<close> cascade; a channel registration or a memo that refers to the
  account makes the delete fail.
\<close>

definition accounts_delete :: "string \<Rightarrow> store \<Rightarrow> store \<times> storage_error option" where
  "accounts_delete username st =
     (case accounts_get username st of
        None \<Rightarrow> (st, Some ErrNotFound)
      | Some a \<Rightarrow>
          if list_ex (\<lambda>(_, rc). rc_FounderID rc = ac_ID a) (st_regChannels st) \<or>
             list_ex (\<lambda>(_, m). mm_SenderID m = ac_ID a \<or> mm_RecipientID m = ac_ID a) (st_memos st)
          then (st, Some ErrOther)
          else (st\<lparr>st_accounts := mdel (ac_ID a) (st_accounts st),
                   st_nickOwners := filter (\<lambda>(_, n). no_AccountID n \<noteq> ac_ID a) (st_nickOwners st),
                   st_access := filter (\<lambda>((_, i), _). i \<noteq> ac_ID a) (st_access st)\<rparr>, None))"

definition nick_owners_get :: "string \<Rightarrow> store \<Rightarrow> nick_owner option" where
  "nick_owners_get nick st = map_of (st_nickOwners st) nick"

text \<open>\<^verbatim>\<open>ORDER BY is_primary DESC, nick\<close>.\<close>

definition nick_owners_by_account :: "string \<Rightarrow> store \<Rightarrow> nick_owner list" where
  "nick_owners_by_account i st =
     (let ns = sort_key no_Nick (filter (\<lambda>n. no_AccountID n = i) (map snd (st_nickOwners st)))
      in filter no_Primary ns @ filter (\<lambda>n. \<not> no_Primary n) ns)"

definition nick_owners_create :: "nick_owner \<Rightarrow> store \<Rightarrow> store \<times> storage_error option" where
  "nick_owners_create n st =
     (if no_Nick n = [] then (st, Some ErrOther)
      else if mhas (st_nickOwners st) (no_Nick n) \<or> \<not> mhas (st_accounts st) (no_AccountID n) then (st, Some ErrConflict)
      else (st\<lparr>st_nickOwners := mput (no_Nick n) n (st_nickOwners st)\<rparr>, None))"

definition nick_owners_delete :: "string \<Rightarrow> store \<Rightarrow> store \<times> storage_error option" where
  "nick_owners_delete nick st =
     (if mhas (st_nickOwners st) nick then (st\<lparr>st_nickOwners := mdel nick (st_nickOwners st)\<rparr>, None)
      else (st, Some ErrNotFound))"

section \<open>Channels\<close>

definition channels_get :: "string \<Rightarrow> store \<Rightarrow> channel_record option" where
  "channels_get name st = map_of (st_channels st) name"

definition channels_list :: "store \<Rightarrow> channel_record list" where
  "channels_list st = sort_key cr_Name (map snd (st_channels st))"

text \<open>
  A list entry without a time gets the time of the write. Two entries with the same mask violate the
  primary key of the list's table and roll the whole write back.
\<close>

definition replace_list :: "time \<Rightarrow> ban_record list \<Rightarrow> ban_record list" where
  "replace_list now entries =
     map (\<lambda>e. e\<lparr>br_SetAt := (if br_SetAt e = zero_time then now else br_SetAt e)\<rparr>) entries"

definition channels_upsert :: "channel_record \<Rightarrow> time \<Rightarrow> store \<Rightarrow> store \<times> storage_error option" where
  "channels_upsert r now st =
     (if cr_Name r = [] then (st, Some ErrOther)
      else if \<not> (distinct (map br_Mask (cr_Bans r)) \<and> distinct (map br_Mask (cr_Exceptions r)) \<and>
                 distinct (map br_Mask (cr_Invexes r)) \<and> distinct (map br_Mask (cr_Quiets r)))
      then (st, Some ErrOther)
      else (st\<lparr>st_channels := mput (cr_Name r)
             (r\<lparr>cr_Bans := replace_list now (cr_Bans r), cr_Exceptions := replace_list now (cr_Exceptions r),
                cr_Invexes := replace_list now (cr_Invexes r), cr_Quiets := replace_list now (cr_Quiets r)\<rparr>)
             (st_channels st)\<rparr>, None))"

definition channels_delete :: "string \<Rightarrow> store \<Rightarrow> store \<times> storage_error option" where
  "channels_delete name st =
     (if mhas (st_channels st) name then (st\<lparr>st_channels := mdel name (st_channels st)\<rparr>, None)
      else (st, Some ErrNotFound))"

section \<open>Registered channels\<close>

definition reg_channels_get :: "string \<Rightarrow> store \<Rightarrow> registered_channel option" where
  "reg_channels_get c st = map_of (st_regChannels st) c"

definition reg_channels_create :: "registered_channel \<Rightarrow> time \<Rightarrow> store \<Rightarrow> store \<times> storage_error option" where
  "reg_channels_create r now st =
     (if rc_Channel r = [] then (st, Some ErrOther)
      else if mhas (st_regChannels st) (rc_Channel r) \<or> \<not> mhas (st_accounts st) (rc_FounderID r) then (st, Some ErrConflict)
      else (st\<lparr>st_regChannels :=
               mput (rc_Channel r) (r\<lparr>rc_CreatedAt := now, rc_UpdatedAt := now\<rparr>) (st_regChannels st)\<rparr>, None))"

definition reg_channels_update :: "registered_channel \<Rightarrow> time \<Rightarrow> store \<Rightarrow> store \<times> storage_error option" where
  "reg_channels_update r now st =
     (if rc_Channel r = [] then (st, Some ErrOther)
      else case map_of (st_regChannels st) (rc_Channel r) of
        None \<Rightarrow> (st, Some ErrNotFound)
      | Some old \<Rightarrow>
          if \<not> mhas (st_accounts st) (rc_FounderID r) then (st, Some ErrOther)
          else (st\<lparr>st_regChannels := mput (rc_Channel r)
                 (old\<lparr>rc_FounderID := rc_FounderID r, rc_Guard := rc_Guard r, rc_KeepTopic := rc_KeepTopic r,
                      rc_UpdatedAt := now\<rparr>) (st_regChannels st)\<rparr>, None))"

definition reg_channels_delete :: "string \<Rightarrow> store \<Rightarrow> store \<times> storage_error option" where
  "reg_channels_delete c st =
     (if mhas (st_regChannels st) c
      then (st\<lparr>st_regChannels := mdel c (st_regChannels st),
               st_access := filter (\<lambda>((ch, _), _). ch \<noteq> c) (st_access st)\<rparr>, None)
      else (st, Some ErrNotFound))"

definition access_get :: "string \<Rightarrow> string \<Rightarrow> store \<Rightarrow> string option" where
  "access_get c acct st = map_of (st_access st) (c, acct)"

definition access_set :: "string \<Rightarrow> string \<Rightarrow> string \<Rightarrow> store \<Rightarrow> store \<times> storage_error option" where
  "access_set c acct flags st =
     (if c = [] \<or> acct = [] then (st, Some ErrOther)
      else if \<not> mhas (st_regChannels st) c \<or> \<not> mhas (st_accounts st) acct then (st, Some ErrOther)
      else (st\<lparr>st_access := mput (c, acct) flags (st_access st)\<rparr>, None))"

definition access_delete :: "string \<Rightarrow> string \<Rightarrow> store \<Rightarrow> store \<times> storage_error option" where
  "access_delete c acct st =
     (if mhas (st_access st) (c, acct) then (st\<lparr>st_access := mdel (c, acct) (st_access st)\<rparr>, None)
      else (st, Some ErrNotFound))"

section \<open>Memos and audit events\<close>

definition memos_send :: "memo \<Rightarrow> store \<Rightarrow> store \<times> storage_error option" where
  "memos_send m st =
     (if mm_ID m = [] then (st, Some ErrOther)
      else if mhas (st_memos st) (mm_ID m) \<or> \<not> mhas (st_accounts st) (mm_SenderID m) \<or>
              \<not> mhas (st_accounts st) (mm_RecipientID m) then (st, Some ErrConflict)
      else (st\<lparr>st_memos := mput (mm_ID m) (m\<lparr>mm_Read := False\<rparr>) (st_memos st)\<rparr>, None))"

definition memos_for :: "string \<Rightarrow> store \<Rightarrow> memo list" where
  "memos_for i st = sort_key mm_CreatedAt (filter (\<lambda>m. mm_RecipientID m = i) (map snd (st_memos st)))"

definition memos_get :: "string \<Rightarrow> store \<Rightarrow> memo option" where
  "memos_get i st = map_of (st_memos st) i"

definition memos_mark_read :: "string \<Rightarrow> store \<Rightarrow> store \<times> storage_error option" where
  "memos_mark_read i st =
     (case map_of (st_memos st) i of
        None \<Rightarrow> (st, Some ErrNotFound)
      | Some m \<Rightarrow> (st\<lparr>st_memos := mput i (m\<lparr>mm_Read := True\<rparr>) (st_memos st)\<rparr>, None))"

definition memos_delete :: "string \<Rightarrow> store \<Rightarrow> store \<times> storage_error option" where
  "memos_delete i st =
     (if mhas (st_memos st) i then (st\<lparr>st_memos := mdel i (st_memos st)\<rparr>, None) else (st, Some ErrNotFound))"

definition memos_count_unread :: "string \<Rightarrow> store \<Rightarrow> nat" where
  "memos_count_unread i st = length (filter (\<lambda>m. mm_RecipientID m = i \<and> \<not> mm_Read m) (map snd (st_memos st)))"

definition memos_purge_older :: "time \<Rightarrow> store \<Rightarrow> store \<times> nat" where
  "memos_purge_older before st =
     (let keep = filter (\<lambda>(_, m). mm_CreatedAt m \<ge> before) (st_memos st)
      in (st\<lparr>st_memos := keep\<rparr>, length (st_memos st) - length keep))"

definition events_append :: "audit_event \<Rightarrow> store \<Rightarrow> store" where
  "events_append e st = st\<lparr>st_events := st_events st @ [e]\<rparr>"

section \<open>Referential integrity\<close>

text \<open>
  What the schema promises of every database the operations can produce: keys are the records' own, user
  names are unique, and every reference resolves.
\<close>

definition wf_store :: "store \<Rightarrow> bool" where
  "wf_store st =
     (wf_map (st_operators st) \<and> wf_map (st_accounts st) \<and> wf_map (st_nickOwners st) \<and> wf_map (st_channels st) \<and>
      wf_map (st_regChannels st) \<and> wf_map (st_access st) \<and> wf_map (st_memos st) \<and>
      (\<forall>i a. map_of (st_accounts st) i = Some a \<longrightarrow> ac_ID a = i) \<and>
      (\<forall>i j a b. map_of (st_accounts st) i = Some a \<longrightarrow> map_of (st_accounts st) j = Some b \<longrightarrow>
         ac_Username a = ac_Username b \<longrightarrow> i = j) \<and>
      (\<forall>n r. map_of (st_nickOwners st) n = Some r \<longrightarrow> mhas (st_accounts st) (no_AccountID r)) \<and>
      (\<forall>c r. map_of (st_regChannels st) c = Some r \<longrightarrow> mhas (st_accounts st) (rc_FounderID r)) \<and>
      (\<forall>c i f. map_of (st_access st) (c, i) = Some f \<longrightarrow> mhas (st_regChannels st) c \<and> mhas (st_accounts st) i) \<and>
      (\<forall>i m. map_of (st_memos st) i = Some m \<longrightarrow>
         mhas (st_accounts st) (mm_SenderID m) \<and> mhas (st_accounts st) (mm_RecipientID m)))"

lemma wf_empty_store [invs]: "wf_store empty_store"
  by (simp add: wf_store_def empty_store_def mhas_def)

end
