(* ===== verification/Auth.thy ===== *)
theory Auth
  imports Prelude
begin

text \<open>
  Password verification, \<^verbatim>\<open>internal/auth/password.go\<close>, and the base64 codecs of Go's library it and SASL
  use. The two key derivation functions of \<^verbatim>\<open>golang.org/x/crypto\<close> are parameters: \<open>argon2\<close> takes password,
  salt, iterations, memory, parallelism and key length, \<open>bcrypt\<close> decides whether an encoded hash matches a
  password. Hashing takes the salt as an argument, as it comes from the system's random source.
\<close>

type_synonym argon2_kdf = "string \<Rightarrow> string \<Rightarrow> nat \<Rightarrow> nat \<Rightarrow> nat \<Rightarrow> nat \<Rightarrow> string"
type_synonym bcrypt_check = "string \<Rightarrow> string \<Rightarrow> bool"

section \<open>Base64\<close>

definition b64_alphabet :: string where
  "b64_alphabet = ''ABCDEFGHIJKLMNOPQRSTUVWXYZabcdefghijklmnopqrstuvwxyz0123456789+/''"

definition b64_char :: "nat \<Rightarrow> char" where
  "b64_char n = b64_alphabet ! n"

definition b64_val :: "char \<Rightarrow> nat option" where
  "b64_val c = index_byte c b64_alphabet"

definition byte_of :: "nat \<Rightarrow> char" where
  "byte_of n = char_of (n mod 256)"

definition byte_val :: "char \<Rightarrow> nat" where
  "byte_val c = of_char c"

text \<open>\<^verbatim>\<open>RawStdEncoding\<close>: no padding. \<^verbatim>\<open>DecodeString\<close> skips line breaks and ignores the unused low bits of
  the last character.\<close>

fun b64_encode :: "string \<Rightarrow> string" where
  "b64_encode [] = []"
| "b64_encode [a] = [b64_char (byte_val a div 4), b64_char (byte_val a mod 4 * 16)]"
| "b64_encode [a, b] =
     [b64_char (byte_val a div 4), b64_char (byte_val a mod 4 * 16 + byte_val b div 16), b64_char (byte_val b mod 16 * 4)]"
| "b64_encode (a # b # c # s) =
     [b64_char (byte_val a div 4), b64_char (byte_val a mod 4 * 16 + byte_val b div 16),
      b64_char (byte_val b mod 16 * 4 + byte_val c div 64), b64_char (byte_val c mod 64)] @ b64_encode s"

fun b64_decode_vals :: "nat list \<Rightarrow> string option" where
  "b64_decode_vals [] = Some []"
| "b64_decode_vals [a] = None"
| "b64_decode_vals [a, b] = Some [byte_of (a * 4 + b div 16)]"
| "b64_decode_vals [a, b, c] = Some [byte_of (a * 4 + b div 16), byte_of (b mod 16 * 16 + c div 4)]"
| "b64_decode_vals (a # b # c # d # s) =
     map_option (\<lambda>t. [byte_of (a * 4 + b div 16), byte_of (b mod 16 * 16 + c div 4), byte_of (c mod 4 * 64 + d)] @ t)
       (b64_decode_vals s)"

definition drop_newlines :: "string \<Rightarrow> string" where
  "drop_newlines s = filter (\<lambda>c. c \<noteq> CHR 0x0A \<and> c \<noteq> CHR 0x0D) s"

definition b64_chars_vals :: "string \<Rightarrow> nat list option" where
  "b64_chars_vals s = (if list_all (\<lambda>c. b64_val c \<noteq> None) s then Some (map (the \<circ> b64_val) s) else None)"

definition b64_decode_raw :: "string \<Rightarrow> string option" where
  "b64_decode_raw s = Option.bind (b64_chars_vals (drop_newlines s)) b64_decode_vals"

text \<open>\<^verbatim>\<open>StdEncoding\<close>: one or two equals signs fill the last group of four.\<close>

definition b64_decode_std :: "string \<Rightarrow> string option" where
  "b64_decode_std s0 =
     (let s = drop_newlines s0 in
      if length s mod 4 \<noteq> 0 then None
      else b64_decode_raw (if has_suffix ''=='' s then take (length s - 2) s
                           else if has_suffix ''='' s then take (length s - 1) s else s))"

section \<open>Scanning the parameters of a hash\<close>

text \<open>
  \<^verbatim>\<open>fmt.Sscanf\<close> with literals and \<^verbatim>\<open>%d\<close>: a literal must match, a number is a run of digits after optional
  blanks and must fit its type, and input after the last item is ignored. The version is a signed integer.
\<close>

definition scan_lit :: "string \<Rightarrow> string \<Rightarrow> string option" where
  "scan_lit l s = (if has_prefix l s then Some (drop (length l) s) else None)"

definition scan_uint :: "nat \<Rightarrow> string \<Rightarrow> (nat \<times> string) option" where
  "scan_uint bound s0 =
     (let s = dropWhile (\<lambda>c. c = CHR '' '' \<or> c = CHR 0x09 \<or> c = CHR 0x0D) s0; ds = takeWhile is_digit s; n = digits_val ds
      in if ds = [] \<or> n \<ge> bound then None else Some (n, dropWhile is_digit s))"

definition scan_int :: "string \<Rightarrow> (int \<times> string) option" where
  "scan_int s0 =
     (let s = dropWhile (\<lambda>c. c = CHR '' '' \<or> c = CHR 0x09 \<or> c = CHR 0x0D) s0;
          (neg, t) = (case s of [] \<Rightarrow> (False, s)
            | c # cs \<Rightarrow> if c = CHR ''-'' then (True, cs) else if c = CHR ''+'' then (False, cs) else (False, s));
          ds = takeWhile is_digit t; i = (if neg then - int (digits_val ds) else int (digits_val ds))
      in if ds = [] \<or> i < - (2 ^ 63) \<or> i \<ge> 2 ^ 63 then None else Some (i, dropWhile is_digit t))"

definition scan_version :: "string \<Rightarrow> int option" where
  "scan_version s = Option.bind (scan_lit ''v='' s) (\<lambda>s. map_option fst (scan_int s))"

definition scan_params :: "string \<Rightarrow> (nat \<times> nat \<times> nat) option" where
  "scan_params s =
     Option.bind (scan_lit ''m='' s) (\<lambda>s. Option.bind (scan_uint (2 ^ 32) s) (\<lambda>(m, s).
     Option.bind (scan_lit '',t='' s) (\<lambda>s. Option.bind (scan_uint (2 ^ 32) s) (\<lambda>(t, s).
     Option.bind (scan_lit '',p='' s) (\<lambda>s. Option.bind (scan_uint 256 s) (\<lambda>(p, s). Some (m, t, p)))))))"

section \<open>Hash and verify\<close>

record argon2id_params =
  ap_MemoryKiB :: nat
  ap_Iterations :: nat
  ap_Parallelism :: nat
  ap_SaltLength :: nat
  ap_KeyLength :: nat

definition default_argon2id_params :: argon2id_params where
  "default_argon2id_params =
     \<lparr>ap_MemoryKiB = 64 * 1024, ap_Iterations = 3, ap_Parallelism = 2, ap_SaltLength = 16, ap_KeyLength = 32\<rparr>"

definition with_argon2id_defaults :: "argon2id_params \<Rightarrow> argon2id_params" where
  "with_argon2id_defaults p =
     (let d = default_argon2id_params in
      \<lparr>ap_MemoryKiB = (if ap_MemoryKiB p = 0 then ap_MemoryKiB d else ap_MemoryKiB p),
       ap_Iterations = (if ap_Iterations p = 0 then ap_Iterations d else ap_Iterations p),
       ap_Parallelism = (if ap_Parallelism p = 0 then ap_Parallelism d else ap_Parallelism p),
       ap_SaltLength = (if ap_SaltLength p = 0 then ap_SaltLength d else ap_SaltLength p),
       ap_KeyLength = (if ap_KeyLength p = 0 then ap_KeyLength d else ap_KeyLength p)\<rparr>)"

definition hash_argon2id :: "argon2_kdf \<Rightarrow> string \<Rightarrow> string \<Rightarrow> argon2id_params \<Rightarrow> string" where
  "hash_argon2id argon2 salt password p =
     (let key = argon2 password salt (ap_Iterations p) (ap_MemoryKiB p) (ap_Parallelism p) (ap_KeyLength p)
      in ''$argon2id$v=19$m='' @ itoa_nat (ap_MemoryKiB p) @ '',t='' @ itoa_nat (ap_Iterations p) @ '',p='' @
         itoa_nat (ap_Parallelism p) @ ''$'' @ b64_encode salt @ ''$'' @ b64_encode key)"

definition verify_argon2id :: "argon2_kdf \<Rightarrow> string \<Rightarrow> string \<Rightarrow> bool" where
  "verify_argon2id argon2 encoded password =
     (let parts = split_on CHR ''$'' encoded in
      if length parts \<noteq> 6 then False
      else (case (scan_version (parts ! 2), scan_params (parts ! 3), b64_decode_raw (parts ! 4), b64_decode_raw (parts ! 5)) of
              (Some _, Some (m, t, p), Some salt, Some want) \<Rightarrow> argon2 password salt t m p (length want) = want
            | _ \<Rightarrow> False))"

text \<open>\<^const>\<open>None\<close> is \<^verbatim>\<open>ErrUnknownAlgorithm\<close>.\<close>

definition auth_verify :: "argon2_kdf \<Rightarrow> bcrypt_check \<Rightarrow> string \<Rightarrow> string \<Rightarrow> bool option" where
  "auth_verify argon2 bcrypt encoded password =
     (if has_prefix ''$argon2id$'' encoded then Some (verify_argon2id argon2 encoded password)
      else if has_prefix ''$2a$'' encoded \<or> has_prefix ''$2b$'' encoded \<or> has_prefix ''$2y$'' encoded
      then Some (bcrypt encoded password)
      else None)"

section \<open>Base64 round trip\<close>

lemma b64_alphabet_facts: "distinct b64_alphabet" "length b64_alphabet = 64"
  "CHR 0x0A \<notin> set b64_alphabet" "CHR 0x0D \<notin> set b64_alphabet" "CHR ''$'' \<notin> set b64_alphabet"
  by code_simp+

lemma index_byte_nth: "distinct s \<Longrightarrow> n < length s \<Longrightarrow> index_byte (s ! n) s = Some n"
proof (induction s arbitrary: n)
  case (Cons x s)
  then show ?case by (cases n) auto
qed simp

lemma b64_val_char [simp]: "n < 64 \<Longrightarrow> b64_val (b64_char n) = Some n"
  using index_byte_nth b64_alphabet_facts by (simp add: b64_val_def b64_char_def)

lemma b64_char_in: "n < 64 \<Longrightarrow> b64_char n \<in> set b64_alphabet"
  by (simp add: b64_char_def b64_alphabet_facts)

lemma byte_val_less [simp]: "byte_val c < 256"
  by (simp add: byte_val_def)

lemma byte_of_val [simp]: "byte_of (byte_val c) = c"
  by (simp add: byte_of_def byte_val_def)

lemma byte_parts:
  "byte_val a div 4 < 64" "byte_val a mod 4 * 16 < 64" "byte_val a mod 4 * 16 + byte_val b div 16 < 64"
  "byte_val b mod 16 * 4 < 64" "byte_val b mod 16 * 4 + byte_val c div 64 < 64" "byte_val c mod 64 < 64"
  using byte_val_less [of a] byte_val_less [of b] byte_val_less [of c] by (simp_all add: less_mult_imp_div_less; linarith)+

text \<open>What the decoder reads back of each group of characters.\<close>

lemma six_bits:
  "byte_val a div 4 * 4 + (byte_val a mod 4 * 16 + byte_val b div 16) div 16 = byte_val a"
  "(byte_val a mod 4 * 16 + byte_val b div 16) mod 16 * 16 + (byte_val b mod 16 * 4 + byte_val c div 64) div 4 = byte_val b"
  "(byte_val b mod 16 * 4 + byte_val c div 64) mod 4 * 64 + byte_val c mod 64 = byte_val c"
  "byte_val a div 4 * 4 + byte_val a mod 4 * 16 div 16 = byte_val a"
  "(byte_val a mod 4 * 16 + byte_val b div 16) mod 16 * 16 + byte_val b mod 16 * 4 div 4 = byte_val b"
proof -
  have b: "byte_val b div 16 < 16" and c: "byte_val c div 64 < 4"
    using byte_val_less [of b] byte_val_less [of c] by (simp_all add: less_mult_imp_div_less)
  have q: "(byte_val a mod 4 * 16 + byte_val b div 16) div 16 = byte_val a mod 4" "(byte_val a mod 4 * 16 + byte_val b div 16) mod 16 = byte_val b div 16"
    "(byte_val b mod 16 * 4 + byte_val c div 64) div 4 = byte_val b mod 16" "(byte_val b mod 16 * 4 + byte_val c div 64) mod 4 = byte_val c div 64"
    using b c by simp_all
  show "byte_val a div 4 * 4 + (byte_val a mod 4 * 16 + byte_val b div 16) div 16 = byte_val a"
    "(byte_val a mod 4 * 16 + byte_val b div 16) mod 16 * 16 + (byte_val b mod 16 * 4 + byte_val c div 64) div 4 = byte_val b"
    "(byte_val b mod 16 * 4 + byte_val c div 64) mod 4 * 64 + byte_val c mod 64 = byte_val c"
    "byte_val a div 4 * 4 + byte_val a mod 4 * 16 div 16 = byte_val a"
    "(byte_val a mod 4 * 16 + byte_val b div 16) mod 16 * 16 + byte_val b mod 16 * 4 div 4 = byte_val b"
    by (simp_all add: q mod_less [OF b] mod_less [OF c])
qed

lemma b64_encode_set: "set (b64_encode s) \<subseteq> set b64_alphabet"
  by (induction s rule: b64_encode.induct) (simp_all add: b64_char_in byte_parts)

fun b64_vals :: "string \<Rightarrow> nat list" where
  "b64_vals [] = []"
| "b64_vals [a] = [byte_val a div 4, byte_val a mod 4 * 16]"
| "b64_vals [a, b] = [byte_val a div 4, byte_val a mod 4 * 16 + byte_val b div 16, byte_val b mod 16 * 4]"
| "b64_vals (a # b # c # s) =
     [byte_val a div 4, byte_val a mod 4 * 16 + byte_val b div 16, byte_val b mod 16 * 4 + byte_val c div 64, byte_val c mod 64] @ b64_vals s"

lemma b64_encode_vals: "b64_encode s = map b64_char (b64_vals s)"
  by (induction s rule: b64_vals.induct) simp_all

lemma b64_vals_less: "n \<in> set (b64_vals s) \<Longrightarrow> n < 64"
  by (induction s rule: b64_vals.induct) (auto simp: byte_parts)

lemma b64_decode_vals_ok: "b64_decode_vals (b64_vals s) = Some s"
  by (induction s rule: b64_vals.induct) (simp_all only: b64_vals.simps b64_decode_vals.simps append_Cons append_Nil
      six_bits byte_of_val option.map)

lemma b64_chars_vals_ok: "b64_chars_vals (b64_encode s) = Some (b64_vals s)"
proof -
  have "map (the \<circ> b64_val \<circ> b64_char) (b64_vals s) = b64_vals s"
    by (rule map_idI) (simp add: b64_vals_less)
  moreover have "list_all (\<lambda>c. b64_val c \<noteq> None) (map b64_char (b64_vals s))"
    by (auto simp: list_all_iff b64_vals_less)
  ultimately show ?thesis by (simp add: b64_chars_vals_def b64_encode_vals)
qed

lemma b64_roundtrip: "b64_decode_raw (b64_encode s) = Some s"
proof -
  have "drop_newlines (b64_encode s) = b64_encode s"
    using b64_encode_set [of s] b64_alphabet_facts by (auto simp: drop_newlines_def intro!: filter_True)
  then show ?thesis by (simp add: b64_decode_raw_def b64_chars_vals_ok b64_decode_vals_ok)
qed

section \<open>Hash round trip\<close>

lemma digit_not: "is_digit c \<Longrightarrow> c \<noteq> CHR '' '' \<and> c \<noteq> CHR 0x09 \<and> c \<noteq> CHR 0x0D \<and> c \<noteq> CHR '','' \<and> c \<noteq> CHR ''$''"
proof -
  have "\<forall>c. is_digit c \<longrightarrow> c \<noteq> CHR '' '' \<and> c \<noteq> CHR 0x09 \<and> c \<noteq> CHR 0x0D \<and> c \<noteq> CHR '','' \<and> c \<noteq> CHR ''$''" by code_simp
  then show "is_digit c \<Longrightarrow> c \<noteq> CHR '' '' \<and> c \<noteq> CHR 0x09 \<and> c \<noteq> CHR 0x0D \<and> c \<noteq> CHR '','' \<and> c \<noteq> CHR ''$''" by blast
qed

lemma itoa_digits: "\<forall>c \<in> set (itoa_nat n). is_digit c"
  using itoa_nat_digits [of n] by (simp add: list_all_iff)

lemma scan_uint_itoa:
  assumes "n < bound" "rest = [] \<or> \<not> is_digit (hd rest)"
  shows "scan_uint bound (itoa_nat n @ rest) = Some (n, rest)"
proof -
  have "itoa_nat n \<noteq> []" "is_digit (hd (itoa_nat n))" using itoa_nat_digits [of n] by (auto simp: list_all_iff)
  then have "dropWhile (\<lambda>c. c = CHR '' '' \<or> c = CHR 0x09 \<or> c = CHR 0x0D) (itoa_nat n @ rest) = itoa_nat n @ rest"
    using digit_not [of "hd (itoa_nat n)"] by (cases "itoa_nat n") auto
  moreover have "takeWhile is_digit (itoa_nat n @ rest) = itoa_nat n" "dropWhile is_digit (itoa_nat n @ rest) = rest"
    using itoa_digits [of n] assms(2) by (cases rest; simp)+
  ultimately show ?thesis using assms(1) \<open>itoa_nat n \<noteq> []\<close> by (simp add: scan_uint_def Let_def itoa_nat_val)
qed

lemma scan_lit_append: "scan_lit l (l @ s) = Some s"
  by (simp add: scan_lit_def has_prefix_def)

lemma scan_params_print:
  assumes "m < 2 ^ 32" "t < 2 ^ 32" "p < 256"
  shows "scan_params (''m='' @ itoa_nat m @ '',t='' @ itoa_nat t @ '',p='' @ itoa_nat p) = Some (m, t, p)"
proof -
  have nd: "\<not> is_digit CHR '',''" by code_simp
  have "scan_uint (2 ^ 32) (itoa_nat m @ '',t='' @ itoa_nat t @ '',p='' @ itoa_nat p) = Some (m, '',t='' @ itoa_nat t @ '',p='' @ itoa_nat p)"
    "scan_uint (2 ^ 32) (itoa_nat t @ '',p='' @ itoa_nat p) = Some (t, '',p='' @ itoa_nat p)"
    "scan_uint 256 (itoa_nat p) = Some (p, [])"
    using scan_uint_itoa [OF assms(1)] scan_uint_itoa [OF assms(2)] scan_uint_itoa [OF assms(3), of "[]"] nd by simp_all
  then show ?thesis unfolding scan_params_def by (simp only: scan_lit_append bind.simps prod.case)
qed

lemma itoa_no_dollar: "CHR ''$'' \<notin> set (itoa_nat n)"
  using itoa_digits [of n] digit_not by blast

lemma b64_no_dollar: "CHR ''$'' \<notin> set (b64_encode s)"
  using b64_encode_set [of s] b64_alphabet_facts by auto

lemma hash_split:
  "split_on CHR ''$'' (hash_argon2id argon2 salt password p) =
     ['''', ''argon2id'', ''v=19'',
      ''m='' @ itoa_nat (ap_MemoryKiB p) @ '',t='' @ itoa_nat (ap_Iterations p) @ '',p='' @ itoa_nat (ap_Parallelism p),
      b64_encode salt,
      b64_encode (argon2 password salt (ap_Iterations p) (ap_MemoryKiB p) (ap_Parallelism p) (ap_KeyLength p))]"
  (is "_ = [_, _, _, ?params, ?salt, ?key]")
proof -
  have "hash_argon2id argon2 salt password p = join_with ''$'' ['''', ''argon2id'', ''v=19'', ?params, ?salt, ?key]"
    by (simp add: hash_argon2id_def Let_def)
  moreover have "\<forall>x \<in> set ['''', ''argon2id'', ''v=19'', ?params, ?salt, ?key]. CHR ''$'' \<notin> set x"
    by (simp add: itoa_no_dollar b64_no_dollar)
  ultimately show ?thesis by (simp only: split_on_join list.distinct not_False_eq_True)
qed

text \<open>A password verifies against an argon2id hash exactly when the key derivation gives, under the hash's
  own parameters and salt, the key the hash was made with; in particular the password the hash was made
  from always verifies. The derivation is the library's and returns keys of the length asked for.
\<close>

theorem verify_hash:
  assumes "\<And>pw sl t m q n. length (argon2 pw sl t m q n) = n"
    and "ap_MemoryKiB p < 2 ^ 32" "ap_Iterations p < 2 ^ 32" "ap_Parallelism p < 256"
  defines "derive pw salt \<equiv> argon2 pw salt (ap_Iterations p) (ap_MemoryKiB p) (ap_Parallelism p) (ap_KeyLength p)"
  shows "auth_verify argon2 bcrypt (hash_argon2id argon2 salt password p) attempt =
    Some (derive attempt salt = derive password salt)"
proof -
  have pre: "has_prefix ''$argon2id$'' (hash_argon2id argon2 salt password p)"
    by (simp add: has_prefix_def hash_argon2id_def Let_def)
  have ver: "scan_version ''v=19'' = Some 19" by code_simp
  have "verify_argon2id argon2 (hash_argon2id argon2 salt password p) attempt =
      (derive attempt salt = derive password salt)"
    unfolding verify_argon2id_def Let_def hash_split
    by (simp add: ver scan_params_print [OF assms(2-4), simplified] b64_roundtrip assms(1) derive_def)
  with pre show ?thesis by (simp add: auth_verify_def)
qed

definition toy_kdf :: argon2_kdf where
  "toy_kdf pw sl t m q n = take n (pw @ sl @ replicate n (CHR ''x''))"

lemma verify_hash_witness:
  "auth_verify toy_kdf (\<lambda>_ _. False) (hash_argon2id toy_kdf ''salt'' ''secret'' default_argon2id_params) ''secret'' = Some True \<and>
   auth_verify toy_kdf (\<lambda>_ _. False) (hash_argon2id toy_kdf ''salt'' ''secret'' default_argon2id_params) ''guess'' = Some False"
proof -
  have l: "length (toy_kdf pw sl t m q n) = n" for pw sl t m q n by (simp add: toy_kdf_def)
  have b: "ap_MemoryKiB default_argon2id_params < 2 ^ 32" "ap_Iterations default_argon2id_params < 2 ^ 32"
    "ap_Parallelism default_argon2id_params < 256"
    by (simp_all add: default_argon2id_params_def)
  have ne: "toy_kdf ''guess'' ''salt'' (ap_Iterations default_argon2id_params) (ap_MemoryKiB default_argon2id_params)
      (ap_Parallelism default_argon2id_params) (ap_KeyLength default_argon2id_params) \<noteq>
    toy_kdf ''secret'' ''salt'' (ap_Iterations default_argon2id_params) (ap_MemoryKiB default_argon2id_params)
      (ap_Parallelism default_argon2id_params) (ap_KeyLength default_argon2id_params)"
    by (simp add: toy_kdf_def default_argon2id_params_def)
  note v = verify_hash [of toy_kdf, OF l b, of "\<lambda>_ _. False" "''salt''" "''secret''"]
  show ?thesis unfolding v using ne by (simp only: simp_thms)
qed

end
