(* ===== verification/Flood.thy ===== *)
theory Flood
  imports Channel
begin

text \<open>
  The token bucket of \<^verbatim>\<open>internal/server/floodcontrol.go\<close>. Tokens are counted in billionths, so that a
  refill of whole nanoseconds at a whole rate is exact; the source computes the same amounts in \<^verbatim>\<open>float64\<close>,
  whose rounding is not modelled. The clock is the argument \<open>now\<close>.
\<close>

abbreviation (input) token :: int where
  "token \<equiv> 1000000000"

record token_bucket =
  tb_burst :: int
  tb_refillRate :: int
  tb_available :: int
  tb_lastRefill :: time

definition new_token_bucket :: "int \<Rightarrow> int \<Rightarrow> time \<Rightarrow> token_bucket" where
  "new_token_bucket burst refillPerSecond now =
     (let b = (if burst \<le> 0 then 1 else burst); r = (if refillPerSecond \<le> 0 then 1 else refillPerSecond)
      in \<lparr>tb_burst = b, tb_refillRate = r, tb_available = b * token, tb_lastRefill = now\<rparr>)"

definition bucket_refill :: "time \<Rightarrow> token_bucket \<Rightarrow> token_bucket" where
  "bucket_refill now b =
     (let elapsed = now - tb_lastRefill b in
      if elapsed > 0 then
        b\<lparr>tb_available := min (tb_available b + elapsed * tb_refillRate b) (tb_burst b * token), tb_lastRefill := now\<rparr>
      else b)"

definition bucket_take :: "time \<Rightarrow> token_bucket \<Rightarrow> token_bucket \<times> bool" where
  "bucket_take now b =
     (let b1 = bucket_refill now b in
      if tb_available b1 < token then (b1, False) else (b1\<lparr>tb_available := tb_available b1 - token\<rparr>, True))"

definition wf_bucket :: "token_bucket \<Rightarrow> bool" where
  "wf_bucket b =
     (1 \<le> tb_burst b \<and> 1 \<le> tb_refillRate b \<and> 0 \<le> tb_available b \<and> tb_available b \<le> tb_burst b * token)"

lemma wf_new_bucket [invs]: "wf_bucket (new_token_bucket b r t)"
  by (simp add: wf_bucket_def new_token_bucket_def Let_def)

lemma wf_bucket_refill: "wf_bucket b \<Longrightarrow> wf_bucket (bucket_refill t b)"
  by (auto simp: wf_bucket_def bucket_refill_def Let_def)

lemma wf_bucket_take [invs]: "wf_bucket b \<Longrightarrow> wf_bucket (fst (bucket_take t b))"
  using wf_bucket_refill [of b t] by (auto simp: wf_bucket_def bucket_take_def Let_def)

lemma bucket_frames [simp]:
  "tb_burst (bucket_refill t b) = tb_burst b" "tb_refillRate (bucket_refill t b) = tb_refillRate b"
  "tb_burst (fst (bucket_take t b)) = tb_burst b" "tb_refillRate (fst (bucket_take t b)) = tb_refillRate b"
  "tb_lastRefill (fst (bucket_take t b)) = max t (tb_lastRefill b)"
  by (auto simp: bucket_take_def bucket_refill_def Let_def)

text \<open>A run of takes at the given times, with the outcome of each.\<close>

fun bucket_run :: "time list \<Rightarrow> token_bucket \<Rightarrow> bool list" where
  "bucket_run [] b = []"
| "bucket_run (t # ts) b = (let (b1, ok) = bucket_take t b in ok # bucket_run ts b1)"

lemma take_budget:
  "snd (bucket_take t b) \<Longrightarrow>
     tb_available (fst (bucket_take t b)) + token \<le> tb_available b + tb_refillRate b * (max t (tb_lastRefill b) - tb_lastRefill b)"
  "\<not> snd (bucket_take t b) \<Longrightarrow>
     tb_available (fst (bucket_take t b)) \<le> tb_available b + tb_refillRate b * (max t (tb_lastRefill b) - tb_lastRefill b)"
  by (auto simp: bucket_take_def bucket_refill_def Let_def max_def algebra_simps split: if_splits)

lemma run_budget:
  assumes "wf_bucket b" "\<forall>t \<in> set ts. t \<le> e" "tb_lastRefill b \<le> e"
  shows "int (length (filter (\<lambda>ok. ok) (bucket_run ts b))) * token \<le> tb_available b + tb_refillRate b * (e - tb_lastRefill b)"
  using assms
proof (induction ts arbitrary: b)
  case Nil
  then show ?case by (simp add: wf_bucket_def)
next
  case (Cons t ts)
  let ?b1 = "fst (bucket_take t b)" and ?ok = "snd (bucket_take t b)" and ?l = "max t (tb_lastRefill b)"
  have "tb_lastRefill ?b1 \<le> e" using Cons.prems by simp
  then have ih: "int (length (filter (\<lambda>ok. ok) (bucket_run ts ?b1))) * token \<le> tb_available ?b1 + tb_refillRate b * (e - ?l)"
    using Cons.IH [of ?b1] Cons.prems wf_bucket_take by simp
  have "tb_refillRate b * (?l - tb_lastRefill b) + tb_refillRate b * (e - ?l) = tb_refillRate b * (e - tb_lastRefill b)"
    by (simp add: algebra_simps)
  moreover have "(if ?ok then token else 0) + tb_available ?b1 \<le> tb_available b + tb_refillRate b * (?l - tb_lastRefill b)"
    using take_budget [of t b] by auto
  ultimately show ?case using ih by (cases "bucket_take t b") (auto simp: algebra_simps)
qed

text \<open>Message times that leave a refill interval after \<open>prev\<close> and after each other.\<close>

fun paced :: "int \<Rightarrow> time \<Rightarrow> time list \<Rightarrow> bool" where
  "paced rate prev [] = True"
| "paced rate prev (t # ts) = (token \<le> (t - prev) * rate \<and> paced rate t ts)"

lemma paced_take:
  assumes "wf_bucket b" "token \<le> (t - tb_lastRefill b) * tb_refillRate b"
  shows "snd (bucket_take t b)"
proof -
  have "0 < t - tb_lastRefill b"
  proof (rule ccontr)
    assume "\<not> 0 < t - tb_lastRefill b"
    then have "(t - tb_lastRefill b) * tb_refillRate b \<le> 0"
      using assms(1) by (intro mult_nonpos_nonneg) (simp_all add: wf_bucket_def)
    with assms(2) show False by simp
  qed
  then show ?thesis using assms by (auto simp: bucket_take_def bucket_refill_def Let_def wf_bucket_def)
qed

lemma paced_run:
  "wf_bucket b \<Longrightarrow> paced (tb_refillRate b) (tb_lastRefill b) ts \<Longrightarrow> list_all (\<lambda>ok. ok) (bucket_run ts b)"
proof (induction ts arbitrary: b)
  case (Cons t ts)
  let ?b1 = "fst (bucket_take t b)"
  have ok: "snd (bucket_take t b)" using Cons.prems paced_take by simp
  have "tb_lastRefill b \<le> t"
  proof (rule ccontr)
    assume "\<not> tb_lastRefill b \<le> t"
    then have "(t - tb_lastRefill b) * tb_refillRate b \<le> 0"
      using Cons.prems(1) by (intro mult_nonpos_nonneg) (simp_all add: wf_bucket_def)
    with Cons.prems(2) show False by simp
  qed
  then have "paced (tb_refillRate ?b1) (tb_lastRefill ?b1) ts" using Cons.prems(2) by simp
  then have "list_all (\<lambda>ok. ok) (bucket_run ts ?b1)" using Cons.IH Cons.prems(1) wf_bucket_take by blast
  with ok show ?case by (cases "bucket_take t b") simp
qed simp

text \<open>
  C38: Whatever the times of its messages, a connection gets at most the burst plus the refill rate times
  the elapsed seconds of them past flood control, and one that leaves a refill interval between messages
  loses none.
\<close>

theorem flood_bounds:
  assumes "1 \<le> burst" "1 \<le> rate" "start \<le> e" "\<forall>t \<in> set ts. t \<le> e"
  shows "int (length (filter (\<lambda>ok. ok) (bucket_run ts (new_token_bucket burst rate start)))) * token
      \<le> burst * token + rate * (e - start) \<and>
    (paced rate start ts \<longrightarrow> list_all (\<lambda>ok. ok) (bucket_run ts (new_token_bucket burst rate start)))"
proof -
  let ?b = "new_token_bucket burst rate start"
  have b: "tb_available ?b = burst * token" "tb_refillRate ?b = rate" "tb_lastRefill ?b = start"
    using assms(1,2) by (simp_all add: new_token_bucket_def Let_def)
  have "int (length (filter (\<lambda>ok. ok) (bucket_run ts ?b))) * token \<le> burst * token + rate * (e - start)"
    using run_budget [OF wf_new_bucket, of ts e burst rate start] assms(3,4) b by simp
  moreover have "paced rate start ts \<Longrightarrow> list_all (\<lambda>ok. ok) (bucket_run ts ?b)"
    using paced_run [OF wf_new_bucket, of burst rate start ts] b by simp
  ultimately show ?thesis by blast
qed

lemma flood_bounds_witness:
  "int (length (filter (\<lambda>ok. ok) (bucket_run [0, 0, 0, 500000000] (new_token_bucket 2 1 0)))) * token \<le> 2 * token + 500000000 \<and>
   list_all (\<lambda>ok. ok) (bucket_run [1000000000, 2000000000] (new_token_bucket 2 1 0))"
proof
  show "int (length (filter (\<lambda>ok. ok) (bucket_run [0, 0, 0, 500000000] (new_token_bucket 2 1 0)))) * token \<le> 2 * token + 500000000"
    using flood_bounds [of 2 1 0 500000000 "[0, 0, 0, 500000000]"] by simp
  have "paced 1 0 [1000000000, 2000000000]" by simp
  then show "list_all (\<lambda>ok. ok) (bucket_run [1000000000, 2000000000] (new_token_bucket 2 1 0))"
    using flood_bounds [of 2 1 0 2000000000 "[1000000000, 2000000000]"] by simp
qed

end
