(* ===== verification/Server_State.thy ===== *)
theory Server_State
  imports World History Message Time_Format Storage Auth Flood
begin

text \<open>
  The state of the daemon that the command handlers share: \<^verbatim>\<open>internal/server/server.go\<close>,
  \<^verbatim>\<open>conn.go\<close>, \<^verbatim>\<open>caps.go\<close>, \<^verbatim>\<open>audit.go\<close>, and the registries of \<^verbatim>\<open>federation.go\<close>.

  \<^item> A connection is a \<open>cid\<close> into \<open>sv_heap\<close>; the registry \<open>sv_conns\<close> maps the ID of a registered user
    to it. \<open>cn_out\<close> is the bounded outbound channel, drained by the write loop; \<open>cn_cancel\<close> is the cause
    the context was cancelled with, the first one to be given.
  \<^item> A virtual member is a Lua bot with the messages handed to it, or one of the three services.
  \<^item> A federation link is the list of messages handed to its \<^verbatim>\<open>Send\<close>.
  \<^item> A handler runs to its end on one state: the interleaving of handlers of different connections is a
    sequence of such runs. \<open>sv_now\<close> is what the clock returns during the run.
  \<^item> Log output is not modelled.
\<close>

type_synonym cid = nat

section \<open>Configuration\<close>

record limits =
  lm_NickLength :: int
  lm_ChannelLength :: int
  lm_TopicLength :: int
  lm_AwayLength :: int
  lm_KickReasonLength :: int
  lm_PingIntervalSeconds :: int
  lm_PingTimeoutSeconds :: int
  lm_MessageBurst :: int
  lm_MessageRefillPerSecond :: int
  lm_MessageViolationsToKick :: int
  lm_WhowasHistory :: int

text \<open>The two key derivation functions stand beside the values of the configuration file.\<close>

record config =
  cf_Name :: string
  cf_Network :: string
  cf_Description :: string
  cf_ClientPassword :: string
  cf_AdminName :: string
  cf_AdminEmail :: string
  cf_Limits :: limits
  cf_BroadcastMode :: string
  cf_argon2 :: argon2_kdf
  cf_bcrypt :: bcrypt_check

section \<open>Connections\<close>

record pending =
  pd_nick :: string
  pd_user :: string
  pd_realname :: string
  pd_password :: string
  pd_passVersion :: string
  pd_passFlags :: string
  pd_nickSet :: bool
  pd_userSet :: bool
  pd_capNegotiating :: bool
  pd_capEnded :: bool
  pd_account :: string

definition zero_pending :: pending where
  "zero_pending = \<lparr>pd_nick = [], pd_user = [], pd_realname = [], pd_password = [], pd_passVersion = [],
     pd_passFlags = [], pd_nickSet = False, pd_userSet = False, pd_capNegotiating = False,
     pd_capEnded = False, pd_account = []\<rparr>"

record conn =
  cn_out :: "message list"
  cn_cancel :: "string option"
  cn_closed :: bool
  cn_lastActivity :: time
  cn_lastMessageAt :: time
  cn_pending :: pending
  cn_user :: "uid option"
  cn_remoteHost :: string
  cn_quitReason :: string
  cn_msgBucket :: token_bucket
  cn_msgViolations :: int
  cn_capsAccepted :: "(string, unit) gomap"

definition new_conn :: "string \<Rightarrow> limits \<Rightarrow> time \<Rightarrow> conn" where
  "new_conn host l now =
     \<lparr>cn_out = [], cn_cancel = None, cn_closed = False, cn_lastActivity = now, cn_lastMessageAt = 0,
      cn_pending = zero_pending, cn_user = None, cn_remoteHost = host, cn_quitReason = [],
      cn_msgBucket = new_token_bucket (lm_MessageBurst l) (lm_MessageRefillPerSecond l) now,
      cn_msgViolations = 0, cn_capsAccepted = []\<rparr>"

definition outbound_queue :: nat where
  "outbound_queue = 1024"

definition cancel_conn :: "string \<Rightarrow> conn \<Rightarrow> conn" where
  "cancel_conn cause cn = (if cn_cancel cn = None then cn\<lparr>cn_cancel := Some cause\<rparr> else cn)"

definition enqueue :: "message \<Rightarrow> conn \<Rightarrow> conn" where
  "enqueue m cn =
     (if length (cn_out cn) < outbound_queue then cn\<lparr>cn_out := cn_out cn @ [m]\<rparr>
      else cancel_conn ''sendq exceeded'' cn)"

section \<open>Capabilities\<close>

definition supported_cap_list :: "string list" where
  "supported_cap_list = [''message-tags'', ''server-time'', ''echo-message'', ''multi-prefix'', ''userhost-in-names'',
     ''away-notify'', ''invite-notify'', ''sasl'', ''account-tag'', ''extended-join'', ''batch'', ''chghost'']"

definition supported_caps :: string where
  "supported_caps = join_with '' '' supported_cap_list"

definition is_supported_cap :: "string \<Rightarrow> bool" where
  "is_supported_cap name = (name \<in> set supported_cap_list)"

definition has_cap :: "string \<Rightarrow> conn \<Rightarrow> bool" where
  "has_cap name cn = mhas (cn_capsAccepted cn) name"

definition accepted_caps :: "conn \<Rightarrow> string list" where
  "accepted_caps cn = sort (map fst (cn_capsAccepted cn))"

definition add_accepted_cap :: "string \<Rightarrow> conn \<Rightarrow> conn" where
  "add_accepted_cap name cn = cn\<lparr>cn_capsAccepted := mput name () (cn_capsAccepted cn)\<rparr>"

definition drop_accepted_cap :: "string \<Rightarrow> conn \<Rightarrow> conn" where
  "drop_accepted_cap name cn = cn\<lparr>cn_capsAccepted := mdel name (cn_capsAccepted cn)\<rparr>"

section \<open>The server\<close>

datatype bot = LuaBot "message list" | NickServBot | ChanServBot | MemoServBot

record server =
  sv_cfg :: config
  sv_world :: world
  sv_now :: time
  sv_createdAt :: time
  sv_heap :: "cid \<Rightarrow> conn"
  sv_conns :: "(uid, cid) gomap"
  sv_bots :: "(uid, bot) gomap"
  sv_links :: "(string, message list) gomap"
  sv_subs :: "(string, (string, unit) gomap) gomap"
  sv_squitSeen :: "(string \<times> string, time) gomap"
  sv_motd :: "string list"
  sv_whowas :: whowas
  sv_batchSeq :: nat
  sv_rand :: "nat \<Rightarrow> nat"
  sv_randPos :: nat
  sv_store :: "store option"
  sv_bus :: "audit_event list option"
  sv_enforce :: "(string, time) gomap"
  sv_shutdown :: "string list option"
  sv_messagesIn :: nat
  sv_messagesOut :: nat

abbreviation srv_name :: "server \<Rightarrow> string" where
  "srv_name s \<equiv> cf_Name (sv_cfg s)"

abbreviation srv_limits :: "server \<Rightarrow> limits" where
  "srv_limits s \<equiv> cf_Limits (sv_cfg s)"

abbreviation sfold :: "server \<Rightarrow> string \<Rightarrow> string" where
  "sfold s \<equiv> wfold (sv_world s)"

definition upd_conn :: "cid \<Rightarrow> (conn \<Rightarrow> conn) \<Rightarrow> server \<Rightarrow> server" where
  "upd_conn c f s = s\<lparr>sv_heap := (sv_heap s)(c := f (sv_heap s c))\<rparr>"

definition upd_sworld :: "(world \<Rightarrow> world) \<Rightarrow> server \<Rightarrow> server" where
  "upd_sworld f s = s\<lparr>sv_world := f (sv_world s)\<rparr>"

definition user_of :: "uid \<Rightarrow> server \<Rightarrow> user" where
  "user_of u s = w_store (sv_world s) u"

definition with_user :: "uid \<Rightarrow> (user \<Rightarrow> user) \<Rightarrow> server \<Rightarrow> server" where
  "with_user u f s = upd_sworld (upd_user u f) s"

text \<open>\<^verbatim>\<open>c.user\<close> of a connection that completed registration.\<close>

definition registered_user :: "cid \<Rightarrow> server \<Rightarrow> uid option" where
  "registered_user c s =
     (case cn_user (sv_heap s c) of
        None \<Rightarrow> None
      | Some u \<Rightarrow> if u_Registered (user_of u s) then Some u else None)"

definition conn_for :: "uid \<Rightarrow> server \<Rightarrow> cid option" where
  "conn_for u s = map_of (sv_conns s) u"

definition bot_for :: "uid \<Rightarrow> server \<Rightarrow> bot option" where
  "bot_for u s = map_of (sv_bots s) u"

definition register_conn :: "cid \<Rightarrow> server \<Rightarrow> server" where
  "register_conn c s =
     (case cn_user (sv_heap s c) of None \<Rightarrow> s | Some u \<Rightarrow> s\<lparr>sv_conns := mput u c (sv_conns s)\<rparr>)"

definition unregister_conn :: "uid \<Rightarrow> server \<Rightarrow> server" where
  "unregister_conn u s = s\<lparr>sv_conns := mdel u (sv_conns s)\<rparr>"

definition register_bot :: "uid \<Rightarrow> bot \<Rightarrow> server \<Rightarrow> server" where
  "register_bot u b s = s\<lparr>sv_bots := mput u b (sv_bots s)\<rparr>"

definition unregister_bot :: "uid \<Rightarrow> server \<Rightarrow> server" where
  "unregister_bot u s = s\<lparr>sv_bots := mdel u (sv_bots s)\<rparr>"

section \<open>Sending\<close>

text \<open>\<^verbatim>\<open>strings.Cut\<close> at an exclamation mark: the nick of a hostmask.\<close>

definition cut_nick :: "string \<Rightarrow> string option" where
  "cut_nick prefix = map_option (\<lambda>i. take i prefix) (index_byte CHR ''!'' prefix)"

definition tag_for :: "conn \<Rightarrow> server \<Rightarrow> message \<Rightarrow> message" where
  "tag_for cn s m =
     (let m1 = (if has_cap ''server-time'' cn then with_tag ''time'' (format_server_time (sv_now s)) m else m)
      in if has_cap ''account-tag'' cn \<and> msg_Prefix m \<noteq> [] then
           (case cut_nick (msg_Prefix m) of
              None \<Rightarrow> m1
            | Some nick \<Rightarrow>
                (case find_by_nick nick (sv_world s) of
                   None \<Rightarrow> m1
                 | Some u \<Rightarrow> if u_Account (user_of u s) \<noteq> [] then with_tag ''account'' (u_Account (user_of u s)) m1 else m1))
         else m1)"

definition send :: "cid \<Rightarrow> message \<Rightarrow> server \<Rightarrow> server" where
  "send c m s = upd_conn c (enqueue (tag_for (sv_heap s c) s m)) s"

definition sends :: "cid \<Rightarrow> message list \<Rightarrow> server \<Rightarrow> server" where
  "sends c ms s = fold (send c) ms s"

definition star_or_nick :: "cid \<Rightarrow> server \<Rightarrow> string" where
  "star_or_nick c s =
     (let cn = sv_heap s c; fallback = (if pd_nick (cn_pending cn) \<noteq> [] then pd_nick (cn_pending cn) else ''*'')
      in case cn_user cn of
           Some u \<Rightarrow> if u_Nick (user_of u s) \<noteq> [] then u_Nick (user_of u s) else fallback
         | None \<Rightarrow> fallback)"

text \<open>\<^verbatim>\<open>c.send(protocol.NumericReply(srv, nick, code, params...))\<close>.\<close>

definition reply :: "cid \<Rightarrow> string \<Rightarrow> string \<Rightarrow> string list \<Rightarrow> server \<Rightarrow> server" where
  "reply c nick code params s = send c (numeric_reply (srv_name s) nick code params) s"

definition plain_message :: "string \<Rightarrow> string \<Rightarrow> string list \<Rightarrow> message" where
  "plain_message prefix command params =
     \<lparr>msg_Tags = [], msg_Prefix = prefix, msg_Command = command, msg_Params = params\<rparr>"

definition send_error :: "cid \<Rightarrow> string \<Rightarrow> server \<Rightarrow> server" where
  "send_error c reason s =
     send c (plain_message [] ''ERROR'' [''Closing Link: '' @ cn_remoteHost (sv_heap s c) @ '' ('' @ reason @ '')'']) s"

definition cancel :: "cid \<Rightarrow> string \<Rightarrow> server \<Rightarrow> server" where
  "cancel c cause s = upd_conn c (cancel_conn cause) s"

definition need_more_params :: "cid \<Rightarrow> string \<Rightarrow> server \<Rightarrow> server" where
  "need_more_params c cmd s = reply c (star_or_nick c s) ''461'' [cmd, ''Not enough parameters''] s"

definition not_registered :: "cid \<Rightarrow> server \<Rightarrow> server" where
  "not_registered c s = reply c (star_or_nick c s) ''451'' [''You have not registered''] s"

section \<open>Audit, whowas\<close>

text \<open>The random event ID is left out; the payload is the list of its fields.\<close>

definition emit_audit :: "string \<Rightarrow> string \<Rightarrow> string \<Rightarrow> (string \<times> string list) list \<Rightarrow> server \<Rightarrow> server" where
  "emit_audit eventType actor target data s =
     (let ev = \<lparr>ae_Timestamp = sv_now s, ae_Type = eventType, ae_Actor = actor, ae_Target = target, ae_Data = data\<rparr>
      in s\<lparr>sv_store := map_option (events_append ev) (sv_store s), sv_bus := map_option (\<lambda>b. b @ [ev]) (sv_bus s)\<rparr>)"

section \<open>Broadcast\<close>

definition anonymous_mask :: string where
  "anonymous_mask = ''anonymous'' @ ''!'' @ ''anonymous@anonymous.''"

text \<open>
  What a virtual member does with a message that is neither \<^verbatim>\<open>PRIVMSG\<close> nor \<^verbatim>\<open>SQUERY\<close>: a Lua bot queues it,
  a service ignores it.
\<close>

text \<open>The inbox of a Lua bot holds 64 messages; a full one loses the next.\<close>

definition session_deliver :: "message \<Rightarrow> message list \<Rightarrow> message list" where
  "session_deliver m inbox = (if length inbox < 64 then inbox @ [m] else inbox)"

definition deliver_plain :: "uid \<Rightarrow> bot \<Rightarrow> message \<Rightarrow> server \<Rightarrow> server" where
  "deliver_plain u b m s =
     (case b of LuaBot inbox \<Rightarrow> s\<lparr>sv_bots := mput u (LuaBot (session_deliver m inbox)) (sv_bots s)\<rparr> | _ \<Rightarrow> s)"

definition deliver_member :: "(uid \<Rightarrow> bot \<Rightarrow> message \<Rightarrow> server \<Rightarrow> server) \<Rightarrow> message \<Rightarrow> uid \<Rightarrow> server \<Rightarrow> server" where
  "deliver_member dlv m u s =
     (case conn_for u s of
        Some c \<Rightarrow> send c m s
      | None \<Rightarrow> (case bot_for u s of Some b \<Rightarrow> dlv u b m s | None \<Rightarrow> s))"

definition anonymize :: "channel \<Rightarrow> message \<Rightarrow> message" where
  "anonymize ch m = (if m_anonymous (ch_modes ch) then m\<lparr>msg_Prefix := anonymous_mask\<rparr> else m)"

text \<open>
  \<open>except\<close> is the member to skip; the zero ID, which no user has, skips nobody. \<open>dlv\<close> is what virtual
  members do.
\<close>

definition broadcast_with ::
  "(uid \<Rightarrow> bot \<Rightarrow> message \<Rightarrow> server \<Rightarrow> server) \<Rightarrow> channel \<Rightarrow> message \<Rightarrow> uid \<Rightarrow> bool \<Rightarrow> server \<Rightarrow> server" where
  "broadcast_with dlv ch m except includeSelf s =
     fold (\<lambda>u s. if \<not> includeSelf \<and> u = except then s else deliver_member dlv (anonymize ch m) u s) (member_ids ch) s"

section \<open>Federation registries\<close>

definition register_link :: "string \<Rightarrow> server \<Rightarrow> server" where
  "register_link peer s = s\<lparr>sv_links := mput peer [] (sv_links s)\<rparr>"

definition unregister_link :: "string \<Rightarrow> server \<Rightarrow> server" where
  "unregister_link peer s = s\<lparr>sv_links := mdel peer (sv_links s), sv_subs := mdel peer (sv_subs s)\<rparr>"

definition link_send :: "string \<Rightarrow> message \<Rightarrow> server \<Rightarrow> server" where
  "link_send peer m s =
     (case map_of (sv_links s) peer of
        None \<Rightarrow> s
      | Some q \<Rightarrow> s\<lparr>sv_links := mput peer (q @ [m]) (sv_links s)\<rparr>)"

definition forward_to_all :: "message \<Rightarrow> server \<Rightarrow> server" where
  "forward_to_all m s = fold (\<lambda>p. link_send p m) (map fst (sv_links s)) s"

definition subscribe_peer :: "string \<Rightarrow> string \<Rightarrow> server \<Rightarrow> server" where
  "subscribe_peer peer chan s =
     (if peer = [] \<or> chan = [] then s
      else let subs = (case map_of (sv_subs s) peer of None \<Rightarrow> [] | Some m \<Rightarrow> m)
           in s\<lparr>sv_subs := mput peer (mput chan () subs) (sv_subs s)\<rparr>)"

definition forward_to_subscribed :: "string \<Rightarrow> message \<Rightarrow> server \<Rightarrow> server" where
  "forward_to_subscribed chan m s =
     (if sv_links s = [] then s
      else fold (\<lambda>(p, subs). if mhas subs chan then link_send p m else (\<lambda>s. s)) (sv_subs s) s)"

definition fed_broadcast_mode :: "server \<Rightarrow> string" where
  "fed_broadcast_mode s = (if cf_BroadcastMode (sv_cfg s) = [] then ''subscription'' else cf_BroadcastMode (sv_cfg s))"

text \<open>The federation half of a channel broadcast.\<close>

definition forward_join :: "string \<Rightarrow> message \<Rightarrow> server \<Rightarrow> server" where
  "forward_join chan m s =
     (if fed_broadcast_mode s = ''fanout'' then forward_to_all m s
      else forward_to_all m (fold (\<lambda>p. subscribe_peer p chan) (map fst (sv_links s)) s))"

definition forward_channel :: "string \<Rightarrow> message \<Rightarrow> server \<Rightarrow> server" where
  "forward_channel chan m s =
     (if fed_broadcast_mode s = ''fanout'' then forward_to_all m s
      else if msg_Command m = ''JOIN'' then
        forward_to_all m (fold (\<lambda>p. subscribe_peer p chan) (map fst (sv_links s)) s)
      else forward_to_subscribed chan m s)"

end
