(* ===== verification/Server_Inv.thy ===== *)
theory Server_Inv
  imports Server_State
begin

text \<open>
  The invariant of the server state, and what the operations of \<open>Server_State\<close> keep. An operation that
  only puts messages somewhere is \<open>quiet\<close>: users, channels, registries and the protocol state of every
  connection stay as they are, and outbound queues grow at the end. Handlers are runs of quiet steps
  between a few changes of the world, which are \<open>world_step\<close>s.
\<close>

section \<open>The invariant\<close>

definition wf_conn :: "conn \<Rightarrow> bool" where
  "wf_conn cn = (length (cn_out cn) \<le> outbound_queue \<and> wf_bucket (cn_msgBucket cn) \<and> wf_map (cn_capsAccepted cn))"

text \<open>
  The registry and the connections agree: a user is registered under the one connection that holds it,
  and that user's record exists and is registered.
\<close>

definition conns_ok :: "server \<Rightarrow> bool" where
  "conns_ok s =
     (wf_map (sv_conns s) \<and>
      (\<forall>u c. map_of (sv_conns s) u = Some c \<longleftrightarrow> cn_user (sv_heap s c) = Some u) \<and>
      (\<forall>u c. cn_user (sv_heap s c) = Some u \<longrightarrow>
         u \<le> w_nextID (sv_world s) \<and> u_ID (user_of u s) = u \<and> u_Registered (user_of u s) \<and>
         u_Nick (user_of u s) \<noteq> []))"

definition wf_server :: "server \<Rightarrow> bool" where
  "wf_server s =
     (wf_world (sv_world s) \<and> wf_whowas (sv_whowas s) \<and> (\<forall>c. wf_conn (sv_heap s c)) \<and> conns_ok s \<and>
      wf_map (sv_bots s) \<and> wf_map (sv_links s) \<and> wf_map (sv_subs s))"

lemma wf_serverD:
  assumes "wf_server s"
  shows "wf_world (sv_world s)" "wf_whowas (sv_whowas s)" "wf_conn (sv_heap s c)" "conns_ok s"
    "wf_map (sv_bots s)" "wf_map (sv_links s)" "wf_map (sv_subs s)"
  using assms by (simp_all add: wf_server_def)

lemma conns_okD:
  assumes "conns_ok s"
  shows "wf_map (sv_conns s)" "map_of (sv_conns s) u = Some c \<longleftrightarrow> cn_user (sv_heap s c) = Some u"
    "cn_user (sv_heap s c) = Some u \<Longrightarrow> u \<le> w_nextID (sv_world s) \<and> u_ID (user_of u s) = u \<and> u_Registered (user_of u s) \<and> u_Nick (user_of u s) \<noteq> []"
  using assms unfolding conns_ok_def by blast+

lemma registered_user_iff: "wf_server s \<Longrightarrow> registered_user c s = cn_user (sv_heap s c)"
  using conns_okD(3) [OF wf_serverD(4), of s c] by (auto simp: registered_user_def split: option.split)

lemma registered_conn_for: "wf_server s \<Longrightarrow> registered_user c s = Some u \<Longrightarrow> conn_for u s = Some c"
  using conns_okD(2) [OF wf_serverD(4), of s u c] by (simp add: registered_user_iff conn_for_def)

lemma conn_for_user: "wf_server s \<Longrightarrow> conn_for u s = Some c \<Longrightarrow> cn_user (sv_heap s c) = Some u"
  using conns_okD(2) [OF wf_serverD(4), of s u c] by (simp add: conn_for_def)

section \<open>Quiet steps\<close>

definition conn_core :: "conn \<Rightarrow> conn" where
  "conn_core cn = cn\<lparr>cn_out := [], cn_cancel := None\<rparr>"

definition store_core :: "store \<Rightarrow> store" where
  "store_core st = st\<lparr>st_events := []\<rparr>"

definition conn_grows :: "conn \<Rightarrow> conn \<Rightarrow> bool" where
  "conn_grows cn cn' =
     (conn_core cn' = conn_core cn \<and> (\<exists>ms. cn_out cn' = cn_out cn @ ms) \<and>
      (length (cn_out cn) \<le> outbound_queue \<longrightarrow> length (cn_out cn') \<le> outbound_queue) \<and>
      (cn_cancel cn \<noteq> None \<longrightarrow> cn_cancel cn' = cn_cancel cn))"

definition quiet :: "server \<Rightarrow> server \<Rightarrow> bool" where
  "quiet s s' =
     (sv_cfg s' = sv_cfg s \<and> sv_world s' = sv_world s \<and> sv_now s' = sv_now s \<and> sv_createdAt s' = sv_createdAt s \<and>
      sv_conns s' = sv_conns s \<and> sv_motd s' = sv_motd s \<and> sv_whowas s' = sv_whowas s \<and>
      sv_rand s' = sv_rand s \<and> sv_randPos s' = sv_randPos s \<and> sv_shutdown s' = sv_shutdown s \<and>
      sv_squitSeen s' = sv_squitSeen s \<and> sv_enforce s' = sv_enforce s \<and>
      map_option store_core (sv_store s') = map_option store_core (sv_store s) \<and>
      (wf_map (sv_bots s) \<longrightarrow> wf_map (sv_bots s')) \<and> (wf_map (sv_links s) \<longrightarrow> wf_map (sv_links s')) \<and>
      (wf_map (sv_subs s) \<longrightarrow> wf_map (sv_subs s')) \<and>
      fst ` set (sv_links s') = fst ` set (sv_links s) \<and>
      (\<forall>c. conn_grows (sv_heap s c) (sv_heap s' c)))"

lemma conn_grows_refl [simp, intro]: "conn_grows cn cn"
  by (simp add: conn_grows_def)

lemma conn_grows_trans [trans]: "conn_grows a b \<Longrightarrow> conn_grows b c \<Longrightarrow> conn_grows a c"
  by (fastforce simp: conn_grows_def)

lemma conn_core_fields:
  assumes "conn_core cn' = conn_core cn"
  shows "cn_closed cn' = cn_closed cn" "cn_lastActivity cn' = cn_lastActivity cn"
    "cn_lastMessageAt cn' = cn_lastMessageAt cn" "cn_pending cn' = cn_pending cn" "cn_user cn' = cn_user cn"
    "cn_remoteHost cn' = cn_remoteHost cn" "cn_quitReason cn' = cn_quitReason cn" "cn_msgBucket cn' = cn_msgBucket cn"
    "cn_msgViolations cn' = cn_msgViolations cn" "cn_capsAccepted cn' = cn_capsAccepted cn"
  using assms by (cases cn; cases cn'; simp add: conn_core_def)+

lemma conn_grows_cancel [simp, intro]: "conn_grows cn (cancel_conn cause cn)"
  by (simp add: conn_grows_def conn_core_def cancel_conn_def)

lemma conn_grows_enqueue [simp, intro]: "conn_grows cn (enqueue m cn)"
proof (cases "length (cn_out cn) < outbound_queue")
  case True
  then show ?thesis by (simp add: conn_grows_def conn_core_def enqueue_def)
next
  case False
  then show ?thesis by (simp add: enqueue_def)
qed

lemma quiet_refl [simp, intro]: "quiet s s"
  by (simp add: quiet_def)

lemma quiet_trans [trans]: "quiet a b \<Longrightarrow> quiet b c \<Longrightarrow> quiet a c"
proof -
  assume q: "quiet a b" "quiet b c"
  have "conn_grows (sv_heap a i) (sv_heap c i)" for i
  proof (rule conn_grows_trans [of _ "sv_heap b i"])
    show "conn_grows (sv_heap a i) (sv_heap b i)" "conn_grows (sv_heap b i) (sv_heap c i)"
      using q unfolding quiet_def by blast+
  qed
  with q show ?thesis by (simp add: quiet_def)
qed

lemma quietD:
  assumes "quiet s s'"
  shows "sv_cfg s' = sv_cfg s" "sv_world s' = sv_world s" "sv_now s' = sv_now s" "sv_createdAt s' = sv_createdAt s"
    "sv_conns s' = sv_conns s" "sv_motd s' = sv_motd s" "sv_whowas s' = sv_whowas s" "sv_rand s' = sv_rand s"
    "sv_randPos s' = sv_randPos s" "sv_shutdown s' = sv_shutdown s" "sv_squitSeen s' = sv_squitSeen s"
    "sv_enforce s' = sv_enforce s"
    "cn_closed (sv_heap s' c) = cn_closed (sv_heap s c)" "cn_lastActivity (sv_heap s' c) = cn_lastActivity (sv_heap s c)"
    "cn_lastMessageAt (sv_heap s' c) = cn_lastMessageAt (sv_heap s c)"
    "cn_pending (sv_heap s' c) = cn_pending (sv_heap s c)" "cn_user (sv_heap s' c) = cn_user (sv_heap s c)"
    "cn_remoteHost (sv_heap s' c) = cn_remoteHost (sv_heap s c)" "cn_quitReason (sv_heap s' c) = cn_quitReason (sv_heap s c)"
    "cn_msgBucket (sv_heap s' c) = cn_msgBucket (sv_heap s c)"
    "cn_msgViolations (sv_heap s' c) = cn_msgViolations (sv_heap s c)"
    "cn_capsAccepted (sv_heap s' c) = cn_capsAccepted (sv_heap s c)"
    "user_of u s' = user_of u s" "conn_for u s' = conn_for u s" "registered_user c s' = registered_user c s"
    "star_or_nick c s' = star_or_nick c s" "has_cap x (sv_heap s' c) = has_cap x (sv_heap s c)"
    "fst ` set (sv_links s') = fst ` set (sv_links s)"
proof -
  have c: "conn_core (sv_heap s' c) = conn_core (sv_heap s c)" for c
    using assms by (simp add: quiet_def conn_grows_def)
  note f = conn_core_fields [OF c]
  have w: "sv_world s' = sv_world s" using assms by (simp add: quiet_def)
  show "cn_closed (sv_heap s' c) = cn_closed (sv_heap s c)" "cn_lastActivity (sv_heap s' c) = cn_lastActivity (sv_heap s c)"
    "cn_lastMessageAt (sv_heap s' c) = cn_lastMessageAt (sv_heap s c)"
    "cn_pending (sv_heap s' c) = cn_pending (sv_heap s c)" "cn_user (sv_heap s' c) = cn_user (sv_heap s c)"
    "cn_remoteHost (sv_heap s' c) = cn_remoteHost (sv_heap s c)" "cn_quitReason (sv_heap s' c) = cn_quitReason (sv_heap s c)"
    "cn_msgBucket (sv_heap s' c) = cn_msgBucket (sv_heap s c)"
    "cn_msgViolations (sv_heap s' c) = cn_msgViolations (sv_heap s c)"
    "cn_capsAccepted (sv_heap s' c) = cn_capsAccepted (sv_heap s c)"
    by (rule f)+
  show "user_of u s' = user_of u s" "registered_user c s' = registered_user c s" "star_or_nick c s' = star_or_nick c s"
    "has_cap x (sv_heap s' c) = has_cap x (sv_heap s c)"
    by (simp_all add: user_of_def registered_user_def star_or_nick_def has_cap_def w f Let_def split: option.split)
qed (use assms in \<open>auto simp: quiet_def conn_for_def\<close>)

lemma quiet_wf: "quiet s s' \<Longrightarrow> wf_server s \<Longrightarrow> wf_server s'"
proof -
  assume q: "quiet s s'" and wf: "wf_server s"
  have "wf_conn (sv_heap s' c)" for c
    using q wf_serverD(3) [OF wf, of c] quietD(20,22) [OF q, of c] by (simp add: quiet_def conn_grows_def wf_conn_def)
  moreover have "conns_ok s'" using wf_serverD(4) [OF wf] by (simp add: conns_ok_def quietD [OF q])
  ultimately show ?thesis using q wf by (auto simp: wf_server_def quiet_def)
qed

lemma quiet_fold: "(\<And>x s. x \<in> set xs \<Longrightarrow> quiet s (f x s)) \<Longrightarrow> quiet s (fold f xs s)"
  by (induction xs arbitrary: s) (auto intro: quiet_trans)

text \<open>Every operation that only sends is quiet.\<close>

lemma quiet_upd_conn: "(\<And>cn. conn_grows cn (f cn)) \<Longrightarrow> quiet s (upd_conn c f s)"
  by (simp add: quiet_def upd_conn_def)

lemma quiet_send [simp, intro]: "quiet s (send c m s)"
  unfolding send_def by (rule quiet_upd_conn) simp

lemma quiet_cancel [simp, intro]: "quiet s (cancel c x s)"
  unfolding cancel_def by (rule quiet_upd_conn) simp

lemma quiet_sends [simp, intro]: "quiet s (sends c ms s)"
  unfolding sends_def by (rule quiet_fold) simp

lemma quiet_reply [simp, intro]: "quiet s (reply c n x ps s)"
  by (simp add: reply_def)

lemma quiet_replies [simp, intro]:
  "quiet s (send_error c r s)" "quiet s (need_more_params c x s)" "quiet s (not_registered c s)"
  by (simp_all add: send_error_def need_more_params_def not_registered_def)

lemma quiet_link_send [simp, intro]: "quiet s (link_send p m s)"
  by (auto simp: quiet_def link_send_def insert_absorb dest: mhas_Some split: option.split simp: mhas_iff)

lemma quiet_forward_to_all [simp, intro]: "quiet s (forward_to_all m s)"
  unfolding forward_to_all_def by (rule quiet_fold) simp

lemma quiet_subscribe_peer [simp, intro]: "quiet s (subscribe_peer p ch s)"
  by (simp add: quiet_def subscribe_peer_def Let_def)

lemma quiet_forward_to_subscribed [simp, intro]: "quiet s (forward_to_subscribed ch m s)"
  unfolding forward_to_subscribed_def by (auto intro!: quiet_fold)

lemma quiet_subscribe_all [simp, intro]: "quiet s (fold (\<lambda>p. subscribe_peer p ch) ps s)"
  by (rule quiet_fold) simp

lemma quiet_forward_join [simp, intro]: "quiet s (forward_join ch m s)"
  unfolding forward_join_def by (auto intro: quiet_trans)

lemma quiet_forward_channel [simp, intro]: "quiet s (forward_channel ch m s)"
  unfolding forward_channel_def by (auto intro: quiet_trans)

lemma quiet_emit_audit [simp, intro]: "quiet s (emit_audit a b c d s)"
  by (cases "sv_store s") (simp_all add: quiet_def emit_audit_def Let_def events_append_def store_core_def)

lemma quiet_deliver_plain [simp, intro]: "quiet s (deliver_plain u b m s)"
  by (auto simp: quiet_def deliver_plain_def split: bot.split)

lemma quiet_deliver_member:
  "(\<And>u b m s. quiet s (dlv u b m s)) \<Longrightarrow> quiet s (deliver_member dlv m u s)"
  by (auto simp: deliver_member_def split: option.split)

lemma quiet_broadcast_with:
  "(\<And>u b m s. quiet s (dlv u b m s)) \<Longrightarrow> quiet s (broadcast_with dlv ch m e i s)"
  unfolding broadcast_with_def by (rule quiet_fold) (simp add: quiet_deliver_member)

lemma quiet_broadcast_plain [simp, intro]: "quiet s (broadcast_with deliver_plain ch m e i s)"
  by (rule quiet_broadcast_with) simp

lemmas send_frames [simp, frames] = quietD [OF quiet_send]
lemmas sends_frames [simp, frames] = quietD [OF quiet_sends]
lemmas reply_frames [simp, frames] = quietD [OF quiet_reply]
lemmas cancel_frames [simp, frames] = quietD [OF quiet_cancel]
lemmas error_frames [simp, frames] = quietD [OF quiet_replies(1)] quietD [OF quiet_replies(2)] quietD [OF quiet_replies(3)]
lemmas forward_frames [simp, frames] =
  quietD [OF quiet_forward_to_all] quietD [OF quiet_forward_join] quietD [OF quiet_forward_channel]
lemmas audit_frames [simp, frames] = quietD [OF quiet_emit_audit]
lemmas broadcast_plain_frames [simp, frames] = quietD [OF quiet_broadcast_plain]

section \<open>Changes of the world\<close>

text \<open>The channel a name denotes, and a method call on it.\<close>

definition with_chan :: "string \<Rightarrow> (channel \<Rightarrow> channel) \<Rightarrow> server \<Rightarrow> server" where
  "with_chan name f s = upd_sworld (upd_channel name f) s"

text \<open>Fields the invariant does not speak of.\<close>

lemma wf_server_fields [simp]:
  "wf_server (s\<lparr>sv_store := a\<rparr>) = wf_server s" "wf_server (s\<lparr>sv_enforce := b\<rparr>) = wf_server s"
  "wf_server (s\<lparr>sv_randPos := n\<rparr>) = wf_server s" "wf_server (s\<lparr>sv_motd := m\<rparr>) = wf_server s"
  "wf_server (s\<lparr>sv_batchSeq := n\<rparr>) = wf_server s" "wf_server (s\<lparr>sv_shutdown := d\<rparr>) = wf_server s"
  "wf_server (s\<lparr>sv_squitSeen := q\<rparr>) = wf_server s" "wf_server (s\<lparr>sv_messagesIn := n\<rparr>) = wf_server s"
  "wf_server (s\<lparr>sv_messagesOut := n\<rparr>) = wf_server s" "wf_server (s\<lparr>sv_now := t\<rparr>) = wf_server s"
  by (simp_all add: wf_server_def conns_ok_def user_of_def)

lemma wf_upd_conn:
  assumes "wf_server s" "wf_conn (f (sv_heap s c))" "cn_user (f (sv_heap s c)) = cn_user (sv_heap s c)"
  shows "wf_server (upd_conn c f s)"
proof -
  have u: "cn_user (sv_heap (upd_conn c f s) d) = cn_user (sv_heap s d)" for d
    using assms(3) by (simp add: upd_conn_def)
  have f: "sv_world (upd_conn c f s) = sv_world s" "sv_conns (upd_conn c f s) = sv_conns s"
    "user_of v (upd_conn c f s) = user_of v s" "sv_whowas (upd_conn c f s) = sv_whowas s"
    "sv_bots (upd_conn c f s) = sv_bots s" "sv_links (upd_conn c f s) = sv_links s" "sv_subs (upd_conn c f s) = sv_subs s" for v
    by (simp_all add: upd_conn_def user_of_def)
  have "wf_conn (sv_heap (upd_conn c f s) d)" for d
    using wf_serverD(3) [OF assms(1), of d] assms(2) by (simp add: upd_conn_def)
  then show ?thesis using assms(1) by (simp add: wf_server_def conns_ok_def u f)
qed

lemma wf_upd_sworld:
  assumes "wf_server s" "wf_world (g (sv_world s))" "w_nextID (sv_world s) \<le> w_nextID (g (sv_world s))"
    and "\<And>u. u \<le> w_nextID (sv_world s) \<Longrightarrow> u_ID (w_store (g (sv_world s)) u) = u_ID (w_store (sv_world s) u) \<and>
      u_Registered (w_store (g (sv_world s)) u) = u_Registered (w_store (sv_world s) u) \<and>
      (u_Nick (w_store (sv_world s) u) \<noteq> [] \<longrightarrow> u_Nick (w_store (g (sv_world s)) u) \<noteq> [])"
  shows "wf_server (upd_sworld g s)"
proof -
  have "conns_ok (upd_sworld g s)"
    using wf_serverD(4) [OF assms(1)] assms(3,4) unfolding conns_ok_def upd_sworld_def user_of_def
    by (simp) (meson le_trans)
  then show ?thesis using assms(1,2) by (simp add: wf_server_def upd_sworld_def)
qed

lemma wf_with_user:
  assumes "wf_server s" "\<And>x. u_ID (f x) = u_ID x" "\<And>x. u_Nick (f x) = u_Nick x" "\<And>x. u_Registered (f x) = u_Registered x"
  shows "wf_server (with_user u f s)"
  unfolding with_user_def
proof (rule wf_upd_sworld [OF assms(1)])
  show "wf_world (upd_user u f (sv_world s))" using wf_upd_user [OF wf_serverD(1) [OF assms(1)]] assms(2,3) .
qed (simp_all add: upd_user_def assms(2-4))

lemma wf_with_chan:
  assumes "wf_server s" "\<And>c. wf_channel c \<Longrightarrow> wf_channel (f c)" "\<And>c. ch_name (f c) = ch_name c"
  shows "wf_server (with_chan n f s)"
  unfolding with_chan_def
proof (rule wf_upd_sworld [OF assms(1)])
  show "wf_world (upd_channel n f (sv_world s))"
    by (rule wf_upd_channel [OF wf_serverD(1) [OF assms(1)]]) (simp_all add: assms(2,3))
qed simp_all

lemma channel_name_frames [simp, frames]:
  "ch_name (set_topic a b t c) = ch_name c" "ch_name (fst (add_membership u f c)) = ch_name c"
  "ch_name (fst (remove_membership u f c)) = ch_name c" "ch_name (fst (set_membership u f c)) = ch_name c"
  "ch_name (fst (set_bool_mode m on c)) = ch_name c" "ch_name (fst (set_key k c)) = ch_name c"
  "ch_name (fst (set_limit n c)) = ch_name c" "ch_name (fst (add_ban k t c)) = ch_name c"
  "ch_name (fst (remove_ban k c)) = ch_name c" "ch_name (fst (add_exception k t c)) = ch_name c"
  "ch_name (fst (remove_exception k c)) = ch_name c" "ch_name (fst (add_invex k t c)) = ch_name c"
  "ch_name (fst (remove_invex k c)) = ch_name c" "ch_name (fst (add_quiet k t c)) = ch_name c"
  "ch_name (fst (remove_quiet k c)) = ch_name c" "ch_name (fst (add_invite u c)) = ch_name c"
  "ch_name (fst (consume_invite u c)) = ch_name c" "ch_name (fst (adopt_older_TS t c)) = ch_name c"
  "ch_name (reset_membership_flags c) = ch_name c" "ch_name (fst (add_member u first c)) = ch_name c"
  "ch_name (fst (remove_member u c)) = ch_name c"
  by (simp_all add: set_topic_def add_membership_def remove_membership_def set_membership_def set_bool_mode_def
      set_key_def set_limit_def add_ban_def remove_ban_def add_exception_def remove_exception_def add_invex_def
      remove_invex_def add_quiet_def remove_quiet_def add_invite_def consume_invite_def adopt_older_TS_def
      reset_membership_flags_def add_member_def remove_member_def Let_def split: option.split)

lemma wf_chan_ops [invs]:
  assumes "wf_server s"
  shows "wf_server (with_chan n (\<lambda>c. set_topic a b t c) s)" "wf_server (with_chan n (\<lambda>c. fst (add_membership u f c)) s)"
    "wf_server (with_chan n (\<lambda>c. fst (remove_membership u f c)) s)" "wf_server (with_chan n (\<lambda>c. fst (set_bool_mode m on c)) s)"
    "wf_server (with_chan n (\<lambda>c. fst (set_key k c)) s)" "wf_server (with_chan n (\<lambda>c. fst (set_limit l c)) s)"
    "wf_server (with_chan n (\<lambda>c. fst (add_ban k t c)) s)" "wf_server (with_chan n (\<lambda>c. fst (remove_ban k c)) s)"
    "wf_server (with_chan n (\<lambda>c. fst (add_exception k t c)) s)" "wf_server (with_chan n (\<lambda>c. fst (remove_exception k c)) s)"
    "wf_server (with_chan n (\<lambda>c. fst (add_invex k t c)) s)" "wf_server (with_chan n (\<lambda>c. fst (remove_invex k c)) s)"
    "wf_server (with_chan n (\<lambda>c. fst (add_quiet k t c)) s)" "wf_server (with_chan n (\<lambda>c. fst (remove_quiet k c)) s)"
    "wf_server (with_chan n (\<lambda>c. fst (add_invite u c)) s)" "wf_server (with_chan n (\<lambda>c. fst (consume_invite u c)) s)"
    "wf_server (with_chan n (\<lambda>c. fst (set_membership u f c)) s)" "wf_server (with_chan n (\<lambda>c. fst (adopt_older_TS z c)) s)"
    "wf_server (with_chan n (\<lambda>c. reset_membership_flags c) s)"
  by (rule wf_with_chan [OF assms]; simp add: wf_set_topic wf_add_membership wf_remove_membership wf_set_bool_mode
      wf_set_key wf_set_limit wf_mask_ops wf_invite_ops wf_set_membership wf_adopt wf_reset)+

lemma wf_rename: "wf_server s \<Longrightarrow> wf_server (upd_sworld (\<lambda>w. fst (rename_user u n w)) s)"
proof (rule wf_upd_sworld)
  assume wf: "wf_server s"
  show "wf_world (fst (rename_user u n (sv_world s)))" using wf_rename_user [OF wf_serverD(1) [OF wf]] .
qed (auto simp: rename_user_def upd_user_def Let_def)

lemma wf_register_bot [invs]: "wf_server s \<Longrightarrow> wf_server (register_bot u b s)" "wf_server s \<Longrightarrow> wf_server (unregister_bot u s)"
  by (simp_all add: wf_server_def conns_ok_def register_bot_def unregister_bot_def user_of_def)

lemma wf_fold: "(\<And>x s. x \<in> set xs \<Longrightarrow> wf_server s \<Longrightarrow> wf_server (f x s)) \<Longrightarrow> wf_server s \<Longrightarrow> wf_server (fold f xs s)"
  by (induction xs arbitrary: s) auto

lemmas wf_quiet [invs] =
  quiet_wf [OF quiet_send] quiet_wf [OF quiet_sends] quiet_wf [OF quiet_reply] quiet_wf [OF quiet_cancel]
  quiet_wf [OF quiet_replies(1)] quiet_wf [OF quiet_replies(2)] quiet_wf [OF quiet_replies(3)]
  quiet_wf [OF quiet_forward_to_all] quiet_wf [OF quiet_forward_join] quiet_wf [OF quiet_forward_channel]
  quiet_wf [OF quiet_forward_to_subscribed] quiet_wf [OF quiet_subscribe_peer] quiet_wf [OF quiet_link_send]
  quiet_wf [OF quiet_emit_audit] quiet_wf [OF quiet_deliver_plain] quiet_wf [OF quiet_broadcast_plain]

lemma wf_deliver_member:
  "(\<And>u b m s. wf_server s \<Longrightarrow> wf_server (dlv u b m s)) \<Longrightarrow> wf_server s \<Longrightarrow> wf_server (deliver_member dlv m u s)"
  by (auto simp: deliver_member_def intro: invs split: option.split)

lemma wf_broadcast_with:
  "(\<And>u b m s. wf_server s \<Longrightarrow> wf_server (dlv u b m s)) \<Longrightarrow> wf_server s \<Longrightarrow> wf_server (broadcast_with dlv ch m e i s)"
  unfolding broadcast_with_def by (rule wf_fold) (simp_all add: wf_deliver_member)

end
