(* ===== verification/Services.thy ===== *)
theory Services
  imports Server_Inv
begin

text \<open>
  The three pseudo-users: \<^verbatim>\<open>internal/services/nickserv\<close>, \<^verbatim>\<open>chanserv\<close> and \<^verbatim>\<open>memoserv\<close>, with the
  hooks by which the server calls them (\<^verbatim>\<open>notifyNickServ\<close>, \<^verbatim>\<open>notifyChanServ\<close>, \<^verbatim>\<open>notifyMemoServ\<close>) and by which
  they act on it (\<^verbatim>\<open>SendNoticeToNick\<close>, \<^verbatim>\<open>DisconnectNick\<close>, \<^verbatim>\<open>ForceNickChange\<close>, \<^verbatim>\<open>SetChannelMode\<close>,
  \<^verbatim>\<open>BroadcastChannelTopic\<close>). A command handler maps the store to the store and the reply text, as
  \<^verbatim>\<open>HandleMessage\<close> does; a reply that starts with the byte 1 is a directive the wrapper carries out. An
  enforcement timer is its deadline in \<open>sv_enforce\<close>. Wall clock and server clock are the same, and
  \<^verbatim>\<open>%q\<close> is modelled on ASCII.
\<close>

type_synonym service_result = "store \<times> string"

section \<open>Texts\<close>

definition hex_digit :: "nat \<Rightarrow> char" where
  "hex_digit n = ''0123456789abcdef'' ! n"

definition quote_byte :: "char \<Rightarrow> string" where
  "quote_byte c =
     (if c = CHR 0x22 then [CHR 0x5C, CHR 0x22]
      else if c = CHR 0x5C then [CHR 0x5C, CHR 0x5C]
      else if c = CHR 0x07 then [CHR 0x5C, CHR ''a'']
      else if c = CHR 0x08 then [CHR 0x5C, CHR ''b'']
      else if c = CHR 0x0C then [CHR 0x5C, CHR ''f'']
      else if c = CHR 0x0A then [CHR 0x5C, CHR ''n'']
      else if c = CHR 0x0D then [CHR 0x5C, CHR ''r'']
      else if c = CHR 0x09 then [CHR 0x5C, CHR ''t'']
      else if c = CHR 0x0B then [CHR 0x5C, CHR ''v'']
      else if CHR '' '' \<le> c \<and> c \<le> CHR ''~'' then [c]
      else [CHR 0x5C, CHR ''x'', hex_digit (byte_val c div 16), hex_digit (byte_val c mod 16)])"

definition quote :: "string \<Rightarrow> string" where
  "quote s = [CHR 0x22] @ concat (map quote_byte s) @ [CHR 0x22]"

definition directive :: "string \<Rightarrow> string \<Rightarrow> string" where
  "directive verb rest = [CHR 0x01] @ verb @ '' '' @ rest"

section \<open>NickServ commands\<close>

definition ns_commands :: string where
  "ns_commands = ''Available: REGISTER, IDENTIFY, DROP, INFO, GHOST, RELEASE, GROUP''"

text \<open>\<open>salt\<close> is what the random source yields for the hash.\<close>

definition ns_register :: "config \<Rightarrow> string \<Rightarrow> time \<Rightarrow> string \<Rightarrow> string list \<Rightarrow> store \<Rightarrow> service_result" where
  "ns_register cfg salt now nick args st =
     (if args = [] then (st, ''Usage: REGISTER <password> [<email>]'')
      else if accounts_get nick st \<noteq> None then (st, ''Account '' @ quote nick @ '' already exists.'')
      else
        let hash = hash_argon2id (cf_argon2 cfg) salt (args ! 0) default_argon2id_params;
            acct = \<lparr>ac_ID = nick, ac_Username = nick, ac_PasswordHash = hash,
              ac_Email = (if length args \<ge> 2 then args ! 1 else []), ac_Verified = False,
              ac_CreatedAt = zero_time, ac_UpdatedAt = zero_time\<rparr>
        in (case accounts_create acct now st of
              (st1, Some ErrConflict) \<Rightarrow> (st1, ''Account '' @ quote nick @ '' already exists.'')
            | (st1, Some _) \<Rightarrow> (st1, ''Internal error during registration.'')
            | (st1, None) \<Rightarrow>
                (fst (nick_owners_create \<lparr>no_Nick = nick, no_AccountID = nick, no_Primary = True, no_CreatedAt = now\<rparr> st1),
                 ''Account '' @ quote nick @ '' registered successfully. You can now IDENTIFY.'')))"

definition ns_identify :: "config \<Rightarrow> string \<Rightarrow> string list \<Rightarrow> store \<Rightarrow> service_result" where
  "ns_identify cfg nick args st =
     (if args = [] then (st, ''Usage: IDENTIFY [<username>] <password>'')
      else
        let username = (if length args \<ge> 2 then args ! 0 else nick);
            password = (if length args \<ge> 2 then args ! 1 else args ! 0)
        in (case accounts_get username st of
              None \<Rightarrow> (st, ''Invalid credentials.'')
            | Some acct \<Rightarrow>
                if auth_verify (cf_argon2 cfg) (cf_bcrypt cfg) (ac_PasswordHash acct) password = Some True
                then (st, ''You are now identified as '' @ username @ ''.'')
                else (st, ''Invalid credentials.'')))"

definition ns_group :: "time \<Rightarrow> string \<Rightarrow> string \<Rightarrow> store \<Rightarrow> service_result" where
  "ns_group now nick acct_name st =
     (if acct_name = [] then (st, ''You must be identified to use GROUP.'')
      else case accounts_get acct_name st of
        None \<Rightarrow> (st, ''Internal error: your account was not found.'')
      | Some acct \<Rightarrow>
          (case nick_owners_get nick st of
             Some existing \<Rightarrow>
               (st, if no_AccountID existing = ac_ID acct then ''Nick '' @ quote nick @ '' is already grouped to your account.''
                    else ''Nick '' @ quote nick @ '' is owned by another account.'')
           | None \<Rightarrow>
               (case nick_owners_create \<lparr>no_Nick = nick, no_AccountID = ac_ID acct, no_Primary = False, no_CreatedAt = now\<rparr> st of
                  (st1, Some ErrConflict) \<Rightarrow> (st1, ''Nick '' @ quote nick @ '' is already owned.'')
                | (st1, Some _) \<Rightarrow> (st1, ''Internal error during GROUP.'')
                | (st1, None) \<Rightarrow> (st1, ''Nick '' @ quote nick @ '' has been grouped to account '' @ acct_name @ ''.''))))"

definition ns_drop :: "string \<Rightarrow> string \<Rightarrow> string list \<Rightarrow> store \<Rightarrow> service_result" where
  "ns_drop nick acct_name args st =
     (if acct_name = [] then (st, ''You must be identified to use DROP.'')
      else
        let target = (if args \<noteq> [] then args ! 0 else nick) in
        case accounts_get acct_name st of
          None \<Rightarrow> (st, ''Internal error: your account was not found.'')
        | Some acct \<Rightarrow>
            (case nick_owners_get target st of
               None \<Rightarrow> (st, ''Nick '' @ quote target @ '' is not registered or not owned by you.'')
             | Some owner \<Rightarrow>
                 if no_AccountID owner \<noteq> ac_ID acct then (st, ''Nick '' @ quote target @ '' is not owned by your account.'')
                 else if no_Primary owner then
                   (case accounts_delete acct_name st of
                      (st1, Some _) \<Rightarrow> (st1, ''Internal error during DROP.'')
                    | (st1, None) \<Rightarrow> (st1, ''Account '' @ quote acct_name @ '' and all grouped nicks have been dropped.''))
                 else
                   (case nick_owners_delete target st of
                      (st1, Some _) \<Rightarrow> (st1, ''Internal error during DROP.'')
                    | (st1, None) \<Rightarrow> (st1, ''Nick '' @ quote target @ '' has been dropped from your account.''))))"

definition ns_info :: "string list \<Rightarrow> store \<Rightarrow> service_result" where
  "ns_info args st =
     (if args = [] then (st, ''Usage: INFO <nick>'')
      else
        let target = args ! 0 in
        case nick_owners_get target st of
          None \<Rightarrow>
            (case accounts_get target st of
               None \<Rightarrow> (st, ''Nick '' @ quote target @ '' is not registered.'')
             | Some acct \<Rightarrow> (st, ''Nick: '' @ target @ '' | Account: '' @ ac_Username acct @ '' | Registered: '' @ format_utc (ac_CreatedAt acct)))
        | Some owner \<Rightarrow>
            (case accounts_get_by_id (no_AccountID owner) st of
               None \<Rightarrow> (st, ''Nick '' @ quote target @ '' is registered but the account could not be found.'')
             | Some acct \<Rightarrow>
                 let nicks = map (\<lambda>g. no_Nick g @ (if no_Primary g then '' (primary)'' else [])) (nick_owners_by_account (no_AccountID owner) st)
                 in (st, ''Nick: '' @ target @ '' | Account: '' @ ac_Username acct @ '' | Primary: '' @
                       (if no_Primary owner then ''yes'' else ''no'') @ '' | Registered: '' @ format_utc (ac_CreatedAt acct) @
                       '' | Grouped nicks: '' @ join_with '', '' nicks)))"

text \<open>\<^verbatim>\<open>GHOST\<close> and \<^verbatim>\<open>RELEASE\<close> differ in the directive, and \<^verbatim>\<open>GHOST\<close> refuses the caller's own nick.\<close>

definition ns_claim :: "config \<Rightarrow> string \<Rightarrow> string \<Rightarrow> string list \<Rightarrow> store \<Rightarrow> service_result" where
  "ns_claim cfg verb acct_name args st =
     (let target = args ! 0; ok = (st, directive verb target);
          owned = (acct_name \<noteq> [] \<and>
            (case accounts_get acct_name st of
               None \<Rightarrow> False
             | Some acct \<Rightarrow>
                 (case nick_owners_get target st of Some owner \<Rightarrow> no_AccountID owner = ac_ID acct | None \<Rightarrow> False) \<or>
                 target = ac_Username acct));
          attempt = (\<lambda>acct. if auth_verify (cf_argon2 cfg) (cf_bcrypt cfg) (ac_PasswordHash acct) (args ! 1) = Some True
                            then ok else (st, ''Invalid credentials.''))
      in if owned then ok
         else if length args < 2 then (st, ''You do not own that nick. Usage: '' @ verb @ '' <nick> <password>'')
         else (case nick_owners_get target st of
                 None \<Rightarrow>
                   (case accounts_get target st of
                      None \<Rightarrow> (st, ''Nick '' @ quote target @ '' is not registered.'')
                    | Some acct \<Rightarrow> attempt acct)
               | Some owner \<Rightarrow>
                   (case accounts_get_by_id (no_AccountID owner) st of
                      None \<Rightarrow> (st, ''Internal error.'')
                    | Some acct \<Rightarrow> attempt acct)))"

definition ns_ghost :: "config \<Rightarrow> string \<Rightarrow> string \<Rightarrow> string list \<Rightarrow> store \<Rightarrow> service_result" where
  "ns_ghost cfg caller acct_name args st =
     (if args = [] then (st, ''Usage: GHOST <nick> [<password>]'')
      else if args ! 0 = caller then (st, ''You cannot GHOST yourself.'')
      else ns_claim cfg ''GHOST'' acct_name args st)"

definition ns_release :: "config \<Rightarrow> string \<Rightarrow> string list \<Rightarrow> store \<Rightarrow> service_result" where
  "ns_release cfg acct_name args st =
     (if args = [] then (st, ''Usage: RELEASE <nick> [<password>]'')
      else ns_claim cfg ''RELEASE'' acct_name args st)"

definition ns_handle_message ::
  "config \<Rightarrow> string \<Rightarrow> time \<Rightarrow> string \<Rightarrow> string \<Rightarrow> string \<Rightarrow> store \<Rightarrow> service_result" where
  "ns_handle_message cfg salt now nick acct_name text st =
     (case Prelude.fields text of
        [] \<Rightarrow> (st, ''Unknown command. '' @ ns_commands)
      | cmd # args \<Rightarrow>
          let c = to_upper cmd in
          if c = ''REGISTER'' then ns_register cfg salt now nick args st
          else if c = ''IDENTIFY'' then ns_identify cfg nick args st
          else if c = ''DROP'' then ns_drop nick acct_name args st
          else if c = ''INFO'' then ns_info args st
          else if c = ''GHOST'' then ns_ghost cfg nick acct_name args st
          else if c = ''RELEASE'' then ns_release cfg acct_name args st
          else if c = ''GROUP'' then ns_group now nick acct_name st
          else (st, ''Unknown command '' @ quote cmd @ ''. '' @ ns_commands))"

section \<open>ChanServ commands\<close>

definition cs_commands :: string where
  "cs_commands = ''Available: REGISTER, DROP, OP, DEOP, INFO, SET''"

definition cs_register :: "time \<Rightarrow> string \<Rightarrow> string list \<Rightarrow> store \<Rightarrow> service_result" where
  "cs_register now acct args st =
     (if acct = [] then (st, ''You must be identified to an account to register a channel.'')
      else if args = [] then (st, ''Usage: REGISTER <#channel>'')
      else
        let c = args ! 0 in
        if \<not> has_prefix ''#'' c \<and> \<not> has_prefix ''&'' c then (st, ''Invalid channel name.'')
        else (case reg_channels_create \<lparr>rc_Channel = c, rc_FounderID = acct, rc_Guard = True, rc_KeepTopic = False,
                     rc_CreatedAt = zero_time, rc_UpdatedAt = zero_time\<rparr> now st of
                (st1, Some ErrConflict) \<Rightarrow> (st1, ''Channel '' @ c @ '' is already registered.'')
              | (st1, Some _) \<Rightarrow> (st1, ''Internal error during registration.'')
              | (st1, None) \<Rightarrow> (st1, ''Channel '' @ c @ '' has been registered to account '' @ acct @ ''.'')))"

definition cs_drop :: "string \<Rightarrow> string list \<Rightarrow> store \<Rightarrow> service_result" where
  "cs_drop acct args st =
     (if acct = [] then (st, ''You must be identified to an account to drop a channel.'')
      else if args = [] then (st, ''Usage: DROP <#channel>'')
      else
        let c = args ! 0 in
        case reg_channels_get c st of
          None \<Rightarrow> (st, ''Channel '' @ c @ '' is not registered.'')
        | Some rc \<Rightarrow>
            if rc_FounderID rc \<noteq> acct then (st, ''Only the channel founder can drop a registration.'')
            else (case reg_channels_delete c st of
                    (st1, Some _) \<Rightarrow> (st1, ''Internal error during drop.'')
                  | (st1, None) \<Rightarrow> (st1, ''Channel '' @ c @ '' has been dropped.'')))"

definition cs_has_access :: "string \<Rightarrow> string \<Rightarrow> string \<Rightarrow> store \<Rightarrow> bool" where
  "cs_has_access c acct flag st =
     (case reg_channels_get c st of
        None \<Rightarrow> False
      | Some rc \<Rightarrow>
          if rc_FounderID rc = acct then True
          else (case access_get c acct st of None \<Rightarrow> False | Some flags \<Rightarrow> set flag \<subseteq> set flags))"

definition cs_op :: "string \<Rightarrow> string \<Rightarrow> string list \<Rightarrow> store \<Rightarrow> service_result" where
  "cs_op verb acct args st =
     (if acct = [] then (st, ''You must be identified to use '' @ verb @ ''.'')
      else if length args < 2 then (st, ''Usage: '' @ verb @ '' <#channel> <nick>'')
      else if \<not> cs_has_access (args ! 0) acct ''o'' st then (st, ''You do not have access to '' @ verb @ '' on this channel.'')
      else (st, directive verb (args ! 0 @ '' '' @ args ! 1)))"

definition cs_info :: "string list \<Rightarrow> store \<Rightarrow> service_result" where
  "cs_info args st =
     (if args = [] then (st, ''Usage: INFO <#channel>'')
      else
        let c = args ! 0 in
        case reg_channels_get c st of
          None \<Rightarrow> (st, ''Channel '' @ c @ '' is not registered.'')
        | Some rc \<Rightarrow>
            (st, ''Channel: '' @ rc_Channel rc @ '' | Founder: '' @ rc_FounderID rc @ '' | Guard: '' @
               (if rc_Guard rc then ''ON'' else ''OFF'') @ '' | KeepTopic: '' @ (if rc_KeepTopic rc then ''ON'' else ''OFF'') @
               '' | Registered: '' @ format_utc (rc_CreatedAt rc)))"

definition cs_set :: "time \<Rightarrow> string \<Rightarrow> string list \<Rightarrow> store \<Rightarrow> service_result" where
  "cs_set now acct args st =
     (if acct = [] then (st, ''You must be identified to use SET.'')
      else if length args < 3 then (st, ''Usage: SET <#channel> <GUARD|KEEPTOPIC> ON|OFF'')
      else
        let c = args ! 0; sub = to_upper (args ! 1); v = to_upper (args ! 2);
            store_it = (\<lambda>rc what. case reg_channels_update rc now st of
                (st1, Some _) \<Rightarrow> (st1, ''Internal error.'')
              | (st1, None) \<Rightarrow> (st1, what @ '' for '' @ c @ '' is now '' @ v @ ''.''))
        in case reg_channels_get c st of
             None \<Rightarrow> (st, ''Channel '' @ c @ '' is not registered.'')
           | Some rc \<Rightarrow>
               if rc_FounderID rc \<noteq> acct then (st, ''Only the channel founder can change settings.'')
               else if sub = ''GUARD'' then
                 (if v = ''ON'' then store_it (rc\<lparr>rc_Guard := True\<rparr>) ''Guard''
                  else if v = ''OFF'' then store_it (rc\<lparr>rc_Guard := False\<rparr>) ''Guard''
                  else (st, ''Usage: SET <#channel> GUARD ON|OFF''))
               else if sub = ''KEEPTOPIC'' then
                 (if v = ''ON'' then store_it (rc\<lparr>rc_KeepTopic := True\<rparr>) ''KeepTopic''
                  else if v = ''OFF'' then store_it (rc\<lparr>rc_KeepTopic := False\<rparr>) ''KeepTopic''
                  else (st, ''Usage: SET <#channel> KEEPTOPIC ON|OFF''))
               else (st, ''Unknown SET option. Available: GUARD, KEEPTOPIC''))"

definition cs_handle_message :: "time \<Rightarrow> string \<Rightarrow> string \<Rightarrow> store \<Rightarrow> service_result" where
  "cs_handle_message now acct text st =
     (case Prelude.fields text of
        [] \<Rightarrow> (st, ''Unknown command. '' @ cs_commands)
      | cmd # args \<Rightarrow>
          let c = to_upper cmd in
          if c = ''REGISTER'' then cs_register now acct args st
          else if c = ''DROP'' then cs_drop acct args st
          else if c = ''OP'' then cs_op ''OP'' acct args st
          else if c = ''DEOP'' then cs_op ''DEOP'' acct args st
          else if c = ''INFO'' then cs_info args st
          else if c = ''SET'' then cs_set now acct args st
          else (st, ''Unknown command '' @ quote cmd @ ''. '' @ cs_commands))"

section \<open>MemoServ commands\<close>

definition ms_commands :: string where
  "ms_commands = ''Available: SEND, LIST, READ, DELETE, PURGE''"

definition ms_sender_name :: "memo \<Rightarrow> store \<Rightarrow> string" where
  "ms_sender_name m st = (case accounts_get_by_id (mm_SenderID m) st of None \<Rightarrow> mm_SenderID m | Some a \<Rightarrow> ac_Username a)"

definition ms_send :: "time \<Rightarrow> string \<Rightarrow> string list \<Rightarrow> store \<Rightarrow> service_result" where
  "ms_send now acct args st =
     (if acct = [] then (st, ''You must be identified to send memos.'')
      else if length args < 2 then (st, ''Usage: SEND <nick> <message>'')
      else case accounts_get (args ! 0) st of
        None \<Rightarrow> (st, ''Account '' @ quote (args ! 0) @ '' not found.'')
      | Some recipient \<Rightarrow>
          (case accounts_get acct st of
             None \<Rightarrow> (st, ''Internal error: your account was not found.'')
           | Some sender \<Rightarrow>
               (case memos_send \<lparr>mm_ID = format_int now, mm_SenderID = ac_ID sender, mm_RecipientID = ac_ID recipient,
                      mm_Body = join_with '' '' (tl args), mm_Read = False, mm_CreatedAt = now\<rparr> st of
                  (st1, Some _) \<Rightarrow> (st1, ''Failed to send memo.'')
                | (st1, None) \<Rightarrow> (st1, ''Memo sent to '' @ args ! 0 @ ''.''))))"

definition ms_list :: "string \<Rightarrow> store \<Rightarrow> service_result" where
  "ms_list acct st =
     (if acct = [] then (st, ''You must be identified to list memos.'')
      else case accounts_get acct st of
        None \<Rightarrow> (st, ''Internal error: your account was not found.'')
      | Some a \<Rightarrow>
          let ms = memos_for (ac_ID a) st in
          if ms = [] then (st, ''You have no memos.'')
          else (st, ''You have '' @ itoa_nat (length ms) @ '' memo(s):'' @
                 concat (map (\<lambda>m. '' | ['' @ (if mm_Read m then ''R'' else '' '') @ ''] '' @ mm_ID m @ '' from '' @
                   ms_sender_name m st @ '' ('' @ format_minutes (mm_CreatedAt m) @ '')'') ms)))"

definition ms_owned :: "string \<Rightarrow> string \<Rightarrow> store \<Rightarrow> string + memo" where
  "ms_owned acct i st =
     (case accounts_get acct st of
        None \<Rightarrow> Inl ''Internal error: your account was not found.''
      | Some a \<Rightarrow>
          (case memos_get i st of
             None \<Rightarrow> Inl ''Memo not found.''
           | Some m \<Rightarrow> if mm_RecipientID m \<noteq> ac_ID a then Inl ''Memo not found.'' else Inr m))"

definition ms_read :: "string \<Rightarrow> string list \<Rightarrow> store \<Rightarrow> service_result" where
  "ms_read acct args st =
     (if acct = [] then (st, ''You must be identified to read memos.'')
      else if args = [] then (st, ''Usage: READ <id>'')
      else case ms_owned acct (args ! 0) st of
        Inl e \<Rightarrow> (st, e)
      | Inr m \<Rightarrow>
          let st1 = fst (memos_mark_read (args ! 0) st)
          in (st1, ''Memo from '' @ ms_sender_name m st1 @ '' ('' @ format_minutes (mm_CreatedAt m) @ ''): '' @ mm_Body m))"

definition ms_delete :: "string \<Rightarrow> string list \<Rightarrow> store \<Rightarrow> service_result" where
  "ms_delete acct args st =
     (if acct = [] then (st, ''You must be identified to delete memos.'')
      else if args = [] then (st, ''Usage: DELETE <id>'')
      else case ms_owned acct (args ! 0) st of
        Inl e \<Rightarrow> (st, e)
      | Inr m \<Rightarrow>
          (case memos_delete (args ! 0) st of
             (st1, Some _) \<Rightarrow> (st1, ''Failed to delete memo.'')
           | (st1, None) \<Rightarrow> (st1, ''Memo deleted.'')))"

fun ms_purge_loop :: "memo list \<Rightarrow> store \<Rightarrow> nat \<Rightarrow> store \<times> nat" where
  "ms_purge_loop [] st n = (st, n)"
| "ms_purge_loop (m # ms) st n =
     (if mm_Read m then
        (case memos_delete (mm_ID m) st of (st1, Some _) \<Rightarrow> ms_purge_loop ms st1 n | (st1, None) \<Rightarrow> ms_purge_loop ms st1 (n + 1))
      else ms_purge_loop ms st n)"

definition ms_purge :: "string \<Rightarrow> store \<Rightarrow> service_result" where
  "ms_purge acct st =
     (if acct = [] then (st, ''You must be identified to purge memos.'')
      else case accounts_get acct st of
        None \<Rightarrow> (st, ''Internal error: your account was not found.'')
      | Some a \<Rightarrow>
          (case ms_purge_loop (memos_for (ac_ID a) st) st 0 of
             (st1, n) \<Rightarrow> (st1, ''Purged '' @ itoa_nat n @ '' read memo(s).'')))"

definition ms_handle_message :: "time \<Rightarrow> string \<Rightarrow> string \<Rightarrow> store \<Rightarrow> service_result" where
  "ms_handle_message now acct text st =
     (case Prelude.fields text of
        [] \<Rightarrow> (st, ''Unknown command. '' @ ms_commands)
      | cmd # args \<Rightarrow>
          let c = to_upper cmd in
          if c = ''SEND'' then ms_send now acct args st
          else if c = ''LIST'' then ms_list acct st
          else if c = ''READ'' then ms_read acct args st
          else if c = ''DELETE'' then ms_delete acct args st
          else if c = ''PURGE'' then ms_purge acct st
          else (st, ''Unknown command '' @ quote cmd @ ''. '' @ ms_commands))"

end
