(* ===== verification/Service_Hooks.thy ===== *)
theory Service_Hooks
  imports Services
begin

text \<open>
  How the server and the three services call each other: \<^verbatim>\<open>SendNoticeToNick\<close>, \<^verbatim>\<open>ForceNickChange\<close>,
  \<^verbatim>\<open>DisconnectNick\<close>, \<^verbatim>\<open>SetChannelMode\<close>, \<^verbatim>\<open>BroadcastChannelTopic\<close> and the notify functions of
  \<^verbatim>\<open>internal/server/server.go\<close>; \<^verbatim>\<open>Deliver\<close>, \<^verbatim>\<open>CheckNick\<close>, \<^verbatim>\<open>CheckJoin\<close>, \<^verbatim>\<open>NotifyUnread\<close> and the enforcement
  timers of \<^verbatim>\<open>internal/services/*/service.go\<close>.

  A service is running when it is in the bot registry, where its start function puts it and nothing takes
  it out. A pending enforcement timer is its deadline in \<open>sv_enforce\<close>. The salt of a hash is drawn from
  the random stream at every NickServ command, whether the command uses it or not. The services have a
  store whenever they run.
\<close>

section \<open>The server as the services see it\<close>

definition send_notice_to_nick :: "string \<Rightarrow> string \<Rightarrow> string \<Rightarrow> server \<Rightarrow> server" where
  "send_notice_to_nick from target text s =
     (case find_by_nick target (sv_world s) of
        None \<Rightarrow> s
      | Some u \<Rightarrow>
          (case conn_for u s of
             None \<Rightarrow> s
           | Some c \<Rightarrow> send c (plain_message from ''NOTICE'' [u_Nick (user_of u s), text]) s))"

text \<open>The message is built after the rename, so its prefix is the new hostmask.\<close>

definition force_nick_change :: "string \<Rightarrow> string \<Rightarrow> server \<Rightarrow> server \<times> bool" where
  "force_nick_change oldNick newNick s =
     (case find_by_nick oldNick (sv_world s) of
        None \<Rightarrow> (s, False)
      | Some u \<Rightarrow>
          (case rename_user u newNick (sv_world s) of
             (_, Some _) \<Rightarrow> (s, False)
           | (_, None) \<Rightarrow>
               let s1 = upd_sworld (\<lambda>w. fst (rename_user u newNick w)) s;
                   m = plain_message (hostmask (user_of u s1)) ''NICK'' [newNick];
                   s2 = (case conn_for u s1 of Some c \<Rightarrow> send c m s1 | None \<Rightarrow> s1)
               in (fold (\<lambda>ch. broadcast_with deliver_plain ch m u False) (user_channels u (sv_world s2)) s2, True)))"

definition disconnect_nick :: "string \<Rightarrow> string \<Rightarrow> server \<Rightarrow> server" where
  "disconnect_nick nick reason s =
     (case find_by_nick nick (sv_world s) of
        None \<Rightarrow> s
      | Some u \<Rightarrow>
          (case conn_for u s of
             None \<Rightarrow> s
           | Some c \<Rightarrow> cancel c (''ghosted: '' @ reason) (send_error c reason s)))"

definition set_channel_mode :: "string \<Rightarrow> string \<Rightarrow> string \<Rightarrow> string \<Rightarrow> server \<Rightarrow> server" where
  "set_channel_mode from chan modeStr target s =
     (case find_channel chan (sv_world s) of
        None \<Rightarrow> s
      | Some ch \<Rightarrow> broadcast_with deliver_plain ch (plain_message from ''MODE'' [chan, modeStr, target]) 0 True s)"

definition broadcast_channel_topic :: "string \<Rightarrow> string \<Rightarrow> string \<Rightarrow> server \<Rightarrow> server" where
  "broadcast_channel_topic from chan topic s =
     (case find_channel chan (sv_world s) of
        None \<Rightarrow> s
      | Some ch \<Rightarrow> broadcast_with deliver_plain ch (plain_message from ''TOPIC'' [chan, topic]) 0 True s)"

section \<open>MemoServ\<close>

definition nickserv_mask :: string where
  "nickserv_mask = ''NickServ!service@services.''"

definition chanserv_mask :: string where
  "chanserv_mask = ''ChanServ!service@services.''"

definition memoserv_mask :: string where
  "memoserv_mask = ''MemoServ!service@services.''"

definition bot_running :: "bot \<Rightarrow> server \<Rightarrow> bool" where
  "bot_running b s = list_ex (\<lambda>(_, b'). b' = b) (sv_bots s)"

text \<open>Who speaks to a service: the nick of the prefix, and its account.\<close>

definition sender_nick :: "message \<Rightarrow> string" where
  "sender_nick m = (case cut_nick (msg_Prefix m) of None \<Rightarrow> msg_Prefix m | Some n \<Rightarrow> n)"

definition sender_account :: "string \<Rightarrow> server \<Rightarrow> string" where
  "sender_account nick s =
     (case find_by_nick nick (sv_world s) of None \<Rightarrow> [] | Some u \<Rightarrow> u_Account (user_of u s))"

definition notify_unread :: "string \<Rightarrow> string \<Rightarrow> server \<Rightarrow> server" where
  "notify_unread nick accountID s =
     (case sv_store s of
        None \<Rightarrow> s
      | Some st \<Rightarrow>
          let n = memos_count_unread accountID st
          in if n = 0 then s
             else send_notice_to_nick memoserv_mask nick
               (''You have '' @ itoa_nat n @ '' unread memo(s). Use /msg MemoServ LIST to view them.'') s)"

definition notify_memoserv :: "string \<Rightarrow> string \<Rightarrow> server \<Rightarrow> server" where
  "notify_memoserv nick acct s =
     (if \<not> bot_running MemoServBot s \<or> acct = [] then s
      else case sv_store s of
        None \<Rightarrow> s
      | Some st \<Rightarrow> (case accounts_get acct st of None \<Rightarrow> s | Some a \<Rightarrow> notify_unread nick (ac_ID a) s))"

definition memoserv_deliver :: "message \<Rightarrow> server \<Rightarrow> server" where
  "memoserv_deliver m s =
     (if msg_Command m \<noteq> ''PRIVMSG'' \<and> msg_Command m \<noteq> ''SQUERY'' then s
      else if length (msg_Params m) < 2 then s
      else case sv_store s of
        None \<Rightarrow> s
      | Some st \<Rightarrow>
          let nick = sender_nick m;
              (st', text) = ms_handle_message (sv_now s) (sender_account nick s) (msg_Params m ! 1) st
          in send_notice_to_nick memoserv_mask nick text (s\<lparr>sv_store := Some st'\<rparr>))"

text \<open>A tick of the retention loop: memos older than thirty days go.\<close>

definition memoserv_retention :: "server \<Rightarrow> server" where
  "memoserv_retention s =
     s\<lparr>sv_store := map_option (\<lambda>st. fst (memos_purge_older (sv_now s - 30 * 24 * 3600 * 1000000000) st)) (sv_store s)\<rparr>"

section \<open>NickServ\<close>

definition cancel_enforcement :: "string \<Rightarrow> server \<Rightarrow> server" where
  "cancel_enforcement nick s = s\<lparr>sv_enforce := mdel nick (sv_enforce s)\<rparr>"

definition rand_bytes :: "nat \<Rightarrow> server \<Rightarrow> string" where
  "rand_bytes n s = map (\<lambda>i. byte_of (sv_rand s (sv_randPos s + i))) [0..<n]"

definition identified_prefix :: string where
  "identified_prefix = ''You are now identified as ''"

text \<open>What a successful \<^verbatim>\<open>IDENTIFY\<close> does to the speaker; \<^verbatim>\<open>OnIdentify\<close> is wired when MemoServ starts.\<close>

definition identify :: "string \<Rightarrow> string \<Rightarrow> server \<Rightarrow> server" where
  "identify nick acct s =
     (let s1 = (case find_by_nick nick (sv_world s) of
                  None \<Rightarrow> s
                | Some u \<Rightarrow> with_user u (\<lambda>x. x\<lparr>u_Account := acct\<rparr>) s);
          s2 = cancel_enforcement nick s1
      in if bot_running MemoServBot s2 then
           (case sv_store s2 of
              None \<Rightarrow> s2
            | Some st \<Rightarrow> (case accounts_get acct st of None \<Rightarrow> s2 | Some a \<Rightarrow> notify_unread nick (ac_ID a) s2))
         else s2)"

definition nickserv_deliver :: "message \<Rightarrow> server \<Rightarrow> server" where
  "nickserv_deliver m s =
     (if msg_Command m \<noteq> ''PRIVMSG'' \<and> msg_Command m \<noteq> ''SQUERY'' then s
      else if length (msg_Params m) < 2 then s
      else case sv_store s of
        None \<Rightarrow> s
      | Some st \<Rightarrow>
          let nick = sender_nick m;
              (st', text) = ns_handle_message (sv_cfg s) (rand_bytes 16 s) (sv_now s) nick (sender_account nick s)
                              (msg_Params m ! 1) st;
              s1 = s\<lparr>sv_store := Some st', sv_randPos := sv_randPos s + 16\<rparr>;
              s2 = (if has_prefix identified_prefix text
                    then identify nick (trim_suffix ''.'' (trim_prefix identified_prefix text)) s1 else s1)
          in if has_prefix (directive ''GHOST'' []) text then
               (let target = trim_space (trim_prefix (directive ''GHOST'' []) text)
                in send_notice_to_nick nickserv_mask nick (''User '' @ target @ '' has been ghosted.'')
                     (disconnect_nick target (''Ghosted by '' @ nick) s2))
             else if has_prefix (directive ''RELEASE'' []) text then
               (let target = trim_space (trim_prefix (directive ''RELEASE'' []) text)
                in send_notice_to_nick nickserv_mask nick (''Nick '' @ target @ '' has been released.'')
                     (cancel_enforcement target s2))
             else send_notice_to_nick nickserv_mask nick text s2)"

definition enforce_timeout :: int where
  "enforce_timeout = 60 * 1000000000"

definition check_nick :: "string \<Rightarrow> bool \<Rightarrow> server \<Rightarrow> server" where
  "check_nick nick alreadyIdentified s =
     (if alreadyIdentified then cancel_enforcement nick s
      else case sv_store s of
        None \<Rightarrow> s
      | Some st \<Rightarrow>
          (case accounts_get nick st of
             None \<Rightarrow> s
           | Some _ \<Rightarrow>
               let s1 = send_notice_to_nick nickserv_mask nick
                     (''This nickname is registered. You have '' @ format_int (enforce_timeout div 1000000000) @
                      '' seconds to identify via /msg NickServ IDENTIFY <password>.'') s
               in if enforce_timeout \<le> 0 then s1
                  else s1\<lparr>sv_enforce := mput nick (sv_now s1 + enforce_timeout) (sv_enforce s1)\<rparr>))"

definition notify_nickserv :: "string \<Rightarrow> string \<Rightarrow> server \<Rightarrow> server" where
  "notify_nickserv nick acct s = (if bot_running NickServBot s then check_nick nick (acct \<noteq> []) s else s)"

text \<open>The timer function of a deadline that has passed.\<close>

definition enforce_guest_rename :: "string \<Rightarrow> server \<Rightarrow> server" where
  "enforce_guest_rename nick s =
     (let s1 = cancel_enforcement nick s in
      case find_by_nick nick (sv_world s1) of
        None \<Rightarrow> s1
      | Some u \<Rightarrow>
          if u_Account (user_of u s1) \<noteq> [] then s1
          else let guest = ''Guest'' @ itoa_nat (sv_rand s1 (sv_randPos s1) mod 99999);
                   s2 = send_notice_to_nick nickserv_mask nick
                     (''Your nick has been changed to '' @ guest @ '' because you did not identify in time.'')
                     (s1\<lparr>sv_randPos := sv_randPos s1 + 1\<rparr>)
               in fst (force_nick_change nick guest s2))"

section \<open>ChanServ\<close>

text \<open>\<^verbatim>\<open>doOp\<close> and \<^verbatim>\<open>doDeop\<close>.\<close>

definition do_op :: "bool \<Rightarrow> string \<Rightarrow> string \<Rightarrow> string \<Rightarrow> server \<Rightarrow> server" where
  "do_op on chan targetNick requestor s =
     (let tell = send_notice_to_nick chanserv_mask requestor in
      case find_by_nick targetNick (sv_world s) of
        None \<Rightarrow> tell (''No such nick: '' @ targetNick) s
      | Some t \<Rightarrow>
          (case find_channel chan (sv_world s) of
             None \<Rightarrow> tell (''No such channel: '' @ chan) s
           | Some ch \<Rightarrow>
               if \<not> is_member t ch then tell (targetNick @ '' is not in '' @ chan) s
               else let s1 = with_chan chan (\<lambda>c. fst (if on then add_membership t MemberOp c else remove_membership t MemberOp c)) s;
                        s2 = set_channel_mode chanserv_mask chan (if on then ''+o'' else ''-o'') targetNick s1
                    in tell (targetNick @ '' has been '' @ (if on then ''opped'' else ''deopped'') @ '' in '' @ chan) s2))"

definition chanserv_deliver :: "message \<Rightarrow> server \<Rightarrow> server" where
  "chanserv_deliver m s =
     (if msg_Command m \<noteq> ''PRIVMSG'' \<and> msg_Command m \<noteq> ''SQUERY'' then s
      else if length (msg_Params m) < 2 then s
      else case sv_store s of
        None \<Rightarrow> s
      | Some st \<Rightarrow>
          let nick = sender_nick m;
              (st', text) = cs_handle_message (sv_now s) (sender_account nick s) (msg_Params m ! 1) st;
              s1 = s\<lparr>sv_store := Some st'\<rparr>;
              parts = Prelude.fields (tl text)
          in if has_prefix (directive ''OP'' []) text then
               (if length parts = 3 then do_op True (parts ! 1) (parts ! 2) nick s1 else s1)
             else if has_prefix (directive ''DEOP'' []) text then
               (if length parts = 3 then do_op False (parts ! 1) (parts ! 2) nick s1 else s1)
             else send_notice_to_nick chanserv_mask nick text s1)"

definition auto_op :: "string \<Rightarrow> string \<Rightarrow> server \<Rightarrow> server" where
  "auto_op nick chan s =
     (case find_by_nick nick (sv_world s) of
        None \<Rightarrow> s
      | Some t \<Rightarrow>
          (case find_channel chan (sv_world s) of
             None \<Rightarrow> s
           | Some ch \<Rightarrow>
               if \<not> is_member t ch then s
               else set_channel_mode chanserv_mask chan ''+o'' nick (with_chan chan (\<lambda>c. fst (add_membership t MemberOp c)) s)))"

definition maybe_restore_topic :: "string \<Rightarrow> server \<Rightarrow> server" where
  "maybe_restore_topic chan s =
     (case find_channel chan (sv_world s) of
        None \<Rightarrow> s
      | Some ch \<Rightarrow>
          if member_count ch \<noteq> 1 \<or> ch_topic ch \<noteq> [] then s
          else case sv_store s of
            None \<Rightarrow> s
          | Some st \<Rightarrow>
              (case channels_get chan st of
                 None \<Rightarrow> s
               | Some rec \<Rightarrow>
                   if cr_Topic rec = [] then s
                   else broadcast_channel_topic chanserv_mask chan (cr_Topic rec)
                     (with_chan chan (set_topic (cr_Topic rec) (cr_TopicSetBy rec) (cr_TopicSetAt rec)) s)))"

definition check_join :: "string \<Rightarrow> string \<Rightarrow> string \<Rightarrow> server \<Rightarrow> server" where
  "check_join nick acct chan s =
     (if acct = [] then s
      else case sv_store s of
        None \<Rightarrow> s
      | Some st \<Rightarrow>
          (case reg_channels_get chan st of
             None \<Rightarrow> s
           | Some rc \<Rightarrow>
               if rc_FounderID rc = acct \<and> rc_Guard rc then auto_op nick chan s
               else let s1 = (case access_get chan acct st of
                                None \<Rightarrow> s
                              | Some flags \<Rightarrow> if CHR ''o'' \<in> set flags then auto_op nick chan s else s)
                    in if rc_KeepTopic rc then maybe_restore_topic chan s1 else s1))"

definition notify_chanserv :: "string \<Rightarrow> string \<Rightarrow> string \<Rightarrow> server \<Rightarrow> server" where
  "notify_chanserv nick acct chan s = (if bot_running ChanServBot s then check_join nick acct chan s else s)"

section \<open>Starting and delivering\<close>

definition service_user :: "string \<Rightarrow> string \<Rightarrow> user" where
  "service_user nick realname =
     zero_user\<lparr>u_Nick := nick, u_User := ''service'', u_Host := ''services.'', u_Realname := realname,
       u_Registered := True, u_Service := True, u_ServiceType := nick, u_ServiceDistribution := ''*''\<rparr>"

definition start_service :: "user \<Rightarrow> bot \<Rightarrow> server \<Rightarrow> server" where
  "start_service u b s =
     (case add_user u (sv_now s) (sv_world s) of
        (w, Inl _) \<Rightarrow> s
      | (w, Inr i) \<Rightarrow> register_bot i b (s\<lparr>sv_world := w\<rparr>))"

definition start_nickserv :: "server \<Rightarrow> server" where
  "start_nickserv = start_service (service_user ''NickServ'' ''Nickname services'') NickServBot"

definition start_chanserv :: "server \<Rightarrow> server" where
  "start_chanserv = start_service (service_user ''ChanServ'' ''Channel services'') ChanServBot"

definition start_memoserv :: "server \<Rightarrow> server" where
  "start_memoserv = start_service (service_user ''MemoServ'' ''Memo services'') MemoServBot"

definition deliver_bot :: "uid \<Rightarrow> bot \<Rightarrow> message \<Rightarrow> server \<Rightarrow> server" where
  "deliver_bot u b m s =
     (case b of
        LuaBot _ \<Rightarrow> deliver_plain u b m s
      | NickServBot \<Rightarrow> nickserv_deliver m s
      | ChanServBot \<Rightarrow> chanserv_deliver m s
      | MemoServBot \<Rightarrow> memoserv_deliver m s)"

section \<open>What the services keep\<close>

lemma quiet_notice [simp, intro]: "quiet s (send_notice_to_nick f t x s)"
  by (simp add: send_notice_to_nick_def split: option.split)

lemma quiet_disconnect [simp, intro]: "quiet s (disconnect_nick n r s)"
  by (auto simp: disconnect_nick_def split: option.split intro: quiet_trans)

lemma quiet_channel_notices [simp, intro]:
  "quiet s (set_channel_mode f ch x t s)" "quiet s (broadcast_channel_topic f ch x s)"
  by (simp_all add: set_channel_mode_def broadcast_channel_topic_def split: option.split)

lemma quiet_notify_unread [simp, intro]: "quiet s (notify_unread n a s)"
  by (simp add: notify_unread_def Let_def split: option.split)

lemma quiet_notify_memoserv [simp, intro]: "quiet s (notify_memoserv n a s)"
  by (simp add: notify_memoserv_def split: option.split)

lemmas wf_hooks_quiet [invs] =
  quiet_wf [OF quiet_notice] quiet_wf [OF quiet_disconnect] quiet_wf [OF quiet_channel_notices(1)]
  quiet_wf [OF quiet_channel_notices(2)] quiet_wf [OF quiet_notify_unread] quiet_wf [OF quiet_notify_memoserv]

lemmas hooks_frames [simp, frames] =
  quietD [OF quiet_notice] quietD [OF quiet_disconnect] quietD [OF quiet_channel_notices(1)]
  quietD [OF quiet_channel_notices(2)] quietD [OF quiet_notify_unread] quietD [OF quiet_notify_memoserv]

lemma wf_cancel_enforcement [invs]: "wf_server s \<Longrightarrow> wf_server (cancel_enforcement n s)"
  by (simp add: cancel_enforcement_def)

lemma wf_force_nick_change [invs]: "wf_server s \<Longrightarrow> wf_server (fst (force_nick_change a b s))"
  by (auto simp: force_nick_change_def Let_def split: option.split prod.split intro!: wf_fold wf_rename invs)

lemma wf_set_account [invs]: "wf_server s \<Longrightarrow> wf_server (with_user u (\<lambda>x. x\<lparr>u_Account := a\<rparr>) s)"
  by (rule wf_with_user) simp_all

lemma wf_identify [invs]: "wf_server s \<Longrightarrow> wf_server (identify n a s)"
  by (auto simp: identify_def Let_def split: option.split intro!: invs)

lemma wf_nickserv_deliver [invs]: "wf_server s \<Longrightarrow> wf_server (nickserv_deliver m s)"
  by (auto simp: nickserv_deliver_def Let_def split: option.split prod.split intro!: invs)

lemma wf_memoserv_deliver [invs]: "wf_server s \<Longrightarrow> wf_server (memoserv_deliver m s)"
  by (auto simp: memoserv_deliver_def Let_def split: option.split prod.split intro!: invs)

lemma wf_memoserv_retention [invs]: "wf_server s \<Longrightarrow> wf_server (memoserv_retention s)"
  by (simp add: memoserv_retention_def)

lemma wf_check_nick [invs]: "wf_server s \<Longrightarrow> wf_server (check_nick n b s)"
  by (auto simp: check_nick_def Let_def split: option.split intro!: invs)

lemma wf_notify_nickserv [invs]: "wf_server s \<Longrightarrow> wf_server (notify_nickserv n a s)"
  by (simp add: notify_nickserv_def invs)

lemma wf_enforce_guest_rename [invs]: "wf_server s \<Longrightarrow> wf_server (enforce_guest_rename n s)"
  by (auto simp: enforce_guest_rename_def Let_def split: option.split intro!: invs)

lemma wf_do_op [invs]: "wf_server s \<Longrightarrow> wf_server (do_op on ch t r s)"
  by (cases on) (auto simp: do_op_def Let_def split: option.split intro!: invs)

lemma wf_chanserv_deliver [invs]: "wf_server s \<Longrightarrow> wf_server (chanserv_deliver m s)"
  by (auto simp: chanserv_deliver_def Let_def split: option.split prod.split intro!: invs)

lemma wf_auto_op [invs]: "wf_server s \<Longrightarrow> wf_server (auto_op n ch s)"
  by (auto simp: auto_op_def split: option.split intro!: invs)

lemma wf_maybe_restore_topic [invs]: "wf_server s \<Longrightarrow> wf_server (maybe_restore_topic ch s)"
  by (auto simp: maybe_restore_topic_def split: option.split intro!: invs)

lemma wf_notify_chanserv [invs]: "wf_server s \<Longrightarrow> wf_server (notify_chanserv n a ch s)"
  by (auto simp: notify_chanserv_def check_join_def Let_def split: option.split intro!: invs)

lemma wf_deliver_bot [invs]: "wf_server s \<Longrightarrow> wf_server (deliver_bot u b m s)"
  by (auto simp: deliver_bot_def split: bot.split intro!: invs)

lemma wf_broadcast_bot [invs]: "wf_server s \<Longrightarrow> wf_server (broadcast_with deliver_bot ch m e i s)"
  by (rule wf_broadcast_with) (simp_all add: invs)

end
