(* ===== verification/Join_Part.thy ===== *)
theory Join_Part
  imports World
begin

text \<open>
  What \<^verbatim>\<open>JoinChannel\<close>, \<^verbatim>\<open>PartChannel\<close> and \<^verbatim>\<open>RemoveUser\<close> of \<^verbatim>\<open>internal/state/world.go\<close> do to the channels
  of the world: the flags a joiner gets, when a channel is dropped, the server-reop rule of safe
  channels, and the memberships that outlive a removed user. The definitions are those of \<open>World\<close>.
\<close>

section \<open>Joining\<close>

text \<open>The flags the source gives a new member, as one table.\<close>

definition join_flags :: "string \<Rightarrow> channel option \<Rightarrow> membership" where
  "join_flags name existing =
     (case existing of
        None \<Rightarrow> (if hd name = CHR ''+'' then 0 else if hd name = CHR ''!'' then MemberCreator else MemberOp)
      | Some ch \<Rightarrow> (if member_count ch = 0 \<and> is_safe_name name \<and> m_serverReop (ch_modes ch) then MemberOp else 0))"

lemma mem_or_zero: "mem_or 0 f = f"
  by (simp add: mem_or_def)

lemma add_member_existing: "\<not> is_member u c \<Longrightarrow> add_member u False c = (c\<lparr>ch_members := mput u 0 (ch_members c)\<rparr>, 0, True)"
  by (simp add: add_member_def is_member_def mhas_def)

lemma add_member_old: "is_member u c \<Longrightarrow> add_member u b c = (c, membership_of u c, False)"
  by (auto simp: add_member_def is_member_def mhas_def membership_of_def)

definition joined :: "uid \<Rightarrow> membership \<Rightarrow> channel \<Rightarrow> channel" where
  "joined u m c = c\<lparr>ch_members := mput u m (ch_members c)\<rparr>"

lemma mput_twice: "map_of (mput k v (mput k v' m)) = map_of (mput k v m)"
  by (simp add: fun_eq_iff)

lemma update_twice: "mput k v (mput k v' m) = mput k v m"
  by (induction m) auto

lemma joined_simps [simp]:
  "ch_name (joined u m c) = ch_name c" "ch_modes (joined u m c) = ch_modes c"
  "is_member v (joined u m c) \<longleftrightarrow> v = u \<or> is_member v c"
  "membership_of v (joined u m c) = (if v = u then m else membership_of v c)"
  "wf_channel c \<Longrightarrow> wf_channel (joined u m c)"
  by (auto simp: joined_def is_member_def membership_of_def wf_channel_def)

lemma upd_const: "upd_channel n (\<lambda>_. c) (w\<lparr>w_byChannel := mput (wfold w n) c' (w_byChannel w)\<rparr>) =
  w\<lparr>w_byChannel := mput (wfold w n) c (w_byChannel w)\<rparr>"
  by (simp add: upd_channel_def update_twice)

lemma join_new:
  assumes "mhas (w_byID w) u" "name \<noteq> []" "find_channel name w = None"
  shows "join_channel u name t w =
    (let c = joined u (join_flags name None) (new_channel name t)
     in (w\<lparr>w_byChannel := mput (wfold w name) c (w_byChannel w)\<rparr>, Inr \<lparr>jr_channel = c, jr_mem = join_flags name None, jr_added = True\<rparr>))"
  using assms
  by (simp add: join_channel_def find_by_id_def ensure_channel_def find_channel_def Let_def add_member_def
      join_flags_def upd_const joined_def) (simp add: new_channel_def)

lemma join_existing:
  assumes "mhas (w_byID w) u" "find_channel name w = Some ch" "\<not> is_member u ch"
  shows "join_channel u name t w =
    (let c = joined u (join_flags name (Some ch)) ch
     in (upd_channel name (\<lambda>_. c) w, Inr \<lparr>jr_channel = c, jr_mem = join_flags name (Some ch), jr_added = True\<rparr>))"
proof -
  have k: "map_of (w_byChannel w) (wfold w name) = Some ch" "name \<noteq> []"
    using assms(2) by (simp_all add: find_channel_def split: if_splits)
  show ?thesis
    using assms k
    by (simp add: join_channel_def find_by_id_def ensure_channel_def Let_def add_member_existing join_flags_def
        add_membership_def mem_or_zero update_twice joined_def)
qed

lemma join_member:
  assumes "mhas (w_byID w) u" "find_channel name w = Some ch" "is_member u ch"
  shows "join_channel u name t w =
    (upd_channel name (\<lambda>_. ch) w, Inr \<lparr>jr_channel = ch, jr_mem = membership_of u ch, jr_added = False\<rparr>)"
proof -
  have k: "map_of (w_byChannel w) (wfold w name) = Some ch" "name \<noteq> []"
    using assms(2) by (simp_all add: find_channel_def split: if_splits)
  show ?thesis
    using assms k
    by (simp add: join_channel_def find_by_id_def ensure_channel_def Let_def add_member_old)
qed

lemma join_unknown: "\<not> mhas (w_byID w) u \<Longrightarrow> join_channel u name t w = (w, Inl ErrNoSuchUser)"
  by (simp add: join_channel_def find_by_id_def)

lemma find_channel_put:
  "m \<noteq> [] \<Longrightarrow> find_channel m (w\<lparr>w_byChannel := mput (wfold w n) c (w_byChannel w)\<rparr>) =
     (if wfold w m = wfold w n then Some c else find_channel m w)"
  by (simp add: find_channel_def)

lemma wf_put_channel:
  assumes "wf_world w" "wf_channel c" "wfold w (ch_name c) = wfold w n"
  shows "wf_world (w\<lparr>w_byChannel := mput (wfold w n) c (w_byChannel w)\<rparr>)"
  using assms wf_users_cong [of "w\<lparr>w_byChannel := mput (wfold w n) c (w_byChannel w)\<rparr>" w]
  by (auto simp: wf_world_def wf_channels_def)

lemma wf_join_channel [invs]: "wf_world w \<Longrightarrow> name \<noteq> [] \<Longrightarrow> wf_world (fst (join_channel u name t w))"
proof -
  assume wf: "wf_world w" and ne: "name \<noteq> []"
  consider (unknown) "\<not> mhas (w_byID w) u" | (new) "mhas (w_byID w) u" "find_channel name w = None"
    | (old) ch where "mhas (w_byID w) u" "find_channel name w = Some ch" by (cases "find_channel name w") auto
  then show ?thesis
  proof cases
    case unknown
    with wf show ?thesis by (simp add: join_unknown)
  next
    case new
    with wf ne show ?thesis
      by (simp add: join_new Let_def) (intro wf_put_channel; simp add: wf_new_channel)
  next
    case old
    note c = find_channel_wf [OF wf_worldD(2) [OF wf] old(2)]
    have k: "map_of (w_byChannel w) (wfold w name) = Some ch"
      using old(2) by (simp add: find_channel_def split: if_splits)
    have "wf_world (upd_channel name (\<lambda>_. d) w)" if "wf_channel d" "ch_name d = ch_name ch" for d
      using wf by (rule wf_upd_channel) (use that k in auto)
    with old c show ?thesis by (cases "is_member u ch") (simp_all add: join_member join_existing Let_def)
  qed
qed

text \<open>A join by a known user puts the user, and nobody else, into the channel of that name, creating the
  channel when there is none; a new member gets the flags of the table, members keep theirs, and no other
  channel changes.
\<close>

theorem join_channel_effect:
  assumes "wf_world w" "mhas (w_byID w) u" "name \<noteq> []"
  shows "\<exists>w' r ch'. join_channel u name t w = (w', Inr r) \<and> jr_channel r = ch' \<and>
    find_channel name w' = Some ch' \<and> jr_mem r = membership_of u ch' \<and>
    (\<forall>v. is_member v ch' \<longleftrightarrow> v = u \<or> (\<exists>ch. find_channel name w = Some ch \<and> is_member v ch)) \<and>
    (jr_added r \<longleftrightarrow> \<not> (\<exists>ch. find_channel name w = Some ch \<and> is_member u ch)) \<and>
    (jr_added r \<longrightarrow> jr_mem r = join_flags name (find_channel name w)) \<and>
    (\<forall>ch v. find_channel name w = Some ch \<longrightarrow> v \<noteq> u \<or> \<not> jr_added r \<longrightarrow> membership_of v ch' = membership_of v ch) \<and>
    (\<forall>m. m \<noteq> [] \<longrightarrow> wfold w m \<noteq> wfold w name \<longrightarrow> find_channel m w' = find_channel m w)"
proof (cases "find_channel name w")
  case None
  with assms show ?thesis
    by (simp add: join_new Let_def find_channel_put)
next
  case (Some ch)
  with assms show ?thesis
    by (cases "is_member u ch") (auto simp: join_member join_existing Let_def)
qed

section \<open>Parting\<close>

lemma remove_member_eq: "is_member u c \<Longrightarrow> remove_member u c = (c\<lparr>ch_members := mdel u (ch_members c)\<rparr>, True)"
  by (simp add: remove_member_def is_member_def)

lemma remove_member_no: "\<not> is_member u c \<Longrightarrow> remove_member u c = (c, False)"
  by (simp add: remove_member_def is_member_def)

lemma wf_part_channel [invs]: "wf_world w \<Longrightarrow> wf_world (fst (part_channel u name w))"
proof -
  assume wf: "wf_world w"
  show ?thesis
  proof (cases "find_channel name w")
    case None
    with wf show ?thesis by (simp add: part_channel_def)
  next
    case (Some ch)
    then have k: "map_of (w_byChannel w) (wfold w name) = Some ch"
      by (simp add: find_channel_def split: if_splits)
    note c = find_channel_wf [OF wf_worldD(2) [OF wf] Some]
    show ?thesis
    proof (cases "is_member u ch")
      case False
      with wf Some show ?thesis by (simp add: part_channel_def remove_member_no)
    next
      case True
      have "wf_world (upd_channel name (\<lambda>_. fst (remove_member u ch)) w)"
        using wf by (rule wf_upd_channel) (use k c(1) wf_remove_member in \<open>auto simp: remove_member_def\<close>)
      with Some True show ?thesis
        by (simp add: part_channel_def remove_member_eq Let_def wf_drop_channel)
    qed
  qed
qed

lemma part_channel_member:
  assumes "find_channel name w = Some ch" "is_member u ch"
  shows "part_channel u name w =
     (let ch1 = fst (remove_member u ch); w1 = upd_channel name (\<lambda>_. ch1) w in
      if member_count ch1 = 0 \<and> \<not> (is_safe_name name \<and> m_serverReop (ch_modes ch))
      then (drop_channel name w1, Inr True) else (w1, Inr False))"
proof -
  have r: "remove_member u ch = (fst (remove_member u ch), True)"
    using assms(2) by (simp add: remove_member_eq)
  have m: "ch_modes (fst (remove_member u ch)) = ch_modes ch" by simp
  show ?thesis unfolding part_channel_def assms(1) option.case
    by (subst r) (simp add: Let_def m del: remove_member_frames)
qed

text \<open>
  C28: A part by a member removes exactly that member. The channel disappears when nobody is left, unless
  it is a safe channel with server reop; the result says which, and no other channel changes. A part of
  an unknown channel or by a non-member is an error that changes nothing.
\<close>

theorem part_channel_effect:
  "(find_channel name w = None \<longrightarrow> part_channel u name w = (w, Inl ErrNoSuchChannel)) \<and>
   (\<forall>ch. find_channel name w = Some ch \<longrightarrow> \<not> is_member u ch \<longrightarrow> part_channel u name w = (w, Inl ErrNoSuchUser)) \<and>
   (\<forall>ch. find_channel name w = Some ch \<longrightarrow> is_member u ch \<longrightarrow>
     (\<exists>w' dropped. part_channel u name w = (w', Inr dropped) \<and>
        (dropped \<longleftrightarrow> (\<forall>v. is_member v ch \<longrightarrow> v = u) \<and> \<not> (is_safe_name name \<and> m_serverReop (ch_modes ch))) \<and>
        find_channel name w' = (if dropped then None else Some (fst (remove_member u ch))) \<and>
        (\<forall>v. is_member v (fst (remove_member u ch)) \<longleftrightarrow> v \<noteq> u \<and> is_member v ch) \<and>
        (\<forall>m. wfold w m \<noteq> wfold w name \<longrightarrow> find_channel m w' = find_channel m w)))"
proof (intro conjI allI impI)
  fix ch assume ch: "find_channel name w = Some ch" "is_member u ch"
  let ?ch1 = "fst (remove_member u ch)" and ?sr = "is_safe_name name \<and> m_serverReop (ch_modes ch)"
  let ?w1 = "upd_channel name (\<lambda>_. ?ch1) w"
  define alone where "alone = (\<forall>v. is_member v ch \<longrightarrow> v = u)"
  have e: "member_count ?ch1 = 0 \<longleftrightarrow> alone"
    by (auto simp: member_count_0 alone_def)
  note p = part_channel_member [OF ch, unfolded Let_def e]
  show "\<exists>w' dropped. part_channel u name w = (w', Inr dropped) \<and>
        (dropped \<longleftrightarrow> (\<forall>v. is_member v ch \<longrightarrow> v = u) \<and> \<not> ?sr) \<and>
        find_channel name w' = (if dropped then None else Some ?ch1) \<and>
        (\<forall>v. is_member v ?ch1 \<longleftrightarrow> v \<noteq> u \<and> is_member v ch) \<and>
        (\<forall>m. wfold w m \<noteq> wfold w name \<longrightarrow> find_channel m w' = find_channel m w)"
    unfolding p alone_def [symmetric] using ch(1)
    by (cases "alone \<and> \<not> ?sr") (simp_all add: ex_bool_eq)
next
  assume "find_channel name w = None"
  then show "part_channel u name w = (w, Inl ErrNoSuchChannel)" by (simp add: part_channel_def)
next
  fix ch assume "find_channel name w = Some ch" "\<not> is_member u ch"
  then show "part_channel u name w = (w, Inl ErrNoSuchUser)" by (simp add: part_channel_def remove_member_no)
qed

section \<open>A small world for the examples\<close>

text \<open>User 1, \<^verbatim>\<open>al\<close>, is the operator of \<^verbatim>\<open>#a\<close>; user 2, \<^verbatim>\<open>bo\<close>, is in no channel.\<close>

definition demo_world :: world where
  "demo_world =
     fst (join_channel 1 ''#a'' 7
       (fst (add_user (zero_user\<lparr>u_Nick := ''bo'', u_Registered := True\<rparr>) 6
         (fst (add_user (zero_user\<lparr>u_Nick := ''al'', u_Registered := True\<rparr>) 5 (new_world CaseMappingRFC1459))))))"

definition demo_channel :: channel where
  "demo_channel = joined 1 MemberOp (new_channel ''#a'' 7)"

lemma demo_facts:
  "find_channel ''#a'' demo_world = Some demo_channel" "find_channel ''#A'' demo_world = Some demo_channel"
  "is_member 1 demo_channel" "\<not> is_member 2 demo_channel" "member_count demo_channel = 1"
  "mhas (w_byID demo_world) 1" "mhas (w_byID demo_world) 2" "w_mapping demo_world = CaseMappingRFC1459"
  by code_simp+

lemma wf_demo_world: "wf_world demo_world"
  by (simp add: demo_world_def wf_join_channel wf_add_user wf_new_world)

lemma part_channel_effect_witness:
  "\<exists>w'. part_channel 1 ''#A'' demo_world = (w', Inr True) \<and> find_channel ''#A'' w' = None"
proof -
  have one: "\<forall>v. is_member v demo_channel \<longrightarrow> v = 1"
    by (simp add: demo_channel_def)
  have reop: "\<not> (is_safe_name ''#A'' \<and> m_serverReop (ch_modes demo_channel))" by code_simp
  obtain w' dropped where w': "part_channel 1 ''#A'' demo_world = (w', Inr dropped)"
      "dropped \<longleftrightarrow> (\<forall>v. is_member v demo_channel \<longrightarrow> v = 1) \<and> \<not> (is_safe_name ''#A'' \<and> m_serverReop (ch_modes demo_channel))"
      "find_channel ''#A'' w' = (if dropped then None else Some (fst (remove_member 1 demo_channel)))"
    using part_channel_effect [of "''#A''" demo_world 1] demo_facts(2,3) by blast
  from w'(2) one reop have "dropped" by blast
  with w'(1,3) show ?thesis by simp
qed

lemma join_channel_effect_witness:
  "\<exists>w' r. join_channel 2 ''#a'' 9 demo_world = (w', Inr r) \<and> jr_added r \<and> jr_mem r = 0 \<and>
     (\<forall>v. is_member v (jr_channel r) \<longleftrightarrow> v = 1 \<or> v = 2)"
proof -
  have mem: "is_member v demo_channel \<longleftrightarrow> v = 1" for v
    by (simp add: demo_channel_def)
  have f: "join_flags ''#a'' (Some demo_channel) = 0" by code_simp
  show ?thesis
    using join_channel_effect [OF wf_demo_world demo_facts(7), of "''#a''" 9] demo_facts(1) mem f by auto
qed

section \<open>Server reop\<close>

text \<open>A safe channel with server reop outlives its last member, and whoever joins it next is its operator;
  the join does not make a creator.
\<close>

theorem server_reop_cycle:
  assumes "find_channel name w = Some ch" "is_safe_name name" "m_serverReop (ch_modes ch)"
    and "\<forall>v. is_member v ch \<longleftrightarrow> v = u" and "mhas (w_byID w) j" "wf_world w"
  shows "\<exists>w1 w2 r. part_channel u name w = (w1, Inr False) \<and> join_channel j name t w1 = (w2, Inr r) \<and>
    jr_added r \<and> mem_is_op (jr_mem r) \<and> \<not> mem_is_creator (jr_mem r) \<and> m_serverReop (ch_modes (jr_channel r))"
proof -
  let ?ch1 = "fst (remove_member u ch)" and ?w1 = "fst (part_channel u name w)"
  have um: "is_member u ch" using assms(4) by simp
  have ch1: "member_count ?ch1 = 0" "m_serverReop (ch_modes ?ch1)" "\<not> is_member j ?ch1"
    using assms(3,4) by (auto simp: member_count_0)
  have part: "part_channel u name w = (?w1, Inr False)" "?w1 = upd_channel name (\<lambda>_. ?ch1) w"
    using assms(2,3) part_channel_member [OF assms(1) um] by (simp_all add: Let_def)
  have f: "find_channel name ?w1 = Some ?ch1" using part(2) assms(1) by simp
  have k: "mhas (w_byID ?w1) j" using part(2) assms(5) by simp
  have flags: "join_flags name (Some ?ch1) = MemberOp"
    using ch1 assms(2) by (simp add: join_flags_def)
  from join_existing [OF k f ch1(3)] part(1) flags show ?thesis
    using ch1(2) by (auto simp: Let_def)
qed

definition demo_safe :: world where
  "demo_safe = upd_channel ''!ABCDEx'' (\<lambda>c. fst (set_bool_mode CHR ''r'' True c))
     (fst (join_channel 1 ''!ABCDEx'' 8 demo_world))"

lemma wf_demo_safe: "wf_world demo_safe"
  unfolding demo_safe_def
  by (rule wf_upd_channel [OF wf_join_channel [OF wf_demo_world]])
    (simp_all add: wf_set_bool_mode, simp add: set_bool_mode_def split: option.split)

lemma server_reop_cycle_witness:
  "\<exists>w1 w2 r. part_channel 1 ''!ABCDEx'' demo_safe = (w1, Inr False) \<and>
     join_channel 2 ''!ABCDEx'' 9 w1 = (w2, Inr r) \<and> mem_is_op (jr_mem r)"
proof -
  let ?ch = "fst (set_bool_mode CHR ''r'' True (joined 1 MemberCreator (new_channel ''!ABCDEx'' 8)))"
  have f: "find_channel ''!ABCDEx'' demo_safe = Some ?ch" by code_simp
  have s: "is_safe_name ''!ABCDEx''" by code_simp
  have r: "m_serverReop (ch_modes ?ch)" by code_simp
  have m: "\<forall>v. is_member v ?ch \<longleftrightarrow> v = 1" by simp
  have b: "mhas (w_byID demo_safe) 2" by code_simp
  show ?thesis using server_reop_cycle [OF f s r m b wf_demo_safe, of 9] by auto
qed

section \<open>Removing a user\<close>

text \<open>Removing a user leaves every channel as it is, so the user stays a member of its channels under an
  ID that no lookup resolves, and those channels keep counting it.
\<close>

theorem remove_user_keeps_memberships:
  assumes "mhas (w_byID w) u"
  shows "find_by_id u (fst (remove_user u w)) = None \<and>
    user_channels u (fst (remove_user u w)) = user_channels u w \<and>
    (\<forall>n. find_channel n (fst (remove_user u w)) = find_channel n w)"
  using assms by (simp add: remove_user_def find_by_id_def user_channels_def find_channel_def)

lemma remove_user_keeps_memberships_witness:
  "find_by_id 1 (fst (remove_user 1 demo_world)) = None \<and>
   user_channels 1 (fst (remove_user 1 demo_world)) = [demo_channel]"
proof -
  have "user_channels 1 demo_world = [demo_channel]" by code_simp
  then show ?thesis using remove_user_keeps_memberships [OF demo_facts(6)] by simp
qed

end
