(* ===== verification/Startup.thy ===== *)
theory Startup
  imports Service_Hooks Join_Part
begin

text \<open>
  The life of the server outside the handlers: \<^verbatim>\<open>New\<close> and the prologue of \<^verbatim>\<open>Run\<close> in
  \<^verbatim>\<open>internal/server/server.go\<close>, \<^verbatim>\<open>loadMOTD\<close>, and the channel store of \<^verbatim>\<open>persistence.go\<close>, which
  \<^verbatim>\<open>TOPIC\<close> and \<^verbatim>\<open>MODE\<close> write and the next start reads. The main theorem is that round trip.
\<close>

section \<open>A new server\<close>

text \<open>The content of the MOTD file, \<^const>\<open>None\<close> when there is none.\<close>

definition load_motd :: "string option \<Rightarrow> string list" where
  "load_motd content =
     (case content of
        None \<Rightarrow> []
      | Some data \<Rightarrow> map (trim_right CHR 0x0D) (split_on CHR 0x0A (trim_right CHR 0x0A data)))"

definition new_server ::
  "config \<Rightarrow> world \<Rightarrow> time \<Rightarrow> string option \<Rightarrow> store option \<Rightarrow> audit_event list option \<Rightarrow> (nat \<Rightarrow> nat) \<Rightarrow> server" where
  "new_server cfg w now motdFile st bus random =
     \<lparr>sv_cfg = cfg, sv_world = w, sv_now = now, sv_createdAt = now,
      sv_heap = (\<lambda>_. new_conn [] (cf_Limits cfg) now), sv_conns = [], sv_bots = [], sv_links = [], sv_subs = [],
      sv_squitSeen = [], sv_motd = load_motd motdFile,
      sv_whowas = new_whowas (lm_WhowasHistory (cf_Limits cfg)) (w_mapping w),
      sv_batchSeq = 0, sv_rand = random, sv_randPos = 0, sv_store = st, sv_bus = bus, sv_enforce = [],
      sv_shutdown = None, sv_messagesIn = 0, sv_messagesOut = 0\<rparr>"

text \<open>A connection the accept loop hands over; \<open>c\<close> was not in use.\<close>

definition accept_conn :: "cid \<Rightarrow> string \<Rightarrow> server \<Rightarrow> server" where
  "accept_conn c host s = s\<lparr>sv_heap := (sv_heap s)(c := new_conn host (srv_limits s) (sv_now s))\<rparr>"

section \<open>Persistent channels\<close>

definition ban_records_from_map :: "(string, time) gomap \<Rightarrow> ban_record list" where
  "ban_records_from_map m = map (\<lambda>(msk, at). \<lparr>br_Mask = msk, br_SetBy = [], br_SetAt = at\<rparr>) m"

definition ban_records_to_map :: "ban_record list \<Rightarrow> (string, time) gomap" where
  "ban_records_to_map rs = fold (\<lambda>b. mput (br_Mask b) (br_SetAt b)) rs []"

definition channel_to_record :: "channel \<Rightarrow> channel_record" where
  "channel_to_record ch =
     \<lparr>cr_Name = ch_name ch, cr_Topic = ch_topic ch, cr_TopicSetBy = ch_topicSetBy ch, cr_TopicSetAt = ch_topicSetAt ch,
      cr_ModeWord = fst (mode_string ch), cr_Key = ch_key ch, cr_Limit = ch_limit ch,
      cr_Bans = ban_records_from_map (ch_bans ch), cr_Exceptions = ban_records_from_map (ch_exceptions ch),
      cr_Invexes = ban_records_from_map (ch_invexes ch), cr_Quiets = ban_records_from_map (ch_quiets ch)\<rparr>"

definition persist_channel :: "channel \<Rightarrow> server \<Rightarrow> server" where
  "persist_channel ch s =
     s\<lparr>sv_store := map_option (\<lambda>st. fst (channels_upsert (channel_to_record ch) (sv_now s) st)) (sv_store s)\<rparr>"

definition restore_record :: "time \<Rightarrow> channel_record \<Rightarrow> world \<Rightarrow> world" where
  "restore_record now r w =
     upd_channel (cr_Name r)
       (restore_state (cr_Topic r) (cr_TopicSetBy r) (cr_TopicSetAt r) (cr_ModeWord r) (cr_Key r) (cr_Limit r)
          (ban_records_to_map (cr_Bans r)) (ban_records_to_map (cr_Exceptions r))
          (ban_records_to_map (cr_Invexes r)) (ban_records_to_map (cr_Quiets r)))
       (fst (ensure_channel (cr_Name r) now w))"

definition restore_persistent_channels :: "server \<Rightarrow> server" where
  "restore_persistent_channels s =
     (case sv_store s of
        None \<Rightarrow> s
      | Some st \<Rightarrow> upd_sworld (fold (restore_record (sv_now s)) (channels_list st)) s)"

text \<open>What \<^verbatim>\<open>Run\<close> does before it binds the listeners.\<close>

definition server_start :: "server \<Rightarrow> server" where
  "server_start s =
     restore_persistent_channels (if sv_store s = None then s else start_memoserv (start_chanserv (start_nickserv s)))"

section \<open>The invariant\<close>

lemma wf_new_conn: "wf_conn (new_conn h l t)"
  by (simp add: wf_conn_def new_conn_def wf_new_bucket)

lemma wf_new_server:
  "wf_world w \<Longrightarrow> wf_server (new_server cfg w now f st bus rnd)"
  by (simp add: wf_server_def new_server_def conns_ok_def wf_new_whowas wf_new_conn)
    (simp add: new_conn_def)

lemma wf_accept_conn [invs]: "wf_server s \<Longrightarrow> cn_user (sv_heap s c) = None \<Longrightarrow> wf_server (accept_conn c h s)"
  by (auto simp: wf_server_def accept_conn_def conns_ok_def wf_new_conn user_of_def) (simp_all add: new_conn_def)

lemma wf_start_service [invs]: "wf_server s \<Longrightarrow> wf_server (start_service u b s)"
proof -
  assume wf: "wf_server s"
  have "wf_server (s\<lparr>sv_world := w\<rparr>)" if a: "add_user u (sv_now s) (sv_world s) = (w, Inr i)" for w i
  proof -
    have "wf_server (upd_sworld (\<lambda>_. w) s)"
    proof (rule wf_upd_sworld [OF wf])
      show "wf_world w" using wf_add_user [OF wf_serverD(1) [OF wf], of u "sv_now s"] a by simp
      show "w_nextID (sv_world s) \<le> w_nextID w" using a by (auto simp: add_user_def Let_def split: if_splits)
    qed (use a add_user_cases [OF a] in auto)
    then show ?thesis by (simp add: upd_sworld_def)
  qed
  then show ?thesis using wf by (auto simp: start_service_def intro!: invs split: prod.split sum.split)
qed

lemma wf_restore_record:
  assumes "wf_world w" shows "wf_world (restore_record now r w)"
  unfolding restore_record_def
  by (rule wf_upd_channel [OF wf_ensure_channel [OF assms]]) (simp add: wf_restore, simp add: restore_state_def)

lemma restore_record_users [simp]:
  "w_store (restore_record now r w) = w_store w" "w_nextID (restore_record now r w) = w_nextID w"
  "w_mapping (restore_record now r w) = w_mapping w"
  by (simp_all add: restore_record_def)

lemma wf_restore_fold: "wf_world w \<Longrightarrow> wf_world (fold (restore_record now) rs w)"
  by (induction rs arbitrary: w) (simp_all add: wf_restore_record)

lemma restore_fold_users [simp]:
  "w_store (fold (restore_record now) rs w) = w_store w" "w_nextID (fold (restore_record now) rs w) = w_nextID w"
  "w_mapping (fold (restore_record now) rs w) = w_mapping w"
  by (induction rs arbitrary: w) simp_all

lemma wf_restore_persistent [invs]: "wf_server s \<Longrightarrow> wf_server (restore_persistent_channels s)"
  by (auto simp: restore_persistent_channels_def intro!: wf_upd_sworld wf_restore_fold dest: wf_serverD(1) split: option.split)

lemma wf_server_start [invs]: "wf_server s \<Longrightarrow> wf_server (server_start s)"
  by (simp add: server_start_def start_nickserv_def start_chanserv_def start_memoserv_def invs)

lemma wf_persist_channel [invs]: "wf_server s \<Longrightarrow> wf_server (persist_channel ch s)"
  by (simp add: persist_channel_def)

section \<open>The round trip\<close>

lemma list_roundtrip:
  assumes "wf_map m" "zero_time \<notin> snd ` set m"
  shows "map_of (fold (\<lambda>(k, v). mput k v) (ban_records_to_map (replace_list now (ban_records_from_map m))) []) = map_of m"
proof -
  have id: "replace_list now (ban_records_from_map m) = ban_records_from_map m"
    using assms(2) by (force simp: replace_list_def ban_records_from_map_def)
  have conv: "ban_records_to_map (ban_records_from_map m) = fold (\<lambda>(k, v). mput k v) m []"
    by (simp add: ban_records_to_map_def ban_records_from_map_def fold_map comp_def case_prod_unfold)
  have "wf_map (fold (\<lambda>(k, v). mput k v) xs acc)" if "wf_map acc" for acc and xs :: "(string, time) gomap"
    using that by (induction xs arbitrary: acc) auto
  then have "wf_map (fold (\<lambda>(k, v). mput k v) m [])" by simp
  then show ?thesis using assms(1) by (simp add: id conv fold_put_same)
qed

text \<open>The persistent part of a channel, each list as the map it stands for.\<close>

definition same_persistent :: "channel \<Rightarrow> channel \<Rightarrow> bool" where
  "same_persistent a b =
     (ch_topic a = ch_topic b \<and> ch_topicSetBy a = ch_topicSetBy b \<and> ch_topicSetAt a = ch_topicSetAt b \<and>
      ch_key a = ch_key b \<and> ch_limit a = ch_limit b \<and> ch_modes a = ch_modes b \<and>
      map_of (ch_bans a) = map_of (ch_bans b) \<and> map_of (ch_exceptions a) = map_of (ch_exceptions b) \<and>
      map_of (ch_invexes a) = map_of (ch_invexes b) \<and> map_of (ch_quiets a) = map_of (ch_quiets b))"

definition list_times_set :: "channel \<Rightarrow> bool" where
  "list_times_set ch =
     (\<forall>m \<in> {ch_bans ch, ch_exceptions ch, ch_invexes ch, ch_quiets ch}. zero_time \<notin> snd ` set m)"

definition stored_record :: "time \<Rightarrow> channel \<Rightarrow> channel_record" where
  "stored_record now ch =
     (channel_to_record ch)\<lparr>cr_Bans := replace_list now (cr_Bans (channel_to_record ch)),
        cr_Exceptions := replace_list now (cr_Exceptions (channel_to_record ch)),
        cr_Invexes := replace_list now (cr_Invexes (channel_to_record ch)),
        cr_Quiets := replace_list now (cr_Quiets (channel_to_record ch))\<rparr>"

lemma distinct_masks: "wf_map m \<Longrightarrow> distinct (map br_Mask (ban_records_from_map m))"
  by (simp add: ban_records_from_map_def wf_map_def comp_def case_prod_unfold)

lemma upsert_channel:
  assumes "wf_channel ch" "ch_name ch \<noteq> []"
  shows "channels_upsert (channel_to_record ch) now st =
    (st\<lparr>st_channels := mput (ch_name ch) (stored_record now ch) (st_channels st)\<rparr>, None)"
  using assms by (simp add: channels_upsert_def channel_to_record_def stored_record_def wf_channel_def distinct_masks)

lemma restore_stored:
  assumes "wf_channel ch" "list_times_set ch" "ch_name ch \<noteq> []" "find_channel (ch_name ch) w = None"
  shows "\<exists>c. find_channel (ch_name ch) (restore_record now (stored_record t ch) w) = Some c \<and>
    same_persistent c ch \<and> ch_members c = []"
proof -
  have "find_channel (ch_name ch) (fst (ensure_channel (ch_name ch) now w)) = Some (new_channel (ch_name ch) now)"
    using assms(3,4) by (simp add: ensure_channel_def find_channel_def Let_def)
  then show ?thesis
    using assms(1-3) list_roundtrip restore_mode_word [of ch]
    by (simp add: restore_record_def stored_record_def channel_to_record_def restore_state_def same_persistent_def
        list_times_set_def wf_channel_def new_channel_def)
qed

lemma restore_other:
  "wfold w n \<noteq> wfold w (cr_Name r) \<Longrightarrow> find_channel n (restore_record now r w) = find_channel n w"
  by (simp add: restore_record_def find_channel_ensure)

lemma restore_fold_other:
  "\<forall>r \<in> set rs. wfold w n \<noteq> wfold w (cr_Name r) \<Longrightarrow> find_channel n (fold (restore_record now) rs w) = find_channel n w"
  by (induction rs arbitrary: w) (simp_all add: restore_other)

lemma restore_list:
  assumes "distinct (map cr_Name rs)" "stored_record t ch \<in> set rs" "wf_channel ch" "list_times_set ch" "ch_name ch \<noteq> []"
    and "\<And>r. r \<in> set rs \<Longrightarrow> cr_Name r = ch_name ch \<or> wfold w (cr_Name r) \<noteq> wfold w (ch_name ch)"
    and "find_channel (ch_name ch) w = None"
  shows "\<exists>c. find_channel (ch_name ch) (fold (restore_record now) rs w) = Some c \<and> same_persistent c ch \<and> ch_members c = []"
proof -
  let ?r = "stored_record t ch" and ?n = "ch_name ch"
  have n: "cr_Name ?r = ?n" by (simp add: stored_record_def channel_to_record_def)
  obtain xs ys where rs: "rs = xs @ ?r # ys" using assms(2) by (meson split_list)
  have other: "wfold w ?n \<noteq> wfold w (cr_Name r)" if "r \<in> set xs \<union> set ys" for r
    using that assms(1) assms(6) [of r] n unfolding rs by (auto simp: image_iff)
  define w1 where "w1 = fold (restore_record now) xs w"
  have "find_channel ?n w1 = None" unfolding w1_def using restore_fold_other [of xs w ?n now] other assms(7) by simp
  then obtain c where c: "find_channel ?n (restore_record now ?r w1) = Some c" "same_persistent c ch" "ch_members c = []"
    using restore_stored [OF assms(3-5), of w1 now t] by blast
  have "find_channel ?n (fold (restore_record now) ys (restore_record now ?r w1)) = find_channel ?n (restore_record now ?r w1)"
    by (rule restore_fold_other) (use other in \<open>simp add: w1_def\<close>)
  with c show ?thesis by (simp add: rs w1_def)
qed

text \<open>
  C25: What a restart keeps. After a channel's state was written, a server that starts on that store has the
  channel with the same topic, modes, key, limit and lists, provided that no record of another spelling of
  the name is in the store and that the list entries carry a time. It has no members.
\<close>

theorem persist_restore:
  assumes "wf_channel ch" "ch_name ch \<noteq> []" "list_times_set ch" "sv_store s = Some st" "wf_map (st_channels st)"
    and "\<And>n r. map_of (st_channels st) n = Some r \<Longrightarrow> cr_Name r = n \<and> (n = ch_name ch \<or> sfold s2 n \<noteq> sfold s2 (ch_name ch))"
    and "sv_store s2 = sv_store (persist_channel ch s)" "find_channel (ch_name ch) (sv_world s2) = None"
  shows "\<exists>c. find_channel (ch_name ch) (sv_world (restore_persistent_channels s2)) = Some c \<and>
    same_persistent c ch \<and> ch_members c = []"
proof -
  let ?r = "stored_record (sv_now s) ch" and ?m = "mput (ch_name ch) (stored_record (sv_now s) ch) (st_channels st)"
  let ?rs = "sort_key cr_Name (map snd ?m)"
  have m: "wf_map ?m" using assms(5) by simp
  have r: "cr_Name ?r = ch_name ch" by (simp add: stored_record_def channel_to_record_def)
  have st: "sv_store s2 = Some (st\<lparr>st_channels := ?m\<rparr>)"
    using assms(4,7) upsert_channel [OF assms(1,2)] by (simp add: persist_channel_def)
  have key: "cr_Name v = k" if "(k, v) \<in> set ?m" for k v
    using that map_of_iff_mem [OF m, of k v] assms(6) [of k v] r by (auto split: if_splits)
  then have "map cr_Name (map snd ?m) = map fst ?m" unfolding map_map by (intro map_cong) auto
  with m have d: "distinct (map cr_Name (map snd ?m))" by (simp only: wf_map_def)
  have "distinct (map cr_Name ?rs)" using d by (simp only: distinct_map [of cr_Name] distinct_sort set_sort)
  moreover have "?r \<in> set ?rs" using map_of_iff_mem [OF m, of "ch_name ch" ?r] by force
  moreover have "cr_Name v = ch_name ch \<or> sfold s2 (cr_Name v) \<noteq> sfold s2 (ch_name ch)" if "v \<in> set ?rs" for v
  proof -
    have "v \<in> snd ` set ?m" using that by (simp only: set_sort set_map)
    then obtain k where k: "(k, v) \<in> set ?m" by force
    then show ?thesis using map_of_iff_mem [OF m, of k v] assms(6) [of k v] key [OF k] r by (auto split: if_splits)
  qed
  ultimately show ?thesis
    using restore_list [of ?rs "sv_now s" ch "sv_world s2" "sv_now s2"] assms(1-3,8)
    by (simp add: restore_persistent_channels_def st channels_list_def upd_sworld_def)
qed

section \<open>A concrete server\<close>

text \<open>A fresh server with an empty store, for the witnesses.\<close>

definition demo_config :: config where
  "demo_config = \<lparr>cf_Name = ''irc.a'', cf_Network = ''Net'', cf_Description = ''a node'', cf_ClientPassword = [], cf_AdminName = [], cf_AdminEmail = [],
     cf_Limits = \<lparr>lm_NickLength = 30, lm_ChannelLength = 50, lm_TopicLength = 390, lm_AwayLength = 255,
       lm_KickReasonLength = 255, lm_PingIntervalSeconds = 120, lm_PingTimeoutSeconds = 240, lm_MessageBurst = 10,
       lm_MessageRefillPerSecond = 2, lm_MessageViolationsToKick = 5, lm_WhowasHistory = 16\<rparr>,
     cf_BroadcastMode = [], cf_argon2 = toy_kdf, cf_bcrypt = (\<lambda>_ _. False)\<rparr>"

definition demo_server :: server where
  "demo_server = new_server demo_config (new_world CaseMappingRFC1459) 100 None (Some empty_store) (Some []) (\<lambda>n. n)"

lemma wf_demo_server: "wf_server demo_server"
  unfolding demo_server_def by (rule wf_new_server, rule wf_new_world)

text \<open>The same with the two users of \<open>demo_world\<close> online, on the connections of their numbers.\<close>

definition demo_net :: server where
  "demo_net =
     (new_server demo_config demo_world 100 None (Some empty_store) (Some []) (\<lambda>n. n))
       \<lparr>sv_conns := [(1, 1), (2, 2)],
        sv_heap := (\<lambda>c. (new_conn ''h'' (cf_Limits demo_config) 100)
          \<lparr>cn_user := (if c = 1 then Some 1 else if c = 2 then Some 2 else None)\<rparr>)\<rparr>"

lemma demo_net_simps [simp]:
  "sv_world demo_net = demo_world" "sv_cfg demo_net = demo_config" "sv_conns demo_net = [(1, 1), (2, 2)]"
  "cn_user (sv_heap demo_net c) = (if c = 1 then Some 1 else if c = 2 then Some 2 else None)"
  "user_of u demo_net = w_store demo_world u" "sv_links demo_net = []" "sv_bots demo_net = []"
  by (simp_all add: demo_net_def new_server_def user_of_def)

lemma demo_users:
  "u_Nick (w_store demo_world 1) = ''al''" "u_Nick (w_store demo_world 2) = ''bo''"
  "u_Registered (w_store demo_world 1)" "u_Registered (w_store demo_world 2)" "w_nextID demo_world = 2"
  "u_ID (w_store demo_world 1) = 1" "u_ID (w_store demo_world 2) = 2"
  "u_Modes (w_store demo_world 1) = []" "u_Modes (w_store demo_world 2) = []"
  "find_by_nick ''al'' demo_world = Some 1" "find_by_nick ''bo'' demo_world = Some 2"
  by code_simp+

text \<open>The same facts about \<^term>\<open>Suc 0\<close>, to which the simplifier takes one.\<close>

lemmas demo_users_Suc = demo_users [unfolded One_nat_def] demo_facts [unfolded One_nat_def]

lemma wf_demo_net: "wf_server demo_net"
proof -
  have "conns_ok demo_net" by (auto simp: conns_ok_def wf_map_def demo_users_Suc split: if_splits)
  moreover have "wf_conn (sv_heap demo_net c)" for c
    using wf_new_conn [of "''h''" "cf_Limits demo_config" 100] by (simp add: demo_net_def wf_conn_def)
  moreover have "wf_server (new_server demo_config demo_world 100 None (Some empty_store) (Some []) (\<lambda>n. n))"
    by (rule wf_new_server) (rule wf_demo_world)
  ultimately show ?thesis by (simp add: wf_server_def demo_net_def)
qed

lemma demo_registered: "registered_user 1 demo_net = Some 1" "registered_user 2 demo_net = Some 2"
  by (simp_all add: registered_user_def demo_users_Suc)

lemma persist_restore_witness:
  "let ch = set_topic ''hello'' ''x!y@z'' 7 (new_channel ''#a'' 5);
       s2 = demo_server\<lparr>sv_store := sv_store (persist_channel ch demo_server)\<rparr>
   in \<exists>c. find_channel ''#a'' (sv_world (restore_persistent_channels s2)) = Some c \<and> same_persistent c ch \<and> ch_members c = []"
proof -
  let ?ch = "set_topic ''hello'' ''x!y@z'' 7 (new_channel ''#a'' 5)"
  have n: "ch_name ?ch = ''#a''" by simp
  have a: "wf_channel ?ch" "list_times_set ?ch"
    by (simp_all add: wf_set_topic wf_new_channel) (simp add: list_times_set_def set_topic_def new_channel_def)
  have e: "sv_store demo_server = Some empty_store" "st_channels empty_store = []"
    by (simp_all add: demo_server_def new_server_def empty_store_def)
  have f: "find_channel ''#a'' (sv_world demo_server) = None"
    by (simp add: demo_server_def new_server_def new_world_def find_channel_def)
  show ?thesis
    using persist_restore [of ?ch demo_server empty_store "demo_server\<lparr>sv_store := sv_store (persist_channel ?ch demo_server)\<rparr>"]
      a e f by (simp add: n Let_def)
qed

end
