(* ===== verification/Registration.thy ===== *)
theory Registration
  imports Startup
begin

text \<open>
  From connect to welcome: \<^verbatim>\<open>handlePass\<close>, \<^verbatim>\<open>handleNick\<close>, \<^verbatim>\<open>handleUser\<close>, \<^verbatim>\<open>handleCap\<close>, \<^verbatim>\<open>handlePing\<close> and
  \<^verbatim>\<open>handleQuit\<close> of \<^verbatim>\<open>internal/server/handler.go\<close>, SASL of \<^verbatim>\<open>handler_sasl.go\<close>, and
  \<^verbatim>\<open>tryCompleteRegistration\<close> with the welcome burst of \<^verbatim>\<open>welcome.go\<close>. A handler is a function on the
  server state; one that can dereference a nil pointer returns an option, where \<^const>\<open>None\<close> is the panic
  that ends the process.
\<close>

section \<open>Texts and names\<close>

definition is_nick_byte :: "char \<Rightarrow> bool" where
  "is_nick_byte c =
     (is_upper c \<or> is_lower c \<or> is_digit c \<or>
      c \<in> {CHR ''-'', CHR ''_'', CHR ''['', CHR '']'', CHR 0x5C, CHR 0x60, CHR ''^'', CHR ''{'', CHR ''}'', CHR ''|'', CHR ''~''})"

definition valid_nickname :: "string \<Rightarrow> int \<Rightarrow> bool" where
  "valid_nickname s maxLen =
     (let m = (if maxLen \<le> 0 then 30 else maxLen)
      in if s = [] \<or> int (length s) > m then False
         else if is_digit (hd s) \<or> hd s = CHR ''-'' then False
         else list_all is_nick_byte s)"

definition sanitize_isupport :: "string \<Rightarrow> string" where
  "sanitize_isupport s = map (\<lambda>c. if c \<in> {CHR '' '', CHR 0x0D, CHR 0x0A, CHR 0x00} then CHR ''_'' else c) s"

definition server_version :: string where
  "server_version = ''ircat-0.0.1''"

text \<open>Twelve tokens to a line.\<close>

definition isupport_tokens :: "server \<Rightarrow> string list" where
  "isupport_tokens s =
     (let l = srv_limits s in
      [''NETWORK='' @ sanitize_isupport (cf_Network (sv_cfg s)),
       ''CASEMAPPING='' @ case_mapping_string (w_mapping (sv_world s)),
       ''NICKLEN='' @ format_int (lm_NickLength l),
       ''CHANNELLEN='' @ format_int (lm_ChannelLength l),
       ''TOPICLEN='' @ format_int (lm_TopicLength l),
       ''AWAYLEN='' @ format_int (lm_AwayLength l),
       ''KICKLEN='' @ format_int (lm_KickReasonLength l),
       ''CHANTYPES=#&+!'', ''PREFIX=(Oov)!@+'', ''CHANMODES=beIq,k,l,aimnpst'', ''MODES=4'', ''EXCEPTS=e'', ''INVEX=I'',
       ''TARGMAX=PRIVMSG:4,NOTICE:4,JOIN:10,PART:10,KICK:4''])"

fun chunks :: "nat \<Rightarrow> 'a list \<Rightarrow> 'a list list" where
  "chunks n xs = (if n = 0 \<or> xs = [] then [] else take n xs # chunks n (drop n xs))"

declare chunks.simps [simp del]

definition build_isupport :: "server \<Rightarrow> string list list" where
  "build_isupport s = chunks 12 (isupport_tokens s)"

section \<open>Welcome\<close>

definition send_motd :: "cid \<Rightarrow> string \<Rightarrow> server \<Rightarrow> server" where
  "send_motd c nick s =
     (if sv_motd s = [] then reply c nick ''422'' [''MOTD File is missing''] s
      else
        let s1 = reply c nick ''375'' [''- '' @ srv_name s @ '' Message of the day -''] s;
            s2 = fold (\<lambda>line. reply c nick ''372'' [''- '' @ line]) (sv_motd s) s1
        in reply c nick ''376'' [''End of MOTD command''] s2)"

definition send_welcome_burst :: "cid \<Rightarrow> uid \<Rightarrow> server \<Rightarrow> server" where
  "send_welcome_burst c u s =
     (let srv = srv_name s; nick = u_Nick (user_of u s);
          s1 = reply c nick ''001''
                 [''Welcome to the '' @ cf_Network (sv_cfg s) @ '' Network, '' @ hostmask (user_of u s)] s;
          s2 = reply c nick ''002'' [''Your host is '' @ srv @ '', running version '' @ server_version] s1;
          s3 = reply c nick ''003'' [''This server was created '' @ format_utc (sv_createdAt s)] s2;
          s4 = reply c nick ''004'' [srv, server_version, ''iow'', ''biklmnopstv''] s3;
          s5 = fold (\<lambda>line. reply c nick ''005'' (line @ [''are supported by this server''])) (build_isupport s) s4
      in send_motd c nick s5)"

definition announce_user :: "user \<Rightarrow> server \<Rightarrow> server" where
  "announce_user u s =
     (if u_Service u then
        forward_to_all (plain_message (srv_name s) ''SERVICE''
          [u_Nick u, ''1'', (if u_ServiceDistribution u = [] then ''*'' else u_ServiceDistribution u), u_ServiceType u,
           ''1'', u_Realname u]) s
      else
        forward_to_all (plain_message (srv_name s) ''NICK''
          [u_Nick u, ''1'', u_User u, u_Host u, srv_name s, ''+'' @ u_Modes u, format_int (u_TS u), u_Realname u]) s)"

text \<open>\<open>upd_pending\<close> writes a field of \<^verbatim>\<open>c.pending\<close>.\<close>

definition upd_pending :: "cid \<Rightarrow> (pending \<Rightarrow> pending) \<Rightarrow> server \<Rightarrow> server" where
  "upd_pending c f s = upd_conn c (\<lambda>cn. cn\<lparr>cn_pending := f (cn_pending cn)\<rparr>) s"

definition user_from_pending :: "cid \<Rightarrow> server \<Rightarrow> user" where
  "user_from_pending c s =
     (let p = cn_pending (sv_heap s c)
      in zero_user\<lparr>u_Nick := pd_nick p, u_User := pd_user p, u_Host := cn_remoteHost (sv_heap s c),
           u_Realname := pd_realname p, u_Registered := True, u_TS := sv_now s, u_Account := pd_account p\<rparr>)"

text \<open>The connection takes the admitted user and enters the registry.\<close>

definition promote :: "cid \<Rightarrow> uid \<Rightarrow> world \<Rightarrow> server \<Rightarrow> server" where
  "promote c u w s = register_conn c (upd_conn c (\<lambda>cn. cn\<lparr>cn_user := Some u\<rparr>) (s\<lparr>sv_world := w\<rparr>))"

definition try_complete_registration :: "cid \<Rightarrow> server \<Rightarrow> server" where
  "try_complete_registration c s =
     (let p = cn_pending (sv_heap s c); want = cf_ClientPassword (sv_cfg s) in
      if registered_user c s \<noteq> None then s
      else if \<not> pd_nickSet p \<or> \<not> pd_userSet p then s
      else if pd_capNegotiating p \<and> \<not> pd_capEnded p then s
      else if want \<noteq> [] \<and> pd_password p \<noteq> want then
        cancel c ''bad password''
          (send_error c ''Bad password'' (reply c (star_or_nick c s) ''464'' [''Password incorrect''] s))
      else case add_user (user_from_pending c s) (sv_now s) (sv_world s) of
        (_, Inl ErrNickInUse) \<Rightarrow>
          upd_pending c (\<lambda>p. p\<lparr>pd_nick := [], pd_nickSet := False\<rparr>)
            (reply c ''*'' ''433'' [pd_nick p, ''Nickname is already in use''] s)
      | (_, Inl _) \<Rightarrow> cancel c ''state: empty nickname'' (send_error c ''Internal server error'' s)
      | (w, Inr u) \<Rightarrow>
          let s1 = promote c u w s;
              s2 = announce_user (user_of u s1) s1;
              s3 = send_welcome_burst c u s2;
              s4 = notify_nickserv (u_Nick (user_of u s3)) (u_Account (user_of u s3)) s3
          in if u_Account (user_of u s4) \<noteq> [] then notify_memoserv (u_Nick (user_of u s4)) (u_Account (user_of u s4)) s4
             else s4)"

section \<open>PASS, USER, NICK\<close>

definition handle_pass :: "cid \<Rightarrow> message \<Rightarrow> server \<Rightarrow> server" where
  "handle_pass c m s =
     (case registered_user c s of
        Some u \<Rightarrow> reply c (u_Nick (user_of u s)) ''462'' [''You may not reregister''] s
      | None \<Rightarrow>
          if msg_Params m = [] then need_more_params c ''PASS'' s
          else upd_pending c (\<lambda>p. p\<lparr>pd_password := msg_Params m ! 0,
                 pd_passVersion := (if length (msg_Params m) \<ge> 2 then msg_Params m ! 1 else pd_passVersion p),
                 pd_passFlags := (if length (msg_Params m) \<ge> 3 then msg_Params m ! 2 else pd_passFlags p)\<rparr>) s)"

definition handle_user :: "cid \<Rightarrow> message \<Rightarrow> server \<Rightarrow> server" where
  "handle_user c m s =
     (case registered_user c s of
        Some u \<Rightarrow> reply c (u_Nick (user_of u s)) ''462'' [''You may not reregister''] s
      | None \<Rightarrow>
          if length (msg_Params m) < 4 then need_more_params c ''USER'' s
          else try_complete_registration c
            (upd_pending c (\<lambda>p. p\<lparr>pd_user := msg_Params m ! 0, pd_realname := msg_Params m ! 3, pd_userSet := True\<rparr>) s))"

definition record_whowas :: "user \<Rightarrow> server \<Rightarrow> server" where
  "record_whowas u s =
     s\<lparr>sv_whowas := whowas_record
         \<lparr>we_Nick = u_Nick u, we_User = u_User u, we_Host = u_Host u, we_Realname = u_Realname u,
          we_Server = (if u_HomeServer u = [] then srv_name s else u_HomeServer u), we_When = sv_now s\<rparr> (sv_whowas s)\<rparr>"

text \<open>The members of a walk that are not yet \<^verbatim>\<open>seen\<close>, each once, in the order of the walk.\<close>

fun first_visits :: "'a list \<Rightarrow> 'a list \<Rightarrow> 'a list" where
  "first_visits seen [] = []"
| "first_visits seen (x # xs) =
     (if x \<in> set seen then first_visits seen xs else x # first_visits (x # seen) xs)"

definition send_to_user :: "message \<Rightarrow> uid \<Rightarrow> server \<Rightarrow> server" where
  "send_to_user m u s = (case conn_for u s of Some p \<Rightarrow> send p m s | None \<Rightarrow> s)"

definition shared_peers :: "uid \<Rightarrow> world \<Rightarrow> uid list" where
  "shared_peers u w = first_visits [u] (concat (map member_ids (user_channels u w)))"

definition rename_registered :: "cid \<Rightarrow> uid \<Rightarrow> string \<Rightarrow> server \<Rightarrow> server" where
  "rename_registered c u requested s =
     (let me = user_of u s in
      if CHR ''r'' \<in> set (u_Modes me) then reply c (u_Nick me) ''484'' [''Your connection is restricted!''] s
      else case rename_user u requested (sv_world s) of
        (_, Some ErrNickInUse) \<Rightarrow> reply c (u_Nick me) ''433'' [requested, ''Nickname is already in use''] s
      | (_, Some _) \<Rightarrow> s
      | (_, None) \<Rightarrow>
          let s1 = record_whowas me (upd_sworld (\<lambda>w. fst (rename_user u requested w)) s);
              m = plain_message (hostmask me) ''NICK'' [requested];
              s2 = fold (send_to_user m) (shared_peers u (sv_world s1)) s1;
              s3 = forward_to_all m (send c m s2)
          in notify_nickserv requested (u_Account (user_of u s3)) s3)"

definition handle_nick :: "cid \<Rightarrow> message \<Rightarrow> server \<Rightarrow> server" where
  "handle_nick c m s =
     (if msg_Params m = [] \<or> trim_space (msg_Params m ! 0) = [] then
        reply c (star_or_nick c s) ''431'' [''No nickname given''] s
      else
        let requested = msg_Params m ! 0 in
        if \<not> valid_nickname requested (lm_NickLength (srv_limits s)) then
          reply c (star_or_nick c s) ''432'' [requested, ''Erroneous nickname''] s
        else case registered_user c s of
          Some u \<Rightarrow> rename_registered c u requested s
        | None \<Rightarrow>
            try_complete_registration c (upd_pending c (\<lambda>p. p\<lparr>pd_nick := requested, pd_nickSet := True\<rparr>) s))"

section \<open>PING, QUIT, CAP\<close>

definition handle_ping :: "cid \<Rightarrow> message \<Rightarrow> server \<Rightarrow> server" where
  "handle_ping c m s =
     send c (plain_message (srv_name s) ''PONG''
       [srv_name s, (if msg_Params m = [] then srv_name s else msg_Params m ! 0)]) s"

definition handle_quit :: "cid \<Rightarrow> message \<Rightarrow> server \<Rightarrow> server" where
  "handle_quit c m s =
     (let reason = (case msg_trailing m of None \<Rightarrow> ''Client Quit'' | Some t \<Rightarrow> if t = [] then ''Client Quit'' else t)
      in cancel c (''quit: '' @ reason) (send_error c reason (upd_conn c (\<lambda>cn. cn\<lparr>cn_quitReason := reason\<rparr>) s)))"

text \<open>The two passes over a \<^verbatim>\<open>CAP REQ\<close>.\<close>

definition cap_req_ok :: "string \<Rightarrow> bool" where
  "cap_req_ok req = list_all (\<lambda>name. is_supported_cap (trim_prefix ''-'' name)) (Prelude.fields req)"

definition cap_apply :: "string \<Rightarrow> conn \<Rightarrow> conn" where
  "cap_apply req cn =
     fold (\<lambda>name. if has_prefix ''-'' name then drop_accepted_cap (tl name) else add_accepted_cap name) (Prelude.fields req) cn"

definition send_cap :: "cid \<Rightarrow> string \<Rightarrow> string \<Rightarrow> server \<Rightarrow> server" where
  "send_cap c verb arg s = send c (plain_message (srv_name s) ''CAP'' [star_or_nick c s, verb, arg]) s"

definition handle_cap :: "cid \<Rightarrow> message \<Rightarrow> server \<Rightarrow> server" where
  "handle_cap c m s =
     (if msg_Params m = [] then s
      else
        let sub = to_upper (msg_Params m ! 0); req = (if length (msg_Params m) > 1 then msg_Params m ! 1 else [])
        in if sub = ''LS'' then send_cap c ''LS'' supported_caps (upd_pending c (\<lambda>p. p\<lparr>pd_capNegotiating := True\<rparr>) s)
           else if sub = ''LIST'' then send_cap c ''LIST'' (join_with '' '' (accepted_caps (sv_heap s c))) s
           else if sub = ''REQ'' then
             (let s1 = upd_pending c (\<lambda>p. p\<lparr>pd_capNegotiating := True\<rparr>) s
              in if cap_req_ok req then send_cap c ''ACK'' req (upd_conn c (cap_apply req) s1)
                 else send_cap c ''NAK'' req s1)
           else if sub = ''END'' then try_complete_registration c (upd_pending c (\<lambda>p. p\<lparr>pd_capEnded := True\<rparr>) s)
           else s)"

section \<open>SASL\<close>

text \<open>\<^verbatim>\<open>bytes.SplitN(decoded, 0, 3)\<close> with exactly three parts: the identity and the password.\<close>

definition sasl_parts :: "string \<Rightarrow> (string \<times> string) option" where
  "sasl_parts decoded =
     (case split_on CHR 0x00 decoded of
        authzid # authcid # p # rest \<Rightarrow> Some (authcid, join_with [CHR 0x00] (p # rest))
      | _ \<Rightarrow> None)"

definition sasl_fail :: "cid \<Rightarrow> server \<Rightarrow> server" where
  "sasl_fail c s = reply c (star_or_nick c s) ''904'' [''SASL authentication failed''] s"

definition handle_authenticate :: "cid \<Rightarrow> message \<Rightarrow> server \<Rightarrow> server option" where
  "handle_authenticate c m s =
     (if msg_Params m = [] then Some (need_more_params c ''AUTHENTICATE'' s)
      else case registered_user c s of
        Some u \<Rightarrow> Some (reply c (u_Nick (user_of u s)) ''906'' [''SASL authentication aborted''] s)
      | None \<Rightarrow>
          let arg = msg_Params m ! 0 in
          if arg = ''PLAIN'' then Some (send c (plain_message [] ''AUTHENTICATE'' [''+'']) s)
          else if arg = ''*'' then Some (reply c (star_or_nick c s) ''906'' [''SASL authentication aborted''] s)
          else if length arg > 400 then Some (reply c (star_or_nick c s) ''905'' [''SASL message too long''] s)
          else case Option.bind (b64_decode_std arg) sasl_parts of
            None \<Rightarrow> Some (sasl_fail c s)
          | Some (authcid, password) \<Rightarrow>
              if authcid = [] \<or> password = [] then Some (sasl_fail c s)
              else case sv_store s of
                None \<Rightarrow> None
              | Some st \<Rightarrow>
                  (case accounts_get authcid st of
                     None \<Rightarrow> Some (sasl_fail c s)
                   | Some acct \<Rightarrow>
                       if auth_verify (cf_argon2 (sv_cfg s)) (cf_bcrypt (sv_cfg s)) (ac_PasswordHash acct) password \<noteq> Some True
                       then Some (sasl_fail c s)
                       else
                         let s1 = upd_pending c (\<lambda>p. p\<lparr>pd_account := authcid\<rparr>) s; nick = star_or_nick c s1
                         in Some (reply c nick ''903'' [''SASL authentication successful'']
                              (reply c nick ''900''
                                [nick @ ''!'' @ nick @ ''@'' @ cn_remoteHost (sv_heap s c), authcid,
                                 ''You are now logged in as '' @ authcid] s1))))"

section \<open>The invariant\<close>

text \<open>Runs of quiet steps, from the end.\<close>

lemma quiet_fold_after: "quiet s t \<Longrightarrow> (\<And>x s. quiet s (f x s)) \<Longrightarrow> quiet s (fold f xs t)"
  by (rule quiet_trans) (auto intro: quiet_fold)

lemmas quiet_after =
  quiet_trans [OF _ quiet_send] quiet_trans [OF _ quiet_reply] quiet_trans [OF _ quiet_cancel] quiet_fold_after

lemma wf_upd_pending [invs]: "wf_server s \<Longrightarrow> wf_server (upd_pending c f s)"
  unfolding upd_pending_def
  by (rule wf_upd_conn) (use wf_serverD(3) in \<open>simp_all add: wf_conn_def\<close>)

lemma quiet_send_motd [simp, intro]: "quiet s (send_motd c n s)"
  by (auto simp: send_motd_def Let_def intro!: quiet_after)

lemma quiet_welcome [simp, intro]: "quiet s (send_welcome_burst c u s)"
  unfolding send_welcome_burst_def Let_def
  by (rule quiet_trans [OF _ quiet_send_motd]) (auto intro!: quiet_after)

lemma quiet_announce [simp, intro]: "quiet s (announce_user u s)"
  by (simp add: announce_user_def)

lemmas wf_welcome [invs] = quiet_wf [OF quiet_send_motd] quiet_wf [OF quiet_welcome] quiet_wf [OF quiet_announce]
lemmas welcome_frames [simp, frames] = quietD [OF quiet_send_motd] quietD [OF quiet_welcome] quietD [OF quiet_announce]

lemma fresh_user:
  assumes "wf_server s" shows "cn_user (sv_heap s d) \<noteq> Some (Suc (w_nextID (sv_world s)))"
  using conns_okD(3) [OF wf_serverD(4) [OF assms], of d "Suc (w_nextID (sv_world s))"] by auto

lemma wf_promote:
  assumes wf: "wf_server s" and none: "cn_user (sv_heap s c) = None"
    and add: "add_user x t (sv_world s) = (w, Inr u)" and reg: "u_Registered x"
  shows "wf_server (promote c u w s)"
proof -
  note a = add_user_cases [OF add]
  have next_id: "w_nextID w = u" using add by (auto simp: add_user_def Let_def split: if_splits)
  let ?s = "promote c u w s"
  have ww: "wf_world w" using wf_add_user [OF wf_serverD(1) [OF wf], of x t] add by simp
  have f: "sv_world ?s = w" "sv_heap ?s = (sv_heap s)(c := (sv_heap s c)\<lparr>cn_user := Some u\<rparr>)"
    "sv_conns ?s = mput u c (sv_conns s)" "sv_whowas ?s = sv_whowas s" "sv_bots ?s = sv_bots s"
    "sv_links ?s = sv_links s" "sv_subs ?s = sv_subs s"
    by (simp_all add: promote_def register_conn_def upd_conn_def)
  have "conns_ok ?s"
    using wf_serverD(4) [OF wf] fresh_user [OF wf] a none reg next_id unfolding conns_ok_def user_of_def f
    by (auto intro: le_SucI)
  moreover have "wf_conn (sv_heap ?s d)" for d using wf_serverD(3) [OF wf, of d] wf_serverD(3) [OF wf, of c]
    by (simp add: f wf_conn_def)
  ultimately show ?thesis using wf ww by (simp add: wf_server_def f)
qed

lemma no_user: "wf_server s \<Longrightarrow> registered_user c s = None \<longleftrightarrow> cn_user (sv_heap s c) = None"
  by (simp add: registered_user_iff)

lemma wf_try_complete [invs]: "wf_server s \<Longrightarrow> wf_server (try_complete_registration c s)"
  unfolding try_complete_registration_def Let_def
  by (auto simp: no_user user_from_pending_def Let_def split: prod.split sum.split state_error.split
      intro!: invs wf_promote)

lemma wf_handle_pass [invs]: "wf_server s \<Longrightarrow> wf_server (handle_pass c m s)"
  by (auto simp: handle_pass_def intro!: invs split: option.split)

lemma wf_handle_user [invs]: "wf_server s \<Longrightarrow> wf_server (handle_user c m s)"
  by (auto simp: handle_user_def intro!: invs split: option.split)

lemma wf_record_whowas [invs]: "wf_server s \<Longrightarrow> wf_server (record_whowas u s)"
  by (simp add: record_whowas_def wf_server_def conns_ok_def user_of_def wf_whowas_record)

lemma quiet_send_to_user [simp, intro]: "quiet s (send_to_user m u s)"
  by (simp add: send_to_user_def split: option.split)

lemma quiet_send_to_users [simp, intro]: "quiet s (fold (send_to_user m) us s)"
  by (rule quiet_fold) simp

lemmas wf_send_to [invs] = quiet_wf [OF quiet_send_to_user] quiet_wf [OF quiet_send_to_users]
lemmas send_to_frames [simp, frames] = quietD [OF quiet_send_to_user] quietD [OF quiet_send_to_users]

lemma wf_rename_registered [invs]: "wf_server s \<Longrightarrow> wf_server (rename_registered c u n s)"
  unfolding rename_registered_def Let_def
  by (auto split: prod.split option.split state_error.split intro!: invs wf_rename)

lemma wf_handle_nick [invs]: "wf_server s \<Longrightarrow> wf_server (handle_nick c m s)"
  unfolding handle_nick_def Let_def by (auto split: option.split intro!: invs)

lemma wf_handle_ping [invs]: "wf_server s \<Longrightarrow> wf_server (handle_ping c m s)"
  by (simp add: handle_ping_def invs)

lemma wf_quit_reason [invs]: "wf_server s \<Longrightarrow> wf_server (upd_conn c (\<lambda>cn. cn\<lparr>cn_quitReason := r\<rparr>) s)"
  by (rule wf_upd_conn) (use wf_serverD(3) in \<open>simp_all add: wf_conn_def\<close>)

lemma wf_handle_quit [invs]: "wf_server s \<Longrightarrow> wf_server (handle_quit c m s)"
  by (simp add: handle_quit_def Let_def invs)

text \<open>A \<^verbatim>\<open>CAP REQ\<close> changes the set of accepted capabilities and nothing else of the connection.\<close>

lemma cap_apply_frames:
  "cn_out (cap_apply req cn) = cn_out cn" "cn_user (cap_apply req cn) = cn_user cn"
  "cn_msgBucket (cap_apply req cn) = cn_msgBucket cn" "cn_pending (cap_apply req cn) = cn_pending cn"
  "wf_map (cn_capsAccepted cn) \<Longrightarrow> wf_map (cn_capsAccepted (cap_apply req cn))"
proof -
  define step where "step = (\<lambda>name. if has_prefix ''-'' name then drop_accepted_cap (tl name) else add_accepted_cap name)"
  have "cn_out (fold step ns cn) = cn_out cn \<and> cn_user (fold step ns cn) = cn_user cn \<and>
      cn_msgBucket (fold step ns cn) = cn_msgBucket cn \<and> cn_pending (fold step ns cn) = cn_pending cn \<and>
      (wf_map (cn_capsAccepted cn) \<longrightarrow> wf_map (cn_capsAccepted (fold step ns cn)))" for ns
    by (induction ns arbitrary: cn) (simp_all add: step_def drop_accepted_cap_def add_accepted_cap_def)
  then show "cn_out (cap_apply req cn) = cn_out cn" "cn_user (cap_apply req cn) = cn_user cn"
    "cn_msgBucket (cap_apply req cn) = cn_msgBucket cn" "cn_pending (cap_apply req cn) = cn_pending cn"
    "wf_map (cn_capsAccepted cn) \<Longrightarrow> wf_map (cn_capsAccepted (cap_apply req cn))"
    unfolding cap_apply_def step_def by blast+
qed

lemma wf_cap_apply [invs]: "wf_server s \<Longrightarrow> wf_server (upd_conn c (cap_apply req) s)"
  by (rule wf_upd_conn) (use wf_serverD(3) in \<open>simp_all add: wf_conn_def cap_apply_frames\<close>)

lemma quiet_send_cap [simp, intro]: "quiet s (send_cap c v a s)"
  by (simp add: send_cap_def)

lemmas wf_send_cap [invs] = quiet_wf [OF quiet_send_cap]
lemmas send_cap_frames [simp, frames] = quietD [OF quiet_send_cap]

lemma wf_handle_cap [invs]: "wf_server s \<Longrightarrow> wf_server (handle_cap c m s)"
  unfolding handle_cap_def Let_def by (auto intro!: invs)

lemma wf_handle_authenticate: "wf_server s \<Longrightarrow> handle_authenticate c m s = Some s' \<Longrightarrow> wf_server s'"
  unfolding handle_authenticate_def Let_def sasl_fail_def
  by (auto split: if_splits option.splits prod.splits intro!: invs)

section \<open>What registration guarantees\<close>

lemma check_nick_frames [simp]:
  "sv_world (check_nick n b s) = sv_world s" "sv_conns (check_nick n b s) = sv_conns s"
  "sv_cfg (check_nick n b s) = sv_cfg s" "cn_user (sv_heap (check_nick n b s) c) = cn_user (sv_heap s c)"
  by (simp_all add: check_nick_def cancel_enforcement_def Let_def split: option.split)

lemma notify_nickserv_frames [simp]:
  "sv_world (notify_nickserv n a s) = sv_world s" "sv_conns (notify_nickserv n a s) = sv_conns s"
  "sv_cfg (notify_nickserv n a s) = sv_cfg s" "cn_user (sv_heap (notify_nickserv n a s) c) = cn_user (sv_heap s c)"
  by (simp_all add: notify_nickserv_def)

lemma promote_simps [simp]:
  "sv_world (promote c u w s) = w" "cn_user (sv_heap (promote c u w s) c) = Some u"
  "conn_for u (promote c u w s) = Some c"
  by (simp_all add: promote_def register_conn_def upd_conn_def conn_for_def)

text \<open>All that has to have arrived before a connection may become a user.\<close>

definition may_register :: "cid \<Rightarrow> server \<Rightarrow> bool" where
  "may_register c s =
     (let p = cn_pending (sv_heap s c); want = cf_ClientPassword (sv_cfg s)
      in pd_nickSet p \<and> pd_userSet p \<and> (pd_capNegotiating p \<longrightarrow> pd_capEnded p) \<and>
         (want \<noteq> [] \<longrightarrow> pd_password p = want) \<and>
         pd_nick p \<noteq> [] \<and> find_by_nick (pd_nick p) (sv_world s) = None)"

lemma add_user_pending:
  assumes wf: "wf_server s" and n: "pd_nick (cn_pending (sv_heap s c)) \<noteq> []"
  shows "find_by_nick (pd_nick (cn_pending (sv_heap s c))) (sv_world s) = None \<longleftrightarrow>
    (\<exists>w. add_user (user_from_pending c s) (sv_now s) (sv_world s) = (w, Inr (Suc (w_nextID (sv_world s)))))"
  using n find_by_nick_map [OF wf_worldD(1) [OF wf_serverD(1) [OF wf]]]
  by (auto simp: add_user_def user_from_pending_def Let_def mhas_def)

lemma register_no:
  assumes wf: "wf_server s" and none: "cn_user (sv_heap s c) = None" and no: "\<not> may_register c s"
  shows "sv_world (try_complete_registration c s) = sv_world s \<and> registered_user c (try_complete_registration c s) = None"
proof -
  let ?p = "cn_pending (sv_heap s c)"
  have r: "registered_user c s = None" using none by (simp add: registered_user_def)
  have u: "registered_user c (upd_pending c f t) = registered_user c t" "sv_world (upd_pending c f t) = sv_world t" for f t
    by (simp_all add: registered_user_def upd_pending_def upd_conn_def user_of_def split: option.split)
  show ?thesis
  proof (cases "pd_nickSet ?p \<and> pd_userSet ?p \<and> (pd_capNegotiating ?p \<longrightarrow> pd_capEnded ?p) \<and>
      (cf_ClientPassword (sv_cfg s) \<noteq> [] \<longrightarrow> pd_password ?p = cf_ClientPassword (sv_cfg s))")
    case False
    then show ?thesis using r by (auto simp: try_complete_registration_def Let_def)
  next
    case True
    have "\<exists>e. add_user (user_from_pending c s) (sv_now s) (sv_world s) = (sv_world s, Inl e)"
    proof (cases "pd_nick ?p = []")
      case True
      then show ?thesis by (simp add: add_user_def user_from_pending_def Let_def)
    next
      case ne: False
      with True no have "find_by_nick (pd_nick ?p) (sv_world s) \<noteq> None" by (simp add: may_register_def Let_def)
      with ne show ?thesis
        using find_by_nick_map [OF wf_worldD(1) [OF wf_serverD(1) [OF wf]]]
        by (simp add: add_user_def user_from_pending_def Let_def mhas_def)
    qed
    then obtain e where "add_user (user_from_pending c s) (sv_now s) (sv_world s) = (sv_world s, Inl e)" by blast
    then show ?thesis using True r by (cases e) (auto simp: try_complete_registration_def Let_def u)
  qed
qed

lemma register_yes:
  assumes wf: "wf_server s" and none: "cn_user (sv_heap s c) = None" and ok: "may_register c s"
  defines "s' \<equiv> try_complete_registration c s" and "u \<equiv> Suc (w_nextID (sv_world s))"
  shows "cn_user (sv_heap s' c) = Some u \<and>
    add_user (user_from_pending c s) (sv_now s) (sv_world s) = (sv_world s', Inr u) \<and> conn_for u s' = Some c"
proof -
  let ?p = "cn_pending (sv_heap s c)"
  have r: "registered_user c s = None" using none by (simp add: registered_user_def)
  have g: "pd_nickSet ?p" "pd_userSet ?p" "pd_capNegotiating ?p \<longrightarrow> pd_capEnded ?p"
    "cf_ClientPassword (sv_cfg s) \<noteq> [] \<longrightarrow> pd_password ?p = cf_ClientPassword (sv_cfg s)" "pd_nick ?p \<noteq> []"
    "find_by_nick (pd_nick ?p) (sv_world s) = None"
    using ok by (simp_all add: may_register_def Let_def)
  obtain w where a: "add_user (user_from_pending c s) (sv_now s) (sv_world s) = (w, Inr u)"
    using add_user_pending [OF wf g(5)] g(6) unfolding u_def by blast
  have "\<not> (pd_capNegotiating ?p \<and> \<not> pd_capEnded ?p)"
    "\<not> (cf_ClientPassword (sv_cfg s) \<noteq> [] \<and> pd_password ?p \<noteq> cf_ClientPassword (sv_cfg s))"
    using g(3,4) by blast+
  then have "sv_world s' = w \<and> cn_user (sv_heap s' c) = Some u \<and> conn_for u s' = conn_for u (promote c u w s)"
    using g(1,2) r a unfolding s'_def try_complete_registration_def Let_def
    by (simp only: if_False simp_thms prod.case sum.case) (simp add: conn_for_def)
  with a show ?thesis by simp
qed


definition demo_pending :: server where
  "demo_pending =
     upd_pending 1 (\<lambda>p. p\<lparr>pd_nick := ''ann'', pd_user := ''a'', pd_realname := ''Ann'', pd_nickSet := True, pd_userSet := True\<rparr>)
       demo_server"


section \<open>Changing the nick\<close>

lemma nick_not_blank: "valid_nickname n l \<Longrightarrow> trim_space n \<noteq> []"
proof -
  assume "valid_nickname n l"
  then have "n \<noteq> []" "\<forall>c \<in> set n. is_nick_byte c" by (auto simp: valid_nickname_def Let_def list_all_iff split: if_splits)
  moreover have "\<not> is_space c" if "is_nick_byte c" for c
    using that by (auto simp: is_nick_byte_def is_space_def is_upper_def is_lower_def is_digit_def less_eq_char_def)
  ultimately obtain c cs where n: "n = c # cs" "\<not> is_space c" by (cases n) auto
  have "dropWhile is_space (rev cs @ [c]) \<noteq> []" using n(2) by (simp add: dropWhile_eq_Nil_conv)
  with n show ?thesis by (simp add: trim_space_def)
qed

lemma rename_user_taken:
  assumes "wf_world w" "mhas (w_byID w) u" "n \<noteq> []" "find_by_nick n w \<notin> {None, Some u}"
  shows "rename_user u n w = (w, Some ErrNickInUse)"
proof -
  have "wfold w n \<noteq> wfold w (u_Nick (w_store w u))"
    using holder_iff [OF wf_worldD(1) [OF assms(1)] assms(2), of n] assms(4) by auto
  then show ?thesis using assms find_by_nick_map [OF wf_worldD(1) [OF assms(1)]]
    by (auto simp: rename_user_def Let_def mhas_def)
qed

lemma rename_user_free:
  assumes "wf_world w" "mhas (w_byID w) u" "n \<noteq> []" "find_by_nick n w \<in> {None, Some u}"
  shows "\<exists>w'. rename_user u n w = (w', None)"
proof -
  have "wfold w n = wfold w (u_Nick (w_store w u)) \<or> \<not> mhas (w_byNick w) (wfold w n)"
    using holder_iff [OF wf_worldD(1) [OF assms(1)] assms(2), of n] assms(4) find_by_nick_map [OF wf_worldD(1) [OF assms(1)]]
    by (auto simp: mhas_def)
  then show ?thesis using assms(2,3) by (auto simp: rename_user_def Let_def)
qed

text \<open>A registered user's NICK succeeds exactly when the name is free or already the user's own under the
  case mapping. Then the directory differs in the old and the new name only, every other user and every
  channel stays as it is, and the old identity is the entry WHOWAS records. A refused NICK changes nothing
  of the world. Nobody ever loses a nickname to another user.
\<close>

theorem nick_change:
  assumes "wf_server s" "registered_user c s = Some u" "mhas (w_byID (sv_world s)) u" "msg_Params m = [n]"
    and "valid_nickname n (lm_NickLength (srv_limits s))" "CHR ''r'' \<notin> set (u_Modes (user_of u s))"
  defines "s' \<equiv> handle_nick c m s" and "w \<equiv> sv_world s"
  shows "if find_by_nick n w \<in> {None, Some u}
    then (\<forall>k. find_by_nick k (sv_world s') =
           (if same_name w k n then Some u else if find_by_nick k w = Some u then None else find_by_nick k w)) \<and>
         user_of u s' = (user_of u s)\<lparr>u_Nick := n\<rparr> \<and> (\<forall>v. v \<noteq> u \<longrightarrow> user_of v s' = user_of v s) \<and>
         w_byChannel (sv_world s') = w_byChannel w \<and> sv_whowas s' = sv_whowas (record_whowas (user_of u s) s)
    else sv_world s' = w \<and> sv_whowas s' = sv_whowas s"
proof -
  have n: "n \<noteq> []" using assms(5) by (simp add: valid_nickname_def Let_def split: if_splits)
  have h: "s' = rename_registered c u n s"
    using assms(2,4,5) nick_not_blank [OF assms(5)] by (simp add: s'_def handle_nick_def)
  note wf = wf_serverD(1) [OF assms(1), folded w_def]
  show ?thesis
  proof (cases "find_by_nick n w \<in> {None, Some u}")
    case True
    then obtain w' where r: "rename_user u n w = (w', None)"
      using rename_user_free [OF wf _ n] assms(3) unfolding w_def by blast
    have x: "sv_world s' = w'" "sv_whowas s' = sv_whowas (record_whowas (user_of u s) s)"
      using r assms(6) unfolding h w_def
      by (simp_all add: rename_registered_def Let_def record_whowas_def upd_sworld_def notify_nickserv_def check_nick_def
          cancel_enforcement_def split: option.split)
    have "user_of v s' = (if v = u then (user_of u s)\<lparr>u_Nick := n\<rparr> else user_of v s)" for v
      using rename_user_cases(5) [OF r] by (simp add: user_of_def x w_def)
    then show ?thesis
      using True nicks.rename_ok [OF wf r] rename_user_cases(8) [OF r] by (simp add: x)
  next
    case False
    with rename_user_taken [OF wf _ n False] assms(3,6) show ?thesis
      by (auto simp: h rename_registered_def Let_def w_def)
  qed
qed

lemma nick_change_witness:
  "find_by_nick ''ana'' (sv_world (handle_nick 1 (plain_message [] ''NICK'' [''ana'']) demo_net)) = Some 1 \<and>
   find_by_nick ''al'' (sv_world (handle_nick 1 (plain_message [] ''NICK'' [''ana'']) demo_net)) = None"
proof -
  have v: "valid_nickname ''ana'' (lm_NickLength (cf_Limits demo_config))" "find_by_nick ''ana'' demo_world = None"
    "same_name demo_world ''ana'' ''ana''" "\<not> same_name demo_world ''al'' ''ana''" by code_simp+
  show ?thesis
    using nick_change [OF wf_demo_net demo_registered(1), of "plain_message [] ''NICK'' [''ana'']" "''ana''"] v
    by (auto simp: plain_message_def demo_users_Suc)
qed

section \<open>Capabilities and accounts\<close>

lemma has_cap_add [simp]: "has_cap n (add_accepted_cap x cn) \<longleftrightarrow> n = x \<or> has_cap n cn"
  by (simp add: has_cap_def add_accepted_cap_def)

lemma has_cap_drop [simp]: "has_cap n (drop_accepted_cap x cn) \<longleftrightarrow> n \<noteq> x \<and> has_cap n cn"
  by (simp add: has_cap_def drop_accepted_cap_def)

lemma has_cap_apply:
  "has_cap n (fold (\<lambda>x. if has_prefix ''-'' x then drop_accepted_cap (tl x) else add_accepted_cap x) xs cn) \<longleftrightarrow>
     (let ms = filter (\<lambda>x. trim_prefix ''-'' x = n) xs in if ms = [] then has_cap n cn else \<not> has_prefix ''-'' (last ms))"
proof (induction xs rule: rev_induct)
  case Nil
  show ?case by simp
next
  case (snoc x xs)
  have "trim_prefix ''-'' x = (if has_prefix ''-'' x then tl x else x)" by (simp add: trim_prefix_def drop_Suc)
  with snoc show ?case by (auto simp: Let_def)
qed

text \<open>A capability request is atomic. If one name of it is not offered, nothing changes; otherwise each
  capability ends up as its last mention says, accepted or dropped, and the others keep their state. Either
  way only offered capabilities are ever accepted, and registration now waits for the end of negotiation.
\<close>

theorem cap_req_atomic:
  fixes c :: cid and s :: server
  assumes "msg_Params m = [v, req]" "to_upper v = ''REQ''"
  defines "before \<equiv> sv_heap s c" and "after \<equiv> sv_heap (handle_cap c m s) c" and "names \<equiv> Prelude.fields req"
  shows "(\<forall>n. has_cap n after \<longleftrightarrow>
      (let mentions = filter (\<lambda>x. trim_prefix ''-'' x = n) names
       in if mentions \<noteq> [] \<and> (\<forall>x \<in> set names. is_supported_cap (trim_prefix ''-'' x))
          then \<not> has_prefix ''-'' (last mentions) else has_cap n before)) \<and>
    ((\<forall>n. has_cap n before \<longrightarrow> is_supported_cap n) \<longrightarrow> (\<forall>n. has_cap n after \<longrightarrow> is_supported_cap n)) \<and>
    pd_capNegotiating (cn_pending after)"
proof -
  define t where "t = upd_pending c (\<lambda>p. p\<lparr>pd_capNegotiating := True\<rparr>) s"
  define t2 where "t2 = (if cap_req_ok req then upd_conn c (cap_apply req) t else t)"
  have h: "handle_cap c m s = send_cap c (if cap_req_ok req then ''ACK'' else ''NAK'') req t2"
    using assms(1,2) by (simp add: handle_cap_def Let_def t_def t2_def)
  have t: "has_cap n (sv_heap t c) = has_cap n before" "pd_capNegotiating (cn_pending (sv_heap t c))" for n
    by (simp_all add: t_def upd_pending_def upd_conn_def has_cap_def before_def)
  have "pd_capNegotiating (cn_pending after)"
    using t(2) by (simp add: after_def h t2_def) (simp add: upd_conn_def cap_apply_frames)
  moreover have "has_cap n after = has_cap n (if cap_req_ok req then cap_apply req (sv_heap t c) else sv_heap t c)" for n
    by (simp add: after_def h t2_def upd_conn_def)
  then have a: "has_cap n after = (let mentions = filter (\<lambda>x. trim_prefix ''-'' x = n) names
      in if mentions \<noteq> [] \<and> (\<forall>x \<in> set names. is_supported_cap (trim_prefix ''-'' x))
         then \<not> has_prefix ''-'' (last mentions) else has_cap n before)" for n
    using has_cap_apply [of n names "sv_heap t c"] t(1) [of n]
    by (simp add: cap_apply_def names_def cap_req_ok_def list_all_iff Let_def)
  moreover have "is_supported_cap n" if "has_cap n after" "\<forall>k. has_cap k before \<longrightarrow> is_supported_cap k" for n
  proof (cases "(\<forall>x \<in> set names. is_supported_cap (trim_prefix ''-'' x)) \<and> (\<exists>x \<in> set names. trim_prefix ''-'' x = n)")
    case False
    then have "filter (\<lambda>x. trim_prefix ''-'' x = n) names = [] \<or> \<not> (\<forall>x \<in> set names. is_supported_cap (trim_prefix ''-'' x))"
      by (auto simp: filter_empty_conv)
    with that a [of n] show ?thesis by (auto simp: Let_def)
  qed auto
  ultimately show ?thesis by blast
qed

lemma cap_req_atomic_witness:
  "has_cap ''sasl'' (sv_heap (handle_cap 1 (plain_message [] ''CAP'' [''REQ'', ''sasl batch'']) demo_pending) 1)"
proof -
  have f: "Prelude.fields ''sasl batch'' = [''sasl'', ''batch'']" by code_simp
  have p: "trim_prefix ''-'' ''sasl'' = ''sasl''" "trim_prefix ''-'' ''batch'' = ''batch''" "\<not> has_prefix ''-'' ''sasl''"
    "is_supported_cap ''sasl''" "is_supported_cap ''batch''" "to_upper ''REQ'' = ''REQ''" by code_simp+
  show ?thesis
    using cap_req_atomic [of "plain_message [] ''CAP'' [''REQ'', ''sasl batch'']" "''REQ''" "''sasl batch''" 1 demo_pending] p
    by (simp add: f plain_message_def)
qed


end
