(* ===== verification/Broadcast.thy ===== *)
theory Broadcast
  imports Registration
begin

text \<open>
  Who gets a channel message: \<^verbatim>\<open>broadcastToChannel\<close> of \<^verbatim>\<open>internal/server/server.go\<close> and its federated
  form \<^verbatim>\<open>broadcastToChannelFederated\<close> of \<^verbatim>\<open>federation.go\<close>. The theorem says, connection by connection,
  what a broadcast does; the handlers that broadcast rest on it.
\<close>

definition broadcast_federated :: "channel \<Rightarrow> message \<Rightarrow> uid \<Rightarrow> bool \<Rightarrow> server \<Rightarrow> server" where
  "broadcast_federated ch m except includeSelf s =
     forward_channel (ch_name ch) m (broadcast_with deliver_plain ch m except includeSelf s)"

lemma quiet_broadcast_federated [simp, intro]: "quiet s (broadcast_federated ch m e i s)"
  unfolding broadcast_federated_def by (rule quiet_trans [of _ "broadcast_with deliver_plain ch m e i s"]) auto

lemmas wf_broadcast_federated [invs] = quiet_wf [OF quiet_broadcast_federated]
lemmas broadcast_federated_frames [simp, frames] = quietD [OF quiet_broadcast_federated]

section \<open>Delivery\<close>

text \<open>What one send does to a connection, given the state it was tagged in.\<close>

lemma send_heap: "sv_heap (send c m s) d = (if d = c then enqueue (tag_for (sv_heap s c) s m) (sv_heap s c) else sv_heap s d)"
  by (simp add: send_def upd_conn_def)

lemma tag_for_cong:
  assumes "cn_capsAccepted cn' = cn_capsAccepted cn" "sv_world s' = sv_world s" "sv_now s' = sv_now s"
  shows "tag_for cn' s' m = tag_for cn s m"
  unfolding tag_for_def has_cap_def user_of_def assms ..

lemma tag_for_quiet: "quiet s s' \<Longrightarrow> tag_for cn s' m = tag_for cn s m"
  by (rule tag_for_cong) (simp_all add: quietD)

lemma heap_forward [simp]:
  "sv_heap (link_send p m s) = sv_heap s" "sv_heap (forward_to_all m s) = sv_heap s"
  "sv_heap (forward_channel ch m s) = sv_heap s" "sv_heap (forward_join ch m s) = sv_heap s"
proof -
  have l: "sv_heap (link_send p m s) = sv_heap s" for p m s by (simp add: link_send_def split: option.split)
  have f: "sv_heap (fold (\<lambda>p. link_send p m) ps s) = sv_heap s" for ps s by (induction ps arbitrary: s) (simp_all add: l)
  have u: "sv_heap (subscribe_peer p c s) = sv_heap s" for p c s by (simp add: subscribe_peer_def Let_def)
  have g: "sv_heap (fold (\<lambda>p. subscribe_peer p c) ps s) = sv_heap s" for c ps s
    by (induction ps arbitrary: s) (simp_all add: u)
  have h: "sv_heap (fold (\<lambda>(p, subs). if mhas subs c then link_send p m else (\<lambda>s. s)) xs s) = sv_heap s" for c xs s
    by (induction xs arbitrary: s) (auto simp: l)
  show "sv_heap (link_send p m s) = sv_heap s" by (rule l)
  show "sv_heap (forward_to_all m s) = sv_heap s" by (simp add: forward_to_all_def f)
  show "sv_heap (forward_channel ch m s) = sv_heap s" "sv_heap (forward_join ch m s) = sv_heap s"
    by (simp_all add: forward_channel_def forward_join_def forward_to_all_def forward_to_subscribed_def f g h)
qed

text \<open>One visit of a member: only the connection of that member changes.\<close>

lemma deliver_member_heap:
  "sv_heap (deliver_member deliver_plain m u s) c =
     (if conn_for u s = Some c then enqueue (tag_for (sv_heap s c) s m) (sv_heap s c) else sv_heap s c)"
  by (auto simp: deliver_member_def send_heap deliver_plain_def split: option.split bot.split)

lemma quiet_deliver_member_plain: "quiet s (deliver_member deliver_plain m u s)"
  by (rule quiet_deliver_member) simp

text \<open>
  \<open>to c\<close> is the user a connection belongs to; \<open>wanted\<close> the members the walk does not skip.
\<close>

lemma deliver_fold:
  assumes "wf_server s" "distinct us"
  shows "sv_heap (fold (\<lambda>u s. if skip u then s else deliver_member deliver_plain m u s) us s) c =
    (case cn_user (sv_heap s c) of
       None \<Rightarrow> sv_heap s c
     | Some u \<Rightarrow> if u \<in> set us \<and> \<not> skip u then enqueue (tag_for (sv_heap s c) s m) (sv_heap s c) else sv_heap s c)"
  using assms
proof (induction us arbitrary: s)
  case Nil
  show ?case by (simp split: option.split)
next
  case (Cons u us)
  define t where "t = (if skip u then s else deliver_member deliver_plain m u s)"
  have q: "quiet s t" using quiet_deliver_member_plain by (simp add: t_def)
  have h: "sv_heap t c = (if \<not> skip u \<and> cn_user (sv_heap s c) = Some u
      then enqueue (tag_for (sv_heap s c) s m) (sv_heap s c) else sv_heap s c)"
    using conns_okD(2) [OF wf_serverD(4) [OF Cons.prems(1)], of u c] by (simp add: t_def deliver_member_heap conn_for_def)
  have c: "cn_user (sv_heap t c) = cn_user (sv_heap s c)" by (rule quietD(17) [OF q])
  have tag: "tag_for (sv_heap t c) t m = tag_for (sv_heap s c) s m"
    by (rule tag_for_cong) (use quietD [OF q] in simp_all)
  have "sv_heap (fold (\<lambda>u s. if skip u then s else deliver_member deliver_plain m u s) us t) c =
    (case cn_user (sv_heap s c) of
       None \<Rightarrow> sv_heap t c
     | Some v \<Rightarrow> if v \<in> set us \<and> \<not> skip v then enqueue (tag_for (sv_heap s c) s m) (sv_heap t c) else sv_heap t c)"
    using Cons.IH [OF quiet_wf [OF q Cons.prems(1)]] Cons.prems(2) unfolding c tag by simp
  with h Cons.prems(2) show ?case by (auto simp: t_def [symmetric] split: option.split)
qed

text \<open>
  C14: A channel broadcast reaches exactly the local members, each exactly once, skips the excepted member
  unless it is included, and touches no other connection. On an anonymous channel every copy carries the
  anonymous prefix in place of the sender's. (Federation forwarding does not reach a client.)
\<close>

theorem broadcast_delivery:
  assumes "wf_server s" "wf_channel ch"
  shows "sv_heap (broadcast_federated ch m except includeSelf s) c =
    (case cn_user (sv_heap s c) of
       None \<Rightarrow> sv_heap s c
     | Some u \<Rightarrow>
         if is_member u ch \<and> (includeSelf \<or> u \<noteq> except)
         then enqueue (tag_for (sv_heap s c) s
                (if m_anonymous (ch_modes ch) then m\<lparr>msg_Prefix := ''anonymous!anonymous@anonymous.''\<rparr> else m)) (sv_heap s c)
         else sv_heap s c)"
  using deliver_fold [OF assms(1) distinct_member_ids [OF assms(2)], of "\<lambda>u. \<not> includeSelf \<and> u = except" "anonymize ch m" c]
  by (auto simp: broadcast_federated_def broadcast_with_def member_ids_iff anonymize_def anonymous_mask_def split: option.split)

lemma wf_demo_channel: "wf_channel demo_channel"
  using find_channel_wf [OF wf_worldD(2) [OF wf_demo_world] demo_facts(1)] by simp

lemma broadcast_delivery_witness:
  "let m = plain_message ''al!a@h'' ''TOPIC'' [''#a'', ''hi''] in
   sv_heap (broadcast_federated demo_channel m 0 True demo_net) 2 = sv_heap demo_net 2 \<and>
   sv_heap (broadcast_federated demo_channel m 0 True demo_net) 1 =
     enqueue (tag_for (sv_heap demo_net 1) demo_net m) (sv_heap demo_net 1)"
proof -
  have "\<not> m_anonymous (ch_modes demo_channel)" by code_simp
  then show ?thesis
    using broadcast_delivery [OF wf_demo_net wf_demo_channel, of "plain_message ''al!a@h'' ''TOPIC'' [''#a'', ''hi'']" 0 True 1]
      broadcast_delivery [OF wf_demo_net wf_demo_channel, of "plain_message ''al!a@h'' ''TOPIC'' [''#a'', ''hi'']" 0 True 2]
    by (simp add: demo_users_Suc Let_def)
qed

end
