(* ===== verification/Channel_Cmds.thy ===== *)
theory Channel_Cmds
  imports Broadcast
begin

text \<open>
  \<^verbatim>\<open>JOIN\<close>, \<^verbatim>\<open>PART\<close>, \<^verbatim>\<open>KICK\<close>, \<^verbatim>\<open>INVITE\<close>, \<^verbatim>\<open>TOPIC\<close> and the \<^verbatim>\<open>NAMES\<close> burst of
  \<^verbatim>\<open>internal/server/handler_channels.go\<close>, with the batches of \<^verbatim>\<open>batch.go\<close> and the safe channel IDs of
  \<^verbatim>\<open>server.go\<close>. A handler holds a channel by the name it looked it up with; it reads the object again
  after it changed it.
\<close>

section \<open>Names\<close>

definition valid_channel_name :: "string \<Rightarrow> int \<Rightarrow> bool" where
  "valid_channel_name s maxLen =
     (let m = (if maxLen \<le> 0 then 50 else maxLen)
      in length s \<ge> 2 \<and> int (length s) \<le> m \<and> hd s \<in> {CHR ''#'', CHR ''&'', CHR ''+'', CHR ''!''} \<and>
         list_all (\<lambda>c. c \<notin> {CHR '' '', CHR '','', CHR 0x07, CHR 0x0D, CHR 0x0A, CHR 0x00}) (tl s))"

definition is_safe_channel :: "string \<Rightarrow> bool" where
  "is_safe_channel name = (name \<noteq> [] \<and> hd name = CHR ''!'')"

definition safe_channel_id_len :: nat where
  "safe_channel_id_len = 5"

definition safe_channel_id_alphabet :: string where
  "safe_channel_id_alphabet = ''ABCDEFGHIJKLMNOPQRSTUVWXYZ0123456789''"

definition is_safe_channel_id :: "string \<Rightarrow> bool" where
  "is_safe_channel_id s = (length s = safe_channel_id_len \<and> list_all (\<lambda>c. is_upper c \<or> is_digit c) s)"

definition is_modeless_channel :: "string \<Rightarrow> bool" where
  "is_modeless_channel name = (name \<noteq> [] \<and> hd name = CHR ''+'')"

definition itoa_positive :: "int \<Rightarrow> string" where
  "itoa_positive n = (if n \<le> 0 then ''0'' else itoa_nat (nat n))"

definition safe_id_clash :: "string \<Rightarrow> world \<Rightarrow> bool" where
  "safe_id_clash i w =
     list_ex (\<lambda>ch. is_safe_channel (ch_name ch) \<and> length (ch_name ch) > 1 + safe_channel_id_len \<and>
       take safe_channel_id_len (tl (ch_name ch)) = i) (channels_snapshot w)"

text \<open>Eight tries, then the fixed ID.\<close>

fun safe_id_loop :: "nat \<Rightarrow> server \<Rightarrow> server \<times> string" where
  "safe_id_loop 0 s = (s, ''AAAAA'')"
| "safe_id_loop (Suc k) s =
     (let i = map (\<lambda>b. safe_channel_id_alphabet ! (byte_val b mod length safe_channel_id_alphabet)) (rand_bytes safe_channel_id_len s);
          s1 = s\<lparr>sv_randPos := sv_randPos s + safe_channel_id_len\<rparr>
      in if safe_id_clash i (sv_world s1) then safe_id_loop k s1 else (s1, i))"

definition new_safe_channel_id :: "server \<Rightarrow> server \<times> string" where
  "new_safe_channel_id s = safe_id_loop 8 s"

definition resolve_safe_channel :: "string \<Rightarrow> server \<Rightarrow> server \<times> string option" where
  "resolve_safe_channel name s =
     (if length name \<ge> 2 \<and> name ! 1 = CHR ''!'' then
        (let short = drop 2 name
         in if short = [] then (s, None)
            else (case new_safe_channel_id s of (s1, i) \<Rightarrow> (s1, Some (''!'' @ i @ short))))
      else
        let rest = drop 1 name in
        if length rest > safe_channel_id_len \<and> is_safe_channel_id (take safe_channel_id_len rest) then (s, Some name)
        else (s, map_option ch_name
               (find (\<lambda>ch. is_safe_channel (ch_name ch) \<and> length (ch_name ch) > 1 + safe_channel_id_len \<and>
                  drop (1 + safe_channel_id_len) (ch_name ch) = rest) (channels_snapshot (sv_world s)))))"

section \<open>The bursts a joiner gets\<close>

definition send_topic_state :: "cid \<Rightarrow> uid \<Rightarrow> channel \<Rightarrow> server \<Rightarrow> server" where
  "send_topic_state c u ch s =
     (let nick = u_Nick (user_of u s) in
      if ch_topic ch = [] then reply c nick ''331'' [ch_name ch, ''No topic is set''] s
      else reply c nick ''333'' [ch_name ch, ch_topicSetBy ch, itoa_positive (unix_seconds (ch_topicSetAt ch))]
             (reply c nick ''332'' [ch_name ch, ch_topic ch] s))"

text \<open>\<^verbatim>\<open>nextBatchRef\<close>, \<^verbatim>\<open>startBatch\<close>, \<^verbatim>\<open>endBatch\<close>.\<close>

definition next_batch_ref :: "server \<Rightarrow> server \<times> string" where
  "next_batch_ref s =
     (s\<lparr>sv_batchSeq := sv_batchSeq s + 1\<rparr>, ''ircat'' @ itoa_nat (sv_batchSeq s + 1))"

definition start_batch :: "cid \<Rightarrow> string \<Rightarrow> string \<Rightarrow> string list \<Rightarrow> server \<Rightarrow> server" where
  "start_batch c ref batchType params s =
     send c (plain_message (srv_name s) ''BATCH'' ((''+'' @ ref) # batchType # params)) s"

definition end_batch :: "cid \<Rightarrow> string \<Rightarrow> server \<Rightarrow> server" where
  "end_batch c ref s = send c (plain_message (srv_name s) ''BATCH'' [''-'' @ ref]) s"

text \<open>\<open>batch\<close> is the reference of the open batch, if one is.\<close>

definition batch_tagged :: "string option \<Rightarrow> message \<Rightarrow> message" where
  "batch_tagged batch m = (case batch of None \<Rightarrow> m | Some ref \<Rightarrow> with_tag ''batch'' ref m)"

definition names_symbol :: "channel \<Rightarrow> string" where
  "names_symbol ch =
     (if m_secret (ch_modes ch) then ''@'' else if m_private (ch_modes ch) then ''*'' else ''='')"

definition names_tokens :: "conn \<Rightarrow> channel \<Rightarrow> server \<Rightarrow> string list" where
  "names_tokens cn ch s =
     concat (map (\<lambda>(i, mem).
       case find_by_id i (sv_world s) of
         None \<Rightarrow> []
       | Some _ \<Rightarrow>
           if u_Service (user_of i s) then []
           else [(if has_cap ''multi-prefix'' cn then mem_multi_prefix mem else mem_prefix mem) @
                 (if has_cap ''userhost-in-names'' cn then hostmask (user_of i s) else u_Nick (user_of i s))])
       (ch_members ch))"

definition names_flush :: "cid \<Rightarrow> string \<Rightarrow> string option \<Rightarrow> channel \<Rightarrow> string \<Rightarrow> server \<Rightarrow> server" where
  "names_flush c nick batch ch line s =
     (if line = [] then s
      else send c (batch_tagged batch (numeric_reply (srv_name s) nick ''353'' [names_symbol ch, ch_name ch, line])) s)"

fun names_loop :: "(string \<Rightarrow> server \<Rightarrow> server) \<Rightarrow> string list \<Rightarrow> string \<Rightarrow> server \<Rightarrow> server" where
  "names_loop flush [] line s = flush line s"
| "names_loop flush (t # ts) line s =
     (if length line + 1 + length t > 400 then names_loop flush ts t (flush line s)
      else names_loop flush ts (if line = [] then t else line @ '' '' @ t) s)"

definition send_names_reply :: "cid \<Rightarrow> uid \<Rightarrow> channel \<Rightarrow> server \<Rightarrow> server" where
  "send_names_reply c u ch s =
     (let nick = u_Nick (user_of u s); batched = has_cap ''batch'' (sv_heap s c);
          (s1, batch) = (if batched
             then (case next_batch_ref s of (s', ref) \<Rightarrow> (start_batch c ref ''ircat.namesburst'' [ch_name ch] s', Some ref))
             else (s, None));
          flush = names_flush c nick batch ch;
          s2 = (if m_anonymous (ch_modes ch) then flush ''anonymous'' s1
                else names_loop flush (names_tokens (sv_heap s1 c) ch s1) [] s1);
          s3 = send c (batch_tagged batch (numeric_reply (srv_name s2) nick ''366'' [ch_name ch, ''End of NAMES list''])) s2
      in (case batch of None \<Rightarrow> s3 | Some ref \<Rightarrow> end_batch c ref s3))"

section \<open>JOIN\<close>

text \<open>
  The mode that refuses the join, empty when none does. A pending invite is used up when it is looked at,
  before the other modes are.
\<close>

definition check_join_policy :: "string \<Rightarrow> channel \<Rightarrow> uid \<Rightarrow> string \<Rightarrow> server \<Rightarrow> server \<times> string" where
  "check_join_policy name ch u key s =
     (let msk = hostmask (user_of u s); f = sfold s; invited = snd (consume_invite u ch);
          looked = (m_inviteOnly (ch_modes ch) \<and> \<not> matches_invex msk f ch);
          s1 = (if looked then with_chan name (\<lambda>c. fst (consume_invite u c)) s else s)
      in if looked \<and> \<not> invited then (s1, ''+i'')
         else if ch_key ch \<noteq> [] \<and> ch_key ch \<noteq> key then (s1, ''+k'')
         else if ch_limit ch > 0 \<and> int (member_count ch) \<ge> ch_limit ch then (s1, ''+l'')
         else if matches_ban msk f ch \<and> \<not> matches_exception msk f ch then (s1, ''+b'')
         else (s1, []))"

definition join_refusal :: "cid \<Rightarrow> string \<Rightarrow> string \<Rightarrow> string \<Rightarrow> server \<Rightarrow> server" where
  "join_refusal c nick name reason s =
     (if reason = ''+i'' then reply c nick ''473'' [name, ''Cannot join channel (+i)''] s
      else if reason = ''+k'' then reply c nick ''475'' [name, ''Cannot join channel (+k)''] s
      else if reason = ''+l'' then reply c nick ''471'' [name, ''Cannot join channel (+l)''] s
      else if reason = ''+b'' then reply c nick ''474'' [name, ''Cannot join channel (+b)''] s
      else s)"

definition deliver_join :: "message \<Rightarrow> message \<Rightarrow> uid \<Rightarrow> server \<Rightarrow> server" where
  "deliver_join plain extended i s =
     (case conn_for i s of
        Some p \<Rightarrow> send p (if has_cap ''extended-join'' (sv_heap s p) then extended else plain) s
      | None \<Rightarrow> (case bot_for i s of Some b \<Rightarrow> deliver_plain i b plain s | None \<Rightarrow> s))"

definition announce_join :: "uid \<Rightarrow> channel \<Rightarrow> server \<Rightarrow> server" where
  "announce_join u ch s =
     (let me = user_of u s;
          m = plain_message (hostmask me) ''JOIN'' [ch_name ch];
          x = plain_message (hostmask me) ''JOIN'' [ch_name ch, (if u_Account me = [] then ''*'' else u_Account me), u_Realname me];
          s1 = (if \<not> m_anonymous (ch_modes ch) then fold (deliver_join m x) (member_ids ch) s
                else broadcast_with deliver_plain ch m 0 True s)
      in forward_join (ch_name ch) m s1)"

definition enter_channel :: "cid \<Rightarrow> uid \<Rightarrow> string \<Rightarrow> server \<Rightarrow> server" where
  "enter_channel c u name s =
     (case join_channel u name (sv_now s) (sv_world s) of
        (_, Inl _) \<Rightarrow> s
      | (w, Inr r) \<Rightarrow>
          if \<not> jr_added r then s\<lparr>sv_world := w\<rparr>
          else
            let ch = jr_channel r;
                s1 = announce_join u ch (s\<lparr>sv_world := w\<rparr>);
                s2 = send_names_reply c u ch (send_topic_state c u ch s1)
            in notify_chanserv (u_Nick (user_of u s2)) (u_Account (user_of u s2)) (ch_name ch) s2)"

definition join_resolved :: "cid \<Rightarrow> uid \<Rightarrow> string \<Rightarrow> string \<Rightarrow> server \<Rightarrow> server" where
  "join_resolved c u name key s =
     (case find_channel name (sv_world s) of
        None \<Rightarrow> enter_channel c u name s
      | Some ch \<Rightarrow>
          (case check_join_policy name ch u key s of
             (s1, reason) \<Rightarrow>
               if reason \<noteq> [] then join_refusal c (u_Nick (user_of u s1)) name reason s1
               else enter_channel c u name s1))"

definition join_one :: "cid \<Rightarrow> uid \<Rightarrow> string \<Rightarrow> string \<Rightarrow> server \<Rightarrow> server" where
  "join_one c u name key s =
     (let nick = u_Nick (user_of u s); no_such = reply c nick ''403'' [name, ''No such channel''] in
      if \<not> valid_channel_name name (lm_ChannelLength (srv_limits s)) then no_such s
      else if is_safe_channel name then
        (case resolve_safe_channel name s of
           (s1, None) \<Rightarrow> no_such s1
         | (s1, Some resolved) \<Rightarrow> join_resolved c u resolved key s1)
      else join_resolved c u name key s)"

section \<open>PART\<close>

definition part_one :: "cid \<Rightarrow> uid \<Rightarrow> string \<Rightarrow> string \<Rightarrow> server \<Rightarrow> server" where
  "part_one c u reason name s =
     (let nick = u_Nick (user_of u s) in
      case find_channel name (sv_world s) of
        None \<Rightarrow> reply c nick ''403'' [name, ''No such channel''] s
      | Some ch \<Rightarrow>
          if \<not> is_member u ch then reply c nick ''442'' [name, ''You're not on that channel''] s
          else
            let m = plain_message (hostmask (user_of u s)) ''PART'' (if reason = [] then [ch_name ch] else [ch_name ch, reason])
            in upd_sworld (\<lambda>w. fst (part_channel u name w)) (broadcast_federated ch m 0 True s))"

definition handle_part :: "cid \<Rightarrow> message \<Rightarrow> server \<Rightarrow> server" where
  "handle_part c m s =
     (case registered_user c s of
        None \<Rightarrow> not_registered c s
      | Some u \<Rightarrow>
          if msg_Params m = [] then need_more_params c ''PART'' s
          else
            let reason = (case msg_trailing m of None \<Rightarrow> [] | Some t \<Rightarrow> if length (msg_Params m) > 1 then t else [])
            in fold (part_one c u reason) (split_on CHR '','' (msg_Params m ! 0)) s)"

definition handle_join :: "cid \<Rightarrow> message \<Rightarrow> server \<Rightarrow> server" where
  "handle_join c m s =
     (case registered_user c s of
        None \<Rightarrow> not_registered c s
      | Some u \<Rightarrow>
          if msg_Params m = [] then need_more_params c ''JOIN'' s
          else
            let target = msg_Params m ! 0 in
            if target = ''0'' then
              fold (\<lambda>ch. part_one c u ''Left all channels'' (ch_name ch)) (user_channels u (sv_world s)) s
            else
              let channels = split_on CHR '','' target;
                  keys = (if length (msg_Params m) > 1 then split_on CHR '','' (msg_Params m ! 1) else [])
              in fold (\<lambda>i. join_one c u (channels ! i) (if i < length keys then keys ! i else [])) [0..<length channels] s)"

section \<open>KICK\<close>

definition kick_one :: "cid \<Rightarrow> uid \<Rightarrow> string \<Rightarrow> string \<Rightarrow> string \<Rightarrow> server \<Rightarrow> server" where
  "kick_one c u reason channelName targetNick s =
     (let nick = u_Nick (user_of u s) in
      case find_channel channelName (sv_world s) of
        None \<Rightarrow> reply c nick ''403'' [channelName, ''No such channel''] s
      | Some ch \<Rightarrow>
          if \<not> is_member u ch then reply c nick ''442'' [channelName, ''You are not on that channel''] s
          else if \<not> mem_is_op (membership_of u ch) then reply c nick ''482'' [channelName, ''You are not channel operator''] s
          else
            let refused = reply c nick ''441'' [targetNick, channelName, ''They are not on that channel''] s in
            case find_by_nick targetNick (sv_world s) of
              None \<Rightarrow> refused
            | Some t \<Rightarrow>
                if \<not> is_member t ch then refused
                else
                  let m = plain_message (hostmask (user_of u s)) ''KICK'' [ch_name ch, u_Nick (user_of t s), reason];
                      s1 = emit_audit ''kick'' (hostmask (user_of u s)) (ch_name ch)
                             [(''victim'', [u_Nick (user_of t s)]), (''reason'', [reason])] s
                  in upd_sworld (\<lambda>w. fst (part_channel t (ch_name ch) w)) (broadcast_federated ch m 0 True s1))"

definition handle_kick :: "cid \<Rightarrow> message \<Rightarrow> server \<Rightarrow> server" where
  "handle_kick c m s =
     (case registered_user c s of
        None \<Rightarrow> not_registered c s
      | Some u \<Rightarrow>
          if length (msg_Params m) < 2 then need_more_params c ''KICK'' s
          else
            let channels = split_on CHR '','' (msg_Params m ! 0); targets = split_on CHR '','' (msg_Params m ! 1);
                reason = (if length (msg_Params m) \<ge> 3 \<and> msg_Params m ! 2 \<noteq> [] then msg_Params m ! 2 else u_Nick (user_of u s))
            in if length channels = 1 then fold (kick_one c u reason (channels ! 0)) targets s
               else if length channels = length targets then
                 fold (\<lambda>(ch, t). kick_one c u reason ch t) (zip channels targets) s
               else need_more_params c ''KICK'' s)"

section \<open>INVITE\<close>

definition notify_invite :: "uid \<Rightarrow> uid \<Rightarrow> message \<Rightarrow> channel \<Rightarrow> server \<Rightarrow> server" where
  "notify_invite u t m ch s =
     fold (\<lambda>(i, mem) s.
       if i = u \<or> i = t \<or> \<not> mem_is_op mem then s
       else (case conn_for i s of
               None \<Rightarrow> s
             | Some p \<Rightarrow> if has_cap ''invite-notify'' (sv_heap s p) then send p m s else s)) (ch_members ch) s"

definition handle_invite :: "cid \<Rightarrow> message \<Rightarrow> server \<Rightarrow> server" where
  "handle_invite c m s =
     (case registered_user c s of
        None \<Rightarrow> not_registered c s
      | Some u \<Rightarrow>
          if length (msg_Params m) < 2 then need_more_params c ''INVITE'' s
          else
            let nick = u_Nick (user_of u s); targetNick = msg_Params m ! 0; channelName = msg_Params m ! 1;
                deliver = (\<lambda>t s.
                  let im = plain_message (hostmask (user_of u s)) ''INVITE'' [u_Nick (user_of t s), channelName];
                      s1 = reply c nick ''341'' [channelName, u_Nick (user_of t s)] s
                  in (im, send_to_user im t s1))
            in (case find_by_nick targetNick (sv_world s) of
                  None \<Rightarrow> reply c nick ''401'' [targetNick, ''No such nick/channel''] s
                | Some t \<Rightarrow>
                    (case find_channel channelName (sv_world s) of
                       None \<Rightarrow> snd (deliver t s)
                     | Some ch \<Rightarrow>
                         if \<not> is_member u ch then reply c nick ''442'' [channelName, ''You are not on that channel''] s
                         else if is_member t ch then reply c nick ''443'' [targetNick, channelName, ''is already on channel''] s
                         else if m_inviteOnly (ch_modes ch) \<and> \<not> mem_is_op (membership_of u ch) then
                           reply c nick ''482'' [channelName, ''You are not channel operator''] s
                         else (case deliver t (with_chan channelName (\<lambda>c. fst (add_invite t c)) s) of
                                 (im, s1) \<Rightarrow> notify_invite u t im ch s1))))"

section \<open>TOPIC\<close>

definition handle_topic :: "cid \<Rightarrow> message \<Rightarrow> server \<Rightarrow> server" where
  "handle_topic c m s =
     (case registered_user c s of
        None \<Rightarrow> not_registered c s
      | Some u \<Rightarrow>
          if msg_Params m = [] then need_more_params c ''TOPIC'' s
          else
            let nick = u_Nick (user_of u s); name = msg_Params m ! 0 in
            case find_channel name (sv_world s) of
              None \<Rightarrow> reply c nick ''403'' [name, ''No such channel''] s
            | Some ch \<Rightarrow>
                if length (msg_Params m) = 1 then send_topic_state c u ch s
                else if \<not> is_member u ch then reply c nick ''442'' [name, ''You are not on that channel''] s
                else if m_topicLocked (ch_modes ch) \<and> \<not> mem_is_op (membership_of u ch) then
                  reply c nick ''482'' [name, ''You are not channel operator''] s
                else
                  let mx = lm_TopicLength (srv_limits s); given = msg_Params m ! 1; msk = hostmask (user_of u s);
                      text = (if mx > 0 \<and> int (length given) > mx then take (nat mx) given else given);
                      upd = set_topic text msk (sv_now s);
                      s1 = persist_channel (upd ch) (with_chan name (\<lambda>c. upd c) s);
                      s2 = emit_audit ''topic'' msk (ch_name ch) [(''topic'', [text])] s1
                  in broadcast_federated (upd ch) (plain_message msk ''TOPIC'' [ch_name ch, text]) 0 True s2)"

section \<open>The invariant\<close>

lemma wf_new_sworld:
  assumes "wf_server s" "wf_world w" "w_store w = w_store (sv_world s)" "w_nextID w = w_nextID (sv_world s)"
  shows "wf_server (s\<lparr>sv_world := w\<rparr>)"
  using wf_upd_sworld [of s "\<lambda>_. w"] assms by (simp add: upd_sworld_def)

lemma join_users [simp]:
  "w_store (fst (join_channel u n t w)) = w_store w" "w_nextID (fst (join_channel u n t w)) = w_nextID w"
  "w_mapping (fst (join_channel u n t w)) = w_mapping w" "w_byID (fst (join_channel u n t w)) = w_byID w"
  "w_byNick (fst (join_channel u n t w)) = w_byNick w"
proof -
  obtain w1 ch created where "ensure_channel n t w = (w1, ch, created)" by (metis prod.exhaust)
  moreover from this have "w_store w1 = w_store w \<and> w_nextID w1 = w_nextID w \<and> w_mapping w1 = w_mapping w \<and>
      w_byID w1 = w_byID w \<and> w_byNick w1 = w_byNick w"
    using user_frames(9-12) [of n t w] mapping_frames(7) [of n t w] by simp
  ultimately show "w_store (fst (join_channel u n t w)) = w_store w" "w_nextID (fst (join_channel u n t w)) = w_nextID w"
    "w_mapping (fst (join_channel u n t w)) = w_mapping w" "w_byID (fst (join_channel u n t w)) = w_byID w"
    "w_byNick (fst (join_channel u n t w)) = w_byNick w"
    by (simp_all add: join_channel_def Let_def split: prod.split)
qed

lemma part_users [simp]:
  "w_store (fst (part_channel u n w)) = w_store w" "w_nextID (fst (part_channel u n w)) = w_nextID w"
  "w_mapping (fst (part_channel u n w)) = w_mapping w" "w_byID (fst (part_channel u n w)) = w_byID w"
  "w_byNick (fst (part_channel u n w)) = w_byNick w"
  by (simp_all add: part_channel_def Let_def split: option.split prod.split bool.split)

lemma wf_part_server [invs]: "wf_server s \<Longrightarrow> wf_server (upd_sworld (\<lambda>w. fst (part_channel u n w)) s)"
  by (rule wf_upd_sworld) (simp_all add: wf_part_channel wf_serverD(1))

lemma wf_part_one [invs]: "wf_server s \<Longrightarrow> wf_server (part_one c u r n s)"
  by (auto simp: part_one_def Let_def intro!: invs split: option.split)

lemma wf_handle_part [invs]: "wf_server s \<Longrightarrow> wf_server (handle_part c m s)"
  by (auto simp: handle_part_def Let_def intro!: invs wf_fold split: option.split)

lemma wf_kick_one [invs]: "wf_server s \<Longrightarrow> wf_server (kick_one c u r n t s)"
  by (auto simp: kick_one_def Let_def intro!: invs split: option.split)

lemma wf_handle_kick [invs]: "wf_server s \<Longrightarrow> wf_server (handle_kick c m s)"
  by (auto simp: handle_kick_def Let_def intro!: invs wf_fold split: option.split)

lemma quiet_topic_state [simp, intro]: "quiet s (send_topic_state c u ch s)"
  by (auto simp: send_topic_state_def Let_def intro!: quiet_after)

text \<open>The batch counter is the one field outside \<^const>\<open>quiet\<close> that a burst moves.\<close>

lemma quiet_batchSeq: "quiet s (s\<lparr>sv_batchSeq := n\<rparr>)"
  by (simp add: quiet_def)

lemma quiet_names_flush [simp, intro]: "quiet s (names_flush c n b ch l s)"
  by (simp add: names_flush_def)

lemma quiet_names_loop:
  "(\<And>l s. quiet s (fl l s)) \<Longrightarrow> quiet s (names_loop fl ts l s)"
proof (induction ts arbitrary: l s)
  case (Cons t ts)
  have "quiet s (names_loop fl ts t (fl l s))" by (rule quiet_trans [OF Cons.prems Cons.IH]) (rule Cons.prems)
  then show ?case using Cons by simp
qed simp

lemma quiet_names_reply [simp, intro]: "quiet s (send_names_reply c u ch s)"
proof -
  have n: "quiet s s1 \<Longrightarrow> quiet s (names_loop (names_flush c x b ch) ts l s1)" for s s1 x b ts l
    by (rule quiet_trans) (auto intro: quiet_names_loop)
  have fl: "quiet s s1 \<Longrightarrow> quiet s (names_flush c x b ch l s1)" for s s1 x b l
    by (rule quiet_trans) auto
  show ?thesis
    unfolding send_names_reply_def Let_def next_batch_ref_def start_batch_def end_batch_def
    by (auto split: option.split intro!: quiet_after n fl quiet_batchSeq)
qed

lemma quiet_deliver_join [simp, intro]: "quiet s (deliver_join m x i s)"
  by (simp add: deliver_join_def split: option.split)

lemma quiet_announce_join [simp, intro]: "quiet s (announce_join u ch s)"
  unfolding announce_join_def Let_def
  by (rule quiet_trans [OF _ quiet_forward_join]) (auto intro: quiet_fold)

lemma quiet_join_refusal [simp, intro]: "quiet s (join_refusal c n name r s)"
  by (simp add: join_refusal_def)

lemma quiet_notify_invite [simp, intro]: "quiet s (notify_invite u t m ch s)"
  unfolding notify_invite_def by (rule quiet_fold) (auto split: option.split)

lemmas wf_channel_bursts [invs] =
  quiet_wf [OF quiet_topic_state] quiet_wf [OF quiet_names_reply] quiet_wf [OF quiet_announce_join]
  quiet_wf [OF quiet_join_refusal] quiet_wf [OF quiet_notify_invite]
lemmas channel_burst_frames [simp, frames] =
  quietD [OF quiet_topic_state] quietD [OF quiet_names_reply] quietD [OF quiet_announce_join]
  quietD [OF quiet_join_refusal] quietD [OF quiet_notify_invite]

lemma wf_check_join_policy [invs]: "wf_server s \<Longrightarrow> wf_server (fst (check_join_policy n ch u k s))"
  by (auto simp: check_join_policy_def Let_def intro!: invs)

lemma wf_enter_channel [invs]: "wf_server s \<Longrightarrow> n \<noteq> [] \<Longrightarrow> wf_server (enter_channel c u n s)"
proof -
  assume wf: "wf_server s" and n: "n \<noteq> []"
  have "wf_server (s\<lparr>sv_world := w\<rparr>)" if "join_channel u n (sv_now s) (sv_world s) = (w, x)" for w x
    using wf_new_sworld [OF wf wf_join_channel [OF wf_serverD(1) [OF wf] n], of u "sv_now s"]
      join_users [of u n "sv_now s" "sv_world s"] that by simp
  moreover obtain w x where j: "join_channel u n (sv_now s) (sv_world s) = (w, x)" by (metis prod.exhaust)
  ultimately have "wf_server (s\<lparr>sv_world := w\<rparr>)" by blast
  with wf j show ?thesis
    by (cases x; cases "jr_added (projr x)") (simp_all add: enter_channel_def Let_def invs)
qed

lemma wf_join_resolved [invs]: "wf_server s \<Longrightarrow> n \<noteq> [] \<Longrightarrow> wf_server (join_resolved c u n k s)"
proof -
  assume wf: "wf_server s" and n: "n \<noteq> []"
  show ?thesis
  proof (cases "find_channel n (sv_world s)")
    case None
    with wf n show ?thesis by (simp add: join_resolved_def wf_enter_channel)
  next
    case (Some ch)
    obtain s1 reason where p: "check_join_policy n ch u k s = (s1, reason)" by (metis prod.exhaust)
    have "wf_server s1" using wf_check_join_policy [OF wf, of n ch u k] p by simp
    with n Some p show ?thesis by (simp add: join_resolved_def wf_enter_channel wf_channel_bursts)
  qed
qed

lemma wf_safe_id_loop: "wf_server s \<Longrightarrow> wf_server (fst (safe_id_loop k s))"
  by (induction k arbitrary: s) (simp_all add: Let_def)

lemma resolve_safe_channel_wf:
  assumes "wf_server s" "resolve_safe_channel n s = (s1, r)"
  shows "wf_server s1 \<and> (\<forall>x. r = Some x \<longrightarrow> n \<noteq> [] \<longrightarrow> x \<noteq> [])"
  using assms wf_safe_id_loop [of s 8]
  by (auto simp: resolve_safe_channel_def new_safe_channel_id_def Let_def find_Some_iff split: if_splits prod.splits)

lemma wf_join_one [invs]: "wf_server s \<Longrightarrow> wf_server (join_one c u n k s)"
proof -
  assume wf: "wf_server s"
  have v: "valid_channel_name n l \<Longrightarrow> n \<noteq> []" for l by (auto simp: valid_channel_name_def)
  obtain s1 r where x: "resolve_safe_channel n s = (s1, r)" by (metis prod.exhaust)
  note y = resolve_safe_channel_wf [OF wf x]
  show ?thesis using wf v y by (auto simp: join_one_def Let_def x intro!: invs split: option.split)
qed

lemma wf_handle_join [invs]: "wf_server s \<Longrightarrow> wf_server (handle_join c m s)"
  unfolding handle_join_def Let_def by (auto intro!: invs wf_fold split: option.split)

lemma wf_handle_invite [invs]: "wf_server s \<Longrightarrow> wf_server (handle_invite c m s)"
  unfolding handle_invite_def Let_def by (auto intro!: invs split: option.split)

lemma wf_handle_topic [invs]: "wf_server s \<Longrightarrow> wf_server (handle_topic c m s)"
  unfolding handle_topic_def Let_def by (auto intro!: invs split: option.split)

section \<open>Members and operators\<close>

definition members_of :: "string \<Rightarrow> world \<Rightarrow> uid set" where
  "members_of n w = (case find_channel n w of None \<Rightarrow> {} | Some ch \<Rightarrow> {v. is_member v ch})"

definition op_of :: "uid \<Rightarrow> string \<Rightarrow> world \<Rightarrow> bool" where
  "op_of u n w = (\<exists>ch. find_channel n w = Some ch \<and> is_member u ch \<and> mem_is_op (membership_of u ch))"

lemma members_part: "members_of n (fst (part_channel u name w)) = (if wfold w n = wfold w name then members_of n w - {u} else members_of n w)"
proof (cases "find_channel name w")
  case None
  then have "find_channel n w = None" if "wfold w n = wfold w name"
    using that find_channel_fold [OF that] by simp
  with None show ?thesis by (auto simp: part_channel_def members_of_def)
next
  case (Some ch)
  have f: "find_channel n w = Some ch" if "wfold w n = wfold w name" using find_channel_fold [OF that] Some by simp
  show ?thesis
  proof (cases "is_member u ch")
    case False
    with Some f show ?thesis by (auto simp: part_channel_def members_of_def remove_member_no)
  next
    case True
    have "member_count (fst (remove_member u ch)) = 0 \<Longrightarrow> {v. is_member v ch} - {u} = {}" by (auto simp: member_count_0)
    with Some True f show ?thesis
      by (auto simp: part_channel_member [OF Some True] members_of_def Let_def)
  qed
qed

lemma op_part: "op_of v n (fst (part_channel u name w)) \<Longrightarrow> op_of v n w"
proof (cases "find_channel name w")
  case None
  then show "op_of v n (fst (part_channel u name w)) \<Longrightarrow> op_of v n w" by (simp add: part_channel_def)
next
  case (Some ch)
  assume o: "op_of v n (fst (part_channel u name w))"
  show ?thesis
  proof (cases "is_member u ch")
    case False
    with Some o show ?thesis by (simp add: part_channel_def remove_member_no)
  next
    case True
    have f: "find_channel n w = Some ch" if "wfold w n = wfold w name" using find_channel_fold [OF that] Some by simp
    show ?thesis using o f
      by (auto simp: part_channel_member [OF Some True] op_of_def Let_def membership_remove_member split: if_splits)
  qed
qed

text \<open>What a run of kicks by \<open>u\<close> can do.\<close>

definition kicked_by :: "uid \<Rightarrow> server \<Rightarrow> server \<Rightarrow> bool" where
  "kicked_by u s s' =
     ((\<forall>n. members_of n (sv_world s') \<subseteq> members_of n (sv_world s) \<and>
        (members_of n (sv_world s') \<noteq> members_of n (sv_world s) \<longrightarrow> op_of u n (sv_world s)) \<and>
        (op_of u n (sv_world s') \<longrightarrow> op_of u n (sv_world s))))"

lemma kicked_by_refl: "sv_world s' = sv_world s \<Longrightarrow> kicked_by u s s'"
  by (simp add: kicked_by_def)

lemma kicked_by_trans: "kicked_by u a b \<Longrightarrow> kicked_by u b c \<Longrightarrow> kicked_by u a c"
  unfolding kicked_by_def by blast

lemma kicked_by_fold:
  assumes "wf_server s" "\<And>x s. wf_server s \<Longrightarrow> wf_server (f x s) \<and> kicked_by u s (f x s)"
  shows "kicked_by u s (fold f xs s)"
  using assms(1)
proof (induction xs arbitrary: s)
  case Nil
  show ?case by (simp add: kicked_by_refl)
next
  case (Cons x xs)
  then show ?case using assms(2) [OF Cons.prems, of x] kicked_by_trans by (simp, blast)
qed

text \<open>A kick that is carried out takes the target, and nobody else, out of that one channel.\<close>

lemma kick_one_done:
  assumes "wf_server s" "op_of u name (sv_world s)" "find_by_nick tn (sv_world s) = Some t" "t \<in> members_of name (sv_world s)"
  shows "\<exists>k. sv_world (kick_one c u r name tn s) = fst (part_channel t k (sv_world s)) \<and> sfold s k = sfold s name"
proof -
  obtain ch where ch: "find_channel name (sv_world s) = Some ch" "is_member u ch" "mem_is_op (membership_of u ch)"
    using assms(2) by (auto simp: op_of_def)
  have "is_member t ch" using assms(4) ch by (simp add: members_of_def)
  then show ?thesis
    using ch assms(3) find_channel_wf(2) [OF wf_worldD(2) [OF wf_serverD(1) [OF assms(1)]] ch(1)]
    by (intro exI [of _ "ch_name ch"]) (simp add: kick_one_def Let_def upd_sworld_def)
qed

lemma kick_one_refused:
  assumes "\<not> (op_of u name (sv_world s) \<and> (\<exists>t. find_by_nick tn (sv_world s) = Some t \<and> t \<in> members_of name (sv_world s)))"
  shows "sv_world (kick_one c u r name tn s) = sv_world s"
  using assms by (auto simp: kick_one_def Let_def op_of_def members_of_def split: option.split)

lemma op_of_fold: "op_of u n w \<Longrightarrow> wfold w m = wfold w n \<Longrightarrow> op_of u m w"
  using find_channel_fold [of w m n] by (simp add: op_of_def)

lemma kicked_by_one: "wf_server s \<Longrightarrow> kicked_by u s (kick_one c u r name tn s)"
proof (cases "op_of u name (sv_world s) \<and> (\<exists>t. find_by_nick tn (sv_world s) = Some t \<and> t \<in> members_of name (sv_world s))")
  case False
  then show ?thesis by (intro kicked_by_refl kick_one_refused)
next
  case True
  assume wf: "wf_server s"
  from True obtain t where t: "find_by_nick tn (sv_world s) = Some t" "t \<in> members_of name (sv_world s)" by blast
  from kick_one_done [OF wf conjunct1 [OF True] t] obtain k where
    k: "sv_world (kick_one c u r name tn s) = fst (part_channel t k (sv_world s))" "sfold s k = sfold s name" by blast
  show ?thesis unfolding kicked_by_def k(1)
    using op_of_fold [OF conjunct1 [OF True]] op_part k(2) by (auto simp: members_part)
qed

text \<open>
  C12: Only an operator of a channel can kick from it. Whatever the list of channels and targets, a KICK
  takes members out and never puts one in, and every channel that loses one had the sender as an operator
  before. The plain form, one channel and one member of it, removes exactly that member.
\<close>

theorem kick_needs_operator:
  assumes "wf_server s"
  shows "members_of n (sv_world (handle_kick c m s)) \<subseteq> members_of n (sv_world s) \<and>
    (members_of n (sv_world (handle_kick c m s)) = members_of n (sv_world s) \<or>
     (\<exists>u. registered_user c s = Some u \<and> op_of u n (sv_world s))) \<and>
    (\<forall>u tn t. registered_user c s = Some u \<and> op_of u n (sv_world s) \<and> msg_Params m = [n, tn] \<and>
       CHR '','' \<notin> set n \<and> CHR '','' \<notin> set tn \<and> find_by_nick tn (sv_world s) = Some t \<and> t \<in> members_of n (sv_world s) \<longrightarrow>
       members_of n (sv_world (handle_kick c m s)) = members_of n (sv_world s) - {t})"
proof (cases "registered_user c s")
  case None
  then show ?thesis by (simp add: handle_kick_def)
next
  case (Some u)
  have step: "wf_server s \<Longrightarrow> wf_server (kick_one c u r ch t s) \<and> kicked_by u s (kick_one c u r ch t s)" for r ch t s
    by (simp add: wf_kick_one kicked_by_one)
  have f: "kicked_by u s (fold (kick_one c u r ch) ts s)" "kicked_by u s (fold (\<lambda>(ch, t). kick_one c u r ch t) ps s)" for r ch ts ps
    unfolding case_prod_unfold by (rule kicked_by_fold [OF assms step], assumption)+
  have "kicked_by u s (handle_kick c m s)"
    using Some by (simp add: handle_kick_def Let_def f kicked_by_refl)
  moreover have "members_of n (sv_world (handle_kick c m s)) = members_of n (sv_world s) - {t}"
    if h: "op_of u n (sv_world s)" "msg_Params m = [n, tn]" "CHR '','' \<notin> set n" "CHR '','' \<notin> set tn"
      "find_by_nick tn (sv_world s) = Some t" "t \<in> members_of n (sv_world s)" for tn t
  proof -
    have "handle_kick c m s = kick_one c u (u_Nick (user_of u s)) n tn s"
      using Some h by (simp add: handle_kick_def Let_def split_on_no_sep)
    moreover obtain k where "sv_world (kick_one c u (u_Nick (user_of u s)) n tn s) = fst (part_channel t k (sv_world s))"
        "sfold s k = sfold s n"
      using kick_one_done [OF assms h(1,5,6)] by blast
    ultimately show ?thesis by (simp add: members_part)
  qed
  ultimately show ?thesis using Some unfolding kicked_by_def by auto
qed

lemma kick_needs_operator_witness:
  "members_of ''#a'' (sv_world (handle_kick 1 (plain_message [] ''KICK'' [''#a'', ''al'']) demo_net)) = {}"
proof -
  have o: "op_of 1 ''#a'' demo_world" "members_of ''#a'' demo_world = {1}"
    using demo_facts(1,3) by (auto simp: op_of_def members_of_def demo_channel_def)
  show ?thesis
    using kick_needs_operator [OF wf_demo_net, of "''#a''" 1 "plain_message [] ''KICK'' [''#a'', ''al'']"] o
      demo_registered(1) demo_users(10) by (auto simp: plain_message_def)
qed

section \<open>Joining\<close>

text \<open>The policy, with the pending invite as one of its inputs.\<close>

definition admits :: "channel \<Rightarrow> uid \<Rightarrow> string \<Rightarrow> server \<Rightarrow> bool" where
  "admits ch u key s =
     (let msk = hostmask (user_of u s); f = sfold s
      in (m_inviteOnly (ch_modes ch) \<longrightarrow> matches_invex msk f ch \<or> mhas (ch_invites ch) u) \<and>
         (ch_key ch = [] \<or> key = ch_key ch) \<and>
         (ch_limit ch \<le> 0 \<or> int (member_count ch) < ch_limit ch) \<and>
         (matches_ban msk f ch \<longrightarrow> matches_exception msk f ch))"

lemma check_join_policy_result:
  "snd (check_join_policy name ch u key s) = [] \<longleftrightarrow> admits ch u key s"
  by (auto simp: check_join_policy_def admits_def Let_def consume_invite_def)

text \<open>Members and pending invites of a channel, which ChanServ leaves alone when it ops a joiner.\<close>

definition roster :: "string \<Rightarrow> world \<Rightarrow> (uid set \<times> (uid, unit) gomap) option" where
  "roster n w = map_option (\<lambda>ch. ({v. is_member v ch}, ch_invites ch)) (find_channel n w)"

lemma roster_with_chan:
  assumes "\<And>c. ch_invites (f c) = ch_invites c" "\<And>c v. is_member v (f c) = is_member v c"
  shows "roster n (sv_world (with_chan k f s)) = roster n (sv_world s)"
  by (cases "find_channel n (sv_world s)") (simp_all add: roster_def with_chan_def upd_sworld_def assms)

lemma invites_frames [simp]:
  "ch_invites (fst (add_membership v f c)) = ch_invites c" "ch_invites (set_topic a b t c) = ch_invites c"
  "ch_invites (joined u m c) = ch_invites c"
  by (simp_all add: add_membership_def set_topic_def joined_def split: option.split)

lemma roster_auto_op: "roster n (sv_world (auto_op x ch s)) = roster n (sv_world s)"
  by (simp add: auto_op_def roster_with_chan split: option.split)

lemma roster_restore_topic: "roster n (sv_world (maybe_restore_topic ch s)) = roster n (sv_world s)"
  by (simp add: maybe_restore_topic_def roster_with_chan split: option.split)

lemma roster_notify_chanserv: "roster n (sv_world (notify_chanserv x a ch s)) = roster n (sv_world s)"
  by (simp add: notify_chanserv_def check_join_def Let_def roster_auto_op roster_restore_topic split: option.split)

lemma roster_members: "members_of n w = (case roster n w of None \<Rightarrow> {} | Some (ms, _) \<Rightarrow> ms)"
  by (simp add: members_of_def roster_def split: option.split)

lemma enter_channel_roster:
  assumes "mhas (w_byID (sv_world s)) u" "name \<noteq> []"
  shows "roster n (sv_world (enter_channel c u name s)) =
    (if n \<noteq> [] \<and> sfold s n = sfold s name then
       Some (insert u (members_of name (sv_world s)), (case roster name (sv_world s) of None \<Rightarrow> [] | Some (_, is) \<Rightarrow> is))
     else roster n (sv_world s))"
proof -
  let ?w = "sv_world s"
  have e: "roster n (sv_world (enter_channel c u name s)) = roster n (fst (join_channel u name (sv_now s) ?w))"
    if "join_channel u name (sv_now s) ?w = (w, Inr r)" for w r
    using that by (simp add: enter_channel_def Let_def roster_notify_chanserv)
  show ?thesis
  proof (cases "find_channel name ?w")
    case None
    then have k: "map_of (w_byChannel ?w) (sfold s name) = None" using assms(2) by (simp add: find_channel_def)
    have j: "join_channel u name (sv_now s) ?w =
      (?w\<lparr>w_byChannel := mput (sfold s name) (joined u (join_flags name None) (new_channel name (sv_now s))) (w_byChannel ?w)\<rparr>,
       Inr \<lparr>jr_channel = joined u (join_flags name None) (new_channel name (sv_now s)), jr_mem = join_flags name None, jr_added = True\<rparr>)"
      using join_new [OF assms None] by (simp add: Let_def)
    have m: "{v. is_member v (joined u (join_flags name None) (new_channel name (sv_now s)))} = {u}" by auto
    have en: "roster n (sv_world (enter_channel c u name s)) =
        roster n (?w\<lparr>w_byChannel := mput (sfold s name) (joined u (join_flags name None) (new_channel name (sv_now s))) (w_byChannel ?w)\<rparr>)"
      using e [OF j] j by simp
    have i: "ch_invites (new_channel name (sv_now s)) = []" by (simp add: new_channel_def)
    have z: "find_channel [] w = None" for w by (simp add: find_channel_def)
    show ?thesis unfolding en using None
      by (cases "n = []") (simp_all add: roster_def members_of_def find_channel_put m i z)
  next
    case (Some ch)
    have f: "find_channel n ?w = Some ch" if "sfold s n = sfold s name" using find_channel_fold [OF that] Some by simp
    have ne: "n \<noteq> []" if "sfold s n = sfold s name" using that assms(2) by (metis fold_Nil_iff)
    show ?thesis
    proof (cases "is_member u ch")
      case True
      then have "insert u {v. is_member v ch} = {v. is_member v ch}" by auto
      then show ?thesis
        using e [OF join_member [OF assms(1) Some True]] join_member [OF assms(1) Some True, of "sv_now s"] Some f ne
        by (auto simp: roster_def members_of_def)
    next
      case False
      have "{v. is_member v (joined u m ch)} = insert u {v. is_member v ch}" for m by auto
      then show ?thesis
        using e [OF join_existing [OF assms(1) Some False, unfolded Let_def]] join_existing [OF assms(1) Some False, of "sv_now s"] Some f ne
        by (auto simp: roster_def members_of_def Let_def)
    qed
  qed
qed

text \<open>
  C4: Who gets in. A join to a channel that does not exist, or whose policy admits the user, adds exactly
  that user; any other leaves the members as they are, and no join touches another channel. The policy:
  invited or matching an invite exception when invite-only, the right key, room below the limit, not banned
  unless excepted. A pending invite is used up by the attempt even when the join is then refused.
\<close>

theorem join_admission:
  fixes c :: cid and key :: string
  assumes "wf_server s" "mhas (w_byID (sv_world s)) u" "name \<noteq> []"
  defines "s' \<equiv> join_resolved c u name key s"
  shows "members_of name (sv_world s') =
      (if \<forall>ch. find_channel name (sv_world s) = Some ch \<longrightarrow> admits ch u key s
       then insert u (members_of name (sv_world s)) else members_of name (sv_world s)) \<and>
    (\<forall>n. sfold s n \<noteq> sfold s name \<longrightarrow> members_of n (sv_world s') = members_of n (sv_world s)) \<and>
    (\<forall>ch ch'. find_channel name (sv_world s) = Some ch \<and> find_channel name (sv_world s') = Some ch' \<longrightarrow>
       (mhas (ch_invites ch') u \<longleftrightarrow> mhas (ch_invites ch) u \<and>
          \<not> (m_inviteOnly (ch_modes ch) \<and> \<not> matches_invex (hostmask (user_of u s)) (sfold s) ch)))"
proof (cases "find_channel name (sv_world s)")
  case None
  then show ?thesis
    using enter_channel_roster [OF assms(2,3), of _ c] assms(3)
    by (auto simp: s'_def join_resolved_def roster_members split: if_splits)
next
  case (Some ch)
  obtain s1 reason where p: "check_join_policy name ch u key s = (s1, reason)" by (metis prod.exhaust)
  define looked where "looked = (m_inviteOnly (ch_modes ch) \<and> \<not> matches_invex (hostmask (user_of u s)) (sfold s) ch)"
  have s1: "s1 = (if looked then with_chan name (\<lambda>c. fst (consume_invite u c)) s else s)"
    using p by (auto simp: check_join_policy_def Let_def looked_def split: if_splits)
  have r: "reason = [] \<longleftrightarrow> admits ch u key s" using check_join_policy_result [of name ch u key s] p by simp
  have f: "sfold s1 n = sfold s n" "mhas (w_byID (sv_world s1)) u" for n
    using assms(2) by (simp_all add: s1 with_chan_def upd_sworld_def)
  have c1: "find_channel n (sv_world s1) =
      (if looked \<and> sfold s n = sfold s name then map_option (\<lambda>c. fst (consume_invite u c)) (find_channel n (sv_world s))
       else find_channel n (sv_world s))" for n
    by (simp add: s1 with_chan_def upd_sworld_def)
  have m1: "members_of n (sv_world s1) = members_of n (sv_world s)" for n
    by (cases "find_channel n (sv_world s)") (simp_all add: members_of_def c1)
  have s': "roster n (sv_world s') = (if admits ch u key s \<and> n \<noteq> [] \<and> sfold s n = sfold s name
      then Some (insert u (members_of name (sv_world s)), (case roster name (sv_world s1) of None \<Rightarrow> [] | Some (_, is) \<Rightarrow> is))
      else roster n (sv_world s1))" for n
    using enter_channel_roster [OF f(2) assms(3), of n c] r
    by (simp add: s'_def join_resolved_def Some p f(1) m1)
  have members: "members_of n (sv_world s') = (if admits ch u key s \<and> n \<noteq> [] \<and> sfold s n = sfold s name
      then insert u (members_of name (sv_world s)) else members_of n (sv_world s))" for n
    using m1 [of n] s' [of n] by (simp add: roster_members)
  have inv: "mhas (ch_invites (fst (consume_invite u ch))) u = False" by (simp add: consume_invite_def)
  have "mhas (ch_invites ch') u \<longleftrightarrow> mhas (ch_invites ch) u \<and> \<not> looked" if c': "find_channel name (sv_world s') = Some ch'" for ch'
  proof -
    have "roster name (sv_world s') = Some ({v. is_member v ch'}, ch_invites ch')" using c' by (simp add: roster_def)
    then have "ch_invites ch' = (if looked then ch_invites (fst (consume_invite u ch)) else ch_invites ch)"
      using s' [of name] c1 [of name] Some by (auto simp: roster_def split: if_splits)
    then show ?thesis by (simp add: inv)
  qed
  then show ?thesis using members Some assms(3) by (auto simp: looked_def)
qed

lemma join_admission_witness:
  "members_of ''#a'' (sv_world (join_resolved 2 2 ''#a'' [] demo_net)) = {1, 2}"
proof -
  have m: "members_of ''#a'' demo_world = {1}" using demo_facts(1,3) by (auto simp: members_of_def demo_channel_def)
  have a: "admits demo_channel 2 [] demo_net" by (simp add: admits_def demo_users_Suc) code_simp
  show ?thesis
    using join_admission [OF wf_demo_net, of 2 "''#a''" 2 "[]"] m a demo_facts(1,7) by (auto simp: insert_commute)
qed

section \<open>Topics\<close>

text \<open>A TOPIC either changes no channel or replaces the topic of one: then the sender is a member of it,
  and its operator where the topic is locked, and the new topic is a prefix of the given text within the
  configured length, set by the sender now. Nothing else of the channel changes.
\<close>

theorem topic_change:
  "find_channel n (sv_world (handle_topic c m s)) = find_channel n (sv_world s) \<or>
   (\<exists>u ch k. registered_user c s = Some u \<and> find_channel n (sv_world s) = Some ch \<and> is_member u ch \<and>
      (m_topicLocked (ch_modes ch) \<longrightarrow> mem_is_op (membership_of u ch)) \<and>
      find_channel n (sv_world (handle_topic c m s)) =
        Some (set_topic (take k (msg_Params m ! 1)) (hostmask (user_of u s)) (sv_now s) ch) \<and>
      (lm_TopicLength (srv_limits s) > 0 \<longrightarrow> int (length (take k (msg_Params m ! 1))) \<le> lm_TopicLength (srv_limits s)))"
proof (cases "find_channel n (sv_world (handle_topic c m s)) = find_channel n (sv_world s)")
  case False
  let ?name = "msg_Params m ! 0" and ?given = "msg_Params m ! 1" and ?mx = "lm_TopicLength (srv_limits s)"
  define k where "k = (if ?mx > 0 \<and> int (length ?given) > ?mx then nat ?mx else length ?given)"
  have cut: "(if ?mx > 0 \<and> int (length ?given) > ?mx then take (nat ?mx) ?given else ?given) = take k ?given"
    by (simp add: k_def)
  have bound: "?mx > 0 \<longrightarrow> int (length (take k ?given)) \<le> ?mx" by (auto simp: k_def)
  have w: "sv_world (persist_channel x t) = sv_world t" for x t by (simp add: persist_channel_def)
  obtain u where u: "registered_user c s = Some u" using False by (auto simp: handle_topic_def split: option.splits)
  obtain ch where ch: "find_channel ?name (sv_world s) = Some ch" "is_member u ch"
    "m_topicLocked (ch_modes ch) \<longrightarrow> mem_is_op (membership_of u ch)"
    "find_channel n (sv_world (handle_topic c m s)) =
       find_channel n (upd_channel ?name (\<lambda>c. set_topic (take k ?given) (hostmask (user_of u s)) (sv_now s) c) (sv_world s))"
    using False u unfolding handle_topic_def Let_def cut
    by (auto simp: w with_chan_def upd_sworld_def split: option.splits if_splits)
  have "wfold (sv_world s) n = wfold (sv_world s) ?name" using False ch(4) by (auto split: if_splits)
  then have "find_channel n (sv_world s) = Some ch" using find_channel_fold ch(1) by metis
  with u ch bound \<open>wfold (sv_world s) n = wfold (sv_world s) ?name\<close> show ?thesis by (intro disjI2 exI [of _ u] exI [of _ ch] exI [of _ k]) simp
qed simp

lemma topic_change_witness:
  "find_channel ''#a'' (sv_world (handle_topic 2 (plain_message [] ''TOPIC'' [''#a'', ''hi'']) demo_net)) =
   find_channel ''#a'' (sv_world demo_net)"
proof -
  have "\<not> (\<exists>u ch. registered_user 2 demo_net = Some u \<and> find_channel ''#a'' (sv_world demo_net) = Some ch \<and> is_member u ch)"
    by (simp add: demo_registered demo_facts)
  then show ?thesis using topic_change [of "''#a''" 2 "plain_message [] ''TOPIC'' [''#a'', ''hi'']" demo_net] by meson
qed

end
