(* ===== verification/Mode_Cmds.thy ===== *)
theory Mode_Cmds
  imports Channel_Cmds
begin

text \<open>
  \<^verbatim>\<open>MODE\<close> on channels and on users, \<^verbatim>\<open>internal/server/handler_mode.go\<close>. A run over a mode string keeps the
  channel as it changes, the unread arguments, the direction, and what it will announce: the changes made,
  with their parameters, and the letters it did not know. The main theorem is that the announcement says
  exactly what was done: applied to the old channel it gives the new one.
\<close>

definition is_channel_name :: "string \<Rightarrow> bool" where
  "is_channel_name s =
     (case s of
        [] \<Rightarrow> False
      | x # _ \<Rightarrow> x = CHR ''#'' \<or> x = CHR ''&'' \<or> (x = CHR ''+'' \<or> x = CHR ''!'') \<and> length s > 1)"

section \<open>One run over a mode string\<close>

record mode_run =
  mr_ch :: channel
  mr_args :: "string list"
  mr_dir :: char
  mr_changes :: string
  mr_params :: "string list"
  mr_bad :: string

definition start_run :: "channel \<Rightarrow> string list \<Rightarrow> mode_run" where
  "start_run ch args = \<lparr>mr_ch = ch, mr_args = args, mr_dir = CHR ''+'', mr_changes = [], mr_params = [], mr_bad = []\<rparr>"

definition flush_dir :: "char \<Rightarrow> string \<Rightarrow> string" where
  "flush_dir d out = (if out = [] \<or> last out \<noteq> d then out @ [d] else out)"

text \<open>A channel operation that reports whether it changed something.\<close>

definition note_change :: "char \<Rightarrow> string list \<Rightarrow> channel \<times> bool \<Rightarrow> mode_run \<Rightarrow> mode_run" where
  "note_change mc ps res r =
     (case res of (ch', changed) \<Rightarrow>
        if changed then r\<lparr>mr_ch := ch', mr_changes := flush_dir (mr_dir r) (mr_changes r) @ [mc], mr_params := mr_params r @ ps\<rparr>
        else r\<lparr>mr_ch := ch'\<rparr>)"

definition is_on :: "mode_run \<Rightarrow> bool" where
  "is_on r = (mr_dir r = CHR ''+'')"

definition key_step :: "mode_run \<Rightarrow> mode_run" where
  "key_step r =
     (if is_on r then
        (case mr_args r of
           [] \<Rightarrow> r
         | key # rest \<Rightarrow>
             let r1 = r\<lparr>mr_args := rest\<rparr>
             in if key = [] then r1 else note_change CHR ''k'' [key] (set_key key (mr_ch r)) r1)
      else note_change CHR ''k'' [] (set_key [] (mr_ch r)) r)"

definition limit_step :: "mode_run \<Rightarrow> mode_run" where
  "limit_step r =
     (if is_on r then
        (case mr_args r of
           [] \<Rightarrow> r
         | raw # rest \<Rightarrow>
             let r1 = r\<lparr>mr_args := rest\<rparr>
             in (case parse_int raw of
                   None \<Rightarrow> r1
                 | Some n \<Rightarrow> if n < 0 then r1 else note_change CHR ''l'' [raw] (set_limit n (mr_ch r)) r1))
      else note_change CHR ''l'' [] (set_limit 0 (mr_ch r)) r)"

text \<open>\<^verbatim>\<open>+o\<close> and \<^verbatim>\<open>+v\<close> are announced for every member they name, also one that has the flag already.\<close>

definition member_step :: "world \<Rightarrow> char \<Rightarrow> mode_run \<Rightarrow> mode_run" where
  "member_step w mc r =
     (case mr_args r of
        [] \<Rightarrow> r
      | arg # rest \<Rightarrow>
          let r1 = r\<lparr>mr_args := rest\<rparr>; flag = (if mc = CHR ''v'' then MemberVoice else MemberOp) in
          (case find_by_nick arg w of
             None \<Rightarrow> r1
           | Some t \<Rightarrow>
               if \<not> is_member t (mr_ch r) then r1
               else note_change mc [u_Nick (w_store w t)]
                 (case (if is_on r then add_membership t flag (mr_ch r) else remove_membership t flag (mr_ch r)) of
                    (ch', _, changed) \<Rightarrow> (ch', changed)) r1))"

definition mask_step ::
  "char \<Rightarrow> (string \<Rightarrow> channel \<Rightarrow> channel \<times> bool) \<Rightarrow> (string \<Rightarrow> channel \<Rightarrow> channel \<times> bool) \<Rightarrow> mode_run \<Rightarrow> mode_run" where
  "mask_step mc add rem r =
     (case mr_args r of
        [] \<Rightarrow> r
      | msk # rest \<Rightarrow>
          let r1 = r\<lparr>mr_args := rest\<rparr>
          in if msk = [] then r1
             else note_change mc [msk] (if is_on r then add msk (mr_ch r) else rem msk (mr_ch r)) r1)"

definition mode_step :: "world \<Rightarrow> time \<Rightarrow> char \<Rightarrow> mode_run \<Rightarrow> mode_run" where
  "mode_step w now mc r =
     (if mc = CHR ''+'' \<or> mc = CHR ''-'' then r\<lparr>mr_dir := mc\<rparr>
      else if mc \<in> set ''imnpsta'' then note_change mc [] (set_bool_mode mc (is_on r) (mr_ch r)) r
      else if mc = CHR ''r'' then
        (if \<not> is_safe_channel (ch_name (mr_ch r)) then r\<lparr>mr_bad := mr_bad r @ [mc]\<rparr>
         else note_change mc [] (set_bool_mode mc (is_on r) (mr_ch r)) r)
      else if mc = CHR ''k'' then key_step r
      else if mc = CHR ''l'' then limit_step r
      else if mc = CHR ''o'' \<or> mc = CHR ''v'' then member_step w mc r
      else if mc = CHR ''b'' then mask_step mc (\<lambda>m. add_ban m now) remove_ban r
      else if mc = CHR ''e'' then mask_step mc (\<lambda>m. add_exception m now) remove_exception r
      else if mc = CHR ''I'' then mask_step mc (\<lambda>m. add_invex m now) remove_invex r
      else if mc = CHR ''q'' then mask_step mc (\<lambda>m. add_quiet m now) remove_quiet r
      else r\<lparr>mr_bad := mr_bad r @ [mc]\<rparr>)"

definition run_modes :: "world \<Rightarrow> time \<Rightarrow> string \<Rightarrow> mode_run \<Rightarrow> mode_run" where
  "run_modes w now str r = fold (mode_step w now) str r"

definition apply_channel_modes :: "world \<Rightarrow> time \<Rightarrow> channel \<Rightarrow> string list \<Rightarrow> mode_run" where
  "apply_channel_modes w now ch params =
     (case params of [] \<Rightarrow> start_run ch [] | modeStr # args \<Rightarrow> run_modes w now modeStr (start_run ch args))"

section \<open>The handler for channels\<close>

definition is_list_query_mode :: "string \<Rightarrow> bool" where
  "is_list_query_mode s = (s \<in> set [''+b'', ''b'', ''+e'', ''e'', ''+I'', ''I'', ''+q'', ''q''])"

definition send_channel_list_mode :: "cid \<Rightarrow> uid \<Rightarrow> channel \<Rightarrow> string \<Rightarrow> server \<Rightarrow> server" where
  "send_channel_list_mode c u ch mode s =
     (let nick = u_Nick (user_of u s); k = trim_prefix ''+'' mode;
          dump = (\<lambda>code extra masks. fold (\<lambda>m. reply c nick code ([ch_name ch] @ extra @ [m])) (map fst masks))
      in if k = ''b'' then
           reply c nick ''368'' [ch_name ch, ''End of channel ban list''] (dump ''367'' [] (ch_bans ch) s)
         else if k = ''e'' then
           reply c nick ''349'' [ch_name ch, ''End of channel exception list''] (dump ''348'' [] (ch_exceptions ch) s)
         else if k = ''I'' then
           reply c nick ''347'' [ch_name ch, ''End of channel invite list''] (dump ''346'' [] (ch_invexes ch) s)
         else if k = ''q'' then
           reply c nick ''729'' [ch_name ch, ''q'', ''End of channel quiet list''] (dump ''728'' [''q''] (ch_quiets ch) s)
         else s)"

text \<open>\<^verbatim>\<open>string(b)\<close> of a byte: its UTF-8 encoding.\<close>

definition string_of_byte :: "char \<Rightarrow> string" where
  "string_of_byte c =
     (let b = byte_val c in if b < 128 then [c] else [byte_of (192 + b div 64), byte_of (128 + b mod 64)])"

definition handle_channel_mode :: "cid \<Rightarrow> uid \<Rightarrow> string \<Rightarrow> string list \<Rightarrow> server \<Rightarrow> server" where
  "handle_channel_mode c u name params s =
     (let nick = u_Nick (user_of u s) in
      case find_channel name (sv_world s) of
        None \<Rightarrow> reply c nick ''403'' [name, ''No such channel''] s
      | Some ch \<Rightarrow>
          if params = [] then
            reply c nick ''329'' [ch_name ch, itoa_positive (unix_seconds (ch_createdAt ch))]
              (reply c nick ''324'' (ch_name ch # fst (mode_string ch) # snd (mode_string ch)) s)
          else if is_modeless_channel (ch_name ch) then
            reply c nick ''482'' [ch_name ch, ''Channel does not support modes''] s
          else if length params = 1 \<and> is_list_query_mode (params ! 0) then send_channel_list_mode c u ch (params ! 0) s
          else if \<not> mem_is_op (membership_of u ch) then
            reply c nick ''482'' [ch_name ch, ''You are not channel operator''] s
          else
            let r = apply_channel_modes (sv_world s) (sv_now s) ch params;
                s1 = with_chan name (\<lambda>_. mr_ch r) s;
                s2 = fold (\<lambda>b. reply c nick ''472'' [string_of_byte b, ''is unknown mode char to me'']) (mr_bad r) s1
            in if mr_changes r = [] then s2
               else
                 let msk = hostmask (user_of u s2);
                     s3 = persist_channel (mr_ch r) s2;
                     s4 = emit_audit ''mode'' msk (ch_name ch) [(''changes'', [mr_changes r]), (''params'', mr_params r)] s3
                 in broadcast_federated (mr_ch r) (plain_message msk ''MODE'' (ch_name ch # mr_changes r # mr_params r)) 0 True s4)"

section \<open>The handler for users\<close>

definition add_mode_char :: "char \<Rightarrow> string \<Rightarrow> string" where
  "add_mode_char b cur = (if b \<in> set cur then cur else cur @ [b])"

definition del_mode_char :: "char \<Rightarrow> string \<Rightarrow> string" where
  "del_mode_char b cur = filter (\<lambda>x. x \<noteq> b) cur"

text \<open>The direction and the modes so far.\<close>

definition user_mode_step :: "char \<Rightarrow> char \<times> string \<Rightarrow> char \<times> string" where
  "user_mode_step mc st =
     (case st of (dir, cur) \<Rightarrow>
        if mc = CHR ''+'' \<or> mc = CHR ''-'' then (mc, cur)
        else if mc \<in> set ''iws'' then (dir, if dir = CHR ''+'' then add_mode_char mc cur else del_mode_char mc cur)
        else if mc = CHR ''o'' then (dir, if dir = CHR ''-'' then del_mode_char mc cur else cur)
        else (dir, cur))"

definition run_user_modes :: "string \<Rightarrow> string \<Rightarrow> string" where
  "run_user_modes str cur = snd (fold user_mode_step str (CHR ''+'', cur))"

definition handle_user_mode :: "cid \<Rightarrow> uid \<Rightarrow> string \<Rightarrow> string list \<Rightarrow> server \<Rightarrow> server" where
  "handle_user_mode c u target params s =
     (let me = user_of u s; nick = u_Nick me in
      if \<not> equal_names (w_mapping (sv_world s)) target nick then reply c nick ''401'' [target, ''No such nick/channel''] s
      else if params = [] then send c (plain_message (srv_name s) ''221'' [nick, ''+'' @ u_Modes me]) s
      else
        let modes = run_user_modes (params ! 0) (u_Modes me);
            s1 = with_user u (\<lambda>x. x\<lparr>u_Modes := modes\<rparr>) s
        in send c (plain_message (hostmask (user_of u s1)) ''MODE'' [nick, ''+'' @ modes]) s1)"

definition handle_mode :: "cid \<Rightarrow> message \<Rightarrow> server \<Rightarrow> server" where
  "handle_mode c m s =
     (case registered_user c s of
        None \<Rightarrow> not_registered c s
      | Some u \<Rightarrow>
          (case msg_Params m of
             [] \<Rightarrow> need_more_params c ''MODE'' s
           | target # params \<Rightarrow>
               if is_channel_name target then handle_channel_mode c u target params s
               else handle_user_mode c u target params s))"

section \<open>The announcement replays the change\<close>

definition canon :: "channel \<Rightarrow> string list \<Rightarrow> char \<Rightarrow> string \<Rightarrow> string list \<Rightarrow> mode_run" where
  "canon c args d cs ps = \<lparr>mr_ch = c, mr_args = args, mr_dir = d, mr_changes = cs, mr_params = ps, mr_bad = []\<rparr>"

text \<open>The announcement of \<open>r\<close>, run on the old channel, ends where \<open>r\<close> is.\<close>

definition replays :: "world \<Rightarrow> time \<Rightarrow> channel \<Rightarrow> mode_run \<Rightarrow> bool" where
  "replays w now ch r =
     (mr_dir r \<in> {CHR ''+'', CHR ''-''} \<and> (mr_changes r \<noteq> [] \<longrightarrow> last (mr_changes r) \<notin> {CHR ''+'', CHR ''-''}) \<and>
      (\<exists>d. \<forall>rest. run_modes w now (mr_changes r) (start_run ch (mr_params r @ rest)) =
         canon (mr_ch r) rest d (mr_changes r) (mr_params r)))"

lemma replays_start: "replays w now ch (start_run ch args)"
  by (simp add: replays_def start_run_def run_modes_def canon_def)

lemma replays_cong:
  "replays w now ch r \<Longrightarrow> mr_ch r' = mr_ch r \<Longrightarrow> mr_dir r' \<in> {CHR ''+'', CHR ''-''} \<Longrightarrow> mr_changes r' = mr_changes r \<Longrightarrow>
   mr_params r' = mr_params r \<Longrightarrow> replays w now ch r'"
  by (simp add: replays_def)

lemma sign_step: "d \<in> {CHR ''+'', CHR ''-''} \<Longrightarrow> mode_step w now d r = r\<lparr>mr_dir := d\<rparr>"
  by (auto simp: mode_step_def)

lemma replays_note:
  assumes r: "replays w now ch r" and same: "mr_ch r0 = mr_ch r" "mr_dir r0 = mr_dir r" "mr_changes r0 = mr_changes r" "mr_params r0 = mr_params r"
    and step: "snd res \<Longrightarrow> (\<And>rest cs qs. mode_step w now mc (canon (mr_ch r) (ps @ rest) (mr_dir r) cs qs) =
        note_change mc ps res (canon (mr_ch r) rest (mr_dir r) cs qs))"
    and mc: "mc \<notin> {CHR ''+'', CHR ''-''}" and idle: "\<not> snd res \<Longrightarrow> fst res = mr_ch r"
  shows "replays w now ch (note_change mc ps res r0)"
proof (cases "snd res")
  case False
  then show ?thesis using r same idle by (cases res) (auto simp: note_change_def replays_def)
next
  case True
  obtain c' where res: "res = (c', True)" using True by (cases res) auto
  from r obtain d where d: "\<And>rest. run_modes w now (mr_changes r) (start_run ch (mr_params r @ rest)) =
      canon (mr_ch r) rest d (mr_changes r) (mr_params r)" by (auto simp: replays_def)
  have sg: "mr_dir r \<in> {CHR ''+'', CHR ''-''}" "flush_dir (mr_dir r) (mr_changes r) = mr_changes r @ [mr_dir r]"
    using r by (auto simp: replays_def flush_dir_def)
  let ?cs = "mr_changes r @ [mr_dir r, mc]" and ?ps = "mr_params r @ ps"
  have "run_modes w now ?cs (start_run ch (?ps @ rest)) = canon c' rest (mr_dir r) ?cs ?ps" for rest
  proof -
    have "run_modes w now ?cs (start_run ch (?ps @ rest)) =
        mode_step w now mc (mode_step w now (mr_dir r) (run_modes w now (mr_changes r) (start_run ch (mr_params r @ (ps @ rest)))))"
      by (simp add: run_modes_def)
    also have "\<dots> = mode_step w now mc (canon (mr_ch r) (ps @ rest) (mr_dir r) (mr_changes r) (mr_params r))"
      by (simp add: d sign_step [OF sg(1)]) (simp add: canon_def)
    also have "\<dots> = canon c' rest (mr_dir r) ?cs ?ps"
      by (simp add: step [OF True] res note_change_def) (simp add: canon_def sg(2))
    finally show ?thesis .
  qed
  then show ?thesis using sg mc by (auto simp: res note_change_def replays_def same)
qed

lemmas channel_op_defs = set_bool_mode_def set_key_def set_limit_def add_ban_def remove_ban_def add_exception_def
  remove_exception_def add_invex_def remove_invex_def add_quiet_def remove_quiet_def

lemma set_bool_mode_idle: "\<not> snd (set_bool_mode mc b c) \<Longrightarrow> fst (set_bool_mode mc b c) = c"
  by (cases "bool_mode_ptr mc (ch_modes c)") (simp_all add: set_bool_mode_def split: if_splits)

lemma flag_step:
  assumes "mc \<in> set ''imnpsta'' \<or> mc = CHR ''r'' \<and> is_safe_channel (ch_name (mr_ch r))"
  shows "mode_step w now mc r = note_change mc [] (set_bool_mode mc (is_on r) (mr_ch r)) r"
proof (cases "mc \<in> set ''imnpsta''")
  case True
  then have "mc \<noteq> CHR ''+''" "mc \<noteq> CHR ''-''" by auto
  then show ?thesis by (simp only: mode_step_def True simp_thms if_True if_False)
next
  case False
  then have "mc = CHR ''r''" "is_safe_channel (ch_name (mr_ch r))" using assms by auto
  then show ?thesis by (simp add: mode_step_def)
qed

lemma replays_flag:
  assumes r: "replays w now ch r" and mc: "mc \<in> set ''imnpsta'' \<or> mc = CHR ''r'' \<and> is_safe_channel (ch_name (mr_ch r))"
  shows "replays w now ch (note_change mc [] (set_bool_mode mc (is_on r) (mr_ch r)) r)"
proof (rule replays_note [OF r refl refl refl refl])
  show "mc \<notin> {CHR ''+'', CHR ''-''}" using mc by auto
  fix rest cs qs
  have "is_on (canon (mr_ch r) rest (mr_dir r) cs qs) = is_on r" "mr_ch (canon (mr_ch r) rest (mr_dir r) cs qs) = mr_ch r"
    by (simp_all add: canon_def is_on_def)
  then show "mode_step w now mc (canon (mr_ch r) ([] @ rest) (mr_dir r) cs qs) =
      note_change mc [] (set_bool_mode mc (is_on r) (mr_ch r)) (canon (mr_ch r) rest (mr_dir r) cs qs)"
    using flag_step [of mc "canon (mr_ch r) rest (mr_dir r) cs qs" w now] mc by (simp only: append_Nil)
next
  show "\<not> snd (set_bool_mode mc (is_on r) (mr_ch r)) \<Longrightarrow> fst (set_bool_mode mc (is_on r) (mr_ch r)) = mr_ch r"
    by (simp add: set_bool_mode_idle)
qed

lemma replays_key: "replays w now ch r \<Longrightarrow> replays w now ch (key_step r)"
proof -
  assume r: "replays w now ch r"
  have args: "replays w now ch (r\<lparr>mr_args := a\<rparr>)" for a using r by (simp add: replays_def)
  show ?thesis unfolding key_step_def Let_def
    by (auto split: list.split intro!: r args replays_note [OF r]
        simp: mode_step_def key_step_def canon_def is_on_def set_key_def)
qed

lemma replays_limit: "replays w now ch r \<Longrightarrow> replays w now ch (limit_step r)"
proof -
  assume r: "replays w now ch r"
  have args: "replays w now ch (r\<lparr>mr_args := a\<rparr>)" for a using r by (simp add: replays_def)
  show ?thesis unfolding limit_step_def Let_def
    by (auto split: list.split option.split intro!: r args replays_note [OF r]
        simp: mode_step_def limit_step_def canon_def is_on_def set_limit_def Let_def)
qed

lemma replays_mask:
  assumes r: "replays w now ch r" and mc: "mc \<notin> {CHR ''+'', CHR ''-''}"
    and step: "\<And>r. mode_step w now mc r = mask_step mc add rem r"
    and idle: "\<And>m c. \<not> snd (add m c) \<Longrightarrow> fst (add m c) = c" "\<And>m c. \<not> snd (rem m c) \<Longrightarrow> fst (rem m c) = c"
  shows "replays w now ch (mask_step mc add rem r)"
proof -
  have args: "replays w now ch (r\<lparr>mr_args := a\<rparr>)" for a using r by (simp add: replays_def)
  show ?thesis unfolding mask_step_def Let_def using mc
    by (auto split: list.split if_split intro!: r args replays_note [OF r] idle
        simp: step mask_step_def canon_def is_on_def)
qed

lemma replays_member:
  assumes w: "wf_world w" and r: "replays w now ch r" and mc: "mc = CHR ''o'' \<or> mc = CHR ''v''"
  shows "replays w now ch (member_step w mc r)"
proof -
  have args: "replays w now ch (r\<lparr>mr_args := a\<rparr>)" for a using r by (simp add: replays_def)
  have self: "find_by_nick (u_Nick (w_store w t)) w = Some t" if "find_by_nick a w = Some t" for a t
    using nicks.holder_nick [OF w that] nicks.holder_same [OF w] that by (metis nick_at_def)
  have st: "mode_step w now mc x = member_step w mc x" for x using mc by (auto simp: mode_step_def)
  define flag where "flag = (if mc = CHR ''v'' then MemberVoice else MemberOp)"
  define res where "res t = (case (if is_on r then add_membership t flag (mr_ch r) else remove_membership t flag (mr_ch r)) of
    (ch', _, changed) \<Rightarrow> (ch', changed))" for t
  show ?thesis
  proof (cases "\<exists>arg rest t. mr_args r = arg # rest \<and> find_by_nick arg w = Some t \<and> is_member t (mr_ch r)")
    case False
    then have "member_step w mc r = r \<or> (\<exists>a. member_step w mc r = r\<lparr>mr_args := a\<rparr>)"
      by (auto simp: member_step_def Let_def split: list.split option.split)
    then show ?thesis using r args by auto
  next
    case True
    then obtain arg rest t where t: "mr_args r = arg # rest" "find_by_nick arg w = Some t" "is_member t (mr_ch r)" by blast
    have e: "member_step w mc r = note_change mc [u_Nick (w_store w t)] (res t) (r\<lparr>mr_args := rest\<rparr>)"
      using t by (simp add: member_step_def Let_def res_def flag_def)
    show ?thesis unfolding e
    proof (rule replays_note [OF r])
      fix rest cs qs
      show "mode_step w now mc (canon (mr_ch r) ([u_Nick (w_store w t)] @ rest) (mr_dir r) cs qs) =
          note_change mc [u_Nick (w_store w t)] (res t) (canon (mr_ch r) rest (mr_dir r) cs qs)"
        using self [OF t(2)] t(3) by (simp add: st member_step_def canon_def is_on_def res_def flag_def)
      show "\<not> snd (res t) \<Longrightarrow> fst (res t) = mr_ch r"
        using t(3) by (auto simp: res_def add_membership_def remove_membership_def is_member_def mhas_def split: option.splits if_splits)
    qed (use mc in auto)
  qed
qed

lemma mask_op_idle:
  "\<not> snd (add_ban m t c) \<Longrightarrow> fst (add_ban m t c) = c" "\<not> snd (remove_ban m c) \<Longrightarrow> fst (remove_ban m c) = c"
  "\<not> snd (add_exception m t c) \<Longrightarrow> fst (add_exception m t c) = c" "\<not> snd (remove_exception m c) \<Longrightarrow> fst (remove_exception m c) = c"
  "\<not> snd (add_invex m t c) \<Longrightarrow> fst (add_invex m t c) = c" "\<not> snd (remove_invex m c) \<Longrightarrow> fst (remove_invex m c) = c"
  "\<not> snd (add_quiet m t c) \<Longrightarrow> fst (add_quiet m t c) = c" "\<not> snd (remove_quiet m c) \<Longrightarrow> fst (remove_quiet m c) = c"
  by (simp_all only: add_ban_def remove_ban_def add_exception_def remove_exception_def add_invex_def remove_invex_def
      add_quiet_def remove_quiet_def snd_conv fst_conv simp_thms split: if_splits)

lemma replays_step: "wf_world w \<Longrightarrow> replays w now ch r \<Longrightarrow> replays w now ch (mode_step w now mc r)"
proof -
  assume w: "wf_world w" and r: "replays w now ch r"
  have bad: "replays w now ch (r\<lparr>mr_bad := b\<rparr>)" "d \<in> {CHR ''+'', CHR ''-''} \<Longrightarrow> replays w now ch (r\<lparr>mr_dir := d\<rparr>)" for b d
    using r by (auto simp: replays_def)
  have masks: "replays w now ch (mask_step CHR ''b'' (\<lambda>m. add_ban m now) remove_ban r)"
    "replays w now ch (mask_step CHR ''e'' (\<lambda>m. add_exception m now) remove_exception r)"
    "replays w now ch (mask_step CHR ''I'' (\<lambda>m. add_invex m now) remove_invex r)"
    "replays w now ch (mask_step CHR ''q'' (\<lambda>m. add_quiet m now) remove_quiet r)"
    by (rule replays_mask [OF r]; simp add: mode_step_def mask_op_idle)+
  show ?thesis
    unfolding mode_step_def
    by (simp add: bad masks replays_flag [OF r] replays_key [OF r] replays_limit [OF r] replays_member [OF w r])
qed

lemma replays_run: "wf_world w \<Longrightarrow> replays w now ch r \<Longrightarrow> replays w now ch (run_modes w now str r)"
  unfolding run_modes_def by (induction str arbitrary: r) (simp_all add: replays_step)

text \<open>
  C10: The MODE message the members see is the whole change. Take the changes and parameters it announces and
  apply them to the channel as it was: the result is the channel as it is, the same announcement, no
  argument left over and no unknown letter. Letters without effect, without argument or with an argument
  that does not fit are not announced and did nothing.
\<close>

theorem mode_announcement:
  fixes w :: world and now :: time and ch :: channel and params :: "string list"
  assumes "wf_world w"
  defines "r \<equiv> apply_channel_modes w now ch params"
  shows "\<exists>d. apply_channel_modes w now ch (mr_changes r # mr_params r) =
    \<lparr>mr_ch = mr_ch r, mr_args = [], mr_dir = d, mr_changes = mr_changes r, mr_params = mr_params r, mr_bad = []\<rparr>"
proof -
  have "replays w now ch r"
    unfolding r_def apply_channel_modes_def
    by (auto split: list.split intro: replays_start replays_run [OF assms(1)])
  then obtain d where "\<And>rest. run_modes w now (mr_changes r) (start_run ch (mr_params r @ rest)) =
      canon (mr_ch r) rest d (mr_changes r) (mr_params r)" by (auto simp: replays_def)
  from this [of "[]"] show ?thesis by (auto simp: apply_channel_modes_def canon_def)
qed

lemma mode_announcement_witness:
  "let r = apply_channel_modes demo_world 9 demo_channel [''+mxk-t+vl'', ''key'', ''AL'', ''7'']
   in mr_changes r = ''+m+k-t+v+l'' \<and> mr_params r = [''key'', ''al'', ''7''] \<and> mr_bad r = ''x'' \<and>
      mr_ch (apply_channel_modes demo_world 9 demo_channel (mr_changes r # mr_params r)) = mr_ch r"
proof -
  let ?r = "apply_channel_modes demo_world 9 demo_channel [''+mxk-t+vl'', ''key'', ''AL'', ''7'']"
  have "mr_changes ?r = ''+m+k-t+v+l'' \<and> mr_params ?r = [''key'', ''al'', ''7''] \<and> mr_bad ?r = ''x''" by code_simp
  then show ?thesis
    using mode_announcement [OF wf_demo_world, of 9 demo_channel "[''+mxk-t+vl'', ''key'', ''AL'', ''7'']"]
    unfolding Let_def by (metis mode_run.select_convs(1))
qed

section \<open>The invariant\<close>

definition run_ok :: "channel \<Rightarrow> mode_run \<Rightarrow> bool" where
  "run_ok ch r = (wf_channel (mr_ch r) \<and> ch_name (mr_ch r) = ch_name ch \<and> (\<forall>v. is_member v (mr_ch r) = is_member v ch))"

lemma run_ok_note:
  "run_ok ch r0 \<Longrightarrow> wf_channel (fst res) \<Longrightarrow> ch_name (fst res) = ch_name ch \<Longrightarrow> (\<And>v. is_member v (fst res) = is_member v ch) \<Longrightarrow>
   run_ok ch (note_change mc ps res r0)"
  by (cases res) (simp add: note_change_def run_ok_def)

lemma run_ok_frames [simp]:
  "run_ok ch (r\<lparr>mr_args := a\<rparr>) = run_ok ch r" "run_ok ch (r\<lparr>mr_dir := d\<rparr>) = run_ok ch r"
  "run_ok ch (r\<lparr>mr_bad := b\<rparr>) = run_ok ch r"
  by (simp_all add: run_ok_def)

lemma run_ok_mask:
  assumes "run_ok ch r" "\<And>m c. wf_channel c \<Longrightarrow> wf_channel (fst (add m c)) \<and> ch_name (fst (add m c)) = ch_name c \<and> (\<forall>v. is_member v (fst (add m c)) = is_member v c)"
    and "\<And>m c. wf_channel c \<Longrightarrow> wf_channel (fst (rem m c)) \<and> ch_name (fst (rem m c)) = ch_name c \<and> (\<forall>v. is_member v (fst (rem m c)) = is_member v c)"
  shows "run_ok ch (mask_step mc add rem r)"
proof (cases "mr_args r")
  case Nil
  then show ?thesis using assms(1) by (simp add: mask_step_def)
next
  case (Cons m rest)
  have c: "wf_channel (mr_ch r)" "ch_name (mr_ch r) = ch_name ch" "\<And>v. is_member v (mr_ch r) = is_member v ch"
    using assms(1) by (simp_all add: run_ok_def)
  have "run_ok ch (note_change mc [m] (if is_on r then add m (mr_ch r) else rem m (mr_ch r)) (r\<lparr>mr_args := rest\<rparr>))"
    using assms(2,3) [OF c(1)] c by (intro run_ok_note) (simp_all add: assms(1))
  then show ?thesis using assms(1) Cons by (simp add: mask_step_def Let_def)
qed

lemma is_member_lists:
  "is_member v (fst (add_ban m t c)) = is_member v c" "is_member v (fst (remove_ban m c)) = is_member v c"
  "is_member v (fst (add_exception m t c)) = is_member v c" "is_member v (fst (remove_exception m c)) = is_member v c"
  "is_member v (fst (add_invex m t c)) = is_member v c" "is_member v (fst (remove_invex m c)) = is_member v c"
  "is_member v (fst (add_quiet m t c)) = is_member v c" "is_member v (fst (remove_quiet m c)) = is_member v c"
  by (simp_all add: is_member_def channel_op_defs)

lemma run_ok_step: "run_ok ch r \<Longrightarrow> run_ok ch (mode_step w now mc r)"
proof -
  assume r: "run_ok ch r"
  have m: "wf_channel (mr_ch r)" "ch_name (mr_ch r) = ch_name ch" "\<And>v. is_member v (mr_ch r) = is_member v ch"
    using r by (simp_all add: run_ok_def)
  have flag: "run_ok ch (note_change mc [] (set_bool_mode mc b (mr_ch r)) r)" for b mc
    using r by (intro run_ok_note) (simp_all add: run_ok_def wf_set_bool_mode)
  have key: "run_ok ch (key_step r)"
    using r by (cases "mr_args r") (simp_all add: key_step_def Let_def m wf_set_key run_ok_note)
  have limit: "run_ok ch (limit_step r)"
    using r by (cases "mr_args r") (simp_all add: limit_step_def Let_def m wf_set_limit run_ok_note split: option.split)
  have mem: "run_ok ch (member_step w mc r)"
  proof -
    have g: "run_ok ch (note_change mc ps (case (if b then add_membership t f (mr_ch r) else remove_membership t f (mr_ch r)) of
        (ch', _, changed) \<Rightarrow> (ch', changed)) (r\<lparr>mr_args := a\<rparr>))" for ps b t f a
    proof -
      let ?res = "if b then add_membership t f (mr_ch r) else remove_membership t f (mr_ch r)"
      have "wf_channel (fst ?res)" "ch_name (fst ?res) = ch_name ch" "\<And>v. is_member v (fst ?res) = is_member v ch"
        using m by (simp_all add: wf_add_membership wf_remove_membership channel_name_frames is_member_frames)
      moreover have "fst (case res of (ch', _, changed) \<Rightarrow> (ch', changed)) = fst res" for res :: "channel \<times> membership \<times> bool"
        by (cases res) auto
      ultimately show ?thesis using r by (intro run_ok_note) simp_all
    qed
    show ?thesis
    proof (cases "mr_args r")
      case Nil
      then show ?thesis using r by (simp add: member_step_def)
    next
      case (Cons a rest)
      then show ?thesis using r g by (cases "find_by_nick a w") (simp_all add: member_step_def Let_def)
    qed
  qed
  have masks: "run_ok ch (mask_step c (\<lambda>m. add_ban m now) remove_ban r)" "run_ok ch (mask_step c (\<lambda>m. add_exception m now) remove_exception r)"
    "run_ok ch (mask_step c (\<lambda>m. add_invex m now) remove_invex r)" "run_ok ch (mask_step c (\<lambda>m. add_quiet m now) remove_quiet r)" for c
    by (rule run_ok_mask [OF r]; simp add: wf_mask_ops is_member_lists)+
  show ?thesis unfolding mode_step_def using r by (simp add: flag key limit mem masks)
qed

lemma run_ok_apply: "wf_channel ch \<Longrightarrow> run_ok ch (apply_channel_modes w now ch params)"
proof -
  assume wf: "wf_channel ch"
  have "run_ok ch (run_modes w now str r)" if "run_ok ch r" for str r
    using that unfolding run_modes_def by (induction str arbitrary: r) (simp_all add: run_ok_step)
  then show ?thesis using wf by (auto simp: apply_channel_modes_def start_run_def run_ok_def split: list.split)
qed

lemma wf_set_chan:
  assumes "wf_server s" "find_channel n (sv_world s) = Some ch" "wf_channel c'" "ch_name c' = ch_name ch"
  shows "wf_server (with_chan n (\<lambda>_. c') s)"
  unfolding with_chan_def
proof (rule wf_upd_sworld [OF assms(1)])
  have "map_of (w_byChannel (sv_world s)) (sfold s n) = Some ch" using assms(2) by (simp add: find_channel_def split: if_splits)
  then show "wf_world (upd_channel n (\<lambda>_. c') (sv_world s))"
    by (intro wf_upd_channel [OF wf_serverD(1) [OF assms(1)]]) (simp_all add: assms(3,4))
qed simp_all

lemma quiet_list_mode [simp, intro]: "quiet s (send_channel_list_mode c u ch x s)"
  unfolding send_channel_list_mode_def Let_def by (auto intro!: quiet_after)

lemmas wf_list_mode [invs] = quiet_wf [OF quiet_list_mode]
lemmas list_mode_frames [simp, frames] = quietD [OF quiet_list_mode]

lemma quiet_replies_fold [simp, intro]: "quiet s (fold (\<lambda>b. reply c n x (g b)) bs s)"
  by (rule quiet_fold) simp

lemmas wf_replies_fold [invs] = quiet_wf [OF quiet_replies_fold]
lemmas replies_fold_frames [simp, frames] = quietD [OF quiet_replies_fold]

lemma wf_handle_channel_mode [invs]: "wf_server s \<Longrightarrow> wf_server (handle_channel_mode c u n ps s)"
proof -
  assume wf: "wf_server s"
  have "wf_server (with_chan n (\<lambda>_. mr_ch (apply_channel_modes (sv_world s) (sv_now s) ch ps)) s)"
    if ch: "find_channel n (sv_world s) = Some ch" for ch
    using run_ok_apply [OF find_channel_wf(1) [OF wf_worldD(2) [OF wf_serverD(1) [OF wf]] ch], of "sv_world s" "sv_now s" ps]
    by (intro wf_set_chan [OF wf ch]) (simp_all add: run_ok_def)
  note chan = this
  show ?thesis
  proof (cases "find_channel n (sv_world s)")
    case None
    then show ?thesis using wf by (simp add: handle_channel_mode_def invs)
  next
    case (Some ch)
    show ?thesis using wf chan [OF Some] by (simp add: handle_channel_mode_def Some Let_def invs)
  qed
qed

lemma wf_user_modes [invs]: "wf_server s \<Longrightarrow> wf_server (with_user u (\<lambda>x. x\<lparr>u_Modes := ms\<rparr>) s)"
  by (rule wf_with_user) simp_all

lemma wf_handle_mode [invs]: "wf_server s \<Longrightarrow> wf_server (handle_mode c m s)"
  unfolding handle_mode_def handle_user_mode_def Let_def by (auto intro!: invs split: option.split list.split)

section \<open>Who may change what\<close>

lemma handle_channel_mode_world:
  "find_channel n (sv_world (handle_channel_mode c u name ps s)) = find_channel n (sv_world s) \<or>
   (\<exists>ch. find_channel n (sv_world s) = Some ch \<and> sfold s n = sfold s name \<and> mem_is_op (membership_of u ch) \<and>
      \<not> is_modeless_channel (ch_name ch) \<and>
      find_channel n (sv_world (handle_channel_mode c u name ps s)) = Some (mr_ch (apply_channel_modes (sv_world s) (sv_now s) ch ps)))"
proof (cases "find_channel n (sv_world (handle_channel_mode c u name ps s)) = find_channel n (sv_world s)")
  case False
  have w: "sv_world (persist_channel x t) = sv_world t" for x t by (simp add: persist_channel_def)
  obtain ch where ch: "find_channel name (sv_world s) = Some ch" using False by (auto simp: handle_channel_mode_def Let_def split: option.splits)
  define d where "d = mr_ch (apply_channel_modes (sv_world s) (sv_now s) ch ps)"
  have r: "find_channel n (sv_world (handle_channel_mode c u name ps s)) = find_channel n (upd_channel name (\<lambda>_. d) (sv_world s)) \<and>
      mem_is_op (membership_of u ch) \<and> \<not> is_modeless_channel (ch_name ch)"
    using False by (simp add: handle_channel_mode_def ch Let_def w with_chan_def upd_sworld_def d_def split: if_splits)
  then have f: "wfold (sv_world s) n = wfold (sv_world s) name" using False by (auto split: if_splits)
  then have "find_channel n (sv_world s) = Some ch" using find_channel_fold ch by metis
  with r f show ?thesis by (simp add: d_def)
qed simp

lemma handle_channel_mode_store: "w_store (sv_world (handle_channel_mode c u name ps s)) = w_store (sv_world s)"
proof -
  have w: "sv_world (persist_channel x t) = sv_world t" for x t by (simp add: persist_channel_def)
  show ?thesis by (simp add: handle_channel_mode_def Let_def w with_chan_def upd_sworld_def upd_channel_def split: option.split)
qed

lemma fold_user_modes:
  assumes "fold user_mode_step str (d, cur) = (d', out)"
  shows "(CHR ''o'' \<in> set out \<longrightarrow> CHR ''o'' \<in> set cur) \<and>
    (\<forall>x. x \<notin> set ''iwso'' \<longrightarrow> (x \<in> set out) = (x \<in> set cur)) \<and> (distinct cur \<longrightarrow> distinct out)"
  using assms
proof (induction str arbitrary: d cur)
  case (Cons mc str)
  obtain d1 cur1 where st: "user_mode_step mc (d, cur) = (d1, cur1)" by force
  have "(CHR ''o'' \<in> set cur1 \<longrightarrow> CHR ''o'' \<in> set cur) \<and> (\<forall>x. x \<notin> set ''iwso'' \<longrightarrow> (x \<in> set cur1) = (x \<in> set cur)) \<and>
      (distinct cur \<longrightarrow> distinct cur1)"
    using st by (auto simp: user_mode_step_def add_mode_char_def del_mode_char_def split: if_splits)
  moreover have "fold user_mode_step str (d1, cur1) = (d', out)" using Cons.prems by (simp add: st)
  ultimately show ?case using Cons.IH [of d1 cur1] by blast
qed simp

lemma run_user_modes_limits:
  "(CHR ''o'' \<in> set (run_user_modes str cur) \<longrightarrow> CHR ''o'' \<in> set cur) \<and>
   (\<forall>x. x \<notin> set ''iwso'' \<longrightarrow> (x \<in> set (run_user_modes str cur)) = (x \<in> set cur)) \<and>
   (distinct cur \<longrightarrow> distinct (run_user_modes str cur))"
  using fold_user_modes [of str "CHR ''+''" cur] by (simp add: run_user_modes_def) (metis prod.exhaust_sel)

lemma handle_user_mode_world:
  "sv_world (handle_user_mode c u target ps s) = sv_world s \<or>
   equal_names (w_mapping (sv_world s)) target (u_Nick (user_of u s)) \<and>
   sv_world (handle_user_mode c u target ps s) =
     upd_user u (\<lambda>x. x\<lparr>u_Modes := run_user_modes (ps ! 0) (u_Modes (user_of u s))\<rparr>) (sv_world s)"
  by (simp add: handle_user_mode_def Let_def with_user_def upd_sworld_def)

text \<open>
  C13: MODE changes a channel only at the hand of an operator of it: a channel that is not as it was
  before a MODE was the target of the command, the sender was an operator there, and its name and its
  members are what they were. Of the users only the sender can change, and only in the mode letters;
  nobody makes oneself an IRC operator, and no letter but \<^verbatim>\<open>i\<close>, \<^verbatim>\<open>w\<close>, \<^verbatim>\<open>s\<close> and \<^verbatim>\<open>o\<close> comes or goes.
\<close>

theorem mode_authority:
  fixes s :: server and c :: cid and m :: message
  assumes "wf_server s"
  defines "s' \<equiv> handle_mode c m s"
  shows "(find_channel n (sv_world s') = find_channel n (sv_world s) \<or>
     (\<exists>u ch ch'. registered_user c s = Some u \<and> sfold s n = sfold s (hd (msg_Params m)) \<and>
        find_channel n (sv_world s) = Some ch \<and> find_channel n (sv_world s') = Some ch' \<and>
        mem_is_op (membership_of u ch) \<and> ch_name ch' = ch_name ch \<and> (\<forall>v. is_member v ch' = is_member v ch))) \<and>
    (\<forall>v. user_of v s' = user_of v s \<or>
      registered_user c s = Some v \<and> (\<exists>ms. user_of v s' = (user_of v s)\<lparr>u_Modes := ms\<rparr> \<and>
        (CHR ''o'' \<in> set ms \<longrightarrow> CHR ''o'' \<in> set (u_Modes (user_of v s))) \<and>
        (\<forall>x. x \<notin> set ''iwso'' \<longrightarrow> (x \<in> set ms) = (x \<in> set (u_Modes (user_of v s))))))"
proof (cases "registered_user c s = None \<or> msg_Params m = []")
  case True
  then show ?thesis by (auto simp: s'_def handle_mode_def split: option.split)
next
  case False
  then obtain u target ps where u: "registered_user c s = Some u" "msg_Params m = target # ps"
    by (cases "msg_Params m") auto
  show ?thesis
  proof (cases "is_channel_name target")
    case True
    then have s': "s' = handle_channel_mode c u target ps s" using u by (simp add: s'_def handle_mode_def)
    have ok: "run_ok ch (apply_channel_modes (sv_world s) (sv_now s) ch ps)" if "find_channel n (sv_world s) = Some ch" for ch
      using run_ok_apply [OF find_channel_wf(1) [OF wf_worldD(2) [OF wf_serverD(1) [OF assms(1)]] that]] .
    have "user_of v s' = user_of v s" for v by (simp add: s' user_of_def handle_channel_mode_store)
    then show ?thesis using handle_channel_mode_world [of n c u target ps s] ok u
      unfolding s' run_ok_def by fastforce
  next
    case False
    then have s': "s' = handle_user_mode c u target ps s" using u by (simp add: s'_def handle_mode_def)
    have "user_of v s' = user_of v s \<or> v = u \<and> user_of v s' = (user_of v s)\<lparr>u_Modes := run_user_modes (ps ! 0) (u_Modes (user_of u s))\<rparr>"
      "find_channel n (sv_world s') = find_channel n (sv_world s)" for v
      using handle_user_mode_world [of c u target ps s] unfolding s' user_of_def
      by (cases "v = u"; auto simp: upd_user_def find_channel_def)+
    then show ?thesis using run_user_modes_limits [of "ps ! 0" "u_Modes (user_of u s)"] u(1) by blast
  qed
qed

lemma mode_authority_witness:
  "let s' = handle_mode 2 (plain_message [] ''MODE'' [''#a'', ''-o'', ''al'']) demo_net
   in find_channel ''#a'' (sv_world s') = find_channel ''#a'' (sv_world demo_net) \<and> user_of 1 s' = user_of 1 demo_net"
proof -
  let ?m = "plain_message [] ''MODE'' [''#a'', ''-o'', ''al'']"
  have op: "\<not> mem_is_op (membership_of 2 demo_channel)" by code_simp
  have "\<not> (\<exists>u ch. registered_user 2 demo_net = Some u \<and> find_channel ''#a'' (sv_world demo_net) = Some ch \<and> mem_is_op (membership_of u ch))"
    using op by (simp add: demo_registered demo_facts)
  moreover have "registered_user 2 demo_net \<noteq> Some 1" by (simp add: demo_registered)
  ultimately show ?thesis
    using mode_authority [OF wf_demo_net, of "''#a''" 2 ?m] unfolding Let_def by meson
qed

end
