(* ===== verification/Message_Cmds.thy ===== *)
theory Message_Cmds
  imports Mode_Cmds
begin

text \<open>
  \<^verbatim>\<open>PRIVMSG\<close> and \<^verbatim>\<open>NOTICE\<close>, \<^verbatim>\<open>internal/server/handler_message.go\<close>: flood control, the right to speak in a
  channel, delivery to a user, a bot or a service, and the mask broadcast of operators. The theorems say
  who hears a message sent to a channel, what flood control lets through, and that a notice is never
  answered with an error.
\<close>

section \<open>Mask broadcast\<close>

definition mask_candidate :: "string \<Rightarrow> bool \<Rightarrow> user \<Rightarrow> string" where
  "mask_candidate srv hostMask snap =
     (if hostMask then u_Host snap else if u_HomeServer snap = [] then srv else u_HomeServer snap)"

definition deliver_mask_broadcast :: "cid \<Rightarrow> uid \<Rightarrow> string \<Rightarrow> string \<Rightarrow> string \<Rightarrow> bool \<Rightarrow> bool \<Rightarrow> server \<Rightarrow> server" where
  "deliver_mask_broadcast c u msk text command hostMask emitErrors s =
     (let me = user_of u s in
      if CHR ''o'' \<notin> set (u_Modes me) then
        (if emitErrors then reply c (u_Nick me) ''481'' [''Permission Denied- You'' @ [CHR 0x27] @ ''re not an IRC operator''] s else s)
      else
        let m = plain_message (hostmask me) command [(if hostMask then ''#'' else ''$'') @ msk, text]
        in forward_to_all m
             (fold (\<lambda>snap s.
                if is_remote snap \<or> \<not> glob_match_host msk (mask_candidate (srv_name s) hostMask snap) then s
                else send_to_user m (u_ID snap) s) (snapshot (sv_world s)) s))"

section \<open>One target\<close>

text \<open>The channel a target names, \<^verbatim>\<open>!short\<close> included.\<close>

definition target_channel :: "string \<Rightarrow> server \<Rightarrow> server \<times> channel option" where
  "target_channel target s =
     (case find_channel target (sv_world s) of
        Some ch \<Rightarrow> (s, Some ch)
      | None \<Rightarrow>
          if is_safe_channel target then
            (case resolve_safe_channel target s of
               (s1, Some r) \<Rightarrow> (s1, find_channel r (sv_world s1))
             | (s1, None) \<Rightarrow> (s1, None))
          else (s, None))"

text \<open>The reason a channel refuses a message, \<^const>\<open>None\<close> when it takes it.\<close>

definition speak_refusal :: "channel \<Rightarrow> uid \<Rightarrow> server \<Rightarrow> string option" where
  "speak_refusal ch u s =
     (let mem = membership_of u ch in
      if m_noExternal (ch_modes ch) \<and> \<not> is_member u ch then Some ''Cannot send to channel''
      else if m_moderated (ch_modes ch) \<and> \<not> mem_is_op mem \<and> \<not> mem_is_voice mem then Some ''Cannot send to channel''
      else if \<not> mem_is_op mem \<and> \<not> mem_is_voice mem \<and> matches_quiet (hostmask (user_of u s)) (sfold s) ch
      then Some ''Cannot send to channel (+q)''
      else None)"

text \<open>A channel message also reaches a service that is a member, so the members answer with \<open>deliver_bot\<close>.\<close>

definition speak :: "cid \<Rightarrow> uid \<Rightarrow> channel \<Rightarrow> string \<Rightarrow> string \<Rightarrow> server \<Rightarrow> server" where
  "speak c u ch text command s =
     (let m = plain_message (hostmask (user_of u s)) command [ch_name ch, text]
      in forward_channel (ch_name ch) m
           (broadcast_with deliver_bot ch m u (has_cap ''echo-message'' (sv_heap s c)) s))"

definition deliver_to_channel :: "cid \<Rightarrow> uid \<Rightarrow> string \<Rightarrow> string \<Rightarrow> string \<Rightarrow> bool \<Rightarrow> server \<Rightarrow> server" where
  "deliver_to_channel c u target text command emitErrors s =
     (let nick = u_Nick (user_of u s) in
      case target_channel target s of
        (s1, None) \<Rightarrow> if emitErrors then reply c nick ''401'' [target, ''No such nick/channel''] s1 else s1
      | (s1, Some ch) \<Rightarrow>
          (case speak_refusal ch u s1 of
             Some why \<Rightarrow> if emitErrors then reply c nick ''404'' [ch_name ch, why] s1 else s1
           | None \<Rightarrow> speak c u ch text command s1))"

definition deliver_to_user :: "cid \<Rightarrow> uid \<Rightarrow> string \<Rightarrow> string \<Rightarrow> string \<Rightarrow> bool \<Rightarrow> server \<Rightarrow> server" where
  "deliver_to_user c u target text command emitErrors s =
     (let nick = u_Nick (user_of u s);
          refused = (\<lambda>s. if emitErrors then reply c nick ''401'' [target, ''No such nick/channel''] s else s);
          echo = (\<lambda>m s. if has_cap ''echo-message'' (sv_heap s c) then send c m s else s) in
      case find_by_nick target (sv_world s) of
        None \<Rightarrow> refused s
      | Some t \<Rightarrow>
          let away = u_Away (user_of t s);
              s1 = (if command = ''PRIVMSG'' \<and> away \<noteq> [] then reply c nick ''301'' [u_Nick (user_of t s), away] s else s);
              m = plain_message (hostmask (user_of u s)) command [u_Nick (user_of t s), text]
          in (case conn_for t s1 of
                Some d \<Rightarrow> echo m (send d m s1)
              | None \<Rightarrow>
                  (case bot_for t s1 of
                     Some b \<Rightarrow> echo m (deliver_bot t b m s1)
                   | None \<Rightarrow> refused s1)))"

definition deliver_one_target :: "cid \<Rightarrow> uid \<Rightarrow> string \<Rightarrow> string \<Rightarrow> bool \<Rightarrow> string \<Rightarrow> server \<Rightarrow> server" where
  "deliver_one_target c u text command emitErrors target s =
     (if length target > 1 \<and> hd target = CHR ''$'' then deliver_mask_broadcast c u (tl target) text command False emitErrors s
      else if length target > 1 \<and> hd target = CHR ''#'' \<and> CHR ''.'' \<in> set (tl target) then
        deliver_mask_broadcast c u (tl target) text command True emitErrors s
      else if is_channel_name target then deliver_to_channel c u target text command emitErrors s
      else deliver_to_user c u (trim_space target) text command emitErrors s)"

section \<open>The command\<close>

text \<open>Flood control: a token, or a violation, and after enough of them the end of the connection.\<close>

definition take_token :: "cid \<Rightarrow> server \<Rightarrow> server \<times> bool" where
  "take_token c s =
     (case bucket_take (sv_now s) (cn_msgBucket (sv_heap s c)) of
        (b, ok) \<Rightarrow> (upd_conn c (\<lambda>cn. cn\<lparr>cn_msgBucket := b\<rparr>) s, ok))"

definition note_violation :: "cid \<Rightarrow> server \<Rightarrow> server" where
  "note_violation c s =
     (let s1 = upd_conn c (\<lambda>cn. cn\<lparr>cn_msgViolations := cn_msgViolations cn + 1\<rparr>) s in
      if cn_msgViolations (sv_heap s1 c) \<ge> lm_MessageViolationsToKick (srv_limits s1)
      then cancel c ''excess flood'' (send_error c ''Excess flood'' s1) else s1)"

definition deliver_message :: "cid \<Rightarrow> message \<Rightarrow> string \<Rightarrow> bool \<Rightarrow> server \<Rightarrow> server" where
  "deliver_message c m command emitErrors s =
     (case registered_user c s of
        None \<Rightarrow> if emitErrors then not_registered c s else s
      | Some u \<Rightarrow>
          let nick = u_Nick (user_of u s); ps = msg_Params m in
          if length ps < 1 \<or> ps ! 0 = [] then
            (if emitErrors then reply c nick ''411'' [''No recipient given ('' @ command @ '')''] s else s)
          else if length ps < 2 \<or> ps ! 1 = [] then
            (if emitErrors then reply c nick ''412'' [''No text to send''] s else s)
          else
            (case take_token c s of
               (s1, False) \<Rightarrow> note_violation c s1
             | (s1, True) \<Rightarrow>
                 upd_conn c (\<lambda>cn. cn\<lparr>cn_lastMessageAt := sv_now s1\<rparr>)
                   (fold (deliver_one_target c u (ps ! 1) command emitErrors) (split_on CHR '','' (ps ! 0)) s1)))"

definition handle_privmsg :: "cid \<Rightarrow> message \<Rightarrow> server \<Rightarrow> server" where
  "handle_privmsg c m s = deliver_message c m ''PRIVMSG'' True s"

definition handle_notice :: "cid \<Rightarrow> message \<Rightarrow> server \<Rightarrow> server" where
  "handle_notice c m s = deliver_message c m ''NOTICE'' False s"

section \<open>The invariant\<close>

lemma quiet_mask_broadcast [simp, intro]: "quiet s (deliver_mask_broadcast c u k t m h e s)"
proof -
  have "quiet s (fold (\<lambda>snap s. if is_remote snap \<or> \<not> glob_match_host k (mask_candidate (srv_name s) h snap) then s
      else send_to_user msg (u_ID snap) s) snaps s)" for h msg snaps s
    by (rule quiet_fold) simp
  note f = this
  show ?thesis unfolding deliver_mask_broadcast_def Let_def
    by (simp, intro impI conjI quiet_trans [OF f quiet_forward_to_all])
qed

lemmas wf_mask_broadcast [invs] = quiet_wf [OF quiet_mask_broadcast]

lemma wf_target_channel: "wf_server s \<Longrightarrow> wf_server (fst (target_channel t s))"
proof -
  assume wf: "wf_server s"
  obtain s1 r where t: "resolve_safe_channel t s = (s1, r)" by force
  then have "wf_server s1" using resolve_safe_channel_wf [OF wf] by blast
  with wf show ?thesis by (simp add: target_channel_def t split: option.split)
qed

lemma wf_speak [invs]: "wf_server s \<Longrightarrow> wf_server (speak c u ch t m s)"
  by (simp add: speak_def Let_def invs)

lemma wf_deliver_to_channel [invs]: "wf_server s \<Longrightarrow> wf_server (deliver_to_channel c u t x m e s)"
proof -
  assume wf: "wf_server s"
  obtain s1 r where t: "target_channel t s = (s1, r)" by force
  have "wf_server s1" using wf_target_channel [OF wf, of t] t by simp
  then show ?thesis by (simp add: deliver_to_channel_def t Let_def invs split: option.split)
qed

lemma wf_deliver_to_user [invs]: "wf_server s \<Longrightarrow> wf_server (deliver_to_user c u t x m e s)"
  by (simp add: deliver_to_user_def Let_def invs split: option.split)

lemma wf_one_target [invs]: "wf_server s \<Longrightarrow> wf_server (deliver_one_target c u x m e t s)"
  by (simp add: deliver_one_target_def invs)

lemma wf_take_token: "wf_server s \<Longrightarrow> wf_server (fst (take_token c s))"
proof -
  assume wf: "wf_server s"
  obtain b ok where b: "bucket_take (sv_now s) (cn_msgBucket (sv_heap s c)) = (b, ok)" by force
  have "wf_conn ((sv_heap s c)\<lparr>cn_msgBucket := b\<rparr>)"
    using wf_serverD(3) [OF wf, of c] wf_bucket_take [of "cn_msgBucket (sv_heap s c)" "sv_now s"] b by (simp add: wf_conn_def)
  then show ?thesis using wf_upd_conn [OF wf, of "\<lambda>cn. cn\<lparr>cn_msgBucket := b\<rparr>" c] by (simp add: take_token_def b)
qed

lemma wf_conn_marks [invs]:
  "wf_server s \<Longrightarrow> wf_server (upd_conn c (\<lambda>cn. cn\<lparr>cn_lastMessageAt := t\<rparr>) s)"
  "wf_server s \<Longrightarrow> wf_server (upd_conn c (\<lambda>cn. cn\<lparr>cn_msgViolations := cn_msgViolations cn + 1\<rparr>) s)"
  by (rule wf_upd_conn; use wf_serverD(3) in \<open>simp add: wf_conn_def\<close>)+

lemma wf_note_violation [invs]: "wf_server s \<Longrightarrow> wf_server (note_violation c s)"
  by (simp add: note_violation_def Let_def invs)

lemma wf_targets [invs]: "wf_server s \<Longrightarrow> wf_server (fold (deliver_one_target c u x m e) ts s)"
  by (rule wf_fold) (simp_all add: invs)

lemma wf_deliver_message [invs]: "wf_server s \<Longrightarrow> wf_server (deliver_message c msg m e s)"
proof -
  assume wf: "wf_server s"
  obtain s1 ok where t: "take_token c s = (s1, ok)" by force
  have "wf_server s1" using wf_take_token [OF wf, of c] t by simp
  then show ?thesis using wf by (simp add: deliver_message_def t Let_def invs split: option.split bool.split)
qed

lemma wf_handle_messages [invs]:
  "wf_server s \<Longrightarrow> wf_server (handle_privmsg c m s)" "wf_server s \<Longrightarrow> wf_server (handle_notice c m s)"
  by (simp_all add: handle_privmsg_def handle_notice_def invs)

section \<open>Who hears a channel message\<close>

text \<open>The right to speak, as the rules of the modes have it.\<close>

definition may_speak :: "channel \<Rightarrow> uid \<Rightarrow> server \<Rightarrow> bool" where
  "may_speak ch u s =
     (let strong = mem_is_op (membership_of u ch) \<or> mem_is_voice (membership_of u ch)
      in (m_noExternal (ch_modes ch) \<longrightarrow> is_member u ch) \<and> (m_moderated (ch_modes ch) \<longrightarrow> strong) \<and>
         (matches_quiet (hostmask (user_of u s)) (sfold s) ch \<longrightarrow> strong))"

lemma speak_refusal_None: "speak_refusal ch u s = None \<longleftrightarrow> may_speak ch u s"
  by (auto simp: speak_refusal_def may_speak_def Let_def)

text \<open>No service is a member: every virtual member is a Lua bot.\<close>

definition lua_members :: "uid list \<Rightarrow> server \<Rightarrow> bool" where
  "lua_members us s = (\<forall>v \<in> set us. bot_for v s \<notin> Some ` {NickServBot, ChanServBot, MemoServBot})"

lemma deliver_member_lua:
  assumes "lua_members us s" "u \<in> set us"
  shows "deliver_member deliver_bot m u s = deliver_member deliver_plain m u s"
    "lua_members us (deliver_member deliver_plain m u s)"
proof -
  have b: "bot_for u s = Some b \<Longrightarrow> \<exists>q. b = LuaBot q" for b using assms by (cases b) (auto simp: lua_members_def)
  then show "deliver_member deliver_bot m u s = deliver_member deliver_plain m u s"
    by (fastforce simp: deliver_member_def deliver_bot_def split: option.split)
  have "bot_for v (send c m s) = bot_for v s" for v c by (simp add: bot_for_def send_def upd_conn_def)
  then show "lua_members us (deliver_member deliver_plain m u s)"
    using assms(1) b by (fastforce simp: deliver_member_def lua_members_def deliver_plain_def bot_for_def split: option.split bot.split)
qed

lemma broadcast_lua:
  assumes "lua_members (member_ids ch) s"
  shows "broadcast_with deliver_bot ch m e i s = broadcast_with deliver_plain ch m e i s"
proof -
  have "set us \<subseteq> set all \<Longrightarrow> lua_members all s \<Longrightarrow>
      fold (\<lambda>u s. if \<not> i \<and> u = e then s else deliver_member deliver_bot x u s) us s =
      fold (\<lambda>u s. if \<not> i \<and> u = e then s else deliver_member deliver_plain x u s) us s" for us all x
  proof (induction us arbitrary: s)
    case (Cons u us)
    note m = deliver_member_lua [of all s u x]
    show ?case
    proof (cases "\<not> i \<and> u = e")
      case True
      then show ?thesis using Cons by simp
    next
      case False
      have "deliver_member deliver_bot x u s = deliver_member deliver_plain x u s" "lua_members all (deliver_member deliver_plain x u s)"
        using m Cons.prems by simp_all
      then show ?thesis using Cons.IH [of "deliver_member deliver_plain x u s"] Cons.prems False by (simp only: fold_simps if_False set_simps insert_subset)
    qed
  qed simp
  then show ?thesis using assms unfolding broadcast_with_def by blast
qed

text \<open>
  C8: Who hears a \<^verbatim>\<open>PRIVMSG\<close> or \<^verbatim>\<open>NOTICE\<close> to a channel. If the modes let the sender speak, every local member
  but the sender (and the sender too with \<^verbatim>\<open>echo-message\<close>) gets the message once, under the anonymous prefix on
  an anonymous channel, and no other connection gets anything. If they do not, nobody gets anything, save
  the sender of a \<^verbatim>\<open>PRIVMSG\<close> one error. (The services are never members.)
\<close>

theorem channel_speech:
  assumes wf: "wf_server s" and ch: "find_channel target (sv_world s) = Some ch" and lua: "lua_members (member_ids ch) s"
  shows "sv_heap (deliver_to_channel c u target text command emitErrors s) d =
    (if may_speak ch u s then
       (case cn_user (sv_heap s d) of
          None \<Rightarrow> sv_heap s d
        | Some v \<Rightarrow>
            if is_member v ch \<and> (v \<noteq> u \<or> has_cap ''echo-message'' (sv_heap s c))
            then enqueue (tag_for (sv_heap s d) s (plain_message
                    (if m_anonymous (ch_modes ch) then ''anonymous!anonymous@anonymous.'' else hostmask (user_of u s))
                    command [ch_name ch, text])) (sv_heap s d)
            else sv_heap s d)
     else if emitErrors \<and> d = c then
       enqueue (tag_for (sv_heap s c) s (numeric_reply (srv_name s) (u_Nick (user_of u s)) ''404''
         [ch_name ch, the (speak_refusal ch u s)])) (sv_heap s c)
     else sv_heap s d)"
proof (cases "may_speak ch u s")
  case True
  then have "deliver_to_channel c u target text command emitErrors s = speak c u ch text command s"
    using speak_refusal_None [of ch u s] by (simp add: deliver_to_channel_def target_channel_def ch Let_def)
  moreover have d: "distinct (member_ids ch)" "v \<in> set (member_ids ch) \<longleftrightarrow> is_member v ch" for v
    using find_channel_wf(1) [OF wf_worldD(2) [OF wf_serverD(1) [OF wf]] ch] by (simp_all add: distinct_member_ids member_ids_iff)
  ultimately show ?thesis using True
      deliver_fold [OF wf d(1), of "\<lambda>v. \<not> has_cap ''echo-message'' (sv_heap s c) \<and> v = u"]
    by (simp add: speak_def Let_def broadcast_lua [OF lua]) (auto simp: broadcast_with_def d(2) anonymize_def anonymous_mask_def plain_message_def split: option.split)
next
  case False
  then obtain why where "speak_refusal ch u s = Some why" using speak_refusal_None [of ch u s] by (cases "speak_refusal ch u s") auto
  then show ?thesis using False by (auto simp: deliver_to_channel_def target_channel_def ch Let_def reply_def send_heap)
qed

lemma channel_speech_witness:
  "sv_heap (deliver_to_channel 2 2 ''#a'' ''hi'' ''PRIVMSG'' True demo_net) 1 = sv_heap demo_net 1 \<and>
   sv_heap (deliver_to_channel 1 1 ''#a'' ''hi'' ''PRIVMSG'' True demo_net) 2 = sv_heap demo_net 2"
proof -
  have f: "find_channel ''#a'' (sv_world demo_net) = Some demo_channel" using demo_facts by simp
  have l: "lua_members (member_ids demo_channel) demo_net" by (simp add: lua_members_def bot_for_def)
  have no: "\<not> may_speak demo_channel 2 demo_net" by (simp add: may_speak_def demo_facts(4)) code_simp
  show ?thesis
    using channel_speech [OF wf_demo_net f l, of 2 2 "''hi''" "''PRIVMSG''" True 1]
      channel_speech [OF wf_demo_net f l, of 1 1 "''hi''" "''PRIVMSG''" True 2] no demo_facts(4)
    by (auto split: if_splits)
qed

section \<open>Notices are never answered\<close>

text \<open>The queues grow by messages with the property \<open>P\<close> only.\<close>

definition only_sends :: "(message \<Rightarrow> bool) \<Rightarrow> server \<Rightarrow> server \<Rightarrow> bool" where
  "only_sends P s s' = (\<forall>d. \<exists>ms. cn_out (sv_heap s' d) = cn_out (sv_heap s d) @ ms \<and> (\<forall>x \<in> set ms. P x))"

lemma only_sends_heap: "(\<And>d. cn_out (sv_heap s' d) = cn_out (sv_heap s d)) \<Longrightarrow> only_sends P s s'"
  by (simp add: only_sends_def)

lemma only_sends_refl [simp]: "only_sends P s s"
  by (rule only_sends_heap) simp

lemma only_sends_trans [trans]: "only_sends P a b \<Longrightarrow> only_sends P b c \<Longrightarrow> only_sends P a c"
  unfolding only_sends_def by (metis Un_iff append.assoc set_append)

lemma only_sends_fold: "(\<And>x s. only_sends P s (f x s)) \<Longrightarrow> only_sends P s (fold f xs s)"
  by (induction xs arbitrary: s) (auto intro: only_sends_heap only_sends_trans)

lemma tag_for_command [simp]: "msg_Command (tag_for cn s m) = msg_Command m"
  by (simp add: tag_for_def with_tag_def Let_def split: option.split)

lemma only_sends_send: "P (msg_Command m) \<Longrightarrow> only_sends (\<lambda>x. P (msg_Command x)) s (send c m s)"
  by (auto simp: only_sends_def send_heap enqueue_def cancel_conn_def)

lemma only_sends_cancel [simp]: "only_sends P s (cancel c x s)"
  by (rule only_sends_heap) (simp add: cancel_def upd_conn_def cancel_conn_def)

abbreviation notices :: "server \<Rightarrow> server \<Rightarrow> bool" where
  "notices \<equiv> only_sends (\<lambda>x. msg_Command x = ''NOTICE'')"

lemma notices_send: "msg_Command m = ''NOTICE'' \<Longrightarrow> notices s (send c m s)"
  by (rule only_sends_send [of "\<lambda>x. x = ''NOTICE''"])

lemma notices_forward: "notices s t \<Longrightarrow> notices s (forward_to_all m t)" "notices s t \<Longrightarrow> notices s (forward_channel ch m t)"
  by (simp_all add: only_sends_def)

lemma notices_bot: "msg_Command m = ''NOTICE'' \<Longrightarrow> notices s (deliver_bot u b m s)"
  by (rule only_sends_heap)
    (cases b; simp add: deliver_bot_def nickserv_deliver_def chanserv_deliver_def memoserv_deliver_def deliver_plain_def)

lemma notices_broadcast: "msg_Command m = ''NOTICE'' \<Longrightarrow> notices s (broadcast_with deliver_bot ch m e i s)"
  unfolding broadcast_with_def
  by (rule only_sends_fold) (auto simp: deliver_member_def anonymize_def intro: only_sends_heap notices_send notices_bot split: option.split)

lemma safe_id_loop_heap: "sv_heap (fst (safe_id_loop k s)) = sv_heap s"
  by (induction k arbitrary: s) (simp_all add: Let_def)

lemma target_channel_heap: "sv_heap (fst (target_channel t s)) = sv_heap s"
proof -
  obtain s1 i where "safe_id_loop 8 s = (s1, i)" by force
  moreover from this have "sv_heap s1 = sv_heap s" using safe_id_loop_heap [of 8 s] by simp
  ultimately show ?thesis
    by (simp add: target_channel_def resolve_safe_channel_def new_safe_channel_id_def Let_def split: option.split)
qed

lemma notices_one_target: "notices s (deliver_one_target c u text ''NOTICE'' False target s)"
proof -
  have mask: "notices s (deliver_mask_broadcast c u k text ''NOTICE'' h False s)" for k h
  proof -
    have "notices t (if b then t else send_to_user (plain_message p ''NOTICE'' ps) v t)" for b p ps v t
      by (simp add: send_to_user_def notices_send plain_message_def split: option.split)
    then show ?thesis unfolding deliver_mask_broadcast_def Let_def
      by (simp, intro impI conjI notices_forward only_sends_fold)
  qed
  obtain s1 r where t: "target_channel target s = (s1, r)" by force
  have h: "sv_heap s1 = sv_heap s" using target_channel_heap [of target s] t by simp
  have "notices s1 (speak c u ch text ''NOTICE'' s1)" for ch
    unfolding speak_def Let_def by (rule notices_forward(2), rule notices_broadcast) (simp add: plain_message_def)
  then have chan: "notices s (deliver_to_channel c u target text ''NOTICE'' False s)"
    by (auto simp: deliver_to_channel_def t Let_def only_sends_def h split: option.split)
  have echo: "notices s t \<Longrightarrow> msg_Command m = ''NOTICE'' \<Longrightarrow> notices s (send c m t)" for s t c m
    by (rule only_sends_trans [OF _ notices_send])
  have "notices s (deliver_to_user c u k text ''NOTICE'' False s)" for k
    by (simp add: deliver_to_user_def Let_def plain_message_def echo notices_bot split: option.split)
  with mask chan show ?thesis by (simp add: deliver_one_target_def)
qed

lemma handle_notice_sends:
  "\<exists>ms. cn_out (sv_heap (handle_notice c m s) d) = cn_out (sv_heap s d) @ ms \<and>
     (\<forall>x \<in> set ms. msg_Command x = ''NOTICE'' \<or> d = c \<and> msg_Command x = ''ERROR'')"
proof (cases "registered_user c s = None \<or> length (msg_Params m) < 2 \<or> msg_Params m ! 0 = [] \<or> msg_Params m ! 1 = []")
  case True
  then have "handle_notice c m s = s"
    by (auto simp: handle_notice_def deliver_message_def Let_def split: option.split)
  then show ?thesis by simp
next
  case False
  then obtain u where u: "registered_user c s = Some u" by auto
  have ne: "msg_Params m \<noteq> []" using False by auto
  obtain s1 ok where t: "take_token c s = (s1, ok)" by force
  have out: "cn_out (sv_heap s1 e) = cn_out (sv_heap s e)" for e
    using t by (auto simp: take_token_def upd_conn_def split: prod.splits)
  show ?thesis
  proof (cases ok)
    case True
    define s2 where "s2 = fold (deliver_one_target c u (msg_Params m ! 1) ''NOTICE'' False) (split_on CHR '','' (msg_Params m ! 0)) s1"
    have e: "handle_notice c m s = upd_conn c (\<lambda>cn. cn\<lparr>cn_lastMessageAt := sv_now s1\<rparr>) s2"
      using False True u t ne by (simp add: handle_notice_def deliver_message_def Let_def s2_def)
    have "cn_out (sv_heap (handle_notice c m s) d) = cn_out (sv_heap s2 d)" unfolding e by (simp add: upd_conn_def)
    moreover have "notices s1 s2" unfolding s2_def by (rule only_sends_fold) (rule notices_one_target)
    ultimately show ?thesis using out unfolding only_sends_def by metis
  next
    case no: False
    then have e: "handle_notice c m s = note_violation c s1"
      using False u t ne by (simp add: handle_notice_def deliver_message_def Let_def)
    have "\<exists>ms. cn_out (sv_heap (note_violation c s1) d) = cn_out (sv_heap s1 d) @ ms \<and> (\<forall>x \<in> set ms. d = c \<and> msg_Command x = ''ERROR'')"
      by (auto simp: note_violation_def Let_def cancel_def send_error_def send_heap upd_conn_def enqueue_def cancel_conn_def plain_message_def)
    then show ?thesis unfolding e out by blast
  qed
qed

text \<open>
  A \<^verbatim>\<open>NOTICE\<close> is never answered. Whatever it is addressed to and whatever goes wrong, all that a \<^verbatim>\<open>NOTICE\<close>
  puts into the queue of any connection is \<^verbatim>\<open>NOTICE\<close> messages; only flood control may add an \<^verbatim>\<open>ERROR\<close> for the
  sender. In particular two automatic repliers cannot drive each other through the server.
\<close>

theorem notice_unanswered:
  "\<exists>ms. cn_out (sv_heap (handle_notice c m s) d) = cn_out (sv_heap s d) @ ms \<and>
     list_all (\<lambda>x. msg_Command x = ''NOTICE'' \<or> d = c \<and> msg_Command x = ''ERROR'') ms"
  using handle_notice_sends [of c m s d] by (simp add: list_all_iff)

end
