(* ===== verification/Server_Federation.thy ===== *)
theory Server_Federation
  imports Message_Cmds
begin

text \<open>
  The server's side of federation, \<^verbatim>\<open>internal/server/federation.go\<close>: delivery of what a peer sends, the
  end of a local user a peer asks for, and the recovery from the loss of a peer. (Registries and outbound
  forwarding are in \<open>Server_State\<close>.) The main theorem is the recovery: exactly the lost users go, and a
  second report of the same loss does nothing.
\<close>

section \<open>Delivery of what a peer sends\<close>

definition deliver_channel_local :: "channel \<Rightarrow> message \<Rightarrow> server \<Rightarrow> server" where
  "deliver_channel_local ch m s =
     fold (\<lambda>i s.
       case find_by_id i (sv_world s) of
         None \<Rightarrow> s
       | Some u \<Rightarrow> if is_remote (user_of u s) then s else deliver_member deliver_bot m u s) (member_ids ch) s"

definition sender_nick_from_prefix :: "string \<Rightarrow> string" where
  "sender_nick_from_prefix prefix =
     (case index_byte CHR ''!'' prefix of None \<Rightarrow> prefix | Some i \<Rightarrow> take i prefix)"

text \<open>The visits of the walk: each peer with the first shared channel it is seen in.\<close>

fun first_by :: "'a list \<Rightarrow> ('a \<times> 'b) list \<Rightarrow> ('a \<times> 'b) list" where
  "first_by seen [] = []"
| "first_by seen (x # xs) =
     (if fst x \<in> set seen then first_by seen xs else x # first_by (fst x # seen) xs)"

definition is_local :: "uid \<Rightarrow> world \<Rightarrow> bool" where
  "is_local i w = (case find_by_id i w of None \<Rightarrow> False | Some u \<Rightarrow> \<not> is_remote (w_store w u))"

definition local_visits :: "uid \<Rightarrow> world \<Rightarrow> (uid \<times> channel) list" where
  "local_visits u w =
     first_by [u] (concat (map (\<lambda>ch. map (\<lambda>i. (i, ch)) (filter (\<lambda>i. is_local i w) (member_ids ch))) (user_channels u w)))"

definition deliver_per_user_channels :: "message \<Rightarrow> server \<Rightarrow> server" where
  "deliver_per_user_channels m s =
     (case find_by_nick (sender_nick_from_prefix (msg_Prefix m)) (sv_world s) of
        None \<Rightarrow> s
      | Some u \<Rightarrow> fold (\<lambda>(i, ch). send_to_user (anonymize ch m) i) (local_visits u (sv_world s)) s)"

definition deliver_wallops_local :: "message \<Rightarrow> server \<Rightarrow> server" where
  "deliver_wallops_local m s =
     fold (\<lambda>snap s. if is_remote snap \<or> CHR ''w'' \<notin> set (u_Modes snap) then s else send_to_user m (u_ID snap) s)
       (snapshot (sv_world s)) s"

definition deliver_local :: "message \<Rightarrow> server \<Rightarrow> server" where
  "deliver_local m s =
     (if msg_Command m \<in> set [''PRIVMSG'', ''NOTICE''] then
        (case msg_Params m of
           [] \<Rightarrow> s
         | target # _ \<Rightarrow>
             if target \<noteq> [] \<and> (hd target = CHR ''#'' \<or> hd target = CHR ''&'') then
               (case find_channel target (sv_world s) of None \<Rightarrow> s | Some ch \<Rightarrow> deliver_channel_local ch m s)
             else
               (case find_by_nick target (sv_world s) of
                  None \<Rightarrow> s
                | Some u \<Rightarrow> if is_remote (user_of u s) then s else send_to_user m u s))
      else if msg_Command m \<in> set [''JOIN'', ''PART'', ''KICK'', ''TOPIC'', ''MODE''] then
        (case msg_Params m of
           [] \<Rightarrow> s
         | name # _ \<Rightarrow> (case find_channel name (sv_world s) of None \<Rightarrow> s | Some ch \<Rightarrow> deliver_channel_local ch m s))
      else if msg_Command m \<in> set [''QUIT'', ''NICK''] then deliver_per_user_channels m s
      else if msg_Command m = ''WALLOPS'' then deliver_wallops_local m s
      else s)"

section \<open>The end of a local user\<close>

definition drop_local_user :: "string \<Rightarrow> string \<Rightarrow> server \<Rightarrow> server" where
  "drop_local_user nick reason s =
     (let why = (if reason = [] then ''Killed'' else reason) in
      case find (\<lambda>(_, c). case cn_user (sv_heap s c) of None \<Rightarrow> False | Some u \<Rightarrow> u_Nick (user_of u s) = nick) (sv_conns s) of
        None \<Rightarrow> s
      | Some (_, c) \<Rightarrow>
          cancel c ''context canceled'' (send_error c why (upd_conn c (\<lambda>cn. cn\<lparr>cn_quitReason := why\<rparr>) s)))"

section \<open>The loss of a peer\<close>

definition squit_seen_ttl :: time where
  "squit_seen_ttl = 5 * 1000000000"

definition squit_seen_recently :: "string \<Rightarrow> string \<Rightarrow> server \<Rightarrow> server \<times> bool" where
  "squit_seen_recently peer reason s =
     (let now = sv_now s; kept = filter (\<lambda>(_, exp). \<not> exp < now) (sv_squitSeen s) in
      case map_of kept (peer, reason) of
        Some exp \<Rightarrow> if now < exp then (s\<lparr>sv_squitSeen := kept\<rparr>, True)
                    else (s\<lparr>sv_squitSeen := mput (peer, reason) (now + squit_seen_ttl) kept\<rparr>, False)
      | None \<Rightarrow> (s\<lparr>sv_squitSeen := mput (peer, reason) (now + squit_seen_ttl) kept\<rparr>, False))"

text \<open>One lost user, as the snapshot has it.\<close>

definition lose_user :: "string \<Rightarrow> user \<Rightarrow> server \<Rightarrow> server" where
  "lose_user reason u s =
     upd_sworld (\<lambda>w. fst (remove_user (u_ID u) w))
       (record_whowas u (deliver_per_user_channels (plain_message (hostmask u) ''QUIT'' [reason]) s))"

definition forward_squit :: "string \<Rightarrow> string \<Rightarrow> server \<Rightarrow> server" where
  "forward_squit peer reason s =
     fold (\<lambda>p. if p = peer then (\<lambda>s. s) else link_send p (plain_message (srv_name s) ''SQUIT'' [peer, reason]))
       (map fst (sv_links s)) s"

definition handle_squit_loss :: "string \<Rightarrow> string \<Rightarrow> server \<Rightarrow> server" where
  "handle_squit_loss peer reason0 s =
     (if peer = [] then s
      else
        let reason = (if reason0 = [] then ''Net split'' else reason0) in
        case squit_seen_recently peer reason s of
          (s1, True) \<Rightarrow> s1
        | (s1, False) \<Rightarrow>
            forward_squit peer reason
              (fold (\<lambda>u s. if u_HomeServer u \<noteq> peer then s else lose_user reason u s) (snapshot (sv_world s1)) s1))"

section \<open>The link registry as the dashboard sees it\<close>

record link_row =
  lr_peer :: string
  lr_state :: string
  lr_subscribed :: "string list"
  lr_sentMessages :: nat
  lr_sentBytes :: nat
  lr_recvMessages :: nat
  lr_recvBytes :: nat
  lr_openedAt :: "time option"

text \<open>\<open>rich peer\<close> is what the link itself reports, \<^const>\<open>None\<close> for a link that only sends.\<close>

type_synonym link_report = "string \<Rightarrow> link_row option"

definition federation_snapshot :: "link_report \<Rightarrow> server \<Rightarrow> link_row list" where
  "federation_snapshot rich s =
     map (\<lambda>(p, _).
       (case rich p of
          Some r \<Rightarrow> r\<lparr>lr_peer := p, lr_subscribed := (case map_of (sv_subs s) p of None \<Rightarrow> [] | Some m \<Rightarrow> map fst m)\<rparr>
        | None \<Rightarrow> \<lparr>lr_peer = p, lr_state = ''active'',
                    lr_subscribed = (case map_of (sv_subs s) p of None \<Rightarrow> [] | Some m \<Rightarrow> map fst m),
                    lr_sentMessages = 0, lr_sentBytes = 0, lr_recvMessages = 0, lr_recvBytes = 0, lr_openedAt = None\<rparr>))
       (sv_links s)"

section \<open>The invariant\<close>

lemma wf_deliver_member_bot: "wf_server s \<Longrightarrow> wf_server (deliver_member deliver_bot m u s)"
  by (simp add: deliver_member_def invs split: option.split)

lemma wf_deliver_channel_local [invs]: "wf_server s \<Longrightarrow> wf_server (deliver_channel_local ch m s)"
  unfolding deliver_channel_local_def
  by (rule wf_fold) (simp_all add: wf_deliver_member_bot split: option.split)

lemma quiet_visits: "quiet s (fold (\<lambda>(i, ch). send_to_user (anonymize ch m) i) vs s)"
  by (rule quiet_fold) (simp add: case_prod_unfold)

lemma quiet_per_user_channels [simp, intro]: "quiet s (deliver_per_user_channels m s)"
  by (simp add: deliver_per_user_channels_def quiet_visits split: option.split)

lemma quiet_wallops_local [simp, intro]: "quiet s (deliver_wallops_local m s)"
  unfolding deliver_wallops_local_def by (rule quiet_fold) simp

lemmas wf_fed_quiet [invs] = quiet_wf [OF quiet_per_user_channels] quiet_wf [OF quiet_wallops_local]
lemmas fed_quiet_frames [simp, frames] = quietD [OF quiet_per_user_channels] quietD [OF quiet_wallops_local]

lemma wf_deliver_local [invs]: "wf_server s \<Longrightarrow> wf_server (deliver_local m s)"
proof -
  assume wf: "wf_server s"
  have either: "wf_server a \<Longrightarrow> wf_server b \<Longrightarrow> wf_server (if c then a else b)" for a b c by simp
  show ?thesis unfolding deliver_local_def
    by (cases "msg_Params m") (simp_all only: list.case, (intro either; simp add: wf invs split: option.split)+)
qed

lemma wf_drop_local_user [invs]: "wf_server s \<Longrightarrow> wf_server (drop_local_user n r s)"
  unfolding drop_local_user_def Let_def by (simp add: invs split: option.split prod.split)

lemma remove_user_frames [simp]:
  "w_store (fst (remove_user u w)) = w_store w" "w_nextID (fst (remove_user u w)) = w_nextID w"
  "w_byID (fst (remove_user u w)) = mdel u (w_byID w)"
  by (simp_all add: remove_user_def mdel_absent)

lemma wf_remove_user_server [invs]: "wf_server s \<Longrightarrow> wf_server (upd_sworld (\<lambda>w. fst (remove_user u w)) s)"
  by (rule wf_upd_sworld) (simp_all add: wf_remove_user wf_serverD(1))

lemma wf_lose_user [invs]: "wf_server s \<Longrightarrow> wf_server (lose_user r u s)"
  by (simp add: lose_user_def invs)

lemma quiet_forward_squit [simp, intro]: "quiet s (forward_squit p r s)"
  unfolding forward_squit_def by (rule quiet_fold) simp

lemmas wf_forward_squit [invs] = quiet_wf [OF quiet_forward_squit]
lemmas forward_squit_frames [simp, frames] = quietD [OF quiet_forward_squit]

lemma wf_squit_loss [invs]: "wf_server s \<Longrightarrow> wf_server (handle_squit_loss p r s)"
proof -
  assume wf: "wf_server s"
  have f: "wf_server t \<Longrightarrow> wf_server (fold (\<lambda>u s. if u_HomeServer u \<noteq> p then s else lose_user x u s) us t)" for us t x
    by (rule wf_fold) (simp_all add: invs)
  show ?thesis using wf
    by (simp add: handle_squit_loss_def squit_seen_recently_def Let_def f invs split: option.split)
qed

section \<open>Recovery from the loss of a peer\<close>

definition lost_to :: "string \<Rightarrow> world \<Rightarrow> uid \<Rightarrow> bool" where
  "lost_to peer w i = (u_HomeServer (w_store w i) = peer)"

lemma record_whowas_world [simp]: "sv_world (record_whowas u s) = sv_world s" "sv_links (record_whowas u s) = sv_links s"
  "sv_cfg (record_whowas u s) = sv_cfg s" "sv_squitSeen (record_whowas u s) = sv_squitSeen s" "sv_now (record_whowas u s) = sv_now s"
  by (simp_all add: record_whowas_def)

lemma send_links [simp]: "sv_links (send c m s) = sv_links s" "sv_links (send_to_user m u s) = sv_links s"
  by (simp_all add: send_to_user_def send_def upd_conn_def split: option.split)

lemma fold_links: "(\<And>x s. sv_links (f x s) = sv_links s) \<Longrightarrow> sv_links (fold f xs s) = sv_links s"
  by (induction xs arbitrary: s) simp_all

lemma per_user_links [simp]: "sv_links (deliver_per_user_channels m s) = sv_links s"
  by (auto simp: deliver_per_user_channels_def intro!: fold_links split: option.split)

lemma lose_user_frames [simp]:
  "sv_world (lose_user r u s) = fst (remove_user (u_ID u) (sv_world s))" "sv_links (lose_user r u s) = sv_links s"
  "sv_cfg (lose_user r u s) = sv_cfg s" "sv_squitSeen (lose_user r u s) = sv_squitSeen s" "sv_now (lose_user r u s) = sv_now s"
  by (simp_all add: lose_user_def upd_sworld_def)

abbreviation lose_all :: "string \<Rightarrow> string \<Rightarrow> user list \<Rightarrow> server \<Rightarrow> server" where
  "lose_all peer r us \<equiv> fold (\<lambda>u s. if u_HomeServer u \<noteq> peer then s else lose_user r u s) us"

lemma lose_all_frames:
  "sv_links (lose_all p r us s) = sv_links s" "sv_cfg (lose_all p r us s) = sv_cfg s"
  "sv_squitSeen (lose_all p r us s) = sv_squitSeen s" "sv_now (lose_all p r us s) = sv_now s"
  "w_store (sv_world (lose_all p r us s)) = w_store (sv_world s)" "w_mapping (sv_world (lose_all p r us s)) = w_mapping (sv_world s)"
  "mhas (w_byID (sv_world (lose_all p r us s))) i \<longleftrightarrow>
     mhas (w_byID (sv_world s)) i \<and> \<not> (\<exists>u \<in> set us. u_HomeServer u = p \<and> u_ID u = i)"
  by (induction us arbitrary: s) auto

lemma link_send_map:
  "map_of (sv_links (link_send p m s)) q = (if q = p then map_option (\<lambda>x. x @ [m]) (map_of (sv_links s) p) else map_of (sv_links s) q)"
  "srv_name (link_send p m s) = srv_name s"
  by (auto simp: link_send_def split: option.split)

lemma forward_squit_map:
  assumes "wf_map (sv_links s)"
  shows "map_of (sv_links (forward_squit peer r s)) q =
    (if q = peer then map_of (sv_links s) q
     else map_option (\<lambda>x. x @ [plain_message (srv_name s) ''SQUIT'' [peer, r]]) (map_of (sv_links s) q))"
proof -
  have "distinct ps \<Longrightarrow> map_of (sv_links (fold (\<lambda>p. if p = peer then (\<lambda>s. s) else link_send p m) ps t)) q =
      (if q = peer \<or> q \<notin> set ps then map_of (sv_links t) q else map_option (\<lambda>x. x @ [m]) (map_of (sv_links t) q))" for ps t m
    by (induction ps arbitrary: t) (auto simp: link_send_map)
  moreover have "q \<notin> set (map fst (sv_links s)) \<Longrightarrow> map_of (sv_links s) q = None" by (simp add: map_of_eq_None_iff)
  ultimately show ?thesis using assms by (auto simp: forward_squit_def wf_map_def)
qed

lemma squit_seen_frames:
  assumes "squit_seen_recently p r s = (s1, b)"
  shows "s1 = s\<lparr>sv_squitSeen := sv_squitSeen s1\<rparr>"
    "\<not> b \<Longrightarrow> map_of (sv_squitSeen s1) (p, r) = Some (sv_now s + squit_seen_ttl)"
    "sv_world s1 = sv_world s" "sv_links s1 = sv_links s" "sv_cfg s1 = sv_cfg s" "sv_now s1 = sv_now s"
  using assms by (auto simp: squit_seen_recently_def Let_def split: option.splits if_splits)

lemma wf_map_filter: "wf_map m \<Longrightarrow> wf_map (filter P m)"
  by (simp add: wf_map_def distinct_map_filter)

lemma squit_again:
  assumes "wf_map (sv_squitSeen s)" "map_of (sv_squitSeen s) (p, r) = Some x" "sv_now s < x"
  shows "snd (squit_seen_recently p r s)"
proof -
  have "((p, r), x) \<in> set (filter (\<lambda>(_, exp). \<not> exp < sv_now s) (sv_squitSeen s))"
    using assms map_of_iff_mem [OF assms(1)] by auto
  moreover have "wf_map (filter (\<lambda>(_, exp). \<not> exp < sv_now s) (sv_squitSeen s))"
    using assms(1) by (rule wf_map_filter)
  ultimately have "map_of (filter (\<lambda>(_, exp). \<not> exp < sv_now s) (sv_squitSeen s)) (p, r) = Some x"
    using map_of_iff_mem by metis
  then show ?thesis using assms(3) by (simp add: squit_seen_recently_def Let_def)
qed

lemma kept_option:
  assumes "\<And>i. a = Some i \<longleftrightarrow> b = Some i \<and> \<not> P i"
  shows "a = (case b of None \<Rightarrow> None | Some i \<Rightarrow> if P i then None else Some i)"
proof (cases a)
  case None
  then show ?thesis using assms by (cases b) auto
next
  case (Some i)
  then show ?thesis using assms [of i] by simp
qed

text \<open>
  C23: Recovery from a net split. The first report of the loss of a peer removes exactly the users at home on
  that peer from both directories, changes no other user, and is passed once to every other link and not to
  the lost one; a second report within the five seconds of the loop guard changes neither users nor links, so
  the reports in a mesh of any shape die out.
\<close>

theorem squit_recovery:
  fixes s :: server and peer reason :: string
  assumes "wf_server s" "wf_map (sv_squitSeen s)" "peer \<noteq> []" "reason \<noteq> []" "\<not> snd (squit_seen_recently peer reason s)"
  defines "s' \<equiv> handle_squit_loss peer reason s"
  shows "find_by_nick n (sv_world s') =
      (case find_by_nick n (sv_world s) of None \<Rightarrow> None | Some i \<Rightarrow> if lost_to peer (sv_world s) i then None else Some i) \<and>
    w_store (sv_world s') = w_store (sv_world s) \<and>
    map_of (sv_links s') q =
      (if q = peer then map_of (sv_links s) q
       else map_option (\<lambda>x. x @ [plain_message (srv_name s) ''SQUIT'' [peer, reason]]) (map_of (sv_links s) q)) \<and>
    (t < 5000000000 \<longrightarrow>
      (let s2 = handle_squit_loss peer reason (s'\<lparr>sv_now := sv_now s' + t\<rparr>)
       in sv_world s2 = sv_world s' \<and> sv_links s2 = sv_links s'))"
proof -
  obtain s1 where q1: "squit_seen_recently peer reason s = (s1, False)" using assms(5) by (cases "squit_seen_recently peer reason s") auto
  note s1 = squit_seen_frames [OF q1]
  define s2 where "s2 = lose_all peer reason (snapshot (sv_world s)) s1"
  have f1: "sv_world s1 = sv_world s" "sv_links s1 = sv_links s" "sv_cfg s1 = sv_cfg s" "sv_now s1 = sv_now s"
    by (rule s1)+
  have e: "s' = forward_squit peer reason s2"
    using assms(3,4) by (simp add: s'_def handle_squit_loss_def q1 s2_def f1)
  have wl: "w_store (sv_world s') = w_store (sv_world s)" "w_mapping (sv_world s') = w_mapping (sv_world s)"
    "sv_links s2 = sv_links s" "sv_cfg s2 = sv_cfg s" "sv_now s' = sv_now s" "sv_squitSeen s' = sv_squitSeen s1"
    by (simp_all add: e s2_def lose_all_frames f1)
  have wf': "wf_users (sv_world s')" "wf_users (sv_world s)"
    using wf_squit_loss [OF assms(1)] assms(1) by (simp_all add: s'_def wf_worldD(1) wf_serverD(1))
  have id: "mhas (w_byID (sv_world s)) i \<Longrightarrow> u_ID (w_store (sv_world s) i) = i" for i using wf'(2) by (simp add: wf_users_def)
  have by_id: "mhas (w_byID (sv_world s')) i \<longleftrightarrow> mhas (w_byID (sv_world s)) i \<and> \<not> lost_to peer (sv_world s) i" for i
  proof -
    have "mhas (w_byID (sv_world s)) i \<Longrightarrow>
        (\<exists>u \<in> set (snapshot (sv_world s)). u_HomeServer u = peer \<and> u_ID u = i) \<longleftrightarrow> lost_to peer (sv_world s) i"
      using id by (force simp: snapshot_def lost_to_def mhas_iff)
    then show ?thesis by (auto simp: e s2_def lose_all_frames f1)
  qed
  have "find_by_nick n (sv_world s') = Some i \<longleftrightarrow> find_by_nick n (sv_world s) = Some i \<and> \<not> lost_to peer (sv_world s) i" for i
    using holder_iff [OF wf'(1)] holder_iff [OF wf'(2)] by_id find_by_nick_Some(1) [OF wf'(1)] find_by_nick_Some(1) [OF wf'(2)] wl(1,2)
    by metis
  then have nick: "find_by_nick n (sv_world s') =
      (case find_by_nick n (sv_world s) of None \<Rightarrow> None | Some i \<Rightarrow> if lost_to peer (sv_world s) i then None else Some i)"
    by (rule kept_option)
  have links: "map_of (sv_links s') q = (if q = peer then map_of (sv_links s) q
       else map_option (\<lambda>x. x @ [plain_message (srv_name s) ''SQUIT'' [peer, reason]]) (map_of (sv_links s) q))"
    using forward_squit_map [of s2 peer reason q] wf_serverD(6) [OF assms(1)] by (simp add: e wl)
  have again: "sv_world r = sv_world s' \<and> sv_links r = sv_links s'"
    if "t < 5000000000" "r = handle_squit_loss peer reason (s'\<lparr>sv_now := sv_now s' + t\<rparr>)" for r
  proof -
    let ?t = "s'\<lparr>sv_now := sv_now s' + t\<rparr>"
    have "wf_map (sv_squitSeen s1)"
      using q1 assms(2) by (auto simp: squit_seen_recently_def Let_def intro!: wf_map_put wf_map_filter split: option.splits if_splits)
    then have "snd (squit_seen_recently peer reason ?t)"
      using s1(2) that(1) by (intro squit_again [of _ _ _ "sv_now s + squit_seen_ttl"]) (simp_all add: wl squit_seen_ttl_def)
    then obtain x where "squit_seen_recently peer reason ?t = (x, True)" by (cases "squit_seen_recently peer reason ?t") auto
    moreover from squit_seen_frames(3,4) [OF this] have "sv_world x = sv_world s'" "sv_links x = sv_links s'" by simp_all
    ultimately show ?thesis using that(2) assms(3,4) by (simp add: handle_squit_loss_def)
  qed
  show ?thesis using nick wl(1) links again unfolding Let_def by blast
qed

text \<open>\<open>demo_net\<close> with a user of the peer \<^verbatim>\<open>b\<close> and links to \<^verbatim>\<open>b\<close> and \<^verbatim>\<open>c\<close>.\<close>

definition demo_mesh :: server where
  "demo_mesh =
     upd_sworld (\<lambda>w. fst (add_user (zero_user\<lparr>u_Nick := ''re'', u_Registered := True, u_HomeServer := ''b''\<rparr>) 8 w))
       (register_link ''c'' (register_link ''b'' demo_net))"

lemma wf_register_link [invs]: "wf_server s \<Longrightarrow> wf_server (register_link p s)"
  by (auto simp: wf_server_def conns_ok_def user_of_def register_link_def)

lemma wf_demo_mesh: "wf_server demo_mesh"
  unfolding demo_mesh_def
proof (rule wf_upd_sworld)
  show "wf_server (register_link ''c'' (register_link ''b'' demo_net))" by (intro wf_register_link wf_demo_net)
qed (simp_all add: register_link_def wf_add_user [OF wf_demo_world], simp_all add: add_user_def Let_def)

lemma squit_recovery_witness:
  "let s' = handle_squit_loss ''b'' ''gone'' demo_mesh
   in find_by_nick ''re'' (sv_world demo_mesh) = Some 3 \<and> find_by_nick ''re'' (sv_world s') = None \<and>
      map_of (sv_links s') ''c'' = Some [plain_message ''irc.a'' ''SQUIT'' [''b'', ''gone'']]"
proof -
  have w: "sv_world demo_mesh = fst (add_user (zero_user\<lparr>u_Nick := ''re'', u_Registered := True, u_HomeServer := ''b''\<rparr>) 8 demo_world)"
    "sv_cfg demo_mesh = demo_config" "sv_squitSeen demo_mesh = []" "map_of (sv_links demo_mesh) ''c'' = Some []"
    by (simp_all add: demo_mesh_def register_link_def upd_sworld_def demo_net_def new_server_def)
  have u: "find_by_nick ''re'' (sv_world demo_mesh) = Some 3" "lost_to ''b'' (sv_world demo_mesh) 3"
    unfolding w by code_simp+
  have "wf_map (sv_squitSeen demo_mesh)" "\<not> snd (squit_seen_recently ''b'' ''gone'' demo_mesh)"
    by (simp_all add: w(3) squit_seen_recently_def Let_def)
  then show ?thesis
    using squit_recovery [OF wf_demo_mesh, of "''b''" "''gone''" "''re''" "''c''" 0] u w
    unfolding Let_def by (simp add: demo_config_def)
qed

end
