(* ===== verification/Query_Cmds.thy ===== *)
theory Query_Cmds
  imports Server_Federation
begin

text \<open>
  The commands that ask: \<^verbatim>\<open>NAMES\<close>, \<^verbatim>\<open>LIST\<close>, \<^verbatim>\<open>WHO\<close>, \<^verbatim>\<open>WHOIS\<close>, \<^verbatim>\<open>WHOWAS\<close>, \<^verbatim>\<open>USERHOST\<close>, \<^verbatim>\<open>ISON\<close>,
  \<^verbatim>\<open>VERSION\<close>, \<^verbatim>\<open>TIME\<close>, \<^verbatim>\<open>ADMIN\<close>, \<^verbatim>\<open>INFO\<close>, \<^verbatim>\<open>MOTD\<close>, \<^verbatim>\<open>LUSERS\<close>, \<^verbatim>\<open>STATS\<close>, \<^verbatim>\<open>TRACE\<close>, \<^verbatim>\<open>LINKS\<close>,
  \<^verbatim>\<open>SUMMON\<close>, \<^verbatim>\<open>USERS\<close>, \<^verbatim>\<open>SERVLIST\<close> (\<^verbatim>\<open>handler_query.go\<close>, \<^verbatim>\<open>handler_lookup.go\<close>, \<^verbatim>\<open>handler_whowas.go\<close>,
  \<^verbatim>\<open>handler_info.go\<close>, \<^verbatim>\<open>handler_stats.go\<close>, \<^verbatim>\<open>handler_trace.go\<close>, \<^verbatim>\<open>handler_fed_verbs.go\<close>,
  \<^verbatim>\<open>handler_summon_users.go\<close>, \<^verbatim>\<open>handler_squery.go\<close>). All of them only send to the asker. The theorem is that a
  query changes nothing but the asker's queue, and that the lists keep hidden channels from non-members.
\<close>

definition for_user :: "cid \<Rightarrow> (uid \<Rightarrow> server \<Rightarrow> server) \<Rightarrow> server \<Rightarrow> server" where
  "for_user c f s = (case registered_user c s of None \<Rightarrow> not_registered c s | Some u \<Rightarrow> f u s)"

definition is_oper :: "user \<Rightarrow> bool" where
  "is_oper x = (CHR ''o'' \<in> set (u_Modes x))"

definition no_privileges :: "cid \<Rightarrow> uid \<Rightarrow> server \<Rightarrow> server" where
  "no_privileges c u s =
     reply c (u_Nick (user_of u s)) ''481'' [''Permission Denied- You'' @ [CHR 0x27] @ ''re not an IRC operator''] s"

definition for_oper :: "cid \<Rightarrow> (uid \<Rightarrow> server \<Rightarrow> server) \<Rightarrow> server \<Rightarrow> server" where
  "for_oper c f = for_user c (\<lambda>u s. if is_oper (user_of u s) then f u s else no_privileges c u s)"

text \<open>\<^verbatim>\<open>c.send(protocol.NumericReply(srv, nick, ...))\<close> to the user's own connection.\<close>

definition tell :: "cid \<Rightarrow> uid \<Rightarrow> string \<Rightarrow> string list \<Rightarrow> server \<Rightarrow> server" where
  "tell c u code ps s = reply c (u_Nick (user_of u s)) code ps s"

definition hidden_from :: "channel \<Rightarrow> uid \<Rightarrow> bool" where
  "hidden_from ch u = ((m_secret (ch_modes ch) \<or> m_private (ch_modes ch)) \<and> \<not> is_member u ch)"

section \<open>NAMES and LIST\<close>

definition names_one :: "cid \<Rightarrow> uid \<Rightarrow> string \<Rightarrow> server \<Rightarrow> server" where
  "names_one c u name s =
     (case find_channel name (sv_world s) of
        None \<Rightarrow> tell c u ''366'' [name, ''End of NAMES list''] s
      | Some ch \<Rightarrow> if hidden_from ch u then tell c u ''366'' [name, ''End of NAMES list''] s else send_names_reply c u ch s)"

definition handle_names :: "cid \<Rightarrow> message \<Rightarrow> server \<Rightarrow> server" where
  "handle_names c m = for_user c (\<lambda>u s.
     (case msg_Params m of
        [] \<Rightarrow> tell c u ''366'' [''*'', ''End of NAMES list''] s
      | names # _ \<Rightarrow> fold (names_one c u) (split_on CHR '','' names) s))"

definition list_targets :: "message \<Rightarrow> world \<Rightarrow> channel list" where
  "list_targets m w =
     (case msg_Params m of
        [] \<Rightarrow> channels_snapshot w
      | names # _ \<Rightarrow> if names = [] then channels_snapshot w
                      else List.map_filter (\<lambda>n. find_channel n w) (split_on CHR '','' names))"

definition handle_list :: "cid \<Rightarrow> message \<Rightarrow> server \<Rightarrow> server" where
  "handle_list c m = for_user c (\<lambda>u s.
     tell c u ''323'' [''End of LIST'']
       (fold (\<lambda>ch. tell c u ''322'' [ch_name ch, itoa_positive (int (member_count ch)), ch_topic ch])
         (filter (\<lambda>ch. \<not> hidden_from ch u) (list_targets m (sv_world s)))
         (tell c u ''321'' [''Channel'', ''Users  Name''] s)))"

section \<open>WHO\<close>

definition user_or_nick :: "user \<Rightarrow> string" where
  "user_or_nick x = (if u_User x \<noteq> [] then u_User x else u_Nick x)"

definition host_or_unknown :: "user \<Rightarrow> string" where
  "host_or_unknown x = (if u_Host x \<noteq> [] then u_Host x else ''unknown'')"

definition who_flags :: "conn \<Rightarrow> user \<Rightarrow> membership \<Rightarrow> string" where
  "who_flags cn x mem =
     (if u_Away x \<noteq> [] then ''G'' else ''H'') @ (if is_oper x then ''*'' else []) @
     (if has_cap ''multi-prefix'' cn then mem_multi_prefix mem else mem_prefix mem)"

definition send_who_reply :: "cid \<Rightarrow> uid \<Rightarrow> string \<Rightarrow> string option \<Rightarrow> user \<Rightarrow> membership \<Rightarrow> server \<Rightarrow> server" where
  "send_who_reply c u channel ref x mem s =
     send c (batch_tagged ref (numeric_reply (srv_name s) (u_Nick (user_of u s)) ''352''
       [channel, user_or_nick x, host_or_unknown x, srv_name s, u_Nick x, who_flags (sv_heap s c) x mem,
        ''0 '' @ u_Realname x])) s"

text \<open>The rows of a channel, the end of the list behind them.\<close>

definition who_rows :: "cid \<Rightarrow> uid \<Rightarrow> channel \<Rightarrow> string option \<Rightarrow> server \<Rightarrow> server" where
  "who_rows c u ch ref s =
     (if m_anonymous (ch_modes ch) then
        send c (batch_tagged ref (numeric_reply (srv_name s) (u_Nick (user_of u s)) ''352''
          [ch_name ch, ''anonymous'', ''anonymous.'', srv_name s, ''anonymous'', ''H'', ''0 anonymous''])) s
      else fold (\<lambda>i s. case find_by_id i (sv_world s) of
                    None \<Rightarrow> s
                  | Some t \<Rightarrow> send_who_reply c u (ch_name ch) ref (user_of t s) (membership_of i ch) s) (member_ids ch) s)"

definition who_end :: "cid \<Rightarrow> uid \<Rightarrow> string \<Rightarrow> string option \<Rightarrow> server \<Rightarrow> server" where
  "who_end c u msk ref s =
     send c (batch_tagged ref (numeric_reply (srv_name s) (u_Nick (user_of u s)) ''315'' [msk, ''End of WHO list''])) s"

definition who_channel :: "cid \<Rightarrow> uid \<Rightarrow> channel \<Rightarrow> string \<Rightarrow> server \<Rightarrow> server" where
  "who_channel c u ch msk s =
     (if has_cap ''batch'' (sv_heap s c) then
        (case next_batch_ref s of
           (s1, ref) \<Rightarrow>
             end_batch c ref
               (who_end c u msk (Some ref) (who_rows c u ch (Some ref) (start_batch c ref ''ircat.whoburst'' [ch_name ch] s1))))
      else who_end c u msk None (who_rows c u ch None s))"

definition who_users :: "cid \<Rightarrow> uid \<Rightarrow> string \<Rightarrow> server \<Rightarrow> server" where
  "who_users c u msk s =
     (if has_glob_wildcard msk then
        fold (\<lambda>snap s. if glob_match_host msk (hostmask snap) \<or> glob_match_host msk (u_Nick snap)
                         then send_who_reply c u ''*'' None snap 0 s else s) (snapshot (sv_world s)) s
      else (case find_by_nick msk (sv_world s) of
              Some t \<Rightarrow> send_who_reply c u ''*'' None (user_of t s) 0 s
            | None \<Rightarrow> s))"

definition handle_who :: "cid \<Rightarrow> message \<Rightarrow> server \<Rightarrow> server" where
  "handle_who c m = for_user c (\<lambda>u s.
     let msk = (case msg_Params m of [] \<Rightarrow> ''*'' | p # _ \<Rightarrow> if p = [] then ''*'' else p) in
     if is_channel_name msk then
       (case find_channel msk (sv_world s) of
          None \<Rightarrow> who_end c u msk None s
        | Some ch \<Rightarrow> if hidden_from ch u then who_end c u msk None s else who_channel c u ch msk s)
     else who_end c u msk None (who_users c u msk s))"

section \<open>WHOIS, WHOWAS, USERHOST, ISON\<close>

text \<open>Whole seconds since the user last spoke, zero for one that has not or is remote.\<close>

definition idle_seconds :: "uid \<Rightarrow> server \<Rightarrow> int" where
  "idle_seconds t s =
     (if is_remote (user_of t s) then 0
      else case conn_for t s of
        None \<Rightarrow> 0
      | Some d \<Rightarrow> let l = cn_lastMessageAt (sv_heap s d) in
                  if l > 0 \<and> (sv_now s - l) div 1000000000 > 0 then (sv_now s - l) div 1000000000 else 0)"

definition send_whois :: "cid \<Rightarrow> uid \<Rightarrow> string \<Rightarrow> server \<Rightarrow> server" where
  "send_whois c u name s =
     (case find_by_nick name (sv_world s) of
        None \<Rightarrow> tell c u ''318'' [name, ''End of WHOIS list''] (tell c u ''401'' [name, ''No such nick/channel''] s)
      | Some t \<Rightarrow>
          let x = user_of t s; n = u_Nick x;
              s1 = tell c u ''311'' [n, user_or_nick x, host_or_unknown x, ''*'', u_Realname x] s;
              s2 = tell c u ''312'' [n, (if is_remote x then u_HomeServer x else srv_name s),
                     (if is_remote x then ''ircat federation peer'' else cf_Description (sv_cfg s))] s1;
              s3 = (if is_oper x then tell c u ''313'' [n, ''is an IRC operator''] s2 else s2);
              chans = user_channels t (sv_world s);
              s4 = (if chans \<noteq> [] then
                      tell c u ''319'' [n, join_with '' '' (map (\<lambda>ch. mem_prefix (membership_of t ch) @ ch_name ch) chans)] s3
                    else s3);
              s5 = tell c u ''317'' [n, itoa_positive (idle_seconds t s), itoa_positive (unix_seconds (u_ConnectAt x)),
                     ''seconds idle, signon time''] s4
          in tell c u ''318'' [n, ''End of WHOIS list''] s5)"

definition handle_whois :: "cid \<Rightarrow> message \<Rightarrow> server \<Rightarrow> server" where
  "handle_whois c m = for_user c (\<lambda>u s.
     (case msg_Params m of
        [] \<Rightarrow> tell c u ''431'' [''No nickname given''] s
      | p # ps \<Rightarrow> fold (send_whois c u) (split_on CHR '','' (case ps of [] \<Rightarrow> p | q # _ \<Rightarrow> q)) s))"

definition split_comma_list :: "string \<Rightarrow> string list" where
  "split_comma_list str = filter (\<lambda>p. p \<noteq> []) (split_on CHR '','' str)"

definition whowas_one :: "cid \<Rightarrow> string \<Rightarrow> int \<Rightarrow> string \<Rightarrow> server \<Rightarrow> server" where
  "whowas_one c nick mx target s =
     (let es = whowas_lookup target mx (sv_whowas s);
          s1 = (if es = [] then reply c nick ''406'' [target, ''There was no such nickname''] s else s);
          s2 = fold (\<lambda>e s.
                 reply c nick ''312'' [we_Nick e, we_Server e, format_whowas_time (we_When e)]
                   (reply c nick ''314'' [we_Nick e, (if we_User e = [] then we_Nick e else we_User e),
                      (if we_Host e = [] then ''unknown'' else we_Host e), ''*'', we_Realname e] s)) es s1
      in reply c nick ''369'' [target, ''End of WHOWAS''] s2)"

definition handle_whowas :: "cid \<Rightarrow> message \<Rightarrow> server \<Rightarrow> server" where
  "handle_whowas c m = for_user c (\<lambda>u s.
     let nick = star_or_nick c s; ps = msg_Params m in
     if ps = [] \<or> ps ! 0 = [] then reply c nick ''431'' [''No nickname given''] s
     else
       let mx = (if length ps \<ge> 2 then (case parse_int (ps ! 1) of Some n \<Rightarrow> if n > 0 then n else 0 | None \<Rightarrow> 0) else 0)
       in fold (whowas_one c nick mx) (split_comma_list (ps ! 0)) s)"

definition userhost_max_args :: nat where
  "userhost_max_args = 5"

definition userhost_entry :: "user \<Rightarrow> string" where
  "userhost_entry x =
     u_Nick x @ (if is_oper x then ''*'' else []) @ ''='' @ (if u_Away x \<noteq> [] then ''-'' else ''+'') @ host_or_unknown x"

definition handle_userhost :: "cid \<Rightarrow> message \<Rightarrow> server \<Rightarrow> server" where
  "handle_userhost c m = for_user c (\<lambda>u s.
     if msg_Params m = [] then need_more_params c ''USERHOST'' s
     else reply c (star_or_nick c s) ''302''
       [join_with '' '' (map (\<lambda>t. userhost_entry (user_of t s))
          (List.map_filter (\<lambda>n. find_by_nick n (sv_world s)) (take userhost_max_args (msg_Params m))))] s)"

definition handle_ison :: "cid \<Rightarrow> message \<Rightarrow> server \<Rightarrow> server" where
  "handle_ison c m = for_user c (\<lambda>u s.
     if msg_Params m = [] then need_more_params c ''ISON'' s
     else reply c (star_or_nick c s) ''303''
       [join_with '' '' (map (\<lambda>t. u_Nick (user_of t s))
          (List.map_filter (\<lambda>n. find_by_nick n (sv_world s)) (concat (map Prelude.fields (msg_Params m)))))] s)"

section \<open>About the server\<close>

definition send_isupport :: "cid \<Rightarrow> server \<Rightarrow> server" where
  "send_isupport c s =
     fold (\<lambda>line s. reply c (star_or_nick c s) ''005'' (line @ [''are supported by this server'']) s) (build_isupport s) s"

text \<open>The dash of the source is three bytes of UTF-8.\<close>

definition em_dash :: string where
  "em_dash = [CHR 0xE2, CHR 0x80, CHR 0x94]"

definition handle_version :: "cid \<Rightarrow> server \<Rightarrow> server" where
  "handle_version c s =
     send_isupport c (reply c (star_or_nick c s) ''351''
       [server_version, srv_name s, ''ircat '' @ em_dash @ '' running on Go, see https://github.com/asabla/ircat''] s)"

definition handle_time :: "cid \<Rightarrow> server \<Rightarrow> server" where
  "handle_time c s = reply c (star_or_nick c s) ''391'' [srv_name s, format_utc (sv_now s)] s"

definition or_unset :: "string \<Rightarrow> string" where
  "or_unset x = (if x = [] then ''(unset)'' else x)"

definition handle_admin :: "cid \<Rightarrow> server \<Rightarrow> server" where
  "handle_admin c s =
     (let nick = star_or_nick c s in
      reply c nick ''259'' [or_unset (cf_AdminEmail (sv_cfg s))]
        (reply c nick ''258'' [''Network: '' @ cf_Network (sv_cfg s)]
          (reply c nick ''257'' [''Name: '' @ or_unset (cf_AdminName (sv_cfg s))]
            (reply c nick ''256'' [srv_name s, ''Administrative info''] s))))"

definition handle_info :: "cid \<Rightarrow> server \<Rightarrow> server" where
  "handle_info c s =
     (let nick = star_or_nick c s in
      reply c nick ''374'' [''End of INFO list'']
        (fold (\<lambda>line. reply c nick ''371'' [line])
          [''ircat '' @ em_dash @ '' a modern IRC server in Go.'', ''https://github.com/asabla/ircat'', [],
           ''Running version: '' @ server_version, ''Server: '' @ srv_name s, ''Network: '' @ cf_Network (sv_cfg s)] s))"

text \<open>\<^verbatim>\<open>sendMOTD\<close> reads \<^verbatim>\<open>c.user.Nick\<close>: without a user that is a nil dereference, \<^const>\<open>None\<close> here.\<close>

definition handle_motd_command :: "cid \<Rightarrow> server \<Rightarrow> server option" where
  "handle_motd_command c s = map_option (\<lambda>u. send_motd c (u_Nick (user_of u s)) s) (cn_user (sv_heap s c))"

definition count_opers :: "world \<Rightarrow> nat" where
  "count_opers w = length (filter is_oper (snapshot w))"

definition bot_count :: "server \<Rightarrow> nat" where
  "bot_count s = length (sv_bots s)"

definition federation_link_count :: "server \<Rightarrow> nat" where
  "federation_link_count s = length (sv_links s)"

definition handle_lusers :: "cid \<Rightarrow> server \<Rightarrow> server" where
  "handle_lusers c s =
     (let nick = star_or_nick c s; users = int (user_count (sv_world s)); bots = int (bot_count s);
          fed = int (federation_link_count s) in
      reply c nick ''255'' [''I have '' @ format_int users @ '' clients and '' @ format_int fed @ '' servers'']
        (reply c nick ''254'' [format_int (int (channel_count (sv_world s))), ''channels formed'']
          (reply c nick ''253'' [''0'', ''unknown connection(s)'']
            (reply c nick ''252'' [format_int (int (count_opers (sv_world s))), ''operator(s) online'']
              (reply c nick ''251''
                [''There are '' @ format_int (users - bots) @ '' users and '' @ format_int bots @ '' services on '' @
                 format_int (1 + fed) @ '' servers''] s)))))"

section \<open>STATS, TRACE, LINKS\<close>

definition stats_links :: "link_report \<Rightarrow> cid \<Rightarrow> uid \<Rightarrow> server \<Rightarrow> server" where
  "stats_links rich c u s =
     fold (\<lambda>r s. tell c u ''211''
       [lr_peer r, ''0'', format_int (int (lr_sentMessages r)), format_int (int (lr_sentBytes r div 1024)),
        format_int (int (lr_recvMessages r)), format_int (int (lr_recvBytes r div 1024)),
        (case lr_openedAt r of None \<Rightarrow> ''0'' | Some t \<Rightarrow> format_int ((sv_now s - t) div 1000000000))] s)
       (federation_snapshot rich s) s"

definition stats_commands :: "cid \<Rightarrow> uid \<Rightarrow> server \<Rightarrow> server" where
  "stats_commands c u s =
     tell c u ''212'' [''TOTAL'', format_int (int (sv_messagesIn s)), ''0'', format_int (int (sv_messagesOut s))] s"

definition stats_operators :: "cid \<Rightarrow> uid \<Rightarrow> server \<Rightarrow> server" where
  "stats_operators c u s =
     (case sv_store s of
        None \<Rightarrow> s
      | Some st \<Rightarrow>
          fold (\<lambda>oper. tell c u ''243'' [''O'', (if op_HostMask oper = [] then ''*'' else op_HostMask oper), ''*'', op_Name oper])
            (operators_list st) s)"

definition stats_uptime :: "cid \<Rightarrow> uid \<Rightarrow> server \<Rightarrow> server" where
  "stats_uptime c u s =
     (let d = (sv_now s - sv_createdAt s) div 1000000000; hours = d div 3600
      in tell c u ''242''
           [''Server Up '' @ format_int (hours div 24) @ '' days '' @ format_int (hours mod 24) @ '':'' @
            padded 2 (d div 60 mod 60) @ '':'' @ padded 2 (d mod 60)] s)"

definition handle_stats :: "link_report \<Rightarrow> cid \<Rightarrow> message \<Rightarrow> server \<Rightarrow> server" where
  "handle_stats rich c m = for_oper c (\<lambda>u s.
     let query = (case msg_Params m of [] \<Rightarrow> [] | p # _ \<Rightarrow> p);
         s1 = (if query = ''l'' then stats_links rich c u s
               else if query = ''m'' then stats_commands c u s
               else if query = ''o'' then stats_operators c u s
               else if query = ''u'' then stats_uptime c u s
               else s)
     in tell c u ''219'' [(if query = [] then ''*'' else query), ''End of STATS report''] s1)"

definition trace_user :: "cid \<Rightarrow> uid \<Rightarrow> user \<Rightarrow> server \<Rightarrow> server" where
  "trace_user c u x s =
     (if is_remote x then s
      else
        let s1 = tell c u ''205'' [''User'', ''users'', u_Nick x] s
        in if is_oper x then tell c u ''204'' [''Oper'', ''users'', u_Nick x] s1 else s1)"

definition handle_trace :: "link_report \<Rightarrow> cid \<Rightarrow> server \<Rightarrow> server" where
  "handle_trace rich c = for_oper c (\<lambda>u s.
     tell c u ''262'' [srv_name s, ''ircat.0'', ''End of TRACE'']
       (fold (\<lambda>r. tell c u ''206'' [''Serv'', ''links'', ''0S'', ''0C'', lr_peer r, ''*'' @ ''!*@'' @ lr_peer r, ''V0''])
         (federation_snapshot rich s) (fold (trace_user c u) (snapshot (sv_world s)) s)))"

definition link_match :: "string \<Rightarrow> string \<Rightarrow> bool" where
  "link_match msk name = (msk = [] \<or> msk = ''*'' \<or> msk = name)"

definition handle_links :: "link_report \<Rightarrow> cid \<Rightarrow> message \<Rightarrow> server \<Rightarrow> server" where
  "handle_links rich c m = for_user c (\<lambda>u s.
     let msk = (case msg_Params m of [] \<Rightarrow> ''*'' | [p] \<Rightarrow> p | _ # q # _ \<Rightarrow> q)
     in tell c u ''365'' [msk, ''End of LINKS list'']
          (fold (\<lambda>name s. if link_match msk name then tell c u ''364'' [name, name, ''0 ircat node''] s else s)
            (srv_name s # map lr_peer (federation_snapshot rich s)) s))"

definition handle_summon :: "cid \<Rightarrow> server \<Rightarrow> server" where
  "handle_summon c = for_user c (\<lambda>u. tell c u ''445'' [''SUMMON has been disabled''])"

definition handle_users :: "cid \<Rightarrow> server \<Rightarrow> server" where
  "handle_users c = for_user c (\<lambda>u. tell c u ''446'' [''USERS has been disabled''])"

definition serv_row :: "cid \<Rightarrow> uid \<Rightarrow> user \<Rightarrow> server \<Rightarrow> server" where
  "serv_row c u x s =
     tell c u ''234'' [u_Nick x, (if u_HomeServer x = [] then srv_name s else u_HomeServer x),
       (if u_ServiceDistribution x = [] then ''*'' else u_ServiceDistribution x), u_ServiceType x, ''0'', u_Realname x] s"

definition handle_servlist :: "cid \<Rightarrow> message \<Rightarrow> server \<Rightarrow> server" where
  "handle_servlist c m = for_user c (\<lambda>u s.
     let ps = msg_Params m;
         msk = (if ps \<noteq> [] \<and> ps ! 0 \<noteq> [] then ps ! 0 else ''*'');
         typ = (if length ps \<ge> 2 then ps ! 1 else [])
     in tell c u ''235'' [msk, (if trim_space typ = [] then ''*'' else typ), ''End of service listing'']
          (fold (\<lambda>x s. if u_Service x \<and> link_match msk (u_Nick x) \<and> (typ = [] \<or> typ = u_ServiceType x)
                         then serv_row c u x s else s) (snapshot (sv_world s)) s))"

section \<open>A query only answers\<close>

text \<open>Nothing changes but the asker's queue (and the numbering of batches).\<close>

definition answers :: "cid \<Rightarrow> server \<Rightarrow> server \<Rightarrow> bool" where
  "answers c s s' = (quiet s s' \<and> (\<forall>d. d \<noteq> c \<longrightarrow> sv_heap s' d = sv_heap s d))"

lemma answers_refl [simp, intro]: "answers c s s"
  by (simp add: answers_def)

lemma answers_trans: "answers c a b \<Longrightarrow> answers c b d \<Longrightarrow> answers c a d"
  unfolding answers_def by (metis quiet_trans)

lemma answers_fold: "answers c s t \<Longrightarrow> (\<And>x t. answers c t (f x t)) \<Longrightarrow> answers c s (fold f xs t)"
proof (induction xs arbitrary: t)
  case (Cons x xs)
  have "answers c s (f x t)" by (rule answers_trans [OF Cons.prems(1) Cons.prems(2)])
  then show ?case using Cons.IH [OF _ Cons.prems(2)] by simp
qed simp

lemma answers_send: "answers c s t \<Longrightarrow> answers c s (send c m t)"
  by (rule answers_trans [of _ _ t]) (simp_all add: answers_def send_heap)

lemma answers_reply: "answers c s t \<Longrightarrow> answers c s (reply c n x ps t)" "answers c s t \<Longrightarrow> answers c s (tell c u x ps t)"
  by (simp_all add: reply_def tell_def answers_send)

lemma answers_errors: "answers c s (not_registered c s)" "answers c s (need_more_params c x s)" "answers c s (no_privileges c u s)"
  by (simp_all add: not_registered_def need_more_params_def no_privileges_def answers_reply)

lemma answers_for_user: "(\<And>u. answers c s (f u s)) \<Longrightarrow> answers c s (for_user c f s)"
  by (simp add: for_user_def answers_errors split: option.split)

lemma answers_for_oper: "(\<And>u. answers c s (f u s)) \<Longrightarrow> answers c s (for_oper c f s)"
  by (simp add: for_oper_def answers_for_user answers_errors)

lemma answers_batchSeq: "answers c s (s\<lparr>sv_batchSeq := b\<rparr>)"
  by (simp add: answers_def quiet_def)

lemma answers_names_loop: "answers c s t \<Longrightarrow> answers c s (names_loop (names_flush c n b ch) ts l t)"
proof -
  have fl: "answers c s t \<Longrightarrow> answers c s (names_flush c n b ch l t)" for l t
    by (simp add: names_flush_def answers_send)
  show "answers c s t \<Longrightarrow> answers c s (names_loop (names_flush c n b ch) ts l t)"
    by (induction "names_flush c n b ch" ts l t rule: names_loop.induct) (simp_all add: fl)
qed

lemma answers_names_reply: "answers c s (send_names_reply c u ch s)"
proof -
  have fl: "answers c s t \<Longrightarrow> answers c s (names_flush c n b ch l t)" for n b l t
    by (simp add: names_flush_def answers_send)
  show ?thesis
    by (simp add: send_names_reply_def next_batch_ref_def start_batch_def end_batch_def Let_def
        answers_send answers_names_loop fl answers_batchSeq)
qed

lemmas answers_intros = answers_fold answers_for_user answers_for_oper answers_reply answers_send answers_errors answers_names_reply

lemma answers_names: "answers c s (handle_names c m s)"
proof -
  have "answers c s (names_one c u n s)" for u n s
    by (simp add: names_one_def answers_reply answers_names_reply split: option.split)
  then show ?thesis unfolding handle_names_def
    by (intro answers_for_user) (simp add: answers_reply answers_fold split: list.split)
qed

lemma answers_list: "answers c s (handle_list c m s)"
  unfolding handle_list_def by (intro answers_intros) simp_all

lemma answers_who: "answers c s (handle_who c m s)"
proof -
  have row: "answers c s t \<Longrightarrow> answers c s (send_who_reply c u ch ref x mem t)" for s t u ch ref x mem
    by (simp add: send_who_reply_def answers_send)
  have fin: "answers c s t \<Longrightarrow> answers c s (who_end c u k ref t)" for s t u k ref
    by (simp add: who_end_def answers_send)
  have rows: "answers c s t \<Longrightarrow> answers c s (who_rows c u ch ref t)" for s t u ch ref
    by (simp add: who_rows_def answers_send answers_fold row split: option.split)
  have chan: "answers c s (who_channel c u ch k s)" for u ch k s
    by (simp add: who_channel_def next_batch_ref_def start_batch_def end_batch_def answers_send fin rows answers_batchSeq)
  have users: "answers c s (who_users c u k s)" for u k s
    by (simp add: who_users_def answers_fold row split: option.split)
  show ?thesis unfolding handle_who_def Let_def
    by (intro answers_for_user) (simp add: fin chan users split: option.split)
qed

lemma answers_whois: "answers c s (handle_whois c m s)"
proof -
  have "answers c s (send_whois c u n s)" for u n s
    by (simp add: send_whois_def Let_def answers_reply split: option.split)
  then show ?thesis unfolding handle_whois_def
    by (intro answers_for_user) (simp add: answers_reply answers_fold split: list.split)
qed

lemma answers_whowas: "answers c s (handle_whowas c m s)"
proof -
  have "answers c s (whowas_one c nick mx t s)" for nick mx t s
    by (simp add: whowas_one_def Let_def answers_reply answers_fold)
  then show ?thesis unfolding handle_whowas_def Let_def
    by (intro answers_for_user) (simp add: answers_reply answers_fold)
qed

lemma answers_small:
  "answers c s (handle_userhost c m s)" "answers c s (handle_ison c m s)" "answers c s (handle_version c s)"
  "answers c s (handle_time c s)" "answers c s (handle_admin c s)" "answers c s (handle_info c s)"
  "answers c s (handle_lusers c s)" "answers c s (handle_summon c s)" "answers c s (handle_users c s)"
  by (simp_all add: handle_userhost_def handle_ison_def handle_version_def send_isupport_def handle_time_def handle_admin_def
      handle_info_def handle_lusers_def handle_summon_def handle_users_def Let_def answers_intros del: fold_simps)

lemma answers_stats: "answers c s (handle_stats rich c m s)"
proof -
  have parts: "answers c s (stats_links rich c u s)" "answers c s (stats_commands c u s)" "answers c s (stats_operators c u s)"
    "answers c s (stats_uptime c u s)" for u s
    by (simp_all add: stats_links_def stats_commands_def stats_operators_def stats_uptime_def Let_def answers_reply answers_fold
        split: option.split)
  show ?thesis unfolding handle_stats_def Let_def
    by (intro answers_for_oper answers_reply) (simp add: parts)
qed

lemma answers_trace: "answers c s (handle_trace rich c s)"
proof -
  have "answers c s (trace_user c u x s)" for u x s by (simp add: trace_user_def Let_def answers_reply)
  then show ?thesis unfolding handle_trace_def by (intro answers_for_oper answers_reply answers_fold) simp_all
qed

lemma answers_links: "answers c s (handle_links rich c m s)"
  unfolding handle_links_def Let_def by (intro answers_for_user answers_reply answers_fold) (simp_all add: answers_reply)

lemma answers_servlist: "answers c s (handle_servlist c m s)"
proof -
  have "answers c s (serv_row c u x s)" for u x s by (simp add: serv_row_def answers_reply)
  then show ?thesis unfolding handle_servlist_def Let_def by (intro answers_for_user answers_reply answers_fold) simp_all
qed

lemmas answers_all = answers_names answers_list answers_who answers_whois answers_whowas answers_small answers_stats
  answers_trace answers_links answers_servlist

lemmas wf_queries [invs] = answers_all [THEN answers_def [THEN iffD1], THEN conjunct1, THEN quiet_wf]

lemma wf_motd_command: "wf_server s \<Longrightarrow> handle_motd_command c s = Some s' \<Longrightarrow> wf_server s'"
  by (auto simp: handle_motd_command_def invs)

section \<open>A hidden channel cannot be observed\<close>

text \<open>The server without a channel.\<close>

definition without_channel :: "string \<Rightarrow> server \<Rightarrow> server" where
  "without_channel n s = upd_sworld (drop_channel n) s"

definition hides :: "string \<Rightarrow> uid \<Rightarrow> server \<Rightarrow> bool" where
  "hides n u s = (\<exists>ch. find_channel n (sv_world s) = Some ch \<and> hidden_from ch u)"

lemma without_channel_simps [simp]:
  "sv_heap (without_channel n s) = sv_heap s" "sv_cfg (without_channel n s) = sv_cfg s" "sv_now (without_channel n s) = sv_now s"
  "sv_world (without_channel n s) = drop_channel n (sv_world s)" "user_of v (without_channel n s) = user_of v s"
  "registered_user c (without_channel n s) = registered_user c s" "star_or_nick c (without_channel n s) = star_or_nick c s"
  "sv_batchSeq (without_channel n s) = sv_batchSeq s" "find_by_id v (drop_channel n w) = find_by_id v w"
  "snapshot (drop_channel n w) = snapshot w"
  by (simp_all add: without_channel_def upd_sworld_def user_of_def registered_user_def star_or_nick_def find_by_id_def snapshot_def
      Let_def split: option.split)

lemma without_send: "send c m (without_channel n s) = without_channel n (send c m s)"
proof -
  have "tag_for cn (without_channel n s) m = tag_for cn s m" for cn by (simp add: tag_for_def Let_def split: option.split)
  then show ?thesis by (simp add: send_def upd_conn_def) (simp add: without_channel_def upd_sworld_def)
qed

lemma without_reply: "reply c nick x ps (without_channel n s) = without_channel n (reply c nick x ps s)"
  "tell c u x ps (without_channel n s) = without_channel n (tell c u x ps s)"
  by (simp_all add: reply_def tell_def without_send)

lemma without_batchSeq: "(without_channel n s)\<lparr>sv_batchSeq := b\<rparr> = without_channel n (s\<lparr>sv_batchSeq := b\<rparr>)"
  by (simp add: without_channel_def upd_sworld_def)

lemma without_fold:
  assumes "\<And>x t. P t \<Longrightarrow> x \<in> set xs \<Longrightarrow> f x (without_channel n t) = without_channel n (f x t) \<and> P (f x t)" "P s"
  shows "fold f xs (without_channel n s) = without_channel n (fold f xs s)"
  using assms
proof (induction xs arbitrary: s)
  case (Cons x xs)
  have h: "f x (without_channel n s) = without_channel n (f x s)" "P (f x s)" using Cons.prems(1) [OF Cons.prems(2)] by simp_all
  have "fold f xs (without_channel n (f x s)) = without_channel n (fold f xs (f x s))"
    by (rule Cons.IH [OF _ h(2)]) (use Cons.prems(1) in simp)
  then show ?case by (simp add: h(1))
qed simp

lemma hides_quiet: "quiet s t \<Longrightarrow> hides n u t = hides n u s"
  by (simp add: hides_def quietD)

lemma without_names_loop:
  "names_loop (names_flush c x b ch) ts l (without_channel n s) = without_channel n (names_loop (names_flush c x b ch) ts l s)"
proof -
  have fl: "names_flush c x b ch l (without_channel n s) = without_channel n (names_flush c x b ch l s)" for l s
    by (simp add: names_flush_def without_send)
  show ?thesis by (induction "names_flush c x b ch" ts l s rule: names_loop.induct) (simp_all add: fl)
qed

lemma without_names_reply: "send_names_reply c u ch (without_channel n s) = without_channel n (send_names_reply c u ch s)"
proof -
  have fl: "names_flush c x b ch l (without_channel n s) = without_channel n (names_flush c x b ch l s)" for x b l s
    by (simp add: names_flush_def without_send)
  have tok: "names_tokens cn ch (without_channel n s) = names_tokens cn ch s" for cn s
  proof -
    show ?thesis unfolding names_tokens_def without_channel_simps ..
  qed
  show ?thesis
    by (simp add: send_names_reply_def Let_def next_batch_ref_def start_batch_def end_batch_def without_send without_names_loop fl tok without_batchSeq)
qed

text \<open>A lookup either misses the dropped channel or would have found it.\<close>

lemma find_without:
  assumes "hides n u s"
  shows "find_channel k (drop_channel n (sv_world s)) =
    (case find_channel k (sv_world s) of None \<Rightarrow> None | Some ch \<Rightarrow> if sfold s k = sfold s n then None else Some ch)"
    "find_channel k (sv_world s) = Some ch \<Longrightarrow> sfold s k = sfold s n \<Longrightarrow> hidden_from ch u"
  using assms find_channel_fold [of "sv_world s" k n] by (auto simp: hides_def split: option.split)

lemma names_one_without:
  assumes "hides n u s"
  shows "names_one c u k (without_channel n s) = without_channel n (names_one c u k s)"
  using find_without [OF assms, of k]
  by (auto simp: names_one_def without_reply without_names_reply split: option.split)

lemma list_targets_without:
  assumes wf: "wf_server s" and h: "hides n u s"
  shows "filter (\<lambda>ch. \<not> hidden_from ch u) (list_targets m (drop_channel n (sv_world s))) =
    filter (\<lambda>ch. \<not> hidden_from ch u) (list_targets m (sv_world s))"
proof -
  let ?w = "sv_world s" and ?f = "filter (\<lambda>ch. \<not> hidden_from ch u)"
  have named: "?f (List.map_filter (\<lambda>k. find_channel k (drop_channel n ?w)) ks) = ?f (List.map_filter (\<lambda>k. find_channel k ?w) ks)" for ks
  proof (induction ks)
    case (Cons k ks)
    then show ?case using find_without [OF h, of k] by (auto simp: map_filter_simps split: option.split)
  qed (simp add: map_filter_simps)
  obtain ch where ch: "map_of (w_byChannel ?w) (wfold ?w n) = Some ch" "hidden_from ch u"
    using h by (auto simp: hides_def find_channel_def split: if_splits)
  have "wf_map (w_byChannel ?w)" using wf_worldD(2) [OF wf_serverD(1) [OF wf]] by (simp add: wf_channels_def)
  then have hid: "(k, c) \<in> set (w_byChannel ?w) \<Longrightarrow> k = wfold ?w n \<Longrightarrow> hidden_from c u" for k c
    using ch map_of_iff_mem [of "w_byChannel ?w" k c] by auto
  have "?f (map snd (mdel (wfold ?w n) xs)) = ?f (map snd xs)" if "set xs \<subseteq> set (w_byChannel ?w)" for xs
    using that hid by (induction xs) (auto simp: AList.delete_eq)
  then have all: "?f (channels_snapshot (drop_channel n ?w)) = ?f (channels_snapshot ?w)"
    by (simp add: channels_snapshot_def drop_channel_def)
  show ?thesis using named all by (simp add: list_targets_def split: list.split)
qed

lemma who_without: "send_who_reply c u k ref x mem (without_channel n s) = without_channel n (send_who_reply c u k ref x mem s)"
  "who_end c u k ref (without_channel n s) = without_channel n (who_end c u k ref s)"
  by (simp_all add: send_who_reply_def who_end_def without_send)

lemma who_rows_without: "who_rows c u ch ref (without_channel n s) = without_channel n (who_rows c u ch ref s)"
proof -
  have "fold (\<lambda>i s. case find_by_id i (sv_world s) of None \<Rightarrow> s
      | Some t \<Rightarrow> send_who_reply c u (ch_name ch) ref (user_of t s) (membership_of i ch) s) is (without_channel n s) =
    without_channel n (fold (\<lambda>i s. case find_by_id i (sv_world s) of None \<Rightarrow> s
      | Some t \<Rightarrow> send_who_reply c u (ch_name ch) ref (user_of t s) (membership_of i ch) s) is s)" for "is"
    by (rule without_fold [where P = "\<lambda>_. True"]) (simp_all add: who_without split: option.split)
  then show ?thesis by (simp add: who_rows_def without_send)
qed

lemma who_users_without: "who_users c u k (without_channel n s) = without_channel n (who_users c u k s)"
proof -
  have "fold (\<lambda>snap s. if glob_match_host k (hostmask snap) \<or> glob_match_host k (u_Nick snap)
      then send_who_reply c u ''*'' None snap 0 s else s) xs (without_channel n s) =
    without_channel n (fold (\<lambda>snap s. if glob_match_host k (hostmask snap) \<or> glob_match_host k (u_Nick snap)
      then send_who_reply c u ''*'' None snap 0 s else s) xs s)" for xs
    by (rule without_fold [where P = "\<lambda>_. True"]) (simp_all add: who_without)
  then show ?thesis by (simp add: who_users_def who_without split: option.split)
qed

lemma who_channel_without: "who_channel c u ch k (without_channel n s) = without_channel n (who_channel c u ch k s)"
  by (simp add: who_channel_def next_batch_ref_def start_batch_def end_batch_def who_without who_rows_without without_send without_batchSeq)

text \<open>
  C9: A secret or private channel cannot be told from one that does not exist. Whatever a user who is not a
  member asks with \<^verbatim>\<open>NAMES\<close>, \<^verbatim>\<open>LIST\<close> or \<^verbatim>\<open>WHO\<close>, the answer is the one the server would give without the
  channel. (\<^verbatim>\<open>WHOIS\<close> gives no such protection: it lists every channel of its target.)
\<close>

theorem hidden_channel_unobservable:
  assumes "wf_server s" "registered_user c s = Some u" "hides n u s"
  shows "handle_names c m (without_channel n s) = without_channel n (handle_names c m s) \<and>
    handle_list c m (without_channel n s) = without_channel n (handle_list c m s) \<and>
    handle_who c m (without_channel n s) = without_channel n (handle_who c m s)"
proof (intro conjI)
  have q: "quiet t (names_one c u k t)" for k t by (simp add: names_one_def tell_def split: option.split)
  have "fold (names_one c u) ks (without_channel n s) = without_channel n (fold (names_one c u) ks s)" for ks
    by (rule without_fold [where P = "hides n u"]) (simp_all add: names_one_without hides_quiet [OF q] assms(3))
  then show "handle_names c m (without_channel n s) = without_channel n (handle_names c m s)"
    by (simp add: handle_names_def for_user_def assms(2) without_reply split: list.split)
  have "fold (\<lambda>ch. tell c u ''322'' (row ch)) chs (without_channel n t) =
      without_channel n (fold (\<lambda>ch. tell c u ''322'' (row ch)) chs t)" for row and chs :: "channel list" and t
    by (rule without_fold [where P = "\<lambda>_. True"]) (simp_all add: without_reply)
  then show "handle_list c m (without_channel n s) = without_channel n (handle_list c m s)"
    by (simp add: handle_list_def for_user_def assms(2) without_reply list_targets_without [OF assms(1,3)])
  show "handle_who c m (without_channel n s) = without_channel n (handle_who c m s)"
    using find_without [OF assms(3)]
    by (auto simp: handle_who_def Let_def for_user_def assms(2) who_without who_users_without who_channel_without split: option.split)
qed

text \<open>\<open>demo_net\<close> with \<^verbatim>\<open>#a\<close> secret; user 2 is no member.\<close>

definition demo_secret :: server where
  "demo_secret = with_chan ''#a'' (\<lambda>c. fst (set_bool_mode CHR ''s'' True c)) demo_net"

lemma hidden_channel_unobservable_witness:
  "let m = plain_message [] ''NAMES'' [''#a'']
   in hides ''#a'' 2 demo_secret \<and>
      handle_names 2 m (without_channel ''#a'' demo_secret) = without_channel ''#a'' (handle_names 2 m demo_secret)"
proof -
  have wf: "wf_server demo_secret"
    unfolding demo_secret_def by (rule wf_with_chan [OF wf_demo_net]) (simp_all add: wf_set_bool_mode channel_name_frames)
  have w: "sv_world demo_secret = upd_channel ''#a'' (\<lambda>c. fst (set_bool_mode CHR ''s'' True c)) demo_world"
    "cn_user (sv_heap demo_secret 2) = Some 2"
    by (simp_all add: demo_secret_def with_chan_def upd_sworld_def)
  have r: "registered_user 2 demo_secret = Some 2"
    using registered_user_iff [OF wf] w by simp
  have "hidden_from (fst (set_bool_mode CHR ''s'' True demo_channel)) 2" by code_simp
  then have "hides ''#a'' 2 demo_secret" by (simp add: hides_def w demo_facts)
  then show ?thesis using hidden_channel_unobservable [OF wf r, of "''#a''" "plain_message [] ''NAMES'' [''#a'']"] by (simp add: Let_def)
qed

end
