(* ===== verification/Oper_Cmds.thy ===== *)
theory Oper_Cmds
  imports Query_Cmds
begin

text \<open>
  The commands that act on users and on the server: \<^verbatim>\<open>AWAY\<close>, \<^verbatim>\<open>OPER\<close>, \<^verbatim>\<open>KILL\<close>, \<^verbatim>\<open>WALLOPS\<close>, \<^verbatim>\<open>CHGHOST\<close>,
  \<^verbatim>\<open>REHASH\<close>, \<^verbatim>\<open>DIE\<close>, \<^verbatim>\<open>RESTART\<close>, \<^verbatim>\<open>SQUIT\<close>, \<^verbatim>\<open>CONNECT\<close>, \<^verbatim>\<open>SERVICE\<close>, \<^verbatim>\<open>SQUERY\<close>
  (\<^verbatim>\<open>handler_away.go\<close>, \<^verbatim>\<open>handler_oper.go\<close>, \<^verbatim>\<open>handler_wallops.go\<close>, \<^verbatim>\<open>handler_chghost.go\<close>,
  \<^verbatim>\<open>handler_admin_cmds.go\<close>, \<^verbatim>\<open>handler_fed_verbs.go\<close>, \<^verbatim>\<open>handler_service.go\<close>, \<^verbatim>\<open>handler_squery.go\<close>), and what
  the API, the dashboard and the bots do through \<^verbatim>\<open>actuator.go\<close>. The goroutines of \<^verbatim>\<open>REHASH\<close> and \<^verbatim>\<open>CONNECT\<close>
  report to the operator in a step of their own.
\<close>

section \<open>AWAY\<close>

definition strip_mode_char :: "char \<Rightarrow> string \<Rightarrow> string" where
  "strip_mode_char m modes = filter (\<lambda>x. x \<noteq> m) modes"

definition send_with_cap :: "string \<Rightarrow> message \<Rightarrow> uid \<Rightarrow> server \<Rightarrow> server" where
  "send_with_cap cap m i s =
     (case conn_for i s of None \<Rightarrow> s | Some p \<Rightarrow> if has_cap cap (sv_heap s p) then send p m s else s)"

definition notify_away :: "uid \<Rightarrow> string \<Rightarrow> server \<Rightarrow> server" where
  "notify_away u reason s =
     fold (send_with_cap ''away-notify''
         (plain_message (hostmask (user_of u s)) ''AWAY'' (if reason \<noteq> [] then [reason] else [])))
       (shared_peers u (sv_world s)) s"

definition handle_away :: "cid \<Rightarrow> message \<Rightarrow> server \<Rightarrow> server" where
  "handle_away c m = for_user c (\<lambda>u s.
     let nick = u_Nick (user_of u s); given = (case msg_trailing m of None \<Rightarrow> [] | Some t \<Rightarrow> t) in
     if given = [] then
       notify_away u []
         (reply c nick ''305'' [''You are no longer marked as being away'']
           (with_user u (\<lambda>x. x\<lparr>u_Away := [], u_Modes := strip_mode_char CHR ''a'' (u_Modes x)\<rparr>) s))
     else
       let mx = lm_AwayLength (srv_limits s);
           away = (if mx > 0 \<and> int (length given) > mx then take (nat mx) given else given)
       in notify_away u away
            (reply c nick ''306'' [''You have been marked as being away'']
              (with_user u (\<lambda>x. x\<lparr>u_Away := away, u_Modes := add_mode_char CHR ''a'' (u_Modes x)\<rparr>) s)))"

section \<open>OPER\<close>

definition operator_host_matches :: "string \<Rightarrow> string \<Rightarrow> bool" where
  "operator_host_matches operMask userMask = (operMask = [] \<or> glob_match_host operMask userMask)"

definition grant_oper :: "cid \<Rightarrow> uid \<Rightarrow> operator_rec \<Rightarrow> server \<Rightarrow> server" where
  "grant_oper c u rec s =
     (let nick = u_Nick (user_of u s);
          s1 = with_user u (\<lambda>x. x\<lparr>u_Modes := add_mode_char CHR ''o'' (u_Modes x)\<rparr>) s;
          s2 = reply c nick ''381'' [''You are now an IRC operator''] s1;
          s3 = send c (plain_message (hostmask (user_of u s2)) ''MODE'' [nick, ''+'' @ u_Modes (user_of u s2)]) s2
      in emit_audit ''oper_up'' (hostmask (user_of u s3)) (op_Name rec) [(''flags'', op_Flags rec)] s3)"

text \<open>The operator a name and password stand for, or the refusal.\<close>

datatype oper_check = NoOperHost | PasswdMismatch | OperOk operator_rec

definition check_oper :: "string \<Rightarrow> string \<Rightarrow> user \<Rightarrow> server \<Rightarrow> oper_check" where
  "check_oper name password x s =
     (case Option.bind (sv_store s) (operators_get name) of
        None \<Rightarrow> NoOperHost
      | Some rec \<Rightarrow>
          if \<not> operator_host_matches (op_HostMask rec) (hostmask x) then NoOperHost
          else if auth_verify (cf_argon2 (sv_cfg s)) (cf_bcrypt (sv_cfg s)) (op_PasswordHash rec) password \<noteq> Some True
          then PasswdMismatch else OperOk rec)"

definition handle_oper :: "cid \<Rightarrow> message \<Rightarrow> server \<Rightarrow> server" where
  "handle_oper c m = for_user c (\<lambda>u s.
     if length (msg_Params m) < 2 then need_more_params c ''OPER'' s
     else if CHR ''r'' \<in> set (u_Modes (user_of u s)) then tell c u ''484'' [''Your connection is restricted!''] s
     else case check_oper (msg_Params m ! 0) (msg_Params m ! 1) (user_of u s) s of
       NoOperHost \<Rightarrow> tell c u ''491'' [''No O-lines for your host''] s
     | PasswdMismatch \<Rightarrow> tell c u ''464'' [''Password incorrect''] s
     | OperOk rec \<Rightarrow> grant_oper c u rec s)"

section \<open>The actuator: kicks and topics from outside\<close>

definition kick_user :: "string \<Rightarrow> string \<Rightarrow> server \<Rightarrow> server \<times> bool" where
  "kick_user nick reason s =
     (case Option.bind (find_by_nick nick (sv_world s)) (\<lambda>u. conn_for u s) of
        None \<Rightarrow> (s, False)
      | Some c \<Rightarrow>
          let why = (if reason = [] then ''Kicked by admin'' else reason);
              s1 = cancel c (''api kick: '' @ why) (send_error c why (upd_conn c (\<lambda>cn. cn\<lparr>cn_quitReason := why\<rparr>) s))
          in (emit_audit ''admin_action'' ''api'' nick [(''action'', [''kick_user'']), (''reason'', [why])] s1, True))"

definition set_channel_topic :: "string \<Rightarrow> string \<Rightarrow> string \<Rightarrow> server \<Rightarrow> server \<times> bool" where
  "set_channel_topic name topic setBy s =
     (case find_channel name (sv_world s) of
        None \<Rightarrow> (s, False)
      | Some ch \<Rightarrow>
          let mx = lm_TopicLength (srv_limits s);
              text = (if mx > 0 \<and> int (length topic) > mx then take (nat mx) topic else topic);
              upd = set_topic text setBy (sv_now s);
              s1 = persist_channel (upd ch) (with_chan name (\<lambda>c. upd c) s);
              s2 = emit_audit ''topic'' setBy (ch_name ch) [(''topic'', [text]), (''source'', [''dashboard''])] s1
          in (broadcast_federated (upd ch) (plain_message setBy ''TOPIC'' [ch_name ch, text]) 0 True s2, True))"

section \<open>KILL, WALLOPS, CHGHOST\<close>

definition handle_kill :: "cid \<Rightarrow> message \<Rightarrow> server \<Rightarrow> server" where
  "handle_kill c m = for_oper c (\<lambda>u s.
     if length (msg_Params m) < 2 then need_more_params c ''KILL'' s
     else
       let targetNick = msg_Params m ! 0; comment = msg_Params m ! 1 in
       case find_by_nick targetNick (sv_world s) of
         None \<Rightarrow> tell c u ''401'' [targetNick, ''No such nick/channel''] s
       | Some t \<Rightarrow>
           let x = user_of t s; msk = hostmask (user_of u s);
               why = ''Killed ('' @ u_Nick (user_of u s) @ '' ('' @ comment @ ''))'';
               s1 = forward_to_all (plain_message msk ''KILL'' [u_Nick x, comment]) s;
               s2 = emit_audit ''admin_action'' msk (u_Nick x) [(''action'', [''kill'']), (''reason'', [comment])] s1
           in if is_remote x then
                upd_sworld (\<lambda>w. fst (remove_user t w))
                  (record_whowas x (deliver_per_user_channels (plain_message (hostmask x) ''QUIT'' [why]) s2))
              else fst (kick_user (u_Nick x) why s2))"

definition handle_wallops :: "cid \<Rightarrow> message \<Rightarrow> server \<Rightarrow> server" where
  "handle_wallops c m = for_oper c (\<lambda>u s.
     if msg_Params m = [] \<or> msg_Params m ! 0 = [] then need_more_params c ''WALLOPS'' s
     else
       let w = plain_message (hostmask (user_of u s)) ''WALLOPS'' [msg_Params m ! 0]
       in forward_to_all w (deliver_wallops_local w s))"

definition notify_chghost :: "uid \<Rightarrow> message \<Rightarrow> server \<Rightarrow> server" where
  "notify_chghost t m s =
     send_with_cap ''chghost'' m t (fold (send_with_cap ''chghost'' m) (shared_peers t (sv_world s)) s)"

definition change_user_host :: "uid \<Rightarrow> string \<Rightarrow> server \<Rightarrow> server" where
  "change_user_host t newHost s =
     (let m = plain_message (hostmask (user_of t s)) ''CHGHOST'' [u_User (user_of t s), newHost]
      in notify_chghost t m (with_user t (\<lambda>x. x\<lparr>u_Host := newHost\<rparr>) s))"

definition handle_chghost :: "cid \<Rightarrow> message \<Rightarrow> server \<Rightarrow> server" where
  "handle_chghost c m = for_oper c (\<lambda>u s.
     if length (msg_Params m) < 2 then need_more_params c ''CHGHOST'' s
     else
       case find_by_nick (msg_Params m ! 0) (sv_world s) of
         None \<Rightarrow> tell c u ''401'' [msg_Params m ! 0, ''No such nick/channel''] s
       | Some t \<Rightarrow> change_user_host t (msg_Params m ! 1) s)"

section \<open>REHASH, DIE, RESTART, SQUIT, CONNECT\<close>

text \<open>What the host process wired into the server besides the shutdown hook.\<close>

record wiring =
  wr_reloader :: bool
  wr_connector :: bool
  wr_links :: link_report

definition server_notice :: "cid \<Rightarrow> string \<Rightarrow> string \<Rightarrow> server \<Rightarrow> server" where
  "server_notice c nick text s = send c (plain_message (srv_name s) ''NOTICE'' [nick, text]) s"

definition handle_rehash :: "wiring \<Rightarrow> cid \<Rightarrow> server \<Rightarrow> server" where
  "handle_rehash wr c = for_oper c (\<lambda>u s.
     let nick = u_Nick (user_of u s) in
     if \<not> wr_reloader wr then server_notice c nick ''REHASH unavailable: no reloader wired'' s
     else send c (plain_message (srv_name s) ''382'' [nick, ''config'', ''Rehashing'']) s)"

definition rehash_failed :: "cid \<Rightarrow> string \<Rightarrow> string \<Rightarrow> server \<Rightarrow> server" where
  "rehash_failed c nick err = server_notice c nick (''REHASH failed: '' @ err)"

definition shut_down :: "cid \<Rightarrow> uid \<Rightarrow> string \<Rightarrow> string \<Rightarrow> server \<Rightarrow> server" where
  "shut_down c u verb reason s =
     (case sv_shutdown s of
        None \<Rightarrow> server_notice c (u_Nick (user_of u s)) (verb @ '' unavailable: no shutdown hook wired'') s
      | Some calls \<Rightarrow> s\<lparr>sv_shutdown := Some (calls @ [reason])\<rparr>)"

definition handle_die :: "cid \<Rightarrow> message \<Rightarrow> server \<Rightarrow> server" where
  "handle_die c m = for_oper c (\<lambda>u s.
     let base = ''DIE by '' @ u_Nick (user_of u s);
         reason = (case msg_trailing m of None \<Rightarrow> base | Some t \<Rightarrow> if t = [] then base else base @ '': '' @ t)
     in shut_down c u ''DIE'' reason s)"

definition handle_restart :: "cid \<Rightarrow> server \<Rightarrow> server" where
  "handle_restart c = for_oper c (\<lambda>u s. shut_down c u ''RESTART'' (''RESTART by '' @ u_Nick (user_of u s)) s)"

definition handle_squit :: "wiring \<Rightarrow> cid \<Rightarrow> message \<Rightarrow> server \<Rightarrow> server" where
  "handle_squit wr c m = for_oper c (\<lambda>u s.
     if length (msg_Params m) < 2 then need_more_params c ''SQUIT'' s
     else if msg_Params m ! 0 \<notin> set (map lr_peer (federation_snapshot (wr_links wr) s)) then
       tell c u ''402'' [msg_Params m ! 0, ''No such server''] s
     else handle_squit_loss (msg_Params m ! 0) (msg_Params m ! 1) s)"

definition handle_connect :: "wiring \<Rightarrow> cid \<Rightarrow> message \<Rightarrow> server \<Rightarrow> server" where
  "handle_connect wr c m = for_oper c (\<lambda>u s.
     if msg_Params m = [] then need_more_params c ''CONNECT'' s
     else if \<not> wr_connector wr then server_notice c (u_Nick (user_of u s)) ''CONNECT unavailable: no connector wired'' s
     else s)"

definition connect_failed :: "cid \<Rightarrow> string \<Rightarrow> string \<Rightarrow> string \<Rightarrow> server \<Rightarrow> server" where
  "connect_failed c nick target err = server_notice c nick (''CONNECT to '' @ target @ '' failed: '' @ err)"

section \<open>SERVICE and SQUERY\<close>

definition service_record :: "cid \<Rightarrow> message \<Rightarrow> server \<Rightarrow> user" where
  "service_record c m s =
     zero_user\<lparr>u_Nick := msg_Params m ! 0, u_User := ''service'', u_Host := cn_remoteHost (sv_heap s c),
       u_Realname := msg_Params m ! 5, u_Registered := True, u_Service := True, u_ServiceType := msg_Params m ! 3,
       u_ServiceDistribution := msg_Params m ! 2, u_TS := sv_now s\<rparr>"

definition handle_service :: "cid \<Rightarrow> message \<Rightarrow> server \<Rightarrow> server" where
  "handle_service c m s =
     (case registered_user c s of
        Some u \<Rightarrow> reply c (u_Nick (user_of u s)) ''462'' [''You may not reregister''] s
      | None \<Rightarrow>
          if length (msg_Params m) < 6 then need_more_params c ''SERVICE'' s
          else
            let nick = msg_Params m ! 0 in
            if \<not> valid_nickname nick (lm_NickLength (srv_limits s)) then
              reply c ''*'' ''432'' [nick, ''Erroneous service name''] s
            else case add_user (service_record c m s) (sv_now s) (sv_world s) of
              (_, Inl ErrNickInUse) \<Rightarrow> reply c ''*'' ''433'' [nick, ''Service name is already in use''] s
            | (_, Inl _) \<Rightarrow> cancel c ''state: empty nickname'' (send_error c ''Internal server error'' s)
            | (w, Inr u) \<Rightarrow>
                let s1 = promote c u w s;
                    s2 = announce_user (user_of u s1) s1;
                    s3 = send c (plain_message (srv_name s) ''383'' [nick, ''You are service '' @ nick]) s2;
                    s4 = reply c nick ''002'' [''Your host is '' @ srv_name s @ '', running version ircat-0.0.1''] s3
                in reply c nick ''004'' [srv_name s, ''ircat-0.0.1'', ''iow'', ''biklmnopstv''] s4)"

definition handle_squery :: "cid \<Rightarrow> message \<Rightarrow> server \<Rightarrow> server" where
  "handle_squery c m = for_user c (\<lambda>u s.
     let ps = msg_Params m in
     if ps = [] \<or> ps ! 0 = [] then tell c u ''411'' [''No recipient given (SQUERY)''] s
     else if length ps < 2 \<or> ps ! 1 = [] then tell c u ''412'' [''No text to send''] s
     else
       let no_such = tell c u ''408'' [ps ! 0, ''No such service''] s in
       case find_by_nick (ps ! 0) (sv_world s) of
         None \<Rightarrow> no_such
       | Some t \<Rightarrow>
           if \<not> u_Service (user_of t s) then no_such
           else
             let q = plain_message (hostmask (user_of u s)) ''SQUERY'' [u_Nick (user_of t s), ps ! 1] in
             case conn_for t s of
               Some d \<Rightarrow> send d q s
             | None \<Rightarrow> (case bot_for t s of Some b \<Rightarrow> deliver_bot t b q s | None \<Rightarrow> no_such))"

section \<open>The actuator: bots\<close>

datatype bot_error = ErrUserNotFound | BotState state_error

definition bot_join :: "uid \<Rightarrow> string \<Rightarrow> server \<Rightarrow> server \<times> bot_error option" where
  "bot_join i name s =
     (case find_by_id i (sv_world s) of
        None \<Rightarrow> (s, Some ErrUserNotFound)
      | Some u \<Rightarrow>
          (case join_channel i name (sv_now s) (sv_world s) of
             (_, Inl e) \<Rightarrow> (s, Some (BotState e))
           | (w, Inr r) \<Rightarrow>
               let s1 = upd_sworld (\<lambda>_. w) s in
               if \<not> jr_added r then (s1, None)
               else (broadcast_with deliver_plain (jr_channel r)
                       (plain_message (hostmask (user_of u s)) ''JOIN'' [ch_name (jr_channel r)]) 0 True s1, None)))"

definition bot_part :: "uid \<Rightarrow> string \<Rightarrow> string \<Rightarrow> server \<Rightarrow> server \<times> bot_error option" where
  "bot_part i name reason s =
     (case find_by_id i (sv_world s) of
        None \<Rightarrow> (s, Some ErrUserNotFound)
      | Some u \<Rightarrow>
          (case find_channel name (sv_world s) of
             None \<Rightarrow> (s, None)
           | Some ch \<Rightarrow>
               if \<not> is_member i ch then (s, None)
               else
                 let m = plain_message (hostmask (user_of u s)) ''PART'' (ch_name ch # (if reason \<noteq> [] then [reason] else []))
                 in (upd_sworld (\<lambda>w. fst (part_channel i (ch_name ch) w)) (broadcast_with deliver_plain ch m 0 True s), None)))"

definition bot_deliver_message :: "uid \<Rightarrow> string \<Rightarrow> string \<Rightarrow> string \<Rightarrow> server \<Rightarrow> server \<times> bot_error option" where
  "bot_deliver_message i target text command s =
     (case find_by_id i (sv_world s) of
        None \<Rightarrow> (s, Some ErrUserNotFound)
      | Some u \<Rightarrow>
          let m = plain_message (hostmask (user_of u s)) command [target, text] in
          if target \<noteq> [] \<and> (hd target = CHR ''#'' \<or> hd target = CHR ''&'') then
            (case find_channel target (sv_world s) of
               None \<Rightarrow> (s, Some ErrUserNotFound)
             | Some ch \<Rightarrow> (broadcast_with deliver_bot ch m i False s, None))
          else
            (case find_by_nick target (sv_world s) of
               None \<Rightarrow> (s, Some ErrUserNotFound)
             | Some t \<Rightarrow> (deliver_member deliver_bot m t s, None)))"

definition bot_privmsg :: "uid \<Rightarrow> string \<Rightarrow> string \<Rightarrow> server \<Rightarrow> server \<times> bot_error option" where
  "bot_privmsg i target text = bot_deliver_message i target text ''PRIVMSG''"

definition bot_notice :: "uid \<Rightarrow> string \<Rightarrow> string \<Rightarrow> server \<Rightarrow> server \<times> bot_error option" where
  "bot_notice i target text = bot_deliver_message i target text ''NOTICE''"

section \<open>The invariant\<close>

lemma quiet_send_with_cap [simp, intro]: "quiet s (send_with_cap k m i s)"
  by (simp add: send_with_cap_def split: option.split)

lemma quiet_send_with_caps [simp, intro]: "quiet s (fold (send_with_cap k m) is s)"
  by (rule quiet_fold) simp

lemma quiet_notify_away [simp, intro]: "quiet s (notify_away u r s)"
  by (simp add: notify_away_def)

lemma quiet_notify_chghost [simp, intro]: "quiet s (notify_chghost t m s)"
  unfolding notify_chghost_def by (rule quiet_trans [OF quiet_send_with_caps quiet_send_with_cap])

lemma quiet_tell [simp, intro]: "quiet s (tell c u x ps s)" "quiet s (no_privileges c u s)" "quiet s (server_notice c n x s)"
  by (simp_all add: tell_def no_privileges_def server_notice_def)

lemmas wf_oper_quiet [invs] =
  quiet_wf [OF quiet_notify_away] quiet_wf [OF quiet_notify_chghost] quiet_wf [OF quiet_tell(1)] quiet_wf [OF quiet_tell(2)]
  quiet_wf [OF quiet_tell(3)]

lemma wf_for_user: "wf_server s \<Longrightarrow> (\<And>u. registered_user c s = Some u \<Longrightarrow> wf_server (f u s)) \<Longrightarrow> wf_server (for_user c f s)"
  by (simp add: for_user_def invs split: option.split)

lemma wf_for_oper: "wf_server s \<Longrightarrow> (\<And>u. registered_user c s = Some u \<Longrightarrow> wf_server (f u s)) \<Longrightarrow> wf_server (for_oper c f s)"
  by (simp add: for_oper_def wf_for_user invs)

lemma wf_away_marks [invs]:
  "wf_server s \<Longrightarrow> wf_server (with_user u (\<lambda>x. x\<lparr>u_Away := a, u_Modes := f (u_Modes x)\<rparr>) s)"
  "wf_server s \<Longrightarrow> wf_server (with_user u (\<lambda>x. x\<lparr>u_Modes := f (u_Modes x)\<rparr>) s)"
  "wf_server s \<Longrightarrow> wf_server (with_user u (\<lambda>x. x\<lparr>u_Host := h\<rparr>) s)"
  by (rule wf_with_user; simp)+

lemma wf_handle_away [invs]: "wf_server s \<Longrightarrow> wf_server (handle_away c m s)"
  unfolding handle_away_def Let_def by (rule wf_for_user) (simp_all add: invs)

lemma wf_handle_oper [invs]: "wf_server s \<Longrightarrow> wf_server (handle_oper c m s)"
proof -
  have g: "wf_server s \<Longrightarrow> wf_server (grant_oper c u r s)" for u r s by (simp add: grant_oper_def Let_def invs)
  assume "wf_server s"
  then show ?thesis unfolding handle_oper_def Let_def by (intro wf_for_user) (simp_all add: invs g split: oper_check.split)
qed

lemma wf_kick_user [invs]: "wf_server s \<Longrightarrow> wf_server (fst (kick_user n r s))"
  by (simp add: kick_user_def Let_def invs split: option.split)

lemma wf_topic_chan [invs]: "wf_server s \<Longrightarrow> wf_server (with_chan n (\<lambda>c. set_topic a b t c) s)"
  by (rule wf_with_chan) (simp_all add: wf_set_topic channel_name_frames)

lemma wf_persist [invs]: "wf_server s \<Longrightarrow> wf_server (persist_channel ch s)"
  by (simp add: persist_channel_def)

lemma wf_set_channel_topic [invs]: "wf_server s \<Longrightarrow> wf_server (fst (set_channel_topic n t b s))"
  by (simp add: set_channel_topic_def Let_def invs split: option.split)

lemma wf_handle_kill [invs]: "wf_server s \<Longrightarrow> wf_server (handle_kill c m s)"
  unfolding handle_kill_def Let_def by (rule wf_for_oper) (simp_all add: invs split: option.split)

lemma wf_handle_wallops [invs]: "wf_server s \<Longrightarrow> wf_server (handle_wallops c m s)"
  unfolding handle_wallops_def Let_def by (rule wf_for_oper) (simp_all add: invs)

lemma wf_change_user_host [invs]: "wf_server s \<Longrightarrow> wf_server (change_user_host t h s)"
  by (simp add: change_user_host_def Let_def invs)

lemma wf_handle_chghost [invs]: "wf_server s \<Longrightarrow> wf_server (handle_chghost c m s)"
  unfolding handle_chghost_def by (rule wf_for_oper) (simp_all add: invs split: option.split)

lemma wf_shut_down [invs]: "wf_server s \<Longrightarrow> wf_server (shut_down c u v r s)"
  by (simp add: shut_down_def invs split: option.split)

lemma wf_admin_cmds [invs]:
  "wf_server s \<Longrightarrow> wf_server (handle_rehash wr c s)" "wf_server s \<Longrightarrow> wf_server (rehash_failed c n e s)"
  "wf_server s \<Longrightarrow> wf_server (handle_die c m s)" "wf_server s \<Longrightarrow> wf_server (handle_restart c s)"
  "wf_server s \<Longrightarrow> wf_server (handle_squit wr c m s)" "wf_server s \<Longrightarrow> wf_server (handle_connect wr c m s)"
  "wf_server s \<Longrightarrow> wf_server (connect_failed c n t e s)"
  unfolding handle_rehash_def rehash_failed_def handle_die_def handle_restart_def handle_squit_def handle_connect_def
    connect_failed_def Let_def
  by (rule wf_for_oper; simp add: invs | simp add: invs)+

lemma wf_handle_service [invs]: "wf_server s \<Longrightarrow> wf_server (handle_service c m s)"
proof -
  assume wf: "wf_server s"
  have p: "wf_server (promote c u w s)"
    if "registered_user c s = None" "add_user (service_record c m s) (sv_now s) (sv_world s) = (w, Inr u)" for w u
    by (rule wf_promote [OF wf _ that(2)]) (use that(1) no_user [OF wf] in \<open>simp_all add: service_record_def\<close>)
  show ?thesis
  proof (cases "registered_user c s")
    case (Some u)
    then show ?thesis using wf by (simp add: handle_service_def invs)
  next
    case None
    obtain w r where a: "add_user (service_record c m s) (sv_now s) (sv_world s) = (w, r)" by force
    show ?thesis
    proof (cases r)
      case (Inl e)
      then show ?thesis using wf None a by (cases e) (simp_all add: handle_service_def Let_def invs)
    next
      case (Inr u)
      then show ?thesis using wf None a p by (simp add: handle_service_def Let_def invs)
    qed
  qed
qed

lemma wf_handle_squery [invs]: "wf_server s \<Longrightarrow> wf_server (handle_squery c m s)"
  unfolding handle_squery_def Let_def by (rule wf_for_user) (simp_all add: invs split: option.split)

lemma wf_join_any: "wf_world w \<Longrightarrow> wf_world (fst (join_channel u name t w))"
proof -
  assume wf: "wf_world w"
  obtain w1 ch created where e: "ensure_channel name t w = (w1, ch, created)" by (metis prod.exhaust)
  note r = ensure_channel_result [OF wf_worldD(2) [OF wf] e]
  have w1: "wf_world w1" using wf_ensure_channel [OF wf, of name t] e by simp
  have map1: "wfold w1 name = wfold w name" using mapping_frames(7) [of name t w] e by simp
  have step: "wf_world (upd_channel name (\<lambda>_. d) w1)" if "wf_channel d" "ch_name d = ch_name ch" for d
    using w1 by (rule wf_upd_channel) (use that r(1) map1 in auto)
  obtain ch1 mem added where a: "add_member u created ch = (ch1, mem, added)" by (metis prod.exhaust)
  have ch1: "wf_channel ch1" "ch_name ch1 = ch_name ch"
    using wf_add_member [OF r(2), of u created] a by (auto simp: add_member_def Let_def split: option.splits)
  obtain ch2 m2 b where m: "add_membership u MemberOp ch1 = (ch2, m2, b)" by (metis prod.exhaust)
  have ch2: "wf_channel ch2" "ch_name ch2 = ch_name ch"
    using wf_add_membership [OF ch1(1), of u MemberOp] channel_name_frames(2) [of u MemberOp ch1] m ch1(2) by simp_all
  show ?thesis using wf step [OF ch1] step [OF ch2] by (simp add: join_channel_def e a m Let_def)
qed

lemma wf_bot_join [invs]: "wf_server s \<Longrightarrow> wf_server (fst (bot_join i n s))"
proof -
  assume wf: "wf_server s"
  obtain w x where j: "join_channel i n (sv_now s) (sv_world s) = (w, x)" by (metis prod.exhaust)
  have "wf_server (upd_sworld (\<lambda>_. w) s)"
    using wf_new_sworld [OF wf wf_join_any [OF wf_serverD(1) [OF wf]], of i n "sv_now s"] join_users [of i n "sv_now s" "sv_world s"] j
    by (simp add: upd_sworld_def)
  with wf show ?thesis by (cases x) (simp_all add: bot_join_def j Let_def invs split: option.split)
qed

lemma wf_bot_part [invs]: "wf_server s \<Longrightarrow> wf_server (fst (bot_part i n r s))"
  by (simp add: bot_part_def Let_def invs split: option.split)

lemma wf_bot_deliver [invs]: "wf_server s \<Longrightarrow> wf_server (fst (bot_deliver_message i t x m s))"
  by (simp add: bot_deliver_message_def Let_def invs wf_deliver_member_bot split: option.split)

end
