(* ===== verification/Session.thy ===== *)
theory Session
  imports Oper_Cmds
begin

text \<open>
  The life of a connection, \<^verbatim>\<open>internal/server/conn.go\<close>, and the dispatch of its commands, \<^verbatim>\<open>handler.go\<close>.
  The three loops of a connection appear as the steps they repeat: a line read, a message written, a tick of
  the ping timer; \<^verbatim>\<open>close\<close> runs when all have ended. A nil dereference is \<^const>\<open>None\<close>: nothing recovers
  from it, so it ends the process.
\<close>

section \<open>Dispatch\<close>

definition unknown_command :: "cid \<Rightarrow> message \<Rightarrow> server \<Rightarrow> server" where
  "unknown_command c m = for_user c (\<lambda>u. tell c u ''421'' [msg_Command m, ''Unknown command''])"

text \<open>The handlers that cannot fail, by command name.\<close>

definition handler_of :: "wiring \<Rightarrow> cid \<Rightarrow> message \<Rightarrow> (string \<times> (server \<Rightarrow> server)) list" where
  "handler_of wr c m =
     [(''PASS'', handle_pass c m), (''NICK'', handle_nick c m), (''USER'', handle_user c m),
      (''SERVICE'', handle_service c m), (''SQUERY'', handle_squery c m), (''SERVLIST'', handle_servlist c m),
      (''JOIN'', handle_join c m), (''PART'', handle_part c m), (''KICK'', handle_kick c m), (''INVITE'', handle_invite c m),
      (''OPER'', handle_oper c m), (''KILL'', handle_kill c m), (''PRIVMSG'', handle_privmsg c m), (''NOTICE'', handle_notice c m),
      (''TOPIC'', handle_topic c m), (''NAMES'', handle_names c m), (''LIST'', handle_list c m), (''WHO'', handle_who c m),
      (''WHOIS'', handle_whois c m), (''WHOWAS'', handle_whowas c m), (''MODE'', handle_mode c m),
      (''VERSION'', handle_version c), (''TIME'', handle_time c), (''ADMIN'', handle_admin c), (''INFO'', handle_info c),
      (''LUSERS'', handle_lusers c), (''AWAY'', handle_away c m), (''WALLOPS'', handle_wallops c m),
      (''STATS'', handle_stats (wr_links wr) c m), (''REHASH'', handle_rehash wr c), (''DIE'', handle_die c m),
      (''RESTART'', handle_restart c), (''LINKS'', handle_links (wr_links wr) c m), (''SQUIT'', handle_squit wr c m),
      (''CONNECT'', handle_connect wr c m), (''TRACE'', handle_trace (wr_links wr) c), (''SUMMON'', handle_summon c),
      (''USERS'', handle_users c), (''USERHOST'', handle_userhost c m), (''ISON'', handle_ison c m),
      (''PING'', handle_ping c m), (''PONG'', \<lambda>s. s), (''QUIT'', handle_quit c m), (''CAP'', handle_cap c m),
      (''CHGHOST'', handle_chghost c m)]"

definition dispatch :: "wiring \<Rightarrow> cid \<Rightarrow> message \<Rightarrow> server \<Rightarrow> server option" where
  "dispatch wr c m s =
     (if msg_Command m = ''MOTD'' then handle_motd_command c s
      else if msg_Command m = ''AUTHENTICATE'' then handle_authenticate c m s
      else case map_of (handler_of wr c m) (msg_Command m) of
        Some h \<Rightarrow> Some (h s)
      | None \<Rightarrow> Some (unknown_command c m s))"

section \<open>The loops\<close>

definition read_line :: "wiring \<Rightarrow> cid \<Rightarrow> string \<Rightarrow> server \<Rightarrow> server option" where
  "read_line wr c line s =
     (if length line > MaxMessageBytes then Some (cancel c ''read loop exited'' (send_error c ''Message too long'' s))
      else
        let s1 = upd_conn c (\<lambda>cn. cn\<lparr>cn_lastActivity := sv_now s\<rparr>) s in
        case parse line of
          Inl _ \<Rightarrow> Some s1
        | Inr m \<Rightarrow> dispatch wr c m (s1\<lparr>sv_messagesIn := sv_messagesIn s1 + 1\<rparr>))"

text \<open>The oldest message goes out; one that cannot be encoded is dropped.\<close>

definition write_message :: "cid \<Rightarrow> server \<Rightarrow> server \<times> string" where
  "write_message c s =
     (case cn_out (sv_heap s c) of
        [] \<Rightarrow> (s, [])
      | m # q \<Rightarrow>
          let s1 = upd_conn c (\<lambda>cn. cn\<lparr>cn_out := q\<rparr>) s in
          case msg_bytes m of
            Inl _ \<Rightarrow> (s1, [])
          | Inr data \<Rightarrow> (s1\<lparr>sv_messagesOut := sv_messagesOut s1 + 1\<rparr>, data))"

text \<open>What the write loop does with the queue when the connection is cancelled.\<close>

definition drain_outbound :: "cid \<Rightarrow> server \<Rightarrow> server \<times> string" where
  "drain_outbound c s =
     fold (\<lambda>_ (s, out). case write_message c s of (s', data) \<Rightarrow> (s', out @ data)) (cn_out (sv_heap s c)) (s, [])"

definition or_default :: "int \<Rightarrow> int \<Rightarrow> int" where
  "or_default secs dflt = (if secs * 1000000000 \<le> 0 then dflt * 1000000000 else secs * 1000000000)"

definition ping_interval :: "limits \<Rightarrow> int" where
  "ping_interval l = or_default (lm_PingIntervalSeconds l) 120"

definition ping_timeout :: "limits \<Rightarrow> int" where
  "ping_timeout l = or_default (lm_PingTimeoutSeconds l) 240"

text \<open>The period of the ticker.\<close>

definition ping_period :: "limits \<Rightarrow> int" where
  "ping_period l = max (ping_interval l div 4) 1000000000"

definition ping_tick :: "cid \<Rightarrow> server \<Rightarrow> server" where
  "ping_tick c s =
     (if cn_cancel (sv_heap s c) \<noteq> None then s
      else
        let idle = sv_now s - cn_lastActivity (sv_heap s c) in
        if idle \<ge> ping_timeout (srv_limits s) then
          cancel c ''ping timeout'' (send_error c (''Ping timeout: '' @ format_seconds (idle div 1000000000)) s)
        else if idle \<ge> ping_interval (srv_limits s) then send c (plain_message [] ''PING'' [srv_name s]) s
        else s)"

section \<open>The end\<close>

fun quit_channels :: "uid \<Rightarrow> message \<Rightarrow> uid list \<Rightarrow> channel list \<Rightarrow> server \<Rightarrow> server" where
  "quit_channels u m seen [] s = s"
| "quit_channels u m seen (ch # chs) s =
     (let new = first_visits seen (member_ids ch)
      in quit_channels u m (new @ seen) chs
           (upd_sworld (\<lambda>w. fst (part_channel u (ch_name ch) w)) (fold (send_to_user m) new s)))"

definition broadcast_quit :: "uid \<Rightarrow> string \<Rightarrow> server \<Rightarrow> server" where
  "broadcast_quit u reason s =
     (let m = plain_message (hostmask (user_of u s)) ''QUIT'' [reason]
      in forward_to_all m (quit_channels u m [u] (user_channels u (sv_world s)) s))"

text \<open>The registry lets go of the user before the connection does.\<close>

definition forget_user :: "cid \<Rightarrow> uid \<Rightarrow> server \<Rightarrow> server" where
  "forget_user c u s =
     upd_conn c (\<lambda>cn. cn\<lparr>cn_user := None\<rparr>) (upd_sworld (\<lambda>w. fst (remove_user u w)) (unregister_conn u s))"

definition close_conn :: "cid \<Rightarrow> server \<Rightarrow> server" where
  "close_conn c s =
     (if cn_closed (sv_heap s c) then s
      else
        let s1 = upd_conn c (\<lambda>cn. cn\<lparr>cn_closed := True\<rparr>) (cancel c ''EOF'' s) in
        case cn_user (sv_heap s1 c) of
          None \<Rightarrow> s1
        | Some u \<Rightarrow>
            let reason = (if cn_quitReason (sv_heap s1 c) = [] then ''Client closed connection'' else cn_quitReason (sv_heap s1 c));
                s2 = broadcast_quit u reason s1
            in forget_user c u (record_whowas (user_of u s2) s2))"

section \<open>The invariant\<close>

lemmas handlers_wf = wf_handle_pass wf_handle_nick wf_handle_user wf_handle_service wf_handle_squery wf_handle_join
  wf_handle_part wf_handle_kick wf_handle_invite wf_handle_oper wf_handle_kill wf_handle_messages wf_handle_topic wf_handle_mode
  wf_handle_away wf_handle_wallops wf_admin_cmds wf_handle_ping wf_handle_quit wf_handle_cap wf_handle_chghost wf_queries

lemma wf_handler: "wf_server s \<Longrightarrow> (k, h) \<in> set (handler_of wr c m) \<Longrightarrow> wf_server (h s)"
proof -
  assume wf: "wf_server s" and "(k, h) \<in> set (handler_of wr c m)"
  moreover have "list_all (\<lambda>(k, h). wf_server (h s)) (handler_of wr c m)"
    by (simp only: handler_of_def list.pred_inject prod.case simp_thms wf handlers_wf [OF wf])
  ultimately show ?thesis by (auto simp: list_all_iff)
qed

lemma wf_dispatch: "wf_server s \<Longrightarrow> dispatch wr c m s = Some s' \<Longrightarrow> wf_server s'"
proof -
  assume wf: "wf_server s" and d: "dispatch wr c m s = Some s'"
  show ?thesis
  proof (cases "msg_Command m = ''AUTHENTICATE''"; cases "msg_Command m = ''MOTD''")
    assume "msg_Command m = ''AUTHENTICATE''" and motd: "msg_Command m = ''MOTD''"
    then show ?thesis by simp
  next
    assume "msg_Command m \<noteq> ''AUTHENTICATE''" and motd: "msg_Command m = ''MOTD''"
    show ?thesis by (rule wf_motd_command [OF wf]) (use d in \<open>simp only: dispatch_def motd if_True simp_thms\<close>)
  next
    assume auth: "msg_Command m = ''AUTHENTICATE''" and "msg_Command m \<noteq> ''MOTD''"
    then show ?thesis by (intro wf_handle_authenticate [OF wf]) (use d in \<open>simp only: dispatch_def if_False if_True simp_thms\<close>)
  next
    assume "msg_Command m \<noteq> ''AUTHENTICATE''" "msg_Command m \<noteq> ''MOTD''"
    note other = this(2) this(1)
    note d' = d [unfolded dispatch_def if_not_P [OF other(1)] if_not_P [OF other(2)]]
    show ?thesis
    proof (cases "map_of (handler_of wr c m) (msg_Command m)")
      case None
      then have "s' = unknown_command c m s" using d' by simp
      then show ?thesis using wf by (simp add: unknown_command_def wf_for_user invs)
    next
      case (Some h)
      then have "s' = h s" using d' by simp
      then show ?thesis using wf_handler [OF wf map_of_SomeD [OF Some]] by simp
    qed
  qed
qed

lemma wf_conn_clock [invs]:
  "wf_server s \<Longrightarrow> wf_server (upd_conn c (\<lambda>cn. cn\<lparr>cn_lastActivity := t\<rparr>) s)"
  "wf_server s \<Longrightarrow> wf_server (upd_conn c (\<lambda>cn. cn\<lparr>cn_closed := b\<rparr>) s)"
  by (rule wf_upd_conn; use wf_serverD(3) in \<open>simp add: wf_conn_def\<close>)+

lemma wf_read_line: "wf_server s \<Longrightarrow> read_line wr c line s = Some s' \<Longrightarrow> wf_server s'"
proof -
  assume wf: "wf_server s" and r: "read_line wr c line s = Some s'"
  define s1 where "s1 = upd_conn c (\<lambda>cn. cn\<lparr>cn_lastActivity := sv_now s\<rparr>) s"
  have s1: "wf_server s1" unfolding s1_def by (rule wf_conn_clock) (rule wf)
  note r' = r [unfolded read_line_def Let_def, folded s1_def]
  show ?thesis
  proof (cases "length line > MaxMessageBytes")
    case True
    then have "s' = cancel c ''read loop exited'' (send_error c ''Message too long'' s)" using r' by simp
    then show ?thesis using wf by (simp add: invs)
  next
    case False
    note r'' = r' [unfolded if_not_P [OF False]]
    show ?thesis
    proof (cases "parse line")
      case (Inl e)
      then show ?thesis using r'' s1 by simp
    next
      case (Inr m)
      have "wf_server (s1\<lparr>sv_messagesIn := sv_messagesIn s1 + 1\<rparr>)" using s1 by (simp add: invs)
      then show ?thesis by (rule wf_dispatch) (use r'' Inr in simp)
    qed
  qed
qed

lemma wf_write_message [invs]: "wf_server s \<Longrightarrow> wf_server (fst (write_message c s))"
proof -
  assume wf: "wf_server s"
  have "wf_server (upd_conn c (\<lambda>cn. cn\<lparr>cn_out := q\<rparr>) s)" if "cn_out (sv_heap s c) = m # q" for m q
    by (rule wf_upd_conn [OF wf]) (use wf_serverD(3) [OF wf, of c] that in \<open>simp_all add: wf_conn_def\<close>)
  then show ?thesis using wf by (simp add: write_message_def Let_def split: list.split sum.split)
qed

lemma quiet_ping_tick [simp, intro]: "quiet s (ping_tick c s)"
  unfolding ping_tick_def Let_def by (auto intro!: quiet_after)

lemmas wf_ping_tick [invs] = quiet_wf [OF quiet_ping_tick]

lemma wf_quit_channels [invs]: "wf_server s \<Longrightarrow> wf_server (quit_channels u m seen chs s)"
proof (induction chs arbitrary: seen s)
  case (Cons ch chs)
  show ?case unfolding quit_channels.simps Let_def by (rule Cons.IH) (simp add: Cons.prems invs)
qed simp

lemma wf_broadcast_quit [invs]: "wf_server s \<Longrightarrow> wf_server (broadcast_quit u r s)"
  by (simp add: broadcast_quit_def Let_def invs)

lemma wf_forget_user: "wf_server s \<Longrightarrow> cn_user (sv_heap s c) = Some u \<Longrightarrow> wf_server (forget_user c u s)"
proof -
  assume wf: "wf_server s" and u: "cn_user (sv_heap s c) = Some u"
  note wr = wf_remove_user_server [OF wf, of u]
  have only: "cn_user (sv_heap s d) = Some u \<Longrightarrow> d = c" for d
    using conns_okD(2) [OF wf_serverD(4) [OF wf], of u] u by (metis option.inject)
  have f: "sv_world (forget_user c u s) = fst (remove_user u (sv_world s))"
    "sv_heap (forget_user c u s) = (sv_heap s)(c := (sv_heap s c)\<lparr>cn_user := None\<rparr>)"
    "sv_conns (forget_user c u s) = mdel u (sv_conns s)" "sv_whowas (forget_user c u s) = sv_whowas s"
    "sv_bots (forget_user c u s) = sv_bots s" "sv_links (forget_user c u s) = sv_links s" "sv_subs (forget_user c u s) = sv_subs s"
    by (simp_all add: forget_user_def upd_conn_def upd_sworld_def unregister_conn_def)
  note ok = conns_okD [OF wf_serverD(4) [OF wf]]
  have user: "user_of v (forget_user c u s) = user_of v s" "w_nextID (sv_world (forget_user c u s)) = w_nextID (sv_world s)" for v
    by (simp_all add: user_of_def f remove_user_def Let_def)
  have "map_of (sv_conns (forget_user c u s)) v = Some d \<longleftrightarrow> cn_user (sv_heap (forget_user c u s) d) = Some v" for v d
  proof (cases "d = c")
    case True
    have "map_of (sv_conns s) v = Some c \<longleftrightarrow> v = u" using ok(2) [of v c] u by auto
    then show ?thesis by (simp add: f True)
  next
    case False
    then show ?thesis using only [of d] by (auto simp: f ok(2))
  qed
  moreover have "wf_map (sv_conns (forget_user c u s))" using ok(1) by (simp add: f)
  moreover have "cn_user (sv_heap (forget_user c u s) d) = Some v \<Longrightarrow> cn_user (sv_heap s d) = Some v" for v d
    by (simp add: f split: if_splits)
  ultimately have "conns_ok (forget_user c u s)" unfolding conns_ok_def user using ok(3) by blast
  moreover have "wf_conn (sv_heap (forget_user c u s) d)" for d
    using wf_serverD(3) [OF wf, of d] wf_serverD(3) [OF wf, of c] by (simp add: f wf_conn_def)
  ultimately show ?thesis using wf wf_remove_user [OF wf_serverD(1) [OF wf], of u] by (simp add: wf_server_def f)
qed

lemma quit_channels_conns [simp]:
  "cn_user (sv_heap (quit_channels u m seen chs s) c) = cn_user (sv_heap s c)"
  "cn_closed (sv_heap (quit_channels u m seen chs s) c) = cn_closed (sv_heap s c)"
  "sv_conns (quit_channels u m seen chs s) = sv_conns s"
  by (induction chs arbitrary: seen s) (simp_all add: Let_def upd_sworld_def)

lemma broadcast_quit_conns [simp]:
  "cn_user (sv_heap (broadcast_quit u r s) c) = cn_user (sv_heap s c)"
  "sv_conns (broadcast_quit u r s) = sv_conns s"
  by (simp_all add: broadcast_quit_def Let_def)

lemma record_whowas_conns [simp]:
  "sv_heap (record_whowas x s) = sv_heap s" "sv_conns (record_whowas x s) = sv_conns s"
  by (simp_all add: record_whowas_def)

lemma wf_close_conn [invs]: "wf_server s \<Longrightarrow> wf_server (close_conn c s)"
proof -
  assume wf: "wf_server s"
  define s1 where "s1 = upd_conn c (\<lambda>cn. cn\<lparr>cn_closed := True\<rparr>) (cancel c ''EOF'' s)"
  have 1: "wf_server s1" using wf by (simp add: s1_def invs)
  have 2: "wf_server (forget_user c u (record_whowas x (broadcast_quit u r s1)))" if "cn_user (sv_heap s1 c) = Some u" for u x r
    by (rule wf_forget_user) (simp_all add: 1 that wf_record_whowas wf_broadcast_quit)
  show ?thesis
    by (cases "cn_closed (sv_heap s c)"; cases "cn_user (sv_heap s1 c)")
      (simp_all add: wf 1 2 close_conn_def Let_def s1_def [symmetric])
qed

end
