(* ===== verification/Session_Props.thy ===== *)
theory Session_Props
  imports Session
begin

text \<open>
  What a connection can and cannot do: which lines end the process, what a client that never registered can
  change, what remains of a connection after its end, and when the ping timer ends it.
\<close>

section \<open>Lines that end the process\<close>

text \<open>The argument of \<^verbatim>\<open>AUTHENTICATE\<close> decodes to a name and a password.\<close>

definition sasl_credentials :: "message \<Rightarrow> bool" where
  "sasl_credentials m =
     (case msg_Params m of
        [] \<Rightarrow> False
      | arg # _ \<Rightarrow> arg \<noteq> ''PLAIN'' \<and> arg \<noteq> ''*'' \<and> length arg \<le> 400 \<and>
          (case Option.bind (b64_decode_std arg) sasl_parts of
             None \<Rightarrow> False
           | Some (authcid, password) \<Rightarrow> authcid \<noteq> [] \<and> password \<noteq> []))"

lemma authenticate_panics:
  "handle_authenticate c m s = None \<longleftrightarrow> registered_user c s = None \<and> sv_store s = None \<and> sasl_credentials m"
proof (cases "msg_Params m")
  case Nil
  then show ?thesis by (simp add: handle_authenticate_def sasl_credentials_def)
next
  case (Cons arg rest)
  show ?thesis
    unfolding handle_authenticate_def sasl_credentials_def Cons Let_def
    by (simp split: option.split)
qed

lemma motd_line: "parse (''MOTD'' @ [CHR 0x0D, CHR 0x0A]) = Inr (plain_message [] ''MOTD'' [])"
  by code_simp

lemma motd_panics: "handle_motd_command c s = None \<longleftrightarrow> cn_user (sv_heap s c) = None"
  by (simp add: handle_motd_command_def)

lemma dispatch_None:
  "dispatch wr c m s = None \<longleftrightarrow>
     (if msg_Command m = ''MOTD'' then handle_motd_command c s = None
      else msg_Command m = ''AUTHENTICATE'' \<and> handle_authenticate c m s = None)"
  by (cases "map_of (handler_of wr c m) (msg_Command m)") (simp_all add: dispatch_def del: map_of.simps)

text \<open>
  C40: A command ends the process exactly when it is \<^verbatim>\<open>MOTD\<close> from a client that has not registered, or well-formed
  SASL credentials from such a client where no store is configured. So any client can end a server with the four
  letters of the first.
\<close>

theorem dispatch_panics:
  "(dispatch wr c m s = None \<longleftrightarrow>
      (if msg_Command m = ''MOTD'' then cn_user (sv_heap s c) = None
       else msg_Command m = ''AUTHENTICATE'' \<and> registered_user c s = None \<and> sv_store s = None \<and> sasl_credentials m)) \<and>
   (read_line wr c (''MOTD'' @ [CHR 0x0D, CHR 0x0A]) s = None \<longleftrightarrow> cn_user (sv_heap s c) = None)"
  unfolding dispatch_None authenticate_panics motd_panics
  unfolding read_line_def motd_line Let_def
  by (simp add: MaxMessageBytes_def dispatch_None motd_panics upd_conn_def plain_message_def)

section \<open>A client that is not registered\<close>

definition inert :: "cid \<Rightarrow> server \<Rightarrow> server \<Rightarrow> bool" where
  "inert c s s' = (sv_world s' = sv_world s \<and> (\<forall>d. d \<noteq> c \<longrightarrow> sv_heap s' d = sv_heap s d))"

lemma inert_refl: "inert c s s"
  by (simp add: inert_def)

lemma answers_inert: "answers c s s' \<Longrightarrow> inert c s s'"
  by (auto simp: answers_def inert_def dest: quietD)

lemma inert_upd_conn: "inert c s (upd_conn c f s)"
  by (simp add: inert_def upd_conn_def)

lemma inert_trans: "inert c a b \<Longrightarrow> inert c b d \<Longrightarrow> inert c a d"
  by (simp add: inert_def)

lemmas inert_quiet = answers_inert [OF answers_send] answers_inert [OF answers_reply(1) [OF answers_refl]]

lemma inert_send_after: "inert c s t \<Longrightarrow> inert c s (send c m t)" "inert c s t \<Longrightarrow> inert c s (reply c n k ps t)"
  "inert c s t \<Longrightarrow> inert c s (cancel c r t)" "inert c s t \<Longrightarrow> inert c s (send_error c r t)" "inert c s t \<Longrightarrow> inert c s (upd_conn c f t)"
  by (auto intro: inert_trans inert_quiet inert_upd_conn simp: send_error_def cancel_def)

lemma inert_errors: "inert c s (not_registered c s)" "inert c s (need_more_params c k s)"
  by (simp_all add: not_registered_def need_more_params_def inert_quiet)

lemma unregistered_refusals:
  assumes "registered_user c s = None"
  shows "handle_join c m s = not_registered c s" "handle_part c m s = not_registered c s" "handle_kick c m s = not_registered c s"
    "handle_invite c m s = not_registered c s" "handle_topic c m s = not_registered c s" "handle_mode c m s = not_registered c s"
    "handle_oper c m s = not_registered c s" "handle_kill c m s = not_registered c s" "handle_away c m s = not_registered c s"
    "handle_wallops c m s = not_registered c s" "handle_chghost c m s = not_registered c s" "handle_squery c m s = not_registered c s"
    "handle_rehash wr c s = not_registered c s" "handle_die c m s = not_registered c s" "handle_restart c s = not_registered c s"
    "handle_squit wr c m s = not_registered c s" "handle_connect wr c m s = not_registered c s"
    "handle_privmsg c m s = not_registered c s"
  using assms by (simp_all add: handle_join_def handle_part_def handle_kick_def handle_invite_def handle_topic_def handle_mode_def
      handle_oper_def handle_kill_def handle_away_def handle_wallops_def handle_chghost_def handle_squery_def handle_rehash_def
      handle_die_def handle_restart_def handle_squit_def handle_connect_def handle_privmsg_def deliver_message_def
      for_user_def for_oper_def)

lemma unregistered_pass: "inert c s (handle_pass c m s)"
  unfolding handle_pass_def Let_def upd_pending_def
  by (auto intro!: inert_errors inert_quiet inert_upd_conn split: option.split)

lemma unregistered_authenticate: "handle_authenticate c m s = Some s' \<Longrightarrow> inert c s s'"
  unfolding handle_authenticate_def Let_def sasl_fail_def upd_pending_def
  by (auto intro!: inert_errors inert_send_after inert_upd_conn inert_refl split: if_splits option.splits)

lemma unregistered_quit: "inert c s (handle_quit c m s)"
  unfolding handle_quit_def Let_def by (intro inert_send_after inert_refl)

lemmas inert_answers = answers_all [THEN answers_inert]

lemma inert_handler:
  assumes "registered_user c s = None" "(k, h) \<in> set (handler_of wr c m)" "k \<notin> {''NICK'', ''USER'', ''CAP'', ''SERVICE''}"
  shows "inert c s (h s)"
proof -
  have notice: "handle_notice c m s = s"
    using assms(1) by (simp add: handle_notice_def deliver_message_def)
  have ping: "inert c s (handle_ping c m s)" unfolding handle_ping_def by (intro inert_send_after inert_refl)
  have "list_all (\<lambda>(k, h). k \<in> {''NICK'', ''USER'', ''CAP'', ''SERVICE''} \<or> inert c s (h s)) (handler_of wr c m)"
    by (simp only: handler_of_def list.pred_inject prod.case simp_thms insert_iff unregistered_refusals [OF assms(1)] notice
        inert_errors inert_refl inert_answers unregistered_pass unregistered_quit ping)
  then show ?thesis using assms(2,3) by (auto simp: list_all_iff)
qed

text \<open>A registration adds one user to the world and does nothing else to it.\<close>

definition admits :: "world \<Rightarrow> world \<Rightarrow> bool" where
  "admits w w' = (w' = w \<or> (\<exists>x t u. add_user x t w = (w', Inr u)))"

lemma admits_refl [simp]: "admits w w"
  by (simp add: admits_def)

lemma admits_register:
  assumes "wf_server s" "cn_user (sv_heap s c) = None"
  shows "admits (sv_world s) (sv_world (try_complete_registration c s))"
  using register_no [OF assms] register_yes [OF assms] by (cases "may_register c s") (auto simp: admits_def)

lemma pending_frames:
  "sv_world (upd_pending c f s) = sv_world s" "cn_user (sv_heap (upd_pending c f s) d) = cn_user (sv_heap s d)"
  by (simp_all add: upd_pending_def upd_conn_def)

lemma admits_pending:
  assumes "wf_server s" "cn_user (sv_heap s c) = None"
  shows "admits (sv_world s) (sv_world (try_complete_registration c (upd_pending c f s)))"
  using admits_register [OF wf_upd_pending [OF assms(1), of c f]] assms(2) by (simp add: pending_frames)

lemma admits_inert: "inert c s s' \<Longrightarrow> admits (sv_world s) (sv_world s')"
  by (simp add: inert_def admits_def)

lemma admits_nick_user_cap:
  assumes "wf_server s" "registered_user c s = None"
  shows "admits (sv_world s) (sv_world (handle_nick c m s))" "admits (sv_world s) (sv_world (handle_user c m s))"
    "admits (sv_world s) (sv_world (handle_cap c m s))"
proof -
  have none: "cn_user (sv_heap s c) = None" using assms by (simp add: registered_user_iff)
  note p = admits_pending [OF assms(1) none]
  note i = admits_inert [OF inert_send_after(2) [OF inert_refl]] admits_inert [OF inert_errors(2)] admits_inert [OF inert_refl]
  show "admits (sv_world s) (sv_world (handle_nick c m s))" "admits (sv_world s) (sv_world (handle_user c m s))"
    by (simp_all add: handle_nick_def handle_user_def Let_def assms(2) p i)
  have "inert c s (send_cap c k ps (upd_conn c f (upd_pending c g s)))" "inert c s (send_cap c k ps (upd_pending c g s))"
    "inert c s (send_cap c k ps s)" for k ps f g
    by (simp_all add: send_cap_def upd_pending_def inert_send_after inert_refl)
  note this [THEN admits_inert]
  then show "admits (sv_world s) (sv_world (handle_cap c m s))" by (simp add: handle_cap_def Let_def p i)
qed

lemma admits_service:
  assumes "registered_user c s = None"
  shows "admits (sv_world s) (sv_world (handle_service c m s))"
proof -
  obtain w r where a: "add_user (service_record c m s) (sv_now s) (sv_world s) = (w, r)" by force
  note i = admits_inert [OF inert_send_after(2) [OF inert_refl]] admits_inert [OF inert_errors(2)]
    admits_inert [OF inert_send_after(3) [OF inert_send_after(4) [OF inert_refl]]]
  have "admits (sv_world s) w" if "r = Inr u" for u using a that by (auto simp: admits_def)
  then show ?thesis
    by (cases r) (simp_all add: handle_service_def Let_def assms a i split: state_error.split)
qed

lemma admits_table:
  assumes "wf_server s" "registered_user c s = None" "(k, h) \<in> set (handler_of wr c m)" "k \<in> {''NICK'', ''USER'', ''CAP'', ''SERVICE''}"
  shows "admits (sv_world s) (sv_world (h s))"
proof -
  have "list_all (\<lambda>(k, h). k \<notin> {''NICK'', ''USER'', ''CAP'', ''SERVICE''} \<or> admits (sv_world s) (sv_world (h s))) (handler_of wr c m)"
    unfolding handler_of_def by (simp add: admits_nick_user_cap [OF assms(1,2)] admits_service [OF assms(2)])
  then show ?thesis using assms(3,4) by (auto simp: list_all_iff)
qed

lemma dispatch_unregistered:
  assumes "wf_server s" "registered_user c s = None" "dispatch wr c m s = Some s'"
  shows "inert c s s' \<or>
    msg_Command m \<in> {''NICK'', ''USER'', ''CAP'', ''SERVICE''} \<and> admits (sv_world s) (sv_world s')"
proof (cases "msg_Command m = ''MOTD''")
  case True
  then show ?thesis using assms(3) registered_user_iff [OF assms(1)] assms(2) by (simp add: dispatch_def handle_motd_command_def)
next
  case motd: False
  show ?thesis
  proof (cases "msg_Command m = ''AUTHENTICATE''")
    case True
    then show ?thesis using assms(3) unregistered_authenticate [of c m s s'] by (simp add: dispatch_def)
  next
    case False
    note d = assms(3) [unfolded dispatch_def if_not_P [OF motd] if_not_P [OF False]]
    show ?thesis
    proof (cases "map_of (handler_of wr c m) (msg_Command m)")
      case None
      then have "s' = unknown_command c m s" using d by simp
      then show ?thesis using assms(2) by (simp add: unknown_command_def for_user_def inert_errors)
    next
      case (Some h)
      then have "s' = h s" using d by simp
      then show ?thesis
        using inert_handler [OF assms(2) map_of_SomeD [OF Some]] admits_table [OF assms(1,2) map_of_SomeD [OF Some]] by blast
    qed
  qed
qed


section \<open>The end of a connection\<close>

text \<open>What the network looks like from outside: who has a nickname, who is in a channel.\<close>

definition directory :: "world \<Rightarrow> string \<Rightarrow> uid option" where
  "directory w n = find_by_nick n w"

definition occupants :: "world \<Rightarrow> string \<Rightarrow> uid set" where
  "occupants w n = (case find_channel n w of None \<Rightarrow> {} | Some ch \<Rightarrow> {v. is_member v ch})"

definition quit_view :: "uid \<Rightarrow> (string \<Rightarrow> uid option) \<times> (string \<Rightarrow> uid set) \<Rightarrow> (string \<Rightarrow> uid option) \<times> (string \<Rightarrow> uid set)" where
  "quit_view u v = (\<lambda>n. if fst v n = Some u then None else fst v n, \<lambda>n. snd v n - {u})"

definition view :: "server \<Rightarrow> (string \<Rightarrow> uid option) \<times> (string \<Rightarrow> uid set)" where
  "view s = (directory (sv_world s), occupants (sv_world s))"

lemma occupants_part:
  "occupants (fst (part_channel u k w)) n = (if wfold w n = wfold w k then occupants w n - {u} else occupants w n)"
proof (cases "find_channel k w")
  case None
  then show ?thesis using find_channel_fold [of w n k] by (simp add: part_channel_def occupants_def)
next
  case (Some ch)
  show ?thesis
  proof (cases "is_member u ch")
    case False
    then show ?thesis using Some find_channel_fold [of w n k]
      by (auto simp: part_channel_def remove_member_no occupants_def split: option.split)
  next
    case True
    let ?ch1 = "fst (remove_member u ch)"
    have "member_count ?ch1 = 0 \<Longrightarrow> {v. is_member v ch} - {u} = {}" by (auto simp: member_count_0)
    then show ?thesis using Some find_channel_fold [of w n k] part_channel_member [OF Some True]
      by (auto simp: Let_def occupants_def split: option.split)
  qed
qed

lemma part_frames: "w_mapping (fst (part_channel u k w)) = w_mapping w" "directory (fst (part_channel u k w)) = directory w"
  by (auto simp: part_channel_def directory_def fun_eq_iff Let_def split: option.split prod.split bool.split)

lemma quit_channels_world:
  "sv_world (quit_channels u m seen chs s) = fold (\<lambda>ch w. fst (part_channel u (ch_name ch) w)) chs (sv_world s)"
  by (induction chs arbitrary: seen s) (simp_all add: Let_def upd_sworld_def)

lemma occupants_parts:
  "occupants (fold (\<lambda>ch w. fst (part_channel u (ch_name ch) w)) chs w) n =
     (if wfold w n \<in> set (map (\<lambda>ch. wfold w (ch_name ch)) chs) then occupants w n - {u} else occupants w n)"
  by (induction chs arbitrary: w) (auto simp: occupants_part part_frames)

lemma directory_parts: "directory (fold (\<lambda>ch w. fst (part_channel u (ch_name ch) w)) chs w) = directory w"
  by (induction chs arbitrary: w) (simp_all add: part_frames)

lemma not_elsewhere:
  assumes "wf_world w" "wfold w n \<notin> set (map (\<lambda>ch. wfold w (ch_name ch)) (user_channels u w))"
  shows "u \<notin> occupants w n"
proof
  assume "u \<in> occupants w n"
  then obtain ch where ch: "find_channel n w = Some ch" "is_member u ch" by (auto simp: occupants_def split: option.splits)
  then have "ch \<in> set (user_channels u w)"
    by (auto simp: user_channels_def find_channel_def dest!: map_of_SomeD split: if_splits intro: image_eqI [rotated])
  then show False using assms(2) find_channel_wf(2) [OF wf_worldD(2) [OF assms(1)] ch(1)] by auto
qed

lemma directory_remove:
  assumes "wf_world w"
  shows "directory (fst (remove_user u w)) n = (if directory w n = Some u then None else directory w n)"
proof -
  note wu = wf_worldD(1) [OF assms]
  have key: "directory w n = Some u \<longleftrightarrow> wfold w n = wfold w (u_Nick (w_store w u))" if "mhas (w_byID w) u"
    unfolding directory_def by (rule holder_iff [OF wu that])
  show ?thesis
  proof (cases "mhas (w_byID w) u")
    case True
    show ?thesis using key [OF True] True by (auto simp: directory_def find_by_nick_def remove_user_def split: if_splits)
  next
    case False
    have "directory w n \<noteq> Some u" using find_by_nick_Some(1) [OF wu, of n u] False by (auto simp: directory_def)
    then show ?thesis using False by (simp add: remove_user_def)
  qed
qed

lemma view_broadcast_quit:
  assumes "wf_server s"
  shows "view (broadcast_quit u r s) = (directory (sv_world s), \<lambda>n. occupants (sv_world s) n - {u})"
  using not_elsewhere [OF wf_serverD(1) [OF assms]]
  by (auto simp: view_def broadcast_quit_def Let_def quit_channels_world directory_parts occupants_parts fun_eq_iff)

lemma view_frames: "view (upd_conn c f s) = view s" "view (record_whowas x s) = view s" "view (cancel c r s) = view s"
  "view (unregister_conn u s) = view s"
  by (simp_all add: view_def upd_conn_def record_whowas_def cancel_def unregister_conn_def)

lemma view_forget:
  assumes "wf_server s"
  shows "view (forget_user c u s) =
    (\<lambda>n. if directory (sv_world s) n = Some u then None else directory (sv_world s) n, occupants (sv_world s))"
proof -
  have "occupants (fst (remove_user u w)) = occupants w" for w
    by (simp add: remove_user_def occupants_def find_channel_def fun_eq_iff)
  then show ?thesis
    using directory_remove [OF wf_serverD(1) [OF assms]]
    by (auto simp: forget_user_def view_def upd_conn_def upd_sworld_def unregister_conn_def fun_eq_iff)
qed

lemma broadcast_quit_closed: "cn_closed (sv_heap (broadcast_quit u r s) c) = cn_closed (sv_heap s c)"
  by (simp add: broadcast_quit_def Let_def)

text \<open>
  C2: The end of a connection is exactly the departure of its user: seen from outside, the user's nickname is free
  again, the user is in no channel, and every other nickname and every other member of every channel is as before.
  The connection no longer has a user, no message reaches it, and closing it again does nothing.
\<close>

theorem close_refines_quit:
  assumes "wf_server s" "\<not> cn_closed (sv_heap s c)" "cn_user (sv_heap s c) = Some u"
  shows "view (close_conn c s) = quit_view u (view s) \<and> conn_for u (close_conn c s) = None \<and>
    cn_user (sv_heap (close_conn c s) c) = None \<and> close_conn c (close_conn c s) = close_conn c s"
proof -
  define s1 where "s1 = upd_conn c (\<lambda>cn. cn\<lparr>cn_closed := True\<rparr>) (cancel c ''EOF'' s)"
  have u1: "cn_user (sv_heap s1 c) = Some u"
    using assms(3) by (simp add: s1_def upd_conn_def cancel_def cancel_conn_def split: option.split)
  obtain x r where s': "close_conn c s = forget_user c u (record_whowas x (broadcast_quit u r s1))"
    using assms(2) u1 by (simp add: close_conn_def s1_def [symmetric] Let_def)
  have wf1: "wf_server s1" using assms(1) by (simp add: s1_def invs)
  have wf2: "wf_server (record_whowas x (broadcast_quit u r s1))" by (rule wf_record_whowas [OF wf_broadcast_quit [OF wf1]])
  have w1: "sv_world s1 = sv_world s" by (simp add: s1_def upd_conn_def cancel_def)
  have "view (record_whowas x (broadcast_quit u r s1)) = (directory (sv_world s), \<lambda>n. occupants (sv_world s) n - {u})"
    by (simp add: view_frames view_broadcast_quit [OF wf1] w1)
  then have "view (close_conn c s) = quit_view u (view s)"
    using view_forget [OF wf2, of c u] by (simp add: s' view_def quit_view_def fun_eq_iff)
  moreover have "conn_for u (close_conn c s) = None" "cn_user (sv_heap (close_conn c s) c) = None"
    by (simp_all add: s' forget_user_def conn_for_def upd_conn_def upd_sworld_def unregister_conn_def)
  moreover have "cn_closed (sv_heap (close_conn c s) c)"
    by (simp add: s' forget_user_def upd_conn_def upd_sworld_def unregister_conn_def broadcast_quit_closed s1_def)
  ultimately show ?thesis by (simp add: close_conn_def)
qed

lemma close_refines_quit_witness:
  "view (close_conn 1 demo_net) = quit_view 1 (view demo_net) \<and> directory (sv_world demo_net) ''al'' = Some 1 \<and>
   directory (sv_world (close_conn 1 demo_net)) ''al'' = None"
proof -
  have c: "\<not> cn_closed (sv_heap demo_net 1)" "cn_user (sv_heap demo_net 1) = Some 1"
    by (simp_all, simp add: demo_net_def new_server_def new_conn_def)
  have d: "directory (sv_world demo_net) ''al'' = Some 1" unfolding directory_def by (simp, code_simp)
  have v: "view (close_conn 1 demo_net) = quit_view 1 (view demo_net)"
    using close_refines_quit [OF wf_demo_net c] by simp
  then have "directory (sv_world (close_conn 1 demo_net)) ''al'' = None" using d by (simp add: view_def quit_view_def fun_eq_iff)
  then show ?thesis using v d by simp
qed


section \<open>Idle connections\<close>

text \<open>The connection after \<open>n\<close> ticks of its timer, started at time \<open>t\<close>, without a line from the client.\<close>

definition idle_ticks :: "nat \<Rightarrow> time \<Rightarrow> cid \<Rightarrow> server \<Rightarrow> server" where
  "idle_ticks n t c s =
     fold (\<lambda>k s. ping_tick c (s\<lparr>sv_now := t + int k * ping_period (srv_limits s)\<rparr>)) [1..<Suc n] s"

lemma idle_ticks_0 [simp]: "idle_ticks 0 t c s = s"
  by (simp add: idle_ticks_def)

lemma idle_ticks_Suc:
  "idle_ticks (Suc n) t c s =
     (let s1 = idle_ticks n t c s in ping_tick c (s1\<lparr>sv_now := t + int (Suc n) * ping_period (srv_limits s1)\<rparr>))"
  by (simp add: idle_ticks_def Let_def)

lemma ping_tick_frames:
  "cn_lastActivity (sv_heap (ping_tick c s) c) = cn_lastActivity (sv_heap s c)" "srv_limits (ping_tick c s) = srv_limits s"
  "cn_cancel (sv_heap s c) \<noteq> None \<Longrightarrow> cn_cancel (sv_heap (ping_tick c s) c) \<noteq> None"
  using quietD [OF quiet_ping_tick [of s c]] by (auto simp: ping_tick_def Let_def)

lemma idle_ticks_frames:
  "cn_lastActivity (sv_heap (idle_ticks n t c s) c) = cn_lastActivity (sv_heap s c)" "srv_limits (idle_ticks n t c s) = srv_limits s"
  by (induction n) (simp_all add: idle_ticks_Suc Let_def ping_tick_frames)

lemma ping_tick_late:
  assumes "ping_timeout (srv_limits s) \<le> sv_now s - cn_lastActivity (sv_heap s c)"
  shows "cn_cancel (sv_heap (ping_tick c s) c) \<noteq> None"
  using assms by (simp add: ping_tick_def Let_def cancel_def upd_conn_def cancel_conn_def)

lemma ping_tick_early:
  assumes "sv_now s - cn_lastActivity (sv_heap s c) < ping_timeout (srv_limits s)" "length (cn_out (sv_heap s c)) < outbound_queue"
    "cn_cancel (sv_heap s c) = None"
  shows "cn_cancel (sv_heap (ping_tick c s) c) = None \<and> length (cn_out (sv_heap (ping_tick c s) c)) \<le> Suc (length (cn_out (sv_heap s c)))"
  using assms by (simp add: ping_tick_def Let_def send_def upd_conn_def enqueue_def)

lemma ping_period_pos: "0 < ping_period l"
  by (simp add: ping_period_def)

lemma idle_ticks_stay: "cn_cancel (sv_heap (idle_ticks n t c s) c) \<noteq> None \<Longrightarrow> n \<le> k \<Longrightarrow> cn_cancel (sv_heap (idle_ticks k t c s) c) \<noteq> None"
proof (induction k)
  case (Suc k)
  then show ?case by (cases "n = Suc k") (simp_all add: idle_ticks_Suc Let_def ping_tick_frames)
qed simp

lemma idle_ticks_late:
  assumes "ping_timeout (srv_limits s) \<le> t + int n * ping_period (srv_limits s) - cn_lastActivity (sv_heap s c)" "0 < n"
  shows "cn_cancel (sv_heap (idle_ticks n t c s) c) \<noteq> None"
proof -
  obtain m where n: "n = Suc m" using assms(2) by (cases n) simp_all
  show ?thesis unfolding n idle_ticks_Suc Let_def
    by (rule ping_tick_late) (use assms(1) in \<open>simp add: idle_ticks_frames n\<close>)
qed

lemma idle_ticks_early:
  assumes "t + int n * ping_period (srv_limits s) - cn_lastActivity (sv_heap s c) < ping_timeout (srv_limits s)"
    "length (cn_out (sv_heap s c)) + n \<le> outbound_queue" "cn_cancel (sv_heap s c) = None"
  shows "cn_cancel (sv_heap (idle_ticks n t c s) c) = None \<and>
    length (cn_out (sv_heap (idle_ticks n t c s) c)) \<le> length (cn_out (sv_heap s c)) + n"
  using assms(1,2)
proof (induction n)
  case (Suc n)
  let ?s = "(idle_ticks n t c s)\<lparr>sv_now := t + int (Suc n) * ping_period (srv_limits s)\<rparr>"
  have "int n * ping_period (srv_limits s) \<le> int (Suc n) * ping_period (srv_limits s)"
    using ping_period_pos [of "srv_limits s"] by (simp add: mult_right_mono)
  then have IH: "cn_cancel (sv_heap (idle_ticks n t c s) c) = None"
      "length (cn_out (sv_heap (idle_ticks n t c s) c)) \<le> length (cn_out (sv_heap s c)) + n"
    using Suc by simp_all
  show ?case
    using ping_tick_early [of ?s c] Suc.prems IH unfolding idle_ticks_Suc Let_def idle_ticks_frames
    by (simp add: idle_ticks_frames)
qed (use assms(3) in simp)

text \<open>
  C16: The ping timer ends every connection that stays silent, and no other: after enough ticks without a line the
  connection is cancelled for good, and as long as the queue takes the pings this happens at exactly the first
  tick at which the silence has lasted for the timeout.
\<close>

theorem idle_connection_reaped:
  fixes s :: server and c :: cid
  defines "l \<equiv> srv_limits s" and "seen \<equiv> cn_lastActivity (sv_heap s c)"
  shows "(\<exists>n. \<forall>k. cn_cancel (sv_heap (idle_ticks (n + k) t c s) c) \<noteq> None) \<and>
    (0 < n \<and> cn_cancel (sv_heap s c) = None \<and> length (cn_out (sv_heap s c)) + n \<le> outbound_queue \<longrightarrow>
       (cn_cancel (sv_heap (idle_ticks n t c s) c) \<noteq> None \<longleftrightarrow> ping_timeout l \<le> t + int n * ping_period l - seen))"
proof
  let ?n = "Suc (nat (ping_timeout l + seen - t))"
  have "int ?n \<le> int ?n * ping_period l" using ping_period_pos [of l] by (simp add: mult_le_cancel_left1)
  then have "ping_timeout l \<le> t + int ?n * ping_period l - seen" by linarith
  then have "cn_cancel (sv_heap (idle_ticks ?n t c s) c) \<noteq> None" unfolding l_def seen_def by (rule idle_ticks_late) simp
  then show "\<exists>n. \<forall>k. cn_cancel (sv_heap (idle_ticks (n + k) t c s) c) \<noteq> None" using idle_ticks_stay le_add1 by blast
next
  show "0 < n \<and> cn_cancel (sv_heap s c) = None \<and> length (cn_out (sv_heap s c)) + n \<le> outbound_queue \<longrightarrow>
       (cn_cancel (sv_heap (idle_ticks n t c s) c) \<noteq> None \<longleftrightarrow> ping_timeout l \<le> t + int n * ping_period l - seen)"
    using idle_ticks_late [of s t n c] idle_ticks_early [of t n s c] unfolding l_def seen_def by (meson not_le)
qed

lemma idle_connection_reaped_witness:
  "cn_cancel (sv_heap (idle_ticks 7 100 1 demo_net) 1) = None \<and> cn_cancel (sv_heap (idle_ticks 8 100 1 demo_net) 1) \<noteq> None"
proof -
  have h: "cn_cancel (sv_heap demo_net 1) = None" "cn_out (sv_heap demo_net 1) = []" "cn_lastActivity (sv_heap demo_net 1) = 100"
    by (simp_all add: demo_net_def new_server_def new_conn_def)
  have q: "8 \<le> outbound_queue" by (simp add: outbound_queue_def)
  have l: "ping_timeout (cf_Limits demo_config) = 240000000000" "ping_period (cf_Limits demo_config) = 30000000000"
    by (simp_all add: ping_timeout_def ping_period_def ping_interval_def or_default_def demo_config_def)
  show ?thesis using idle_connection_reaped [where s = demo_net and c = 1 and t = 100 and n = 7] idle_connection_reaped [where s = demo_net and c = 1 and t = 100 and n = 8] h q l by simp
qed

end
