(* ===== verification/Link.thy ===== *)
theory Link
  imports Server_Federation
begin

text \<open>
  A link to a peer, \<^verbatim>\<open>internal/federation/federation.go\<close>: the handshake, the burst and the lines a peer sends.
  The Go interface \<^verbatim>\<open>Host\<close> is the record \<open>host\<close> of its functions, over a type of host states; the
  callbacks of \<^verbatim>\<open>LinkConfig\<close> are optional functions on that state. Every operation works on the link and the
  state of its host together. \<^verbatim>\<open>time.Now()\<close> is an argument.
\<close>

section \<open>Hosts and links\<close>

record 'h host =
  ho_LocalServerName :: "'h \<Rightarrow> string"
  ho_WorldState :: "'h \<Rightarrow> world"
  ho_upd_world :: "(world \<Rightarrow> world) \<Rightarrow> 'h \<Rightarrow> 'h"
  ho_DeliverLocal :: "message \<Rightarrow> 'h \<Rightarrow> 'h"
  ho_HandleSquit :: "string \<Rightarrow> string \<Rightarrow> 'h \<Rightarrow> 'h"
  ho_DropLocalUser :: "string \<Rightarrow> string \<Rightarrow> 'h \<Rightarrow> 'h"
  ho_SubscribePeerToChannel :: "string \<Rightarrow> string \<Rightarrow> 'h \<Rightarrow> 'h"

datatype link_state = LinkHandshaking | LinkBursting | LinkActive | LinkClosed

definition link_state_string :: "link_state \<Rightarrow> string" where
  "link_state_string st =
     (case st of LinkHandshaking \<Rightarrow> ''handshaking'' | LinkBursting \<Rightarrow> ''bursting'' | LinkActive \<Rightarrow> ''active''
      | LinkClosed \<Rightarrow> ''closed'')"

record 'h link_config =
  lc_PeerName :: string
  lc_PasswordIn :: string
  lc_PasswordOut :: string
  lc_Description :: string
  lc_Version :: string
  lc_OnActive :: "('h \<Rightarrow> 'h) option"
  lc_OnClosed :: "('h \<Rightarrow> 'h) option"

record 'h link =
  lk_cfg :: "'h link_config"
  lk_state :: link_state
  lk_peerName :: string
  lk_localName :: string
  lk_send :: "message list"
  lk_closed :: bool
  lk_sentMessages :: nat
  lk_sentBytes :: nat
  lk_recvMessages :: nat
  lk_recvBytes :: nat
  lk_openedAt :: time

definition new_link :: "'h host \<Rightarrow> 'h link_config \<Rightarrow> 'h \<Rightarrow> 'h link" where
  "new_link H cfg h =
     \<lparr>lk_cfg = cfg, lk_state = LinkHandshaking, lk_peerName = [], lk_localName = ho_LocalServerName H h, lk_send = [],
      lk_closed = False, lk_sentMessages = 0, lk_sentBytes = 0, lk_recvMessages = 0, lk_recvBytes = 0,
      lk_openedAt = zero_time\<rparr>"

section \<open>Closing and sending\<close>

definition call_back :: "('h \<Rightarrow> 'h) option \<Rightarrow> 'h \<Rightarrow> 'h" where
  "call_back cb h = (case cb of None \<Rightarrow> h | Some f \<Rightarrow> f h)"

definition close_link :: "'h link \<times> 'h \<Rightarrow> 'h link \<times> 'h" where
  "close_link lh =
     (case lh of (l, h) \<Rightarrow>
        if lk_state l = LinkClosed then (l, h)
        else (l\<lparr>lk_state := LinkClosed, lk_closed := True\<rparr>, call_back (lc_OnClosed (lk_cfg l)) h))"

definition sendq :: nat where
  "sendq = 256"

definition wire_length :: "message \<Rightarrow> nat" where
  "wire_length m = (case msg_bytes m of Inl _ \<Rightarrow> 0 | Inr data \<Rightarrow> length data)"

text \<open>
  A closed link transmits nothing any more, so a message sent to it is dropped here (the source's \<^verbatim>\<open>select\<close> may
  also put it into the queue nobody reads).
\<close>

definition send_link :: "message \<Rightarrow> 'h link \<times> 'h \<Rightarrow> 'h link \<times> 'h" where
  "send_link m lh =
     (case lh of (l, h) \<Rightarrow>
        if lk_closed l then (l, h)
        else if length (lk_send l) < sendq then
          (l\<lparr>lk_send := lk_send l @ [m], lk_sentMessages := lk_sentMessages l + 1,
             lk_sentBytes := lk_sentBytes l + wire_length m\<rparr>, h)
        else close_link (l, h))"

definition upd_link :: "('h link \<Rightarrow> 'h link) \<Rightarrow> 'h link \<times> 'h \<Rightarrow> 'h link \<times> 'h" where
  "upd_link f lh = (case lh of (l, h) \<Rightarrow> (f l, h))"

definition upd_host :: "('h \<Rightarrow> 'h) \<Rightarrow> 'h link \<times> 'h \<Rightarrow> 'h link \<times> 'h" where
  "upd_host f lh = (case lh of (l, h) \<Rightarrow> (l, f h))"

section \<open>The handshake\<close>

definition send_svinfo :: "time \<Rightarrow> 'h link \<times> 'h \<Rightarrow> 'h link \<times> 'h" where
  "send_svinfo now lh =
     send_link (plain_message (lk_localName (fst lh)) ''SVINFO'' [''6'', ''6'', ''0'', format_int (now div 1000000000)]) lh"

definition link_pass :: "message \<Rightarrow> 'h link \<times> 'h \<Rightarrow> 'h link \<times> 'h" where
  "link_pass m lh =
     (if length (msg_Params m) < 1 then close_link lh
      else if msg_Params m ! 0 \<noteq> lc_PasswordIn (lk_cfg (fst lh)) then close_link lh
      else lh)"

definition link_server :: "time \<Rightarrow> message \<Rightarrow> 'h link \<times> 'h \<Rightarrow> 'h link \<times> 'h" where
  "link_server now m lh =
     (if length (msg_Params m) < 1 then close_link lh
      else
        let peer = msg_Params m ! 0; want = lc_PeerName (lk_cfg (fst lh)) in
        if want \<noteq> [] \<and> peer \<noteq> want then close_link lh
        else send_svinfo now (upd_link (\<lambda>l. l\<lparr>lk_peerName := peer\<rparr>) lh))"

text \<open>What the burst says of a user.\<close>

definition burst_user :: "string \<Rightarrow> user \<Rightarrow> message" where
  "burst_user localName u =
     (if u_Service u then
        plain_message localName ''SERVICE''
          [u_Nick u, ''1'', (if u_ServiceDistribution u = [] then ''*'' else u_ServiceDistribution u), u_ServiceType u, ''1'',
           u_Realname u]
      else
        plain_message localName ''NICK''
          [u_Nick u, ''1'', u_User u, u_Host u, localName, ''+'' @ u_Modes u, format_int (u_TS u), u_Realname u])"

definition local_members :: "world \<Rightarrow> channel \<Rightarrow> (user \<times> membership) list" where
  "local_members w ch =
     map (\<lambda>(i, mem). (w_store w i, mem))
       (filter (\<lambda>(i, _). find_by_id i w \<noteq> None \<and> \<not> is_remote (w_store w i)) (ch_members ch))"

text \<open>What follows the joins of a channel: topic, modes, bans and the flags of the local members.\<close>

definition burst_flags :: "string \<Rightarrow> channel \<Rightarrow> user \<times> membership \<Rightarrow> message list" where
  "burst_flags localName ch um =
     (case um of (u, mem) \<Rightarrow>
        (if mem_is_op mem then [plain_message localName ''MODE'' [ch_name ch, ''+o'', u_Nick u]] else []) @
        (if mem_is_voice mem then [plain_message localName ''MODE'' [ch_name ch, ''+v'', u_Nick u]] else []))"

definition burst_state :: "string \<Rightarrow> world \<Rightarrow> channel \<Rightarrow> message list" where
  "burst_state localName w ch =
     (if ch_topic ch = [] then [] else [plain_message localName ''TOPIC'' [ch_name ch, ch_topic ch]]) @
     (case mode_string ch of (word, ps) \<Rightarrow> [plain_message localName ''MODE'' ([ch_name ch, word] @ ps)]) @
     map (\<lambda>(k, _). plain_message localName ''MODE'' [ch_name ch, ''+b'', k]) (ch_bans ch) @
     concat (map (burst_flags localName ch) (local_members w ch))"

definition burst_channel :: "'h host \<Rightarrow> channel \<Rightarrow> 'h link \<times> 'h \<Rightarrow> 'h link \<times> 'h" where
  "burst_channel H ch lh =
     (let w = ho_WorldState H (snd lh); ms = local_members w ch;
          lh1 = fold send_link (map (\<lambda>(u, _). plain_message (hostmask u) ''JOIN'' [ch_name ch, format_int (channel_TS ch)]) ms) lh
      in if ms = [] then lh1
         else fold send_link (burst_state (lk_localName (fst lh)) w ch)
                (upd_host (ho_SubscribePeerToChannel H (lk_peerName (fst lh1)) (ch_name ch)) lh1))"

definition send_burst :: "'h host \<Rightarrow> 'h link \<times> 'h \<Rightarrow> 'h link \<times> 'h" where
  "send_burst H lh =
     (let w = ho_WorldState H (snd lh);
          lh1 = fold send_link (map (burst_user (lk_localName (fst lh))) (filter (\<lambda>u. \<not> is_remote u) (snapshot w))) lh
      in fold (burst_channel H) (channels_snapshot w) lh1)"

definition link_svinfo :: "'h host \<Rightarrow> time \<Rightarrow> message \<Rightarrow> 'h link \<times> 'h \<Rightarrow> 'h link \<times> 'h" where
  "link_svinfo H now m lh =
     (if length (msg_Params m) < 4 then close_link lh
      else
        (case parse_int (msg_Params m ! 0) of
           None \<Rightarrow> close_link lh
         | Some v \<Rightarrow>
             if v < 3 then close_link lh
             else if lk_state (fst lh) = LinkActive then lh
             else
               let lh1 = send_burst H (upd_link (\<lambda>l. l\<lparr>lk_state := LinkBursting\<rparr>) lh);
                   lh2 = upd_link (\<lambda>l. l\<lparr>lk_state := LinkActive, lk_openedAt := now\<rparr>) lh1
               in upd_host (call_back (lc_OnActive (lk_cfg (fst lh2)))) lh2))"

section \<open>What a peer sends\<close>

definition sender_from_prefix :: "string \<Rightarrow> string" where
  "sender_from_prefix prefix = (case index_byte CHR ''!'' prefix of None \<Rightarrow> prefix | Some i \<Rightarrow> take i prefix)"

text \<open>The user a burst line describes: the layout with a time stamp has eight parameters, the older one seven.\<close>

definition remote_user :: "string list \<Rightarrow> user" where
  "remote_user ps =
     (let (ts, realname) =
        (if length ps \<ge> 8 then (case parse_int (ps ! 6) of Some t \<Rightarrow> (t, ps ! 7) | None \<Rightarrow> (0, ps ! 6)) else (0, ps ! 6))
      in zero_user\<lparr>u_Nick := ps ! 0, u_User := ps ! 2, u_Host := ps ! 3, u_Realname := realname,
           u_Modes := trim_prefix ''+'' (ps ! 5), u_Registered := True, u_HomeServer := ps ! 4, u_TS := ts\<rparr>)"

text \<open>The loser of a collision leaves the world; a local one is disconnected too.\<close>

definition evict :: "'h host \<Rightarrow> uid \<Rightarrow> string \<Rightarrow> 'h \<Rightarrow> 'h" where
  "evict H i reason h =
     (let x = w_store (ho_WorldState H h) i; h1 = ho_upd_world H (\<lambda>w. fst (remove_user i w)) h
      in if is_remote x then h1 else ho_DropLocalUser H (u_Nick x) reason h1)"

definition introduce :: "'h host \<Rightarrow> time \<Rightarrow> user \<Rightarrow> 'h \<Rightarrow> 'h" where
  "introduce H now x = ho_upd_world H (\<lambda>w. fst (add_user x now w))"

definition remote_nick_burst :: "'h host \<Rightarrow> time \<Rightarrow> user \<Rightarrow> 'h link \<times> 'h \<Rightarrow> 'h link \<times> 'h" where
  "remote_nick_burst H now x lh =
     (let w = ho_WorldState H (snd lh); ts = u_TS x; kill = (\<lambda>why. plain_message (lk_localName (fst lh)) ''KILL'' [u_Nick x, why])
      in case find_by_nick (u_Nick x) w of
        None \<Rightarrow> upd_host (introduce H now x) lh
      | Some i \<Rightarrow>
          let old = u_TS (w_store w i) in
          if ts \<noteq> 0 \<and> old \<noteq> 0 \<and> ts = old then
            upd_host (evict H i ''Nick collision (equal TS, both lose)'')
              (send_link (kill ''Nick collision (equal TS, both lose)'') lh)
          else if ts \<noteq> 0 \<and> old \<noteq> 0 \<and> ts > old then send_link (kill ''Nick collision (TS lost)'') lh
          else upd_host (\<lambda>h. introduce H now x (evict H i ''Nick collision (TS lost)'' h)) lh)"

text \<open>The remote user a prefix names.\<close>

definition remote_sender :: "'h host \<Rightarrow> message \<Rightarrow> 'h \<Rightarrow> uid option" where
  "remote_sender H m h =
     (let w = ho_WorldState H h in
      case find_by_nick (sender_from_prefix (msg_Prefix m)) w of
        None \<Rightarrow> None
      | Some i \<Rightarrow> if is_remote (w_store w i) then Some i else None)"

definition handle_remote_nick :: "'h host \<Rightarrow> time \<Rightarrow> message \<Rightarrow> 'h link \<times> 'h \<Rightarrow> 'h link \<times> 'h" where
  "handle_remote_nick H now m lh =
     (let ps = msg_Params m in
      if length ps = 1 \<and> msg_Prefix m \<noteq> [] then
        (case remote_sender H m (snd lh) of
           None \<Rightarrow> lh
         | Some i \<Rightarrow> upd_host (\<lambda>h. ho_upd_world H (\<lambda>w. fst (rename_user i (ps ! 0) w)) (ho_DeliverLocal H m h)) lh)
      else if length ps < 7 then lh
      else remote_nick_burst H now (remote_user ps) lh)"

definition handle_remote_service :: "'h host \<Rightarrow> time \<Rightarrow> message \<Rightarrow> 'h link \<times> 'h \<Rightarrow> 'h link \<times> 'h" where
  "handle_remote_service H now m lh =
     (let ps = msg_Params m in
      if length ps < 6 then lh
      else
        let from = sender_from_prefix (msg_Prefix m); home = (if from = [] then lk_peerName (fst lh) else from) in
        if find_by_nick (ps ! 0) (ho_WorldState H (snd lh)) \<noteq> None then lh
        else upd_host (introduce H now
               (zero_user\<lparr>u_Nick := ps ! 0, u_User := ''service'', u_Host := home, u_Realname := ps ! 5, u_Registered := True,
                 u_Service := True, u_ServiceType := ps ! 3, u_ServiceDistribution := ps ! 2, u_HomeServer := home, u_TS := now\<rparr>)) lh)"

definition handle_remote_quit :: "'h host \<Rightarrow> message \<Rightarrow> 'h \<Rightarrow> 'h" where
  "handle_remote_quit H m h =
     (case remote_sender H m h of
        None \<Rightarrow> h
      | Some i \<Rightarrow> ho_upd_world H (\<lambda>w. fst (remove_user i w)) (ho_DeliverLocal H m h))"

text \<open>An older channel time stamp takes over and clears the flags of all members.\<close>

definition adopt_join_TS :: "string list \<Rightarrow> world \<Rightarrow> world" where
  "adopt_join_TS ps w =
     (if length ps < 2 then w
      else
        (case parse_int (ps ! 1) of
           None \<Rightarrow> w
         | Some ts \<Rightarrow>
             if ts \<le> 0 then w
             else upd_channel (ps ! 0)
               (\<lambda>ch. case adopt_older_TS ts ch of (ch1, True) \<Rightarrow> reset_membership_flags ch1 | (ch1, False) \<Rightarrow> ch1) w))"

definition handle_remote_join :: "'h host \<Rightarrow> time \<Rightarrow> message \<Rightarrow> 'h link \<times> 'h \<Rightarrow> 'h link \<times> 'h" where
  "handle_remote_join H now m lh =
     (let ps = msg_Params m in
      if length ps < 1 then lh
      else
        (case remote_sender H m (snd lh) of
           None \<Rightarrow> lh
         | Some i \<Rightarrow>
             upd_host (\<lambda>h.
               ho_DeliverLocal H m
                 (ho_SubscribePeerToChannel H (lk_peerName (fst lh)) (ps ! 0)
                   (ho_upd_world H (\<lambda>w. adopt_join_TS ps (fst (join_channel i (ps ! 0) now w))) h))) lh))"

definition handle_remote_part :: "'h host \<Rightarrow> message \<Rightarrow> 'h \<Rightarrow> 'h" where
  "handle_remote_part H m h =
     (if length (msg_Params m) < 1 then h
      else
        (case remote_sender H m h of
           None \<Rightarrow> h
         | Some i \<Rightarrow> ho_upd_world H (\<lambda>w. fst (part_channel i (msg_Params m ! 0) w)) (ho_DeliverLocal H m h)))"

definition handle_remote_kick :: "'h host \<Rightarrow> message \<Rightarrow> 'h \<Rightarrow> 'h" where
  "handle_remote_kick H m h =
     (if length (msg_Params m) < 2 then h
      else
        (case find_by_nick (msg_Params m ! 1) (ho_WorldState H h) of
           None \<Rightarrow> h
         | Some i \<Rightarrow> ho_upd_world H (\<lambda>w. fst (part_channel i (msg_Params m ! 0) w)) (ho_DeliverLocal H m h)))"

definition handle_remote_topic :: "'h host \<Rightarrow> time \<Rightarrow> message \<Rightarrow> 'h \<Rightarrow> 'h" where
  "handle_remote_topic H now m h =
     (let ps = msg_Params m in
      if length ps < 2 then h
      else if find_channel (ps ! 0) (ho_WorldState H h) = None then h
      else ho_DeliverLocal H m (ho_upd_world H (upd_channel (ps ! 0) (set_topic (ps ! 1) (msg_Prefix m) now)) h))"

text \<open>One letter of a mode word: what is left of the arguments and the channel after it.\<close>

definition remote_mode_step :: "world \<Rightarrow> time \<Rightarrow> bool \<Rightarrow> char \<Rightarrow> string list \<Rightarrow> channel \<Rightarrow> string list \<times> channel" where
  "remote_mode_step w now on mc args ch =
     (if mc \<in> set ''imnpst'' then (args, fst (set_bool_mode mc on ch))
      else if mc = CHR ''k'' then
        (if \<not> on then (args, fst (set_key [] ch))
         else (case args of [] \<Rightarrow> (args, ch) | key # rest \<Rightarrow> (rest, if key = [] then ch else fst (set_key key ch))))
      else if mc = CHR ''l'' then
        (if \<not> on then (args, fst (set_limit 0 ch))
         else (case args of
             [] \<Rightarrow> (args, ch)
           | raw # rest \<Rightarrow>
               (rest, case parse_int raw of None \<Rightarrow> ch | Some n \<Rightarrow> if n < 0 then ch else fst (set_limit n ch))))
      else if mc = CHR ''o'' \<or> mc = CHR ''v'' then
        (case args of
           [] \<Rightarrow> (args, ch)
         | nick # rest \<Rightarrow>
             (rest, case find_by_nick nick w of
                None \<Rightarrow> ch
              | Some i \<Rightarrow>
                  if \<not> is_member i ch then ch
                  else
                    let flag = (if mc = CHR ''v'' then MemberVoice else MemberOp)
                    in if on then fst (add_membership i flag ch) else fst (remove_membership i flag ch)))
      else if mc = CHR ''b'' then
        (case args of
           [] \<Rightarrow> (args, ch)
         | k # rest \<Rightarrow> (rest, if k = [] then ch else if on then fst (add_ban k now ch) else fst (remove_ban k ch)))
      else (args, ch))"

fun run_remote_modes :: "world \<Rightarrow> time \<Rightarrow> bool \<Rightarrow> string \<Rightarrow> string list \<Rightarrow> channel \<Rightarrow> channel" where
  "run_remote_modes w now on [] args ch = ch"
| "run_remote_modes w now on (mc # mcs) args ch =
     (if mc = CHR ''+'' then run_remote_modes w now True mcs args ch
      else if mc = CHR ''-'' then run_remote_modes w now False mcs args ch
      else case remote_mode_step w now on mc args ch of (args', ch') \<Rightarrow> run_remote_modes w now on mcs args' ch')"

definition apply_remote_channel_mode :: "world \<Rightarrow> time \<Rightarrow> string list \<Rightarrow> channel \<Rightarrow> channel" where
  "apply_remote_channel_mode w now ps ch =
     (case ps of [] \<Rightarrow> ch | word # args \<Rightarrow> run_remote_modes w now True word args ch)"

definition handle_remote_mode :: "'h host \<Rightarrow> time \<Rightarrow> message \<Rightarrow> 'h \<Rightarrow> 'h" where
  "handle_remote_mode H now m h =
     (case msg_Params m of
        target # word # args \<Rightarrow>
          if target = [] \<or> (hd target \<noteq> CHR ''#'' \<and> hd target \<noteq> CHR ''&'') then ho_DeliverLocal H m h
          else if find_channel target (ho_WorldState H h) = None then h
          else ho_DeliverLocal H m
            (ho_upd_world H (upd_channel target (apply_remote_channel_mode (ho_WorldState H h) now (word # args))) h)
      | _ \<Rightarrow> h)"

definition handle_remote_kill :: "'h host \<Rightarrow> message \<Rightarrow> 'h \<Rightarrow> 'h" where
  "handle_remote_kill H m h =
     (if length (msg_Params m) < 2 then h
      else
        let reason = msg_Params m ! 1 in
        case find_by_nick (msg_Params m ! 0) (ho_WorldState H h) of
          None \<Rightarrow> h
        | Some i \<Rightarrow>
            let x = w_store (ho_WorldState H h) i;
                h1 = ho_DeliverLocal H (plain_message (hostmask x) ''QUIT''
                       [''Killed ('' @ sender_from_prefix (msg_Prefix m) @ '' ('' @ reason @ ''))'']) h
            in if is_remote x then ho_upd_world H (\<lambda>w. fst (remove_user i w)) h1
               else ho_DropLocalUser H (u_Nick x) reason h1)"

definition handle_remote_squit :: "'h host \<Rightarrow> message \<Rightarrow> 'h \<Rightarrow> 'h" where
  "handle_remote_squit H m h =
     (case msg_Params m of
        [] \<Rightarrow> h
      | peer # rest \<Rightarrow> ho_HandleSquit H peer (case rest of [] \<Rightarrow> [] | r # _ \<Rightarrow> r) h)"

definition link_ping :: "message \<Rightarrow> 'h link \<times> 'h \<Rightarrow> 'h link \<times> 'h" where
  "link_ping m lh =
     (let name = lk_localName (fst lh)
      in send_link (plain_message name ''PONG'' [name, (if msg_Params m = [] then name else msg_Params m ! 0)]) lh)"

section \<open>The loop\<close>

definition count_received :: "message \<Rightarrow> 'h link \<Rightarrow> 'h link" where
  "count_received m l = l\<lparr>lk_recvMessages := lk_recvMessages l + 1, lk_recvBytes := lk_recvBytes l + wire_length m\<rparr>"

definition link_handlers :: "'h host \<Rightarrow> time \<Rightarrow> message \<Rightarrow> (string \<times> ('h link \<times> 'h \<Rightarrow> 'h link \<times> 'h)) list" where
  "link_handlers H now m =
     [(''PASS'', link_pass m), (''SERVER'', link_server now m), (''SVINFO'', link_svinfo H now m),
      (''NICK'', handle_remote_nick H now m), (''SERVICE'', handle_remote_service H now m),
      (''QUIT'', upd_host (handle_remote_quit H m)), (''PRIVMSG'', upd_host (ho_DeliverLocal H m)),
      (''NOTICE'', upd_host (ho_DeliverLocal H m)), (''JOIN'', handle_remote_join H now m),
      (''PART'', upd_host (handle_remote_part H m)), (''KICK'', upd_host (handle_remote_kick H m)),
      (''TOPIC'', upd_host (handle_remote_topic H now m)), (''MODE'', upd_host (handle_remote_mode H now m)),
      (''SQUIT'', upd_host (handle_remote_squit H m)), (''KILL'', upd_host (handle_remote_kill H m)),
      (''PING'', link_ping m), (''PONG'', \<lambda>lh. lh)]"

definition link_dispatch :: "'h host \<Rightarrow> time \<Rightarrow> message \<Rightarrow> 'h link \<times> 'h \<Rightarrow> 'h link \<times> 'h" where
  "link_dispatch H now m lh =
     (let lh1 = upd_link (count_received m) lh in
      case map_of (link_handlers H now m) (msg_Command m) of None \<Rightarrow> lh1 | Some f \<Rightarrow> f lh1)"

text \<open>
  What the writer and the reader of \<^verbatim>\<open>Run\<close> do with one event. A message the encoder refuses is a write error
  (\<^verbatim>\<open>WrapConnWrite\<close>), and a write error closes the link.
\<close>

definition write_link :: "'h link \<times> 'h \<Rightarrow> ('h link \<times> 'h) \<times> string" where
  "write_link lh =
     (case lh of (l, h) \<Rightarrow>
        if lk_closed l then ((l, h), [])
        else case lk_send l of
          [] \<Rightarrow> ((l, h), [])
        | m # q \<Rightarrow>
            (case msg_bytes m of
               Inl _ \<Rightarrow> (close_link (l\<lparr>lk_send := q\<rparr>, h), [])
             | Inr data \<Rightarrow> ((l\<lparr>lk_send := q\<rparr>, h), data)))"

datatype link_event = Line string | LinkWrite | LinkEOF | LinkShutdown

text \<open>A line the parser refuses is skipped (\<^verbatim>\<open>WrapConnRead\<close>).\<close>

definition link_step :: "'h host \<Rightarrow> time \<Rightarrow> link_event \<Rightarrow> 'h link \<times> 'h \<Rightarrow> 'h link \<times> 'h" where
  "link_step H now e lh =
     (case e of
        Line line \<Rightarrow> (case parse line of Inl _ \<Rightarrow> lh | Inr m \<Rightarrow> link_dispatch H now m lh)
      | LinkWrite \<Rightarrow> fst (write_link lh)
      | LinkEOF \<Rightarrow> close_link lh
      | LinkShutdown \<Rightarrow> close_link lh)"

definition open_link :: "'h link \<times> 'h \<Rightarrow> ('h link \<times> 'h) option" where
  "open_link lh =
     (let l = fst lh; cfg = lk_cfg l in
      if lc_PasswordOut cfg = [] then None
      else Some (send_link (plain_message [] ''SERVER'' [lk_localName l, ''1'', ''1'', lc_Description cfg])
             (send_link (plain_message [] ''PASS'' [lc_PasswordOut cfg, ''0210'', ''IRC|'', lc_Version cfg]) lh)))"

section \<open>The server as a host\<close>

definition server_host :: "server host" where
  "server_host =
     \<lparr>ho_LocalServerName = srv_name, ho_WorldState = sv_world, ho_upd_world = upd_sworld, ho_DeliverLocal = deliver_local,
      ho_HandleSquit = handle_squit_loss, ho_DropLocalUser = drop_local_user, ho_SubscribePeerToChannel = subscribe_peer\<rparr>"

text \<open>The configuration \<^verbatim>\<open>runLink\<close> makes of a link specification: registration when active, recovery when closed.\<close>

definition run_link_config :: "string \<Rightarrow> string \<Rightarrow> string \<Rightarrow> string \<Rightarrow> server link_config" where
  "run_link_config peer pwIn pwOut desc =
     \<lparr>lc_PeerName = peer, lc_PasswordIn = pwIn, lc_PasswordOut = pwOut, lc_Description = desc, lc_Version = ''ircat-0.0.1'',
      lc_OnActive = Some (register_link peer),
      lc_OnClosed = Some (\<lambda>s. handle_squit_loss peer ''Net split'' (unregister_link peer s))\<rparr>"

end
