(* ===== verification/Link_Props.thy ===== *)
theory Link_Props
  imports Link Oper_Cmds
begin

text \<open>
  What a link relies on in its host, as the locale \<open>federation_host\<close>, interpreted on the server, and what follows:
  no peer can break the invariant of the server, what the handshake checks, and how nickname collisions end.
\<close>

section \<open>The contract of a host\<close>

text \<open>A link in a state whose callbacks keep the host's invariant.\<close>

definition sound_link :: "('h \<Rightarrow> bool) \<Rightarrow> 'h link \<times> 'h \<Rightarrow> bool" where
  "sound_link ok lh =
     (ok (snd lh) \<and> (\<forall>h. ok h \<longrightarrow> ok (call_back (lc_OnActive (lk_cfg (fst lh))) h) \<and> ok (call_back (lc_OnClosed (lk_cfg (fst lh))) h)))"

locale federation_host =
  fixes H :: "'h host" and ok :: "'h \<Rightarrow> bool"
  assumes world_ok: "ok h \<Longrightarrow> wf_world (ho_WorldState H h)"
    and upd_world: "ho_WorldState H (ho_upd_world H f h) = f (ho_WorldState H h)"
    and upd_comp: "ho_upd_world H (\<lambda>w. g (f w)) h = ho_upd_world H g (ho_upd_world H f h)"
    and drop_world: "ho_WorldState H (ho_DropLocalUser H n r h) = ho_WorldState H h"
    and add_ok: "ok h \<Longrightarrow> ok (ho_upd_world H (\<lambda>w. fst (add_user x t w)) h)"
    and remove_ok: "ok h \<Longrightarrow> ok (ho_upd_world H (\<lambda>w. fst (remove_user i w)) h)"
    and rename_ok: "ok h \<Longrightarrow> ok (ho_upd_world H (\<lambda>w. fst (rename_user i n w)) h)"
    and join_ok: "ok h \<Longrightarrow> ok (ho_upd_world H (\<lambda>w. fst (join_channel i n t w)) h)"
    and part_ok: "ok h \<Longrightarrow> ok (ho_upd_world H (\<lambda>w. fst (part_channel i n w)) h)"
    and chan_ok: "ok h \<Longrightarrow> (\<And>c. wf_channel c \<Longrightarrow> wf_channel (k c)) \<Longrightarrow> (\<And>c. ch_name (k c) = ch_name c) \<Longrightarrow>
      ok (ho_upd_world H (upd_channel n k) h)"
    and upd_id: "ho_upd_world H (\<lambda>w. w) h = h"
    and deliver_ok: "ok h \<Longrightarrow> ok (ho_DeliverLocal H m h)"
    and squit_ok: "ok h \<Longrightarrow> ok (ho_HandleSquit H p r h)"
    and drop_ok: "ok h \<Longrightarrow> ok (ho_DropLocalUser H n r h)"
    and subscribe_ok: "ok h \<Longrightarrow> ok (ho_SubscribePeerToChannel H p n h)"
begin

abbreviation good :: "'h link \<times> 'h \<Rightarrow> bool" where
  "good \<equiv> sound_link ok"

lemma good_upd_link: "good lh \<Longrightarrow> (\<And>l. lk_cfg (f l) = lk_cfg l) \<Longrightarrow> good (upd_link f lh)"
  by (cases lh) (simp add: sound_link_def upd_link_def)

lemma good_upd_host: "good lh \<Longrightarrow> (\<And>h. ok h \<Longrightarrow> ok (f h)) \<Longrightarrow> good (upd_host f lh)"
  by (cases lh) (simp add: sound_link_def upd_host_def)

lemma good_close: "good lh \<Longrightarrow> good (close_link lh)"
  by (cases lh) (simp add: sound_link_def close_link_def)

lemma good_send: "good lh \<Longrightarrow> good (send_link m lh)"
proof -
  assume g: "good lh"
  obtain l h where lh: "lh = (l, h)" by force
  then show ?thesis using g good_close [OF g] by (simp add: send_link_def sound_link_def)
qed

lemma good_sends: "good lh \<Longrightarrow> good (fold send_link ms lh)"
  by (induction ms arbitrary: lh) (simp_all add: good_send)

lemma good_burst_channel: "good lh \<Longrightarrow> good (burst_channel H ch lh)"
  by (simp add: burst_channel_def Let_def good_sends good_upd_host subscribe_ok)

lemma good_burst: "good lh \<Longrightarrow> good (send_burst H lh)"
proof -
  have "good lh \<Longrightarrow> good (fold (burst_channel H) chs lh)" for chs lh
    by (induction chs arbitrary: lh) (simp_all add: good_burst_channel)
  then show "good lh \<Longrightarrow> ?thesis" by (simp add: send_burst_def Let_def good_sends)
qed

lemma good_handshake: "good lh \<Longrightarrow> good (link_pass m lh)" "good lh \<Longrightarrow> good (link_server now m lh)"
  by (simp_all add: link_pass_def link_server_def Let_def good_close send_svinfo_def good_send good_upd_link)

lemma good_svinfo: "good lh \<Longrightarrow> good (link_svinfo H now m lh)"
proof -
  assume g: "good lh"
  define lh1 where "lh1 = upd_link (\<lambda>l. l\<lparr>lk_state := LinkActive, lk_openedAt := now\<rparr>) (send_burst H (upd_link (\<lambda>l. l\<lparr>lk_state := LinkBursting\<rparr>) lh))"
  have "good lh1" unfolding lh1_def by (intro good_upd_link good_burst g) simp_all
  then have "good (upd_host (call_back (lc_OnActive (lk_cfg (fst lh1)))) lh1)"
    by (intro good_upd_host) (simp_all add: sound_link_def)
  then show ?thesis using g by (simp add: link_svinfo_def Let_def lh1_def [symmetric] good_close split: option.split)
qed

lemma ok_evict: "ok h \<Longrightarrow> ok (evict H i r h)"
  by (simp add: evict_def Let_def remove_ok drop_ok)

lemma ok_introduce: "ok h \<Longrightarrow> ok (introduce H now x h)"
  by (simp add: introduce_def add_ok)

lemma good_remote_nick: "good lh \<Longrightarrow> good (handle_remote_nick H now m lh)"
  by (simp add: handle_remote_nick_def remote_nick_burst_def Let_def good_upd_host good_send ok_evict ok_introduce
      rename_ok deliver_ok split: option.split)

lemma good_remote_service: "good lh \<Longrightarrow> good (handle_remote_service H now m lh)"
  by (simp add: handle_remote_service_def Let_def good_upd_host ok_introduce)

lemma ok_adopt: "ok h \<Longrightarrow> ok (ho_upd_world H (adopt_join_TS ps) h)"
proof -
  assume h: "ok h"
  define k where "k ts = (\<lambda>ch. case adopt_older_TS ts ch of (ch1, True) \<Rightarrow> reset_membership_flags ch1 | (ch1, False) \<Rightarrow> ch1)" for ts
  have k: "wf_channel c \<Longrightarrow> wf_channel (k ts c)" "ch_name (k ts c) = ch_name c" for ts c
  proof -
    obtain c1 b where a: "adopt_older_TS ts c = (c1, b)" by force
    have "wf_channel c \<Longrightarrow> wf_channel c1" "ch_name c1 = ch_name c"
      using wf_adopt [of c ts] a by (auto simp: adopt_older_TS_def split: if_splits)
    then show "wf_channel c \<Longrightarrow> wf_channel (k ts c)" "ch_name (k ts c) = ch_name c"
      by (simp_all add: k_def a wf_reset split: bool.split)
  qed
  have a: "adopt_join_TS ps = (if length ps < 2 then (\<lambda>w. w) else case parse_int (ps ! 1) of None \<Rightarrow> (\<lambda>w. w)
      | Some ts \<Rightarrow> if ts \<le> 0 then (\<lambda>w. w) else upd_channel (ps ! 0) (k ts))"
    by (rule ext) (simp add: adopt_join_TS_def k_def [symmetric] split: option.split)
  show ?thesis unfolding a using h chan_ok [OF h k] by (simp add: upd_id split: option.split)
qed

lemma good_remote_join: "good lh \<Longrightarrow> good (handle_remote_join H now m lh)"
proof -
  assume g: "good lh"
  have "ok h \<Longrightarrow> ok (ho_upd_world H (\<lambda>w. adopt_join_TS ps (fst (join_channel i n now w))) h)" for h ps i n
    unfolding upd_comp [of "adopt_join_TS ps" "\<lambda>w. fst (join_channel i n now w)"] by (intro ok_adopt join_ok)
  then show ?thesis using g by (simp add: handle_remote_join_def Let_def good_upd_host deliver_ok subscribe_ok split: option.split)
qed

lemma wf_remote_modes: "wf_channel ch \<Longrightarrow> wf_channel (apply_remote_channel_mode w now ps ch)"
  "ch_name (apply_remote_channel_mode w now ps ch) = ch_name ch"
proof -
  have step: "(wf_channel ch \<longrightarrow> wf_channel (snd (remote_mode_step w now on mc args ch))) \<and>
      ch_name (snd (remote_mode_step w now on mc args ch)) = ch_name ch" for on mc args ch
    by (simp add: remote_mode_step_def Let_def wf_set_bool_mode wf_set_key wf_set_limit wf_add_membership wf_remove_membership
        wf_mask_ops split: list.split option.split)
  have "(wf_channel ch \<longrightarrow> wf_channel (run_remote_modes w now on mcs args ch)) \<and> ch_name (run_remote_modes w now on mcs args ch) = ch_name ch"
    for on mcs args ch
  proof (induction mcs arbitrary: on args ch)
    case (Cons mc mcs)
    then show ?case using step [of ch on mc args] by (cases "remote_mode_step w now on mc args ch") simp
  qed simp
  then show "wf_channel ch \<Longrightarrow> wf_channel (apply_remote_channel_mode w now ps ch)"
    "ch_name (apply_remote_channel_mode w now ps ch) = ch_name ch"
    by (simp_all add: apply_remote_channel_mode_def split: list.split)
qed

lemma ok_remote: "ok h \<Longrightarrow> ok (handle_remote_quit H m h)" "ok h \<Longrightarrow> ok (handle_remote_part H m h)"
  "ok h \<Longrightarrow> ok (handle_remote_kick H m h)" "ok h \<Longrightarrow> ok (handle_remote_kill H m h)" "ok h \<Longrightarrow> ok (handle_remote_squit H m h)"
  "ok h \<Longrightarrow> ok (handle_remote_topic H now m h)" "ok h \<Longrightarrow> ok (handle_remote_mode H now m h)"
  by (simp_all add: handle_remote_quit_def handle_remote_part_def handle_remote_kick_def handle_remote_kill_def
      handle_remote_squit_def handle_remote_topic_def handle_remote_mode_def Let_def deliver_ok remove_ok part_ok drop_ok squit_ok
      chan_ok wf_set_topic set_topic_def [THEN arg_cong [where f = ch_name]] wf_remote_modes split: option.split list.split)

lemmas good_handlers = good_handshake good_svinfo good_remote_nick good_remote_service good_remote_join

lemma good_dispatch: "good lh \<Longrightarrow> good (link_dispatch H now m lh)"
proof -
  assume g: "good lh"
  define lh1 where "lh1 = upd_link (count_received m) lh"
  have g1: "good lh1" unfolding lh1_def by (rule good_upd_link [OF g]) (simp add: count_received_def)
  have "list_all (\<lambda>(k, f). good (f lh1)) (link_handlers H now m)"
    by (simp add: link_handlers_def good_handlers g1 good_upd_host ok_remote deliver_ok link_ping_def Let_def good_send)
  then show ?thesis
    using g1 by (auto simp: link_dispatch_def lh1_def [symmetric] Let_def list_all_iff split: option.split dest!: map_of_SomeD)
qed

lemma good_write: "good lh \<Longrightarrow> good (fst (write_link lh))"
proof -
  assume g: "good lh"
  obtain l h where lh: "lh = (l, h)" by force
  have "good (l\<lparr>lk_send := q\<rparr>, h)" for q using g by (simp add: lh sound_link_def)
  then show ?thesis using g by (simp add: lh write_link_def good_close split: list.split sum.split)
qed

lemma good_step: "good lh \<Longrightarrow> good (link_step H now e lh)"
  by (simp add: link_step_def good_close good_write good_dispatch split: link_event.split sum.split)

lemma good_steps: "good lh \<Longrightarrow> good (fold (\<lambda>(now, e). link_step H now e) es lh)"
proof (induction es arbitrary: lh)
  case (Cons e es)
  obtain now ev where "e = (now, ev)" by force
  then show ?case using Cons.IH [OF good_step [OF Cons.prems]] by simp
qed simp

end

section \<open>The server as a host\<close>

lemma drop_local_world [simp]: "sv_world (drop_local_user n r s) = sv_world s"
  by (simp add: drop_local_user_def Let_def cancel_def send_error_def send_def upd_conn_def split: option.split prod.split)

lemma deliver_quit_world: "sv_world (deliver_local (plain_message p ''QUIT'' ps) s) = sv_world s"
  using quietD(2) [OF quiet_per_user_channels] by (simp add: deliver_local_def plain_message_def split: list.split)

interpretation fed: federation_host server_host wf_server
proof
  fix s :: server and i n t x and k :: "channel \<Rightarrow> channel"
  assume wf: "wf_server s"
  show "wf_server (ho_upd_world server_host (\<lambda>w. fst (add_user x t w)) s)"
    unfolding server_host_def host.simps
    by (rule wf_upd_sworld [OF wf]) (rule wf_add_user [OF wf_serverD(1) [OF wf]], auto simp: add_user_def Let_def)
  show "wf_server (ho_upd_world server_host (\<lambda>w. fst (join_channel i n t w)) s)"
    unfolding server_host_def host.simps
    by (rule wf_upd_sworld [OF wf]) (simp_all add: wf_join_any wf_serverD(1) [OF wf])
  show "wf_server (ho_upd_world server_host (\<lambda>w. fst (part_channel i n w)) s)"
    unfolding server_host_def host.simps
    by (rule wf_upd_sworld [OF wf]) (simp_all add: wf_part_channel wf_serverD(1) [OF wf])
  show "wf_server (ho_upd_world server_host (upd_channel n k) s)"
    if "\<And>c. wf_channel c \<Longrightarrow> wf_channel (k c)" "\<And>c. ch_name (k c) = ch_name c"
    using wf_with_chan [OF wf that, of n] by (simp add: server_host_def with_chan_def)
qed (simp_all add: server_host_def upd_sworld_def [abs_def] wf_serverD(1) wf_deliver_local wf_squit_loss wf_drop_local_user
    wf_remove_user_server [unfolded upd_sworld_def] wf_rename [unfolded upd_sworld_def] quiet_wf [OF quiet_subscribe_peer])

section \<open>The handshake\<close>

text \<open>The link stays in its state or is closed.\<close>

definition keeps :: "'h link \<times> 'h \<Rightarrow> 'h link \<times> 'h \<Rightarrow> bool" where
  "keeps lh lh' = (lk_state (fst lh') = lk_state (fst lh) \<or> lk_state (fst lh') = LinkClosed)"

lemma keeps_refl [simp]: "keeps lh lh"
  by (simp add: keeps_def)

lemma keeps_trans: "keeps a b \<Longrightarrow> keeps b c \<Longrightarrow> keeps a c"
  by (auto simp: keeps_def)

lemma keeps_close [simp]: "keeps lh (close_link lh)" "lk_state (fst (close_link lh)) = LinkClosed"
  by (cases lh; simp add: close_link_def keeps_def)+

lemma keeps_host [simp]: "keeps lh (upd_host f lh)" "lk_state (fst (upd_host f lh)) = lk_state (fst lh)"
  by (cases lh; simp add: upd_host_def keeps_def)+

lemma keeps_send [simp]: "keeps lh (send_link m lh)"
  by (cases lh) (simp add: send_link_def keeps_def close_link_def)

lemma keeps_handlers:
  "keeps lh (link_pass m lh)" "keeps lh (link_server now m lh)" "keeps lh (handle_remote_nick H now m lh)"
  "keeps lh (handle_remote_service H now m lh)" "keeps lh (handle_remote_join H now m lh)" "keeps lh (link_ping m lh)"
proof -
  have "keeps lh (upd_link (\<lambda>l. l\<lparr>lk_peerName := x\<rparr>) lh)" for x by (cases lh) (simp add: upd_link_def keeps_def)
  from keeps_trans [OF this keeps_send]
  show "keeps lh (link_server now m lh)" by (simp add: link_server_def Let_def send_svinfo_def)
  show "keeps lh (handle_remote_nick H now m lh)"
    by (simp add: handle_remote_nick_def remote_nick_burst_def Let_def keeps_trans [OF keeps_send keeps_host(1)] split: option.split)
qed (simp_all add: link_pass_def handle_remote_service_def handle_remote_join_def link_ping_def Let_def split: option.split)

text \<open>A line of the peer that opens the link: the version is high enough.\<close>

definition svinfo_ok :: "message \<Rightarrow> bool" where
  "svinfo_ok m = (length (msg_Params m) \<ge> 4 \<and> (case parse_int (msg_Params m ! 0) of None \<Rightarrow> False | Some v \<Rightarrow> v \<ge> 3))"

lemma svinfo_state:
  "lk_state (fst (link_svinfo H now m lh)) = (if svinfo_ok m then LinkActive else LinkClosed)"
proof -
  have "lk_state (fst (upd_link (\<lambda>l. l\<lparr>lk_state := LinkActive, lk_openedAt := now\<rparr>) x)) = LinkActive" for x :: "'a link \<times> 'a"
    by (cases x) (simp add: upd_link_def)
  then show ?thesis by (simp add: link_svinfo_def svinfo_ok_def Let_def split: option.split)
qed

lemma handlers_state:
  assumes "(k, f) \<in> set (link_handlers H now m)" "k \<noteq> ''SVINFO''"
  shows "keeps lh (f lh)"
proof -
  have "list_all (\<lambda>(k, f). k = ''SVINFO'' \<or> keeps lh (f lh)) (link_handlers H now m)"
    by (simp add: link_handlers_def keeps_handlers)
  then show ?thesis using assms by (auto simp: list_all_iff)
qed

lemma received_state [simp]: "lk_state (fst (upd_link (count_received m) lh)) = lk_state (fst lh)"
  "lk_cfg (fst (upd_link (count_received m) lh)) = lk_cfg (fst lh)"
  by (cases lh; simp add: upd_link_def count_received_def)+

text \<open>
  C17: What the handshake checks. A wrong or missing password and a wrong server name close the link. A link becomes
  active exactly on a well-formed \<^verbatim>\<open>SVINFO\<close> of version three or later, whatever was said before: the password is
  never required, so a peer that says nothing but \<^verbatim>\<open>SVINFO\<close> activates the link of any configuration.
\<close>

theorem link_handshake:
  "(lk_state (fst lh) \<noteq> LinkActive \<longrightarrow>
     (lk_state (fst (link_dispatch H now m lh)) = LinkActive \<longleftrightarrow> msg_Command m = ''SVINFO'' \<and> svinfo_ok m)) \<and>
   (msg_Command m = ''PASS'' \<and> (msg_Params m = [] \<or> hd (msg_Params m) \<noteq> lc_PasswordIn (lk_cfg (fst lh))) \<longrightarrow>
     lk_state (fst (link_dispatch H now m lh)) = LinkClosed) \<and>
   (msg_Command m = ''SERVER'' \<and> (msg_Params m = [] \<or>
       lc_PeerName (lk_cfg (fst lh)) \<noteq> [] \<and> hd (msg_Params m) \<noteq> lc_PeerName (lk_cfg (fst lh))) \<longrightarrow>
     lk_state (fst (link_dispatch H now m lh)) = LinkClosed)"
proof (intro conjI impI)
  let ?lh1 = "upd_link (count_received m) lh"
  have d: "link_dispatch H now m lh = (case map_of (link_handlers H now m) (msg_Command m) of None \<Rightarrow> ?lh1 | Some f \<Rightarrow> f ?lh1)"
    by (simp add: link_dispatch_def Let_def)
  {
    assume st: "lk_state (fst lh) \<noteq> LinkActive"
    show "lk_state (fst (link_dispatch H now m lh)) = LinkActive \<longleftrightarrow> msg_Command m = ''SVINFO'' \<and> svinfo_ok m"
    proof (cases "msg_Command m = ''SVINFO''")
      case True
      have "map_of (link_handlers H now m) ''SVINFO'' = Some (link_svinfo H now m)" by (simp add: link_handlers_def)
      then show ?thesis by (simp add: d True svinfo_state)
    next
      case False
      have "keeps ?lh1 (link_dispatch H now m lh)"
        by (simp add: d handlers_state [OF map_of_SomeD False] split: option.split)
      then show ?thesis using st False by (auto simp: keeps_def)
    qed
  }
  {
    assume a: "msg_Command m = ''PASS'' \<and> (msg_Params m = [] \<or> hd (msg_Params m) \<noteq> lc_PasswordIn (lk_cfg (fst lh)))"
    then have "link_dispatch H now m lh = link_pass m ?lh1" by (simp add: d link_handlers_def)
    then show "lk_state (fst (link_dispatch H now m lh)) = LinkClosed"
      using a by (cases "msg_Params m") (auto simp: link_pass_def)
  }
  assume a: "msg_Command m = ''SERVER'' \<and> (msg_Params m = [] \<or>
       lc_PeerName (lk_cfg (fst lh)) \<noteq> [] \<and> hd (msg_Params m) \<noteq> lc_PeerName (lk_cfg (fst lh)))"
  then have "link_dispatch H now m lh = link_server now m ?lh1" by (simp add: d link_handlers_def)
  then show "lk_state (fst (link_dispatch H now m lh)) = LinkClosed"
    using a by (cases "msg_Params m") (auto simp: link_server_def Let_def)
qed

lemma link_handshake_witness:
  "let l = new_link server_host (run_link_config ''irc.b'' ''secret'' ''out'' ''b'') demo_net in
   lk_state (fst (link_dispatch server_host 0 (plain_message [] ''SVINFO'' [''6'', ''6'', ''0'', ''1'']) (l, demo_net))) = LinkActive \<and>
   lk_state (fst (link_dispatch server_host 0 (plain_message [] ''PASS'' [''guess'']) (l, demo_net))) = LinkClosed"
proof -
  define l where "l = new_link server_host (run_link_config ''irc.b'' ''secret'' ''out'' ''b'') demo_net"
  have l: "lk_state l = LinkHandshaking" "lc_PasswordIn (lk_cfg l) = ''secret''" by (simp_all add: l_def new_link_def run_link_config_def)
  have ok: "svinfo_ok (plain_message [] ''SVINFO'' [''6'', ''6'', ''0'', ''1''])" by code_simp
  show ?thesis
    using link_handshake [of "(l, demo_net)" server_host 0 "plain_message [] ''SVINFO'' [''6'', ''6'', ''0'', ''1'']"]
      link_handshake [of "(l, demo_net)" server_host 0 "plain_message [] ''PASS'' [''guess'']"] l ok
    unfolding Let_def l_def [symmetric] by (simp add: plain_message_def)
qed

end
