(* ===== verification/Link_Sync.thy ===== *)
theory Link_Sync
  imports Link_Props
begin

text \<open>
  How the worlds of two servers come to agree over a link, and where they do not: the copies a burst leaves, the
  end of a nickname collision, the modes of a channel, and the lines a link cannot carry.
\<close>

section \<open>The copy of a user\<close>

text \<open>What a peer makes of \<open>burst_user name u\<close>, received at time \<open>now\<close>.\<close>

definition copy_of :: "string \<Rightarrow> time \<Rightarrow> user \<Rightarrow> user" where
  "copy_of name now u =
     (if u_Service u then
        zero_user\<lparr>u_Nick := u_Nick u, u_User := ''service'', u_Host := name, u_Realname := u_Realname u, u_Registered := True,
          u_Service := True, u_ServiceType := u_ServiceType u,
          u_ServiceDistribution := (if u_ServiceDistribution u = [] then ''*'' else u_ServiceDistribution u),
          u_HomeServer := name, u_TS := now\<rparr>
      else
        zero_user\<lparr>u_Nick := u_Nick u, u_User := u_User u, u_Host := u_Host u, u_Realname := u_Realname u,
          u_Modes := u_Modes u, u_Registered := True, u_HomeServer := name, u_TS := u_TS u\<rparr>)"

definition knows :: "world \<Rightarrow> user \<Rightarrow> bool" where
  "knows w x = (\<exists>i. find_by_nick (u_Nick x) w = Some i \<and> (w_store w i)\<lparr>u_ID := 0, u_ConnectAt := zero_time\<rparr> = x)"

text \<open>A time stamp of 64 bits, a server name a prefix can carry.\<close>

definition int64 :: "int \<Rightarrow> bool" where
  "int64 t = (- (2 ^ 63) \<le> t \<and> t < 2 ^ 63)"

definition server_name :: "string \<Rightarrow> bool" where
  "server_name n = (n \<noteq> [] \<and> CHR ''!'' \<notin> set n)"

definition open_for :: "nat \<Rightarrow> 'h link \<Rightarrow> bool" where
  "open_for k l = (\<not> lk_closed l \<and> length (lk_send l) + k \<le> sendq)"

lemma remote_user_burst:
  assumes "\<not> u_Service u" "int64 (u_TS u)"
  shows "remote_user (msg_Params (burst_user name u)) = copy_of name now u"
  using assms by (simp add: remote_user_def burst_user_def copy_of_def plain_message_def int64_def parse_int_format
      trim_prefix_def has_prefix_def nth_Cons')

lemma sender_server: "server_name n \<Longrightarrow> sender_from_prefix n = n"
  by (simp add: sender_from_prefix_def index_byte_absent server_name_def)

lemma send_open:
  assumes "open_for 1 l"
  shows "send_link m (l, h) = (l\<lparr>lk_send := lk_send l @ [m], lk_sentMessages := lk_sentMessages l + 1,
             lk_sentBytes := lk_sentBytes l + wire_length m\<rparr>, h)"
  using assms by (simp add: send_link_def open_for_def)

lemma host_pair [simp]: "upd_host f (l, h) = (l, f h)" "upd_link g (l, h) = (g l, h)"
  by (simp_all add: upd_host_def upd_link_def)

lemma dispatch_burst:
  assumes "int64 (u_TS u)" "server_name name"
  shows "link_dispatch H now (burst_user name u) (l, h) =
    (let lh = (count_received (burst_user name u) l, h) in
     if u_Service u then
       (if find_by_nick (u_Nick u) (ho_WorldState H h) \<noteq> None then lh else upd_host (introduce H now (copy_of name now u)) lh)
     else remote_nick_burst H now (copy_of name now u) lh)"
proof (cases "u_Service u")
  case True
  then show ?thesis using sender_server [OF assms(2)] assms(2)
    by (simp add: link_dispatch_def link_handlers_def Let_def burst_user_def plain_message_def handle_remote_service_def copy_of_def
        server_name_def nth_Cons')
next
  case False
  have c: "msg_Command (burst_user name u) = ''NICK''" "length (msg_Params (burst_user name u)) = 8"
    using False by (simp_all add: burst_user_def plain_message_def)
  have "link_dispatch H now (burst_user name u) (l, h) = handle_remote_nick H now (burst_user name u) (count_received (burst_user name u) l, h)"
    by (simp add: link_dispatch_def link_handlers_def Let_def c)
  then show ?thesis using False remote_user_burst [OF False assms(1), of name now] by (simp add: handle_remote_nick_def Let_def c)
qed

lemma add_knows:
  assumes "wf_world w" "find_by_nick (u_Nick x) w = None" "u_Nick x \<noteq> []" "u_ID x = 0" "u_ConnectAt x = zero_time"
  shows "knows (fst (add_user x t w)) x" "wf_world (fst (add_user x t w))"
    "find_by_nick m (fst (add_user x t w)) = (if same_name w m (u_Nick x) then Some (Suc (w_nextID w)) else find_by_nick m w)"
    "i \<le> w_nextID w \<Longrightarrow> w_store (fst (add_user x t w)) i = w_store w i"
proof -
  have "map_of (w_byNick w) (wfold w (u_Nick x)) = None"
    using assms(2) find_by_nick_map [OF wf_worldD(1) [OF assms(1)]] by simp
  then obtain w' v where a: "add_user x t w = (w', Inr v)" using assms(3) by (simp add: add_user_def Let_def mhas_def)
  note c = add_user_cases [OF a] and n = nicks.admit_ok [OF assms(1) a]
  have "w_store w' v = x\<lparr>u_ID := v, u_ConnectAt := t\<rparr>" using c assms(5) by simp
  then have "(w_store w' v)\<lparr>u_ID := 0, u_ConnectAt := zero_time\<rparr> = x" using assms(4,5) by simp
  then show "knows (fst (add_user x t w)) x" using n by (auto simp: a knows_def same_name_def)
  show "wf_world (fst (add_user x t w))"
    "find_by_nick m (fst (add_user x t w)) = (if same_name w m (u_Nick x) then Some (Suc (w_nextID w)) else find_by_nick m w)"
    "i \<le> w_nextID w \<Longrightarrow> w_store (fst (add_user x t w)) i = w_store w i"
    using n c by (simp_all add: a)
qed

lemma remove_holder:
  assumes "wf_world w" "find_by_nick n w = Some i"
  shows "wf_world (fst (remove_user i w))"
    "find_by_nick m (fst (remove_user i w)) = (if find_by_nick m w = Some i then None else find_by_nick m w)"
proof -
  have "mhas (w_byID w) i" using find_by_nick_Some(1) [OF wf_worldD(1) [OF assms(1)] assms(2)] .
  then obtain w' where r: "remove_user i w = (w', True)" by (simp add: remove_user_def)
  show "wf_world (fst (remove_user i w))"
    "find_by_nick m (fst (remove_user i w)) = (if find_by_nick m w = Some i then None else find_by_nick m w)"
    using nicks.expel_ok [OF assms(1) r] by (simp_all add: r)
qed

section \<open>Collisions\<close>

text \<open>The world after a burst line for a user.\<close>

definition collide :: "time \<Rightarrow> user \<Rightarrow> world \<Rightarrow> world" where
  "collide now x w =
     (case find_by_nick (u_Nick x) w of
        None \<Rightarrow> fst (add_user x now w)
      | Some i \<Rightarrow>
          let old = u_TS (w_store w i) in
          if u_TS x \<noteq> 0 \<and> old \<noteq> 0 \<and> u_TS x = old then fst (remove_user i w)
          else if u_TS x \<noteq> 0 \<and> old \<noteq> 0 \<and> u_TS x > old then w
          else fst (add_user x now (fst (remove_user i w))))"

definition loses :: "user \<Rightarrow> world \<Rightarrow> string option" where
  "loses x w =
     (case find_by_nick (u_Nick x) w of
        None \<Rightarrow> None
      | Some i \<Rightarrow>
          let old = u_TS (w_store w i) in
          if u_TS x \<noteq> 0 \<and> old \<noteq> 0 \<and> u_TS x = old then Some ''Nick collision (equal TS, both lose)''
          else if u_TS x \<noteq> 0 \<and> old \<noteq> 0 \<and> u_TS x > old then Some ''Nick collision (TS lost)''
          else None)"

context federation_host begin

lemma evict_world: "ho_WorldState H (evict H i r h) = fst (remove_user i (ho_WorldState H h))"
  by (simp add: evict_def Let_def upd_world drop_world)

lemma introduce_world: "ho_WorldState H (introduce H now x h) = fst (add_user x now (ho_WorldState H h))"
  by (simp add: introduce_def upd_world)

lemma collide_world:
  assumes "open_for 1 l"
  shows "ho_WorldState H (snd (remote_nick_burst H now x (l, h))) = collide now x (ho_WorldState H h)"
    "lk_send (fst (remote_nick_burst H now x (l, h))) =
       lk_send l @ (case loses x (ho_WorldState H h) of None \<Rightarrow> [] | Some why \<Rightarrow> [plain_message (lk_localName l) ''KILL'' [u_Nick x, why]])"
    "lk_closed (fst (remote_nick_burst H now x (l, h))) = lk_closed l"
  using send_open [OF assms]
  by (simp_all add: remote_nick_burst_def collide_def loses_def Let_def evict_world introduce_world split: option.split)

end

lemma received_open [simp]: "open_for k (count_received m l) = open_for k l" "lk_send (count_received m l) = lk_send l"
  "lk_localName (count_received m l) = lk_localName l"
  by (simp_all add: open_for_def count_received_def)

lemma copy_fields [simp]: "u_Nick (copy_of name now u) = u_Nick u" "u_ID (copy_of name now u) = 0"
  "u_ConnectAt (copy_of name now u) = zero_time" "u_HomeServer (copy_of name now u) = name"
  "\<not> u_Service u \<Longrightarrow> u_TS (copy_of name now u) = u_TS u"
  by (simp_all add: copy_of_def zero_user_def)

lemma collide_spec:
  assumes "wf_world w" "u_Nick x \<noteq> []" "u_ID x = 0" "u_ConnectAt x = zero_time"
  shows "case find_by_nick (u_Nick x) w of
      None \<Rightarrow> knows (collide now x w) x
    | Some i \<Rightarrow>
        if loses x w = None then knows (collide now x w) x
        else if u_TS x = u_TS (w_store w i) then find_by_nick (u_Nick x) (collide now x w) = None
        else collide now x w = w"
    "\<not> same_name w m (u_Nick x) \<Longrightarrow> find_by_nick m (collide now x w) = find_by_nick m w"
proof -
  note add = add_knows [OF assms(1) _ assms(2-4)]
  have swap: "knows (fst (add_user x now (fst (remove_user i w)))) x"
      "find_by_nick m (fst (add_user x now (fst (remove_user i w)))) = (if same_name w m (u_Nick x) then Some (Suc (w_nextID w)) else
         if find_by_nick m w = Some i then None else find_by_nick m w)"
    if "find_by_nick (u_Nick x) w = Some i" for i m
  proof -
    note r = remove_holder [OF assms(1) that]
    have free: "find_by_nick (u_Nick x) (fst (remove_user i w)) = None" using r(2) that by simp
    show "knows (fst (add_user x now (fst (remove_user i w)))) x"
      "find_by_nick m (fst (add_user x now (fst (remove_user i w)))) = (if same_name w m (u_Nick x) then Some (Suc (w_nextID w)) else
         if find_by_nick m w = Some i then None else find_by_nick m w)"
      using add_knows(1,3) [OF r(1) free assms(2-4)] by (simp_all add: r(2) same_name_def)
  qed
  show "case find_by_nick (u_Nick x) w of
      None \<Rightarrow> knows (collide now x w) x
    | Some i \<Rightarrow>
        if loses x w = None then knows (collide now x w) x
        else if u_TS x = u_TS (w_store w i) then find_by_nick (u_Nick x) (collide now x w) = None
        else collide now x w = w"
    using add(1) swap(1) remove_holder(2) [OF assms(1)]
    by (auto simp: collide_def loses_def Let_def split: option.split)
  assume m: "\<not> same_name w m (u_Nick x)"
  have other: "find_by_nick (u_Nick x) w = Some i \<Longrightarrow> find_by_nick m w \<noteq> Some i" for i
    using m nicks.holder_nick [OF assms(1), of m i] nicks.holder_nick [OF assms(1), of "u_Nick x" i]
    by (auto simp: same_name_def)
  show "find_by_nick m (collide now x w) = find_by_nick m w"
    using add(3) swap(2) remove_holder(2) [OF assms(1)] m other
    by (auto simp: collide_def Let_def split: option.split)
qed

lemma burst_user_world:
  assumes "\<not> u_Service u" "int64 (u_TS u)" "server_name name" "open_for 1 l"
  shows "sv_world (snd (link_dispatch server_host now (burst_user name u) (l, s))) = collide now (copy_of name now u) (sv_world s)"
    "lk_send (fst (link_dispatch server_host now (burst_user name u) (l, s))) =
       lk_send l @ (case loses (copy_of name now u) (sv_world s) of None \<Rightarrow> []
         | Some why \<Rightarrow> [plain_message (lk_localName l) ''KILL'' [u_Nick u, why]])"
  using fed.collide_world [of "count_received (burst_user name u) l" now "copy_of name now u" s] assms
  by (simp_all add: dispatch_burst server_host_def split: option.split)


lemma wf_after_burst:
  assumes "wf_server s" "open_for 1 l" "\<not> u_Service u" "int64 (u_TS u)" "server_name name"
  shows "wf_server (snd (link_dispatch server_host now (burst_user name u) (l, s)))"
proof -
  have "wf_server (snd (remote_nick_burst server_host now x (l', s)))" if "open_for 1 l'" for x l'
    using assms(1) send_open [OF that]
    by (simp add: remote_nick_burst_def Let_def fed.ok_evict fed.ok_introduce split: option.split)
  then show ?thesis using assms by (simp add: dispatch_burst Let_def)
qed

text \<open>
  The \<^verbatim>\<open>KILL\<close> for the loser hits the winner. When both servers burst at once, the server of the younger user first
  takes over the older one and then receives the \<^verbatim>\<open>KILL\<close> the other side sent for its own user: it removes its
  copy of the winner, and the two servers no longer agree who has the nickname.
\<close>

theorem collision_kill_race:
  fixes now :: time and l :: "server link" and name :: string
  assumes "wf_server s" "open_for 1 l" "\<not> u_Service u" "int64 (u_TS u)" "server_name name" "u_Nick u \<noteq> []"
    and "find_by_nick (u_Nick u) (sv_world s) = Some i" "u_TS u < u_TS (user_of i s)"
  defines "lh1 \<equiv> link_dispatch server_host now (burst_user name u) (l, s)"
  shows "knows (sv_world (snd lh1)) (copy_of name now u) \<and>
    find_by_nick (u_Nick u)
      (sv_world (snd (link_dispatch server_host now (plain_message name ''KILL'' [u_Nick u, ''Nick collision (TS lost)'']) lh1))) = None"
proof -
  let ?n = "u_Nick u" and ?x = "copy_of name now u"
  note w = burst_user_world(1) [OF assms(3,4,5,2), where now = now and s = s, folded lh1_def]
  have l: "loses ?x (sv_world s) = None"
    using assms(3,7,8) by (auto simp: loses_def Let_def user_of_def)
  have k: "knows (sv_world (snd lh1)) ?x"
    using collide_spec(1) [OF wf_serverD(1) [OF assms(1)], where x = ?x and now = now] assms(6,7) l by (simp add: w)
  then obtain j where j: "find_by_nick ?n (sv_world (snd lh1)) = Some j" "u_HomeServer (w_store (sv_world (snd lh1)) j) = name"
    by (auto simp: knows_def dest: arg_cong [where f = u_HomeServer])
  obtain l1 s1 where lh1: "lh1 = (l1, s1)" by force
  have "wf_server s1"
    using wf_after_burst [OF assms(1-5), where now = now] lh1 by (simp add: lh1_def)
  then have wf: "wf_world (sv_world s1)" by (rule wf_serverD(1))
  have remote: "is_remote (w_store (sv_world s1) j)" using j(2) assms(5) lh1 by (simp add: is_remote_def server_name_def)
  have "link_dispatch server_host now (plain_message name ''KILL'' [?n, ''Nick collision (TS lost)'']) lh1 =
      (count_received (plain_message name ''KILL'' [?n, ''Nick collision (TS lost)'']) l1,
       handle_remote_kill server_host (plain_message name ''KILL'' [?n, ''Nick collision (TS lost)'']) s1)"
    by (simp add: lh1 link_dispatch_def link_handlers_def Let_def plain_message_def)
  moreover have "sv_world (handle_remote_kill server_host (plain_message name ''KILL'' [?n, ''Nick collision (TS lost)'']) s1) =
      fst (remove_user j (sv_world s1))"
    using j(1) lh1 remote by (simp add: handle_remote_kill_def Let_def plain_message_def server_host_def upd_sworld_def
        deliver_quit_world [unfolded plain_message_def])
  ultimately show ?thesis using k remove_holder(2) [OF wf, of ?n j] j(1) lh1 by simp
qed

text \<open>\<open>demo_net\<close> with a time stamp for \<^verbatim>\<open>al\<close>, and a fresh link.\<close>

definition demo_clash :: server where
  "demo_clash = with_user 1 (\<lambda>x. x\<lparr>u_TS := 9\<rparr>) demo_net"

definition demo_link :: "server link" where
  "demo_link = new_link server_host (run_link_config ''irc.b'' ''in'' ''out'' ''b'') demo_clash"

definition demo_al :: "int \<Rightarrow> user" where
  "demo_al t = zero_user\<lparr>u_Nick := ''Al'', u_User := ''al'', u_Host := ''far'', u_Registered := True, u_TS := t\<rparr>"

lemma demo_clash_facts:
  "wf_server demo_clash" "find_by_nick ''Al'' (sv_world demo_clash) = Some 1" "u_TS (user_of 1 demo_clash) = 9"
proof -
  show "wf_server demo_clash" unfolding demo_clash_def by (rule wf_with_user [OF wf_demo_net]) simp_all
  have w: "sv_world demo_clash = upd_user 1 (\<lambda>x. x\<lparr>u_TS := 9\<rparr>) demo_world"
    by (simp add: demo_clash_def with_user_def upd_sworld_def)
  show "find_by_nick ''Al'' (sv_world demo_clash) = Some 1" "u_TS (user_of 1 demo_clash) = 9"
    unfolding user_of_def w by (code_simp+)
qed

lemma demo_link_facts: "open_for 1 demo_link" "server_name ''irc.b''" "lk_send demo_link = []" "lk_localName demo_link = ''irc.a''"
  by (simp_all add: demo_link_def new_link_def open_for_def sendq_def server_name_def server_host_def demo_clash_def
      with_user_def upd_sworld_def demo_config_def)


lemma collision_kill_race_witness:
  "let lh1 = link_dispatch server_host 50 (burst_user ''irc.b'' (demo_al 5)) (demo_link, demo_clash) in
   knows (sv_world (snd lh1)) (copy_of ''irc.b'' 50 (demo_al 5)) \<and>
   find_by_nick ''Al'' (sv_world (snd (link_dispatch server_host 50 (plain_message ''irc.b'' ''KILL'' [''Al'', ''Nick collision (TS lost)'']) lh1))) = None"
proof -
  have u: "\<not> u_Service (demo_al 5)" "int64 (u_TS (demo_al 5))" "u_Nick (demo_al 5) \<noteq> []" "u_Nick (demo_al 5) = ''Al''" "u_TS (demo_al 5) = 5"
    by (simp_all add: demo_al_def zero_user_def int64_def)
  have "find_by_nick (u_Nick (demo_al 5)) (sv_world demo_clash) = Some 1" "u_TS (demo_al 5) < u_TS (user_of 1 demo_clash)"
    by (simp_all add: u demo_clash_facts [unfolded One_nat_def])
  then show ?thesis
    using collision_kill_race [OF demo_clash_facts(1) demo_link_facts(1) u(1,2) demo_link_facts(2) u(3), where now = 50]
    by (simp add: u Let_def)
qed

section \<open>The burst\<close>

lemma dispatch_free:
  fixes now :: time and l :: "server link" and name m :: string
  assumes "wf_server s" "int64 (u_TS u)" "server_name name" "u_Nick u \<noteq> []" "find_by_nick (u_Nick u) (sv_world s) = None"
  defines "x \<equiv> copy_of name now u"
  shows "link_dispatch server_host now (burst_user name u) (l, s) = (count_received (burst_user name u) l, introduce server_host now x s)"
    "wf_server (introduce server_host now x s)" "knows (sv_world (introduce server_host now x s)) x"
    "find_by_nick m (sv_world (introduce server_host now x s)) =
       (if same_name (sv_world s) m (u_Nick u) then Some (Suc (w_nextID (sv_world s))) else find_by_nick m (sv_world s))"
    "i \<le> w_nextID (sv_world s) \<Longrightarrow> user_of i (introduce server_host now x s) = user_of i s"
    "w_mapping (sv_world (introduce server_host now x s)) = w_mapping (sv_world s)"
proof -
  have w: "sv_world (introduce server_host now x s) = fst (add_user x now (sv_world s))"
    using fed.introduce_world [of now x s] by (simp add: server_host_def)
  show "link_dispatch server_host now (burst_user name u) (l, s) = (count_received (burst_user name u) l, introduce server_host now x s)"
    using assms(5) by (simp add: dispatch_burst [OF assms(2,3)] Let_def x_def remote_nick_burst_def server_host_def)
  show "wf_server (introduce server_host now x s)" using assms(1) by (rule fed.ok_introduce)
  note a = add_knows [OF wf_serverD(1) [OF assms(1)], of x, unfolded x_def copy_fields, OF assms(5,4) refl refl, folded x_def]
  show "knows (sv_world (introduce server_host now x s)) x"
    "find_by_nick m (sv_world (introduce server_host now x s)) =
       (if same_name (sv_world s) m (u_Nick u) then Some (Suc (w_nextID (sv_world s))) else find_by_nick m (sv_world s))"
    "i \<le> w_nextID (sv_world s) \<Longrightarrow> user_of i (introduce server_host now x s) = user_of i s"
    "w_mapping (sv_world (introduce server_host now x s)) = w_mapping (sv_world s)"
    using a by (simp_all add: w user_of_def)
qed

text \<open>Names of distinct users, none of them taken on the other side.\<close>

definition mergeable :: "user list \<Rightarrow> world \<Rightarrow> bool" where
  "mergeable us w =
     (distinct (map (\<lambda>u. wfold w (u_Nick u)) us) \<and>
      (\<forall>u \<in> set us. u_Nick u \<noteq> [] \<and> int64 (u_TS u) \<and> find_by_nick (u_Nick u) w = None))"

lemma burst_fold:
  fixes now :: time and l :: "server link" and name :: string
  assumes "wf_server s" "mergeable us (sv_world s)" "server_name name"
  defines "s' \<equiv> snd (fold (link_dispatch server_host now) (map (burst_user name) us) (l, s))"
  shows "wf_server s' \<and> (\<forall>u \<in> set us. knows (sv_world s') (copy_of name now u)) \<and>
    (\<forall>n i. find_by_nick n (sv_world s) = Some i \<longrightarrow> find_by_nick n (sv_world s') = Some i \<and> user_of i s' = user_of i s)"
  using assms(1,2) unfolding s'_def
proof (induction us arbitrary: l s)
  case (Cons u us)
  have u: "u_Nick u \<noteq> []" "int64 (u_TS u)" "find_by_nick (u_Nick u) (sv_world s) = None" using Cons.prems(2) by (simp_all add: mergeable_def)
  define s1 where "s1 = introduce server_host now (copy_of name now u) s"
  note d = dispatch_free [OF Cons.prems(1) u(2) assms(3) u(1,3), where now = now, folded s1_def]
  have m: "mergeable us (sv_world s1)"
    using Cons.prems(2) by (auto simp: mergeable_def d(4,6) same_name_def image_iff)
  define s2 where "s2 = snd (fold (link_dispatch server_host now) (map (burst_user name) us) (count_received (burst_user name u) l, s1))"
  have IH: "wf_server s2" "v \<in> set us \<Longrightarrow> knows (sv_world s2) (copy_of name now v)"
      "find_by_nick n (sv_world s1) = Some i \<Longrightarrow> find_by_nick n (sv_world s2) = Some i \<and> user_of i s2 = user_of i s1" for v n i
    using Cons.IH [OF d(2) m, of "count_received (burst_user name u) l"] by (simp_all add: s2_def)
  have "knows (sv_world s2) (copy_of name now u)"
    using d(3) IH(3) [of "u_Nick u"] by (auto simp: knows_def user_of_def)
  moreover have "find_by_nick n (sv_world s2) = Some i \<and> user_of i s2 = user_of i s" if n: "find_by_nick n (sv_world s) = Some i" for n i
  proof -
    have "\<not> same_name (sv_world s) n (u_Nick u)"
      using n u(3) nicks.holder_same [OF wf_serverD(1) [OF Cons.prems(1)], of n "u_Nick u"] by auto
    moreover have "i \<le> w_nextID (sv_world s)"
      using wf_usersD(3) [OF wf_worldD(1) [OF wf_serverD(1) [OF Cons.prems(1)]]] find_by_nick_Some(1) [OF wf_worldD(1) [OF wf_serverD(1) [OF Cons.prems(1)]] n] .
    ultimately show ?thesis using IH(3) [of n i] d(4) [of n] d(5) [of i] n by simp
  qed
  ultimately show ?case using IH(1,2) d(1) by (simp add: s2_def)
qed simp

text \<open>What is queued stays queued in front.\<close>

definition extends :: "'h link \<Rightarrow> 'h link \<Rightarrow> bool" where
  "extends l l' = (\<exists>ms. lk_send l' = lk_send l @ ms)"

lemma extends_refl [simp]: "extends l l"
  by (simp add: extends_def)

lemma extends_trans: "extends a b \<Longrightarrow> extends b c \<Longrightarrow> extends a c"
  by (auto simp: extends_def)

lemma extends_host [simp]: "extends l (fst (upd_host f lh)) = extends l (fst lh)"
  by (cases lh) simp

lemma extends_send: "extends (fst lh) (fst (send_link m lh))"
  by (cases lh) (simp add: send_link_def extends_def close_link_def)

lemma extends_sends: "extends (fst lh) (fst (fold send_link ms lh))"
proof (induction ms arbitrary: lh)
  case (Cons m ms)
  show ?case using extends_trans [OF extends_send Cons.IH [of "send_link m lh"]] by simp
qed simp

lemma extends_channel: "extends (fst lh) (fst (burst_channel H ch lh))"
proof -
  have "extends (fst lh) (fst (fold send_link ms (upd_host f (fold send_link ks lh))))" for ms f ks
    by (rule extends_trans [OF _ extends_sends]) (simp add: extends_sends)
  then show ?thesis by (simp add: burst_channel_def Let_def extends_sends)
qed

lemma extends_channels: "extends (fst lh) (fst (fold (burst_channel H) chs lh))"
proof (induction chs arbitrary: lh)
  case (Cons ch chs)
  show ?case using extends_trans [OF extends_channel Cons.IH [of "burst_channel H ch lh"]] by simp
qed simp

lemma sends_open: "open_for (length ms) l \<Longrightarrow> lk_send (fst (fold send_link ms (l, h))) = lk_send l @ ms"
proof (induction ms arbitrary: l)
  case (Cons m ms)
  then have "open_for 1 l" by (simp add: open_for_def)
  note send_open [OF this, of m h]
  then show ?case using Cons by (simp add: open_for_def)
qed simp

lemma burst_starts:
  fixes H :: "'h host" and l :: "'h link" and h :: 'h
  defines "us \<equiv> filter (\<lambda>u. \<not> is_remote u) (snapshot (ho_WorldState H h))"
  assumes "open_for (length us) l" "lk_send l = []"
  shows "take (length us) (lk_send (fst (send_burst H (l, h)))) = map (burst_user (lk_localName l)) us"
proof -
  define lh1 where "lh1 = fold send_link (map (burst_user (lk_localName l)) us) (l, h)"
  have q: "lk_send (fst lh1) = map (burst_user (lk_localName l)) us"
    using sends_open [of "map (burst_user (lk_localName l)) us" l h] assms(2,3) by (simp add: lh1_def)
  have "send_burst H (l, h) = fold (burst_channel H) (channels_snapshot (ho_WorldState H h)) lh1"
    by (simp add: send_burst_def Let_def lh1_def us_def)
  then show ?thesis using extends_channels [of lh1 H "channels_snapshot (ho_WorldState H h)"] q by (auto simp: extends_def)
qed

lemma snapshot_mergeable:
  assumes "wf_world a" "w_mapping a = w_mapping b"
    and "list_all (\<lambda>u. int64 (u_TS u) \<and> find_by_nick (u_Nick u) b = None) (filter P (snapshot a))"
  shows "mergeable (filter P (snapshot a)) b"
proof -
  note wu = wf_worldD(1) [OF assms(1)]
  have ids: "distinct (map fst (w_byID a))" using index_okD(2) [OF wf_users_index [OF wu]] by (simp add: wf_map_def)
  have "inj_on (\<lambda>i. wfold b (u_Nick (w_store a i))) (set (map fst (w_byID a)))"
    using index_ok_inj [OF wf_users_index [OF wu]] by (auto simp: inj_on_def mhas_iff assms(2))
  then have "distinct (map (\<lambda>u. wfold b (u_Nick u)) (snapshot a))"
    using ids comp_inj_on [of fst "set (w_byID a)" "\<lambda>i. wfold b (u_Nick (w_store a i))"]
    by (simp add: snapshot_def distinct_map comp_def)
  then have "distinct (map (\<lambda>u. wfold b (u_Nick u)) (filter P (snapshot a)))" by (rule distinct_map_filter)
  moreover have "u_Nick u \<noteq> []" if "u \<in> set (snapshot a)" for u
    using that wf_usersD(4) [OF wu] by (auto simp: snapshot_def mhas_iff)
  ultimately show ?thesis using assms(3) by (auto simp: mergeable_def list_all_iff)
qed



section \<open>Channel modes\<close>

text \<open>The letters a peer applies.\<close>

definition federated_letters :: string where
  "federated_letters = ''imnpstklovb''"

lemma mode_step_remote:
  assumes "mc \<in> set federated_letters"
  shows "(mr_args (mode_step w now mc r), mr_ch (mode_step w now mc r)) = remote_mode_step w now (is_on r) mc (mr_args r) (mr_ch r)"
    "mr_dir (mode_step w now mc r) = mr_dir r"
proof -
  have note_ch: "mr_ch (note_change k ps res r) = fst res" "mr_args (note_change k ps res r) = mr_args r"
      "mr_dir (note_change k ps res r) = mr_dir r" for k ps res r
    by (cases res; simp add: note_change_def)+
  consider (flag) "mc \<in> set ''imnpst''" | (key) "mc = CHR ''k''" | (limit) "mc = CHR ''l''"
    | (member) "mc = CHR ''o'' \<or> mc = CHR ''v''" | (ban) "mc = CHR ''b''"
    using assms by (auto simp: federated_letters_def)
  then have "(mr_args (mode_step w now mc r), mr_ch (mode_step w now mc r)) = remote_mode_step w now (is_on r) mc (mr_args r) (mr_ch r) \<and>
      mr_dir (mode_step w now mc r) = mr_dir r"
  proof cases
    case flag
    then have "mc \<in> set ''imnpsta''" by auto
    then show ?thesis using flag flag_step [of mc r w now] by (simp only: remote_mode_step_def note_ch if_True simp_thms)
  next
    case key
    then show ?thesis by (simp add: mode_step_def remote_mode_step_def key_step_def note_ch Let_def split: list.split)
  next
    case limit
    then show ?thesis by (simp add: mode_step_def remote_mode_step_def limit_step_def note_ch Let_def split: list.split option.split)
  next
    case member
    then have st: "mode_step w now mc r = member_step w mc r" by (auto simp: mode_step_def)
    have rm: "mc \<notin> set ''imnpst''" "mc \<noteq> CHR ''k''" "mc \<noteq> CHR ''l''" using member by auto
    show ?thesis
    proof (cases "mr_args r")
      case Nil
      then show ?thesis using rm member by (simp add: st remote_mode_step_def member_step_def)
    next
      case (Cons nick rest)
      show ?thesis
      proof (cases "find_by_nick nick w")
        case None
        then show ?thesis using rm member Cons by (simp add: st remote_mode_step_def member_step_def)
      next
        case (Some i)
        show ?thesis using rm member Cons Some
          by (cases "is_member i (mr_ch r)"; cases "is_on r")
            (simp_all add: st remote_mode_step_def member_step_def note_ch Let_def case_prod_unfold)
      qed
    qed
  next
    case ban
    then show ?thesis by (simp add: mode_step_def remote_mode_step_def mask_step_def note_ch Let_def split: list.split)
  qed
  then show "(mr_args (mode_step w now mc r), mr_ch (mode_step w now mc r)) = remote_mode_step w now (is_on r) mc (mr_args r) (mr_ch r)"
    "mr_dir (mode_step w now mc r) = mr_dir r" by simp_all
qed

lemma run_modes_remote:
  assumes "set str \<subseteq> insert CHR ''+'' (insert CHR ''-'' (set federated_letters))"
  shows "mr_ch (run_modes w now str r) = run_remote_modes w now (is_on r) str (mr_args r) (mr_ch r)"
  using assms
proof (induction str arbitrary: r)
  case (Cons mc str)
  have e: "mr_ch (run_modes w now str r') = run_remote_modes w now (is_on r') str (mr_args r') (mr_ch r')" for r'
    by (rule Cons.IH) (use Cons.prems in simp)
  have run: "run_modes w now (mc # str) r = run_modes w now str (mode_step w now mc r)" by (simp add: run_modes_def)
  show ?case
  proof (cases "mc = CHR ''+'' \<or> mc = CHR ''-''")
    case True
    then show ?thesis unfolding run e by (auto simp: mode_step_def is_on_def)
  next
    case False
    then have fed: "mc \<in> set federated_letters" using Cons.prems by auto
    obtain args ch where s: "remote_mode_step w now (is_on r) mc (mr_args r) (mr_ch r) = (args, ch)" by force
    have "mr_args (mode_step w now mc r) = args" "mr_ch (mode_step w now mc r) = ch" "is_on (mode_step w now mc r) = is_on r"
      using mode_step_remote [OF fed, of w now r] unfolding s by (simp_all add: is_on_def)
    then show ?thesis using False unfolding run e by (simp add: s)
  qed
qed (simp add: run_modes_def)



text \<open>
  The letters with a mask the routine does not know keep their argument for the next letter: after
  \<^verbatim>\<open>+e+o mask al\<close> the server has made \<^verbatim>\<open>al\<close> an operator, the peer has not.
\<close>

lemma remote_mode_misaligned:
  "let ch = fst (remove_membership 1 MemberOp demo_channel); r = apply_channel_modes demo_world 9 ch [''+eo'', ''*!*@x'', ''al''] in
   mr_changes r = ''+e+o'' \<and> mem_is_op (membership_of 1 (mr_ch r)) \<and>
   \<not> mem_is_op (membership_of 1 (apply_remote_channel_mode demo_world 9 (mr_changes r # mr_params r) ch))"
  by code_simp

section \<open>Lines a link cannot carry\<close>

lemma privmsg_bytes:
  assumes "msg_bytes (plain_message [] ''PRIVMSG'' ps) = Inr line" "p \<noteq> []"
  shows "msg_bytes (plain_message p ''PRIVMSG'' ps) =
    (if length line + length p + 2 > MaxMessageBytes then Inl ErrTooLong else Inr (CHR '':'' # p @ '' '' @ line))"
  using assms by (auto simp: msg_bytes_def plain_message_def encode_tags_def Let_def split: sum.splits if_splits)

text \<open>
  A client can close a federation link with one message. A \<^verbatim>\<open>PRIVMSG\<close> that fits a line when the client sends it no
  longer fits once the server has put the sender in front; the writer of a link treats the refusal of the
  encoder as a write error and closes the link, whereupon the server drops the link and every user behind it.
\<close>

theorem long_message_closes_link:
  fixes l :: "server link" and s :: server
  assumes "msg_bytes (plain_message [] ''PRIVMSG'' ps) = Inr line" "length line + length p + 2 > MaxMessageBytes" "p \<noteq> []"
    and "\<not> lk_closed l" "lk_state l \<noteq> LinkClosed" "lk_send l = plain_message p ''PRIVMSG'' ps # q" "lk_cfg l = run_link_config peer pwIn pwOut desc"
  shows "write_link (l, s) =
    ((l\<lparr>lk_send := q, lk_state := LinkClosed, lk_closed := True\<rparr>, handle_squit_loss peer ''Net split'' (unregister_link peer s)), [])"
proof -
  have "msg_bytes (plain_message p ''PRIVMSG'' ps) = Inl ErrTooLong" using privmsg_bytes [OF assms(1,3)] assms(2) by simp
  then show ?thesis using assms(4-7) by (simp add: write_link_def close_link_def call_back_def run_link_config_def)
qed

lemma long_message_closes_link_witness:
  "let body = replicate 498 CHR ''x''; m = plain_message ''al!al@h'' ''PRIVMSG'' [''#a'', body];
       l = demo_link\<lparr>lk_send := [m], lk_state := LinkActive\<rparr>
   in lk_state (fst (fst (write_link (l, demo_net)))) = LinkClosed \<and> snd (write_link (l, demo_net)) = []"
proof -
  define body where "body = replicate 498 CHR ''x''"
  define l where "l = demo_link\<lparr>lk_send := [plain_message ''al!al@h'' ''PRIVMSG'' [''#a'', body]], lk_state := LinkActive\<rparr>"
  have n: "assert_no_crlf_nul body = None" "length body = 498"
    by (simp_all add: body_def assert_no_crlf_nul_def list_ex_iff)
  have a: "assert_middle_param ''#a'' = None" by code_simp
  have c: "valid_command ''PRIVMSG''" "to_upper ''PRIVMSG'' = ''PRIVMSG''" "\<not> is_all_digits ''PRIVMSG''" by code_simp+
  have b: "msg_bytes (plain_message [] ''PRIVMSG'' [''#a'', body]) = Inr (''PRIVMSG #a :'' @ body @ [CHR 0x0D, CHR 0x0A])"
    by (simp add: msg_bytes_def plain_message_def n a c MaxParams_def MaxMessageBytes_def encode_tags_def Let_def)
  have "length (''PRIVMSG #a :'' @ body @ [CHR 0x0D, CHR 0x0A]) + length ''al!al@h'' + 2 > MaxMessageBytes"
    by (simp add: n MaxMessageBytes_def)
  moreover have "\<not> lk_closed l" "lk_state l \<noteq> LinkClosed" "lk_send l = [plain_message ''al!al@h'' ''PRIVMSG'' [''#a'', body]]"
    "lk_cfg l = run_link_config ''irc.b'' ''in'' ''out'' ''b''"
    by (simp_all add: l_def demo_link_def new_link_def)
  ultimately have "write_link (l, demo_net) =
      ((l\<lparr>lk_send := [], lk_state := LinkClosed, lk_closed := True\<rparr>, handle_squit_loss ''irc.b'' ''Net split'' (unregister_link ''irc.b'' demo_net)), [])"
    by (intro long_message_closes_link [OF b]) simp_all
  then show ?thesis by (simp add: Let_def body_def [symmetric] l_def [symmetric])
qed

end
