(* ===== verification/System.thy ===== *)
theory System
  imports Session_Props Link_Sync
begin

text \<open>
  The daemon as a whole: one server, its connections and its federation links. Every step is one thing the
  process does without interruption that matters to the invariant: a line read, a message written, a timer, an
  action of a bot or of the dashboard, an event on a link. The states reachable from the start satisfy the
  invariant of the server.
\<close>

section \<open>Steps of the server\<close>

inductive serv_step :: "wiring \<Rightarrow> server \<Rightarrow> server \<Rightarrow> bool" for wr :: wiring where
  accepts: "cn_user (sv_heap s c) = None \<Longrightarrow> serv_step wr s (accept_conn c host s)"
| reads: "read_line wr c l s = Some s' \<Longrightarrow> serv_step wr s s'"
| writes: "serv_step wr s (fst (write_message c s))"
| pings: "serv_step wr s (ping_tick c s)"
| stops: "serv_step wr s (cancel c ''server shutting down'' s)"
| closes: "serv_step wr s (close_conn c s)"
| ticks: "sv_now s \<le> t \<Longrightarrow> serv_step wr s (s\<lparr>sv_now := t\<rparr>)"
| enforces: "serv_step wr s (enforce_guest_rename nick s)"
| retains: "serv_step wr s (memoserv_retention s)"
| bot_enters: "serv_step wr s (fst (bot_join b name s))"
| bot_leaves: "serv_step wr s (fst (bot_part b name reason s))"
| bot_speaks: "serv_step wr s (fst (bot_privmsg b target words s))"
| bot_notices: "serv_step wr s (fst (bot_notice b target words s))"
| kicks: "serv_step wr s (fst (kick_user nick reason s))"
| sets_topic: "serv_step wr s (fst (set_channel_topic name new by s))"

inductive_cases serv_stepE: "serv_step wr s s'"

inductive_simps serv_step_simps: "serv_step wr s s'"

lemma wf_unregister_link: "wf_server s \<Longrightarrow> wf_server (unregister_link p s)"
  by (simp add: wf_server_def conns_ok_def unregister_link_def user_of_def)

lemma wf_bot_speech: "wf_server s \<Longrightarrow> wf_server (fst (bot_privmsg b t x s))" "wf_server s \<Longrightarrow> wf_server (fst (bot_notice b t x s))"
  by (simp_all add: bot_privmsg_def bot_notice_def wf_bot_deliver)

lemma wf_serv_step: "serv_step wr s s' \<Longrightarrow> wf_server s \<Longrightarrow> wf_server s'"
proof (induction rule: serv_step.induct)
  case (reads c l s s')
  then show ?case using wf_read_line by blast
next
  case (accepts s c host)
  then show ?case by (simp add: wf_accept_conn)
qed (simp_all add: wf_write_message quiet_wf [OF quiet_ping_tick] quiet_wf [OF quiet_cancel] wf_close_conn wf_enforce_guest_rename
    wf_memoserv_retention wf_bot_join wf_bot_part wf_bot_speech wf_kick_user wf_set_channel_topic)

section \<open>Steps of the daemon\<close>

record system =
  sy_server :: server
  sy_links :: "nat \<Rightarrow> server link option"

definition put_link :: "nat \<Rightarrow> server link \<times> server \<Rightarrow> system \<Rightarrow> system" where
  "put_link i lh y = y\<lparr>sy_server := snd lh, sy_links := (sy_links y)(i := Some (fst lh))\<rparr>"

text \<open>
  The sender the server registered under a peer's name is the link itself: what the server sends to the peer is
  taken from the peer's mailbox and given to \<^verbatim>\<open>Send\<close>.
\<close>

definition pump :: "string \<Rightarrow> message \<Rightarrow> message list \<Rightarrow> server link \<Rightarrow> server \<Rightarrow> server link \<times> server" where
  "pump peer m q l s = send_link m (l, s\<lparr>sv_links := mput peer q (sv_links s)\<rparr>)"

inductive sys_step :: "wiring \<Rightarrow> system \<Rightarrow> system \<Rightarrow> bool" for wr :: wiring where
  server: "serv_step wr (sy_server y) s' \<Longrightarrow> sys_step wr y (y\<lparr>sy_server := s'\<rparr>)"
| connect: "sy_links y i = None \<Longrightarrow>
    open_link (new_link server_host (run_link_config peer pwIn pwOut desc) (sy_server y), sy_server y) = Some lh \<Longrightarrow>
    sys_step wr y (put_link i lh y)"
| event: "sy_links y i = Some l \<Longrightarrow> sys_step wr y (put_link i (link_step server_host t e (l, sy_server y)) y)"
| send: "sy_links y i = Some l \<Longrightarrow> map_of (sv_links (sy_server y)) (lc_PeerName (lk_cfg l)) = Some (m # q) \<Longrightarrow>
    sys_step wr y (put_link i (pump (lc_PeerName (lk_cfg l)) m q l (sy_server y)) y)"

definition initial :: "config \<Rightarrow> case_mapping \<Rightarrow> time \<Rightarrow> string option \<Rightarrow> store option \<Rightarrow> audit_event list option \<Rightarrow> (nat \<Rightarrow> nat) \<Rightarrow> system" where
  "initial cfg cm now motd st bus rnd =
     \<lparr>sy_server = server_start (new_server cfg (new_world cm) now motd st bus rnd), sy_links = (\<lambda>_. None)\<rparr>"

inductive reachable :: "wiring \<Rightarrow> system \<Rightarrow> bool" for wr :: wiring where
  start: "reachable wr (initial cfg cm now motd st bus rnd)"
| step: "reachable wr y \<Longrightarrow> sys_step wr y y' \<Longrightarrow> reachable wr y'"

definition sys_ok :: "system \<Rightarrow> bool" where
  "sys_ok y = (wf_server (sy_server y) \<and> (\<forall>i l. sy_links y i = Some l \<longrightarrow> sound_link wf_server (l, sy_server y)))"

lemma sound_link_host: "sound_link ok (l, h) \<Longrightarrow> ok h' \<Longrightarrow> sound_link ok (l, h')"
  by (simp add: sound_link_def)

lemma sys_ok_put:
  assumes "sys_ok y" "sound_link wf_server lh"
  shows "sys_ok (put_link i lh y)"
proof -
  have "wf_server (snd lh)" using assms(2) by (simp add: sound_link_def)
  then show ?thesis using assms by (auto simp: sys_ok_def put_link_def intro: sound_link_host [where h = "sy_server y"])
qed

lemma sound_new:
  assumes "wf_server s"
  shows "sound_link wf_server (new_link server_host (run_link_config peer pwIn pwOut desc) s, s)"
proof -
  have "wf_server (register_link peer h)" "wf_server (handle_squit_loss peer ''Net split'' (unregister_link peer h))" if "wf_server h" for h
    using that by (simp_all add: wf_register_link wf_squit_loss wf_unregister_link)
  then show ?thesis using assms by (simp add: sound_link_def new_link_def run_link_config_def call_back_def)
qed

lemma sys_ok_step: "sys_step wr y y' \<Longrightarrow> sys_ok y \<Longrightarrow> sys_ok y'"
proof (induction rule: sys_step.induct)
  case (server y s')
  then have "wf_server s'" using wf_serv_step by (auto simp: sys_ok_def)
  then show ?case using server.prems by (auto simp: sys_ok_def intro: sound_link_host [where h = "sy_server y"])
next
  case (connect y i peer pwIn pwOut desc lh)
  then have "sound_link wf_server (new_link server_host (run_link_config peer pwIn pwOut desc) (sy_server y), sy_server y)"
    by (intro sound_new) (simp add: sys_ok_def)
  then have "sound_link wf_server lh"
    using connect.hyps(2) by (auto simp: open_link_def Let_def fed.good_send split: if_splits)
  then show ?case by (rule sys_ok_put [OF connect.prems])
next
  case (event y i l t e)
  then have "sound_link wf_server (l, sy_server y)" by (simp add: sys_ok_def)
  then show ?case by (intro sys_ok_put event.prems fed.good_step)
next
  case (send y i l m q)
  then have s: "sound_link wf_server (l, sy_server y)" "wf_server (sy_server y)" by (simp_all add: sys_ok_def)
  have "wf_server ((sy_server y)\<lparr>sv_links := mput (lc_PeerName (lk_cfg l)) q (sv_links (sy_server y))\<rparr>)"
    using s(2) by (simp add: wf_server_def conns_ok_def user_of_def)
  then have "sound_link wf_server (pump (lc_PeerName (lk_cfg l)) m q l (sy_server y))"
    unfolding pump_def by (intro fed.good_send sound_link_host [OF s(1)])
  then show ?case by (rule sys_ok_put [OF send.prems])
qed

lemma reachable_ok: "reachable wr y \<Longrightarrow> sys_ok y"
proof (induction rule: reachable.induct)
  case start
  then show ?case by (simp add: initial_def sys_ok_def wf_server_start wf_new_server wf_new_world)
next
  case step
  then show ?case using sys_ok_step by blast
qed



end
