(* ===== verification/Yaml.thy ===== *)
theory Yaml
  imports Prelude
begin

text \<open>
  The YAML subset of the configuration, \<^verbatim>\<open>internal/config/yaml_parser.go\<close>. The parser's line list and position
  are the list of the lines still to read. The mutual recursion runs on fuel, and three times the number of
  lines is enough. \<^verbatim>\<open>strconv.ParseFloat\<close> is the argument \<open>pf\<close>.
\<close>

section \<open>Values, lines, errors\<close>

datatype 'f yaml = YNull | YBool bool | YInt int | YFloat 'f | YString string | YMap "(string \<times> 'f yaml) list" | YList "'f yaml list"

record yaml_line =
  yl_num :: nat
  yl_indent :: int
  yl_body :: string

datatype yaml_error = MultiDocument nat | ExpectedIndent nat int int | TabIndentation nat | UnexpectedIndent nat int int
  | SequenceItemInMapping nat | ExpectedEntry nat string | DuplicateKey nat string | UnterminatedQuote string

definition blank :: "char \<Rightarrow> bool" where
  "blank c = (c = CHR '' '' \<or> c = CHR 0x09)"

definition trim_blank_left :: "string \<Rightarrow> string" where
  "trim_blank_left s = dropWhile blank s"

definition trim_blank_right :: "string \<Rightarrow> string" where
  "trim_blank_right s = rev (dropWhile blank (rev s))"

section \<open>Lines\<close>

text \<open>\<open>prev\<close> is the byte before; \<open>sq\<close> and \<open>dq\<close> say whether it is inside quotes.\<close>

fun strip_comment_loop :: "char option \<Rightarrow> bool \<Rightarrow> bool \<Rightarrow> string \<Rightarrow> string" where
  "strip_comment_loop prev sq dq [] = []"
| "strip_comment_loop prev sq dq [c] =
     (if c = CHR ''#'' \<and> \<not> sq \<and> \<not> dq \<and> (case prev of None \<Rightarrow> True | Some p \<Rightarrow> blank p) then [] else [c])"
| "strip_comment_loop prev sq dq (c # c2 # cs) =
     (if c = CHR 0x5C \<and> dq then c # c2 # strip_comment_loop (Some c2) sq dq cs
      else if c = CHR 0x27 \<and> \<not> dq then c # strip_comment_loop (Some c) (\<not> sq) dq (c2 # cs)
      else if c = CHR 0x22 \<and> \<not> sq then c # strip_comment_loop (Some c) sq (\<not> dq) (c2 # cs)
      else if c = CHR ''#'' \<and> \<not> sq \<and> \<not> dq \<and> (case prev of None \<Rightarrow> True | Some p \<Rightarrow> blank p) then []
      else c # strip_comment_loop (Some c) sq dq (c2 # cs))"

definition strip_comment :: "string \<Rightarrow> string" where
  "strip_comment s = strip_comment_loop None False False s"

definition split_indent :: "string \<Rightarrow> (int \<times> string) option" where
  "split_indent s =
     (let rest = dropWhile (\<lambda>c. c = CHR '' '') s in
      if rest \<noteq> [] \<and> hd rest = CHR 0x09 then None
      else Some (int (length s - length rest), trim_blank_right rest))"

definition read_yaml_line :: "nat \<Rightarrow> string \<Rightarrow> yaml_line option" where
  "read_yaml_line num raw =
     (let s = trim_right CHR 0x0D raw; stripped = strip_comment s in
      if trim_space stripped = [] then None
      else case split_indent stripped of
        None \<Rightarrow> Some \<lparr>yl_num = num, yl_indent = - 1, yl_body = s\<rparr>
      | Some (indent, body) \<Rightarrow> Some \<lparr>yl_num = num, yl_indent = indent, yl_body = body\<rparr>)"

definition yaml_lines :: "string \<Rightarrow> yaml_line list" where
  "yaml_lines data = List.map_filter (\<lambda>(i, s). read_yaml_line (i + 1) s) (List.enumerate 0 (split_on CHR 0x0A data))"

section \<open>Scalars\<close>

fun unescape_dq :: "string \<Rightarrow> string" where
  "unescape_dq [] = []"
| "unescape_dq [c] = [c]"
| "unescape_dq (c # c2 # cs) =
     (if c \<noteq> CHR 0x5C then c # unescape_dq (c2 # cs)
      else (if c2 = CHR ''n'' then CHR 0x0A else if c2 = CHR ''t'' then CHR 0x09 else if c2 = CHR ''r'' then CHR 0x0D else c2)
        # unescape_dq cs)"

text \<open>\<^verbatim>\<open>strings.ReplaceAll\<close> of two single quotes by one.\<close>

fun single_quotes :: "string \<Rightarrow> string" where
  "single_quotes [] = []"
| "single_quotes [c] = [c]"
| "single_quotes (c # c2 # cs) =
     (if c = CHR 0x27 \<and> c2 = CHR 0x27 then c # single_quotes cs else c # single_quotes (c2 # cs))"

definition unquote :: "string \<Rightarrow> string" where
  "unquote s =
     (if length s < 2 \<or> last s \<noteq> hd s \<or> (hd s \<noteq> CHR 0x27 \<and> hd s \<noteq> CHR 0x22) then s
      else if hd s = CHR 0x27 then single_quotes (butlast (tl s))
      else unescape_dq (butlast (tl s)))"

definition parse_scalar :: "(string \<Rightarrow> 'f option) \<Rightarrow> string \<Rightarrow> 'f yaml" where
  "parse_scalar pf s =
     (if length s \<ge> 2 \<and> (hd s = CHR 0x22 \<or> hd s = CHR 0x27) \<and> last s = hd s then YString (unquote s)
      else
        let low = to_lower s in
        if low \<in> set [''null'', ''~''] then YNull
        else if low \<in> set [''true'', ''yes'', ''on''] then YBool True
        else if low \<in> set [''false'', ''no'', ''off''] then YBool False
        else case parse_int s of
          Some i \<Rightarrow> YInt i
        | None \<Rightarrow> (case pf s of Some f \<Rightarrow> YFloat f | None \<Rightarrow> YString s))"

text \<open>The tokens of a flow sequence, the last one unfinished, and whether a quote is open at the end.\<close>

fun flow_tokens :: "bool \<Rightarrow> bool \<Rightarrow> string \<Rightarrow> string \<Rightarrow> string list \<times> bool" where
  "flow_tokens sq dq cur [] = ([cur], sq \<or> dq)"
| "flow_tokens sq dq cur [c] =
     (if c = CHR 0x22 \<and> \<not> sq then ([cur @ [c]], sq \<or> \<not> dq)
      else if c = CHR 0x27 \<and> \<not> dq then ([cur @ [c]], \<not> sq \<or> dq)
      else if c = CHR '','' \<and> \<not> dq \<and> \<not> sq then ([cur, []], False)
      else ([cur @ [c]], sq \<or> dq))"
| "flow_tokens sq dq cur (c # c2 # cs) =
     (if c = CHR 0x5C \<and> dq then flow_tokens sq dq (cur @ [c, c2]) cs
      else if c = CHR 0x22 \<and> \<not> sq then flow_tokens sq (\<not> dq) (cur @ [c]) (c2 # cs)
      else if c = CHR 0x27 \<and> \<not> dq then flow_tokens (\<not> sq) dq (cur @ [c]) (c2 # cs)
      else if c = CHR '','' \<and> \<not> dq \<and> \<not> sq then
        (case flow_tokens sq dq [] (c2 # cs) of (toks, op) \<Rightarrow> (cur # toks, op))
      else flow_tokens sq dq (cur @ [c]) (c2 # cs))"

definition parse_flow_sequence :: "(string \<Rightarrow> 'f option) \<Rightarrow> string \<Rightarrow> yaml_error + 'f yaml" where
  "parse_flow_sequence pf raw =
     (let body = trim_space raw in
      if body = [] then Inr (YList [])
      else case flow_tokens False False [] body of
        (toks, True) \<Rightarrow> Inl (UnterminatedQuote body)
      | (toks, False) \<Rightarrow> Inr (YList (map (parse_scalar pf) (filter (\<lambda>t. t \<noteq> []) (map trim_space toks)))))"

section \<open>Keys\<close>

text \<open>The text up to the closing quote, and what follows.\<close>

fun scan_quote :: "char \<Rightarrow> string \<Rightarrow> string \<Rightarrow> (string \<times> string) option" where
  "scan_quote q acc [] = None"
| "scan_quote q acc [c] = (if c = q then Some (acc @ [c], []) else None)"
| "scan_quote q acc (c # c2 # cs) =
     (if c = CHR 0x5C \<and> q = CHR 0x22 then scan_quote q (acc @ [c, c2]) cs
      else if c = q then Some (acc @ [c], c2 # cs)
      else scan_quote q (acc @ [c]) (c2 # cs))"

fun split_colon :: "string \<Rightarrow> string \<Rightarrow> (string \<times> string) option" where
  "split_colon acc [] = None"
| "split_colon acc (c # cs) =
     (if c = CHR '':'' \<and> (cs = [] \<or> blank (hd cs)) then
        (let key = trim_blank_right acc in if key = [] then None else Some (key, trim_blank_left cs))
      else split_colon (acc @ [c]) cs)"

definition try_mapping_key :: "string \<Rightarrow> (string \<times> string) option" where
  "try_mapping_key s =
     (if s \<noteq> [] \<and> (hd s = CHR 0x22 \<or> hd s = CHR 0x27) then
        (case scan_quote (hd s) [hd s] (tl s) of
           Some (quoted, c # rest) \<Rightarrow> if c = CHR '':'' then Some (unquote quoted, trim_blank_left rest) else None
         | _ \<Rightarrow> None)
      else split_colon [] s)"

section \<open>Blocks\<close>

definition is_item :: "yaml_line \<Rightarrow> bool" where
  "is_item l = (has_prefix ''- '' (yl_body l) \<or> yl_body l = ''-'')"

definition item_rest :: "yaml_line \<Rightarrow> string" where
  "item_rest l = (if yl_body l = ''-'' then [] else trim_left CHR '' '' (tl (yl_body l)))"

type_synonym 'f yaml_result = "(yaml_error + 'f yaml \<times> yaml_line list) option"

text \<open>The next step with the value just read, unless it failed.\<close>

definition and_then :: "'f yaml_result \<Rightarrow> ('f yaml \<Rightarrow> yaml_line list \<Rightarrow> 'f yaml_result) \<Rightarrow> 'f yaml_result" where
  "and_then r k =
     (case r of
        None \<Rightarrow> None
      | Some (Inl e) \<Rightarrow> Some (Inl e)
      | Some (Inr (v, ls)) \<Rightarrow> k v ls)"

text \<open>
  The parsers of a block take the parser of the blocks nested in it as \<open>blk\<close>. A mapping, a sequence and the
  further keys of a sequence item are loops over the lines, on fuel; \<open>parse_block\<close> gives them one more than the
  number of lines, and its own fuel bounds the depth of the nesting.
\<close>

type_synonym 'f block_parser = "int \<Rightarrow> yaml_line list \<Rightarrow> 'f yaml_result"

definition parse_nested_block :: "'f block_parser \<Rightarrow> int \<Rightarrow> yaml_line list \<Rightarrow> 'f yaml_result" where
  "parse_nested_block blk indent ls =
     (case ls of
        [] \<Rightarrow> Some (Inr (YNull, ls))
      | l # _ \<Rightarrow> if yl_indent l \<le> indent then Some (Inr (YNull, ls)) else blk (yl_indent l) ls)"

definition parse_value :: "(string \<Rightarrow> 'f option) \<Rightarrow> 'f block_parser \<Rightarrow> int \<Rightarrow> string \<Rightarrow> yaml_line list \<Rightarrow> 'f yaml_result" where
  "parse_value pf blk indent v ls =
     (if v = [] then parse_nested_block blk indent ls
      else if v = ''{}'' then Some (Inr (YMap [], ls))
      else if v = ''[]'' then Some (Inr (YList [], ls))
      else if length v \<ge> 2 \<and> hd v = CHR ''['' \<and> last v = CHR '']'' then
        (case parse_flow_sequence pf (butlast (tl v)) of Inl e \<Rightarrow> Some (Inl e) | Inr x \<Rightarrow> Some (Inr (x, ls)))
      else Some (Inr (parse_scalar pf v, ls)))"

primrec parse_mapping :: "(string \<Rightarrow> 'f option) \<Rightarrow> 'f block_parser \<Rightarrow> nat \<Rightarrow> int \<Rightarrow> (string \<times> 'f yaml) list \<Rightarrow> yaml_line list \<Rightarrow> 'f yaml_result" where
  "parse_mapping pf blk 0 indent out ls = None"
| "parse_mapping pf blk (Suc n) indent out ls =
     (case ls of
        [] \<Rightarrow> Some (Inr (YMap out, []))
      | l # rest \<Rightarrow>
          if yl_indent l = - 1 then Some (Inl (TabIndentation (yl_num l)))
          else if yl_indent l < indent then Some (Inr (YMap out, ls))
          else if yl_indent l > indent then Some (Inl (UnexpectedIndent (yl_num l) (yl_indent l) indent))
          else if is_item l then Some (Inl (SequenceItemInMapping (yl_num l)))
          else case try_mapping_key (yl_body l) of
            None \<Rightarrow> Some (Inl (ExpectedEntry (yl_num l) (yl_body l)))
          | Some (key, v) \<Rightarrow>
              and_then (parse_value pf blk indent v rest) (\<lambda>x rest'.
                if key \<in> set (map fst out) then Some (Inl (DuplicateKey (yl_num l) key))
                else parse_mapping pf blk n indent (out @ [(key, x)]) rest'))"

primrec parse_entries :: "(string \<Rightarrow> 'f option) \<Rightarrow> 'f block_parser \<Rightarrow> nat \<Rightarrow> int \<Rightarrow> (string \<times> 'f yaml) list \<Rightarrow> yaml_line list \<Rightarrow> 'f yaml_result" where
  "parse_entries pf blk 0 child out ls = None"
| "parse_entries pf blk (Suc n) child out ls =
     (case ls of
        [] \<Rightarrow> Some (Inr (YMap out, []))
      | l # rest \<Rightarrow>
          if yl_indent l \<noteq> child \<or> has_prefix ''- '' (yl_body l) then Some (Inr (YMap out, ls))
          else case try_mapping_key (yl_body l) of
            None \<Rightarrow> Some (Inl (ExpectedEntry (yl_num l) (yl_body l)))
          | Some (key, v) \<Rightarrow>
              and_then (parse_value pf blk child v rest) (\<lambda>x rest'.
                if key \<in> set (map fst out) then Some (Inl (DuplicateKey (yl_num l) key))
                else parse_entries pf blk n child (out @ [(key, x)]) rest'))"

text \<open>The value of one item, whose text after the dash is \<open>r\<close>.\<close>

definition parse_item :: "(string \<Rightarrow> 'f option) \<Rightarrow> 'f block_parser \<Rightarrow> nat \<Rightarrow> int \<Rightarrow> string \<Rightarrow> yaml_line list \<Rightarrow> 'f yaml_result" where
  "parse_item pf blk n indent r rest =
     (if r = [] then parse_nested_block blk indent rest
      else case try_mapping_key r of
        Some (key, v) \<Rightarrow>
          and_then (parse_value pf blk (indent + 2) v rest) (\<lambda>x rest'. parse_entries pf blk n (indent + 2) [(key, x)] rest')
      | None \<Rightarrow> Some (Inr (parse_scalar pf r, rest)))"

primrec parse_sequence :: "(string \<Rightarrow> 'f option) \<Rightarrow> 'f block_parser \<Rightarrow> nat \<Rightarrow> int \<Rightarrow> 'f yaml list \<Rightarrow> yaml_line list \<Rightarrow> 'f yaml_result" where
  "parse_sequence pf blk 0 indent out ls = None"
| "parse_sequence pf blk (Suc n) indent out ls =
     (case ls of
        [] \<Rightarrow> Some (Inr (YList out, []))
      | l # rest \<Rightarrow>
          if yl_indent l = - 1 then Some (Inl (TabIndentation (yl_num l)))
          else if yl_indent l < indent then Some (Inr (YList out, ls))
          else if yl_indent l \<noteq> indent then Some (Inl (UnexpectedIndent (yl_num l) (yl_indent l) indent))
          else if \<not> is_item l then Some (Inr (YList out, ls))
          else and_then (parse_item pf blk n indent (item_rest l) rest) (\<lambda>x rest'. parse_sequence pf blk n indent (out @ [x]) rest'))"

primrec parse_block :: "(string \<Rightarrow> 'f option) \<Rightarrow> nat \<Rightarrow> 'f block_parser" where
  "parse_block pf 0 = (\<lambda>indent ls. None)"
| "parse_block pf (Suc n) = (\<lambda>indent ls.
     case ls of
       [] \<Rightarrow> Some (Inr (YNull, []))
     | l # _ \<Rightarrow>
         if yl_indent l \<noteq> indent then Some (Inl (ExpectedIndent (yl_num l) indent (yl_indent l)))
         else if is_item l then parse_sequence pf (parse_block pf n) (Suc (length ls)) indent [] ls
         else parse_mapping pf (parse_block pf n) (Suc (length ls)) indent [] ls)"

text \<open>What is left of the lines after the first block is never looked at.\<close>

definition parse_document :: "(string \<Rightarrow> 'f option) \<Rightarrow> nat \<Rightarrow> yaml_line list \<Rightarrow> (yaml_error + 'f yaml) option" where
  "parse_document pf n ls =
     (let body = (case ls of [] \<Rightarrow> [] | l # rest \<Rightarrow> if yl_body l = ''---'' then rest else ls) in
      case body of
        [] \<Rightarrow> Some (Inr YNull)
      | l # _ \<Rightarrow>
          if yl_body l = ''---'' then Some (Inl (MultiDocument (yl_num l)))
          else map_option (map_sum (\<lambda>e. e) fst) (parse_block pf n (yl_indent l) body))"

definition parse_yaml :: "(string \<Rightarrow> 'f option) \<Rightarrow> string \<Rightarrow> (yaml_error + 'f yaml) option" where
  "parse_yaml pf data = (let ls = yaml_lines data in parse_document pf (Suc (length ls)) ls)"

section \<open>Enough fuel\<close>

text \<open>A result that is there and leaves no more lines than it got.\<close>

definition finishes :: "yaml_line list \<Rightarrow> 'f yaml_result \<Rightarrow> bool" where
  "finishes ls r = (case r of None \<Rightarrow> False | Some (Inl _) \<Rightarrow> True | Some (Inr (_, ls')) \<Rightarrow> length ls' \<le> length ls)"

lemma finishes_simps [simp]:
  "finishes ls (Some (Inl e))" "finishes ls (Some (Inr (v, ls'))) \<longleftrightarrow> length ls' \<le> length ls" "\<not> finishes ls None"
  by (simp_all add: finishes_def)

lemma finishes_Some: "finishes ls r \<Longrightarrow> \<exists>z. r = Some z"
  by (simp add: finishes_def split: option.splits)

lemma finishes_and_then:
  assumes "finishes ls r" "\<And>v ls'. length ls' \<le> length ls \<Longrightarrow> finishes ls (k v ls')"
  shows "finishes ls (and_then r k)"
proof (cases r)
  case (Some x)
  then show ?thesis using assms by (cases x) (auto simp: and_then_def)
qed (use assms in simp)

lemma finishes_longer: "finishes ls r \<Longrightarrow> length ls \<le> length ls2 \<Longrightarrow> finishes ls2 r"
  by (auto simp: finishes_def split: option.splits sum.splits)

text \<open>A block parser that finishes on fewer than \<open>m\<close> lines.\<close>

definition finishes_below :: "nat \<Rightarrow> 'f block_parser \<Rightarrow> bool" where
  "finishes_below m blk = (\<forall>i ls. length ls < m \<longrightarrow> finishes ls (blk i ls))"

lemma nested_finishes:
  assumes "finishes_below m blk" "length ls < m"
  shows "finishes ls (parse_nested_block blk indent ls)" "finishes ls (parse_value pf blk indent v ls)"
  using assms by (auto simp: finishes_below_def parse_nested_block_def parse_value_def split: list.split sum.split)

lemma entries_finishes:
  assumes "finishes_below m blk" "length ls < n" "length ls \<le> m"
  shows "finishes ls (parse_entries pf blk n child out ls)"
  using assms(2,3)
proof (induction n arbitrary: out ls)
  case (Suc n)
  show ?case
  proof (cases ls)
    case (Cons l rest)
    have "finishes rest (and_then (parse_value pf blk child v rest) (\<lambda>x rest'.
        if key \<in> set (map fst out) then Some (Inl (DuplicateKey (yl_num l) key)) else parse_entries pf blk n child (out @ [(key, x)]) rest'))" for v key
      by (rule finishes_and_then [OF nested_finishes(2) [OF assms(1)]])
        (use Suc.prems Cons in \<open>auto intro: finishes_longer [OF Suc.IH]\<close>)
    then have "finishes ls (and_then (parse_value pf blk child v rest) (\<lambda>x rest'.
        if key \<in> set (map fst out) then Some (Inl (DuplicateKey (yl_num l) key)) else parse_entries pf blk n child (out @ [(key, x)]) rest'))" for v key
      by (rule finishes_longer) (simp add: Cons)
    then show ?thesis by (simp add: Cons split: option.split)
  qed simp
qed simp

lemma mapping_finishes:
  assumes "finishes_below m blk" "length ls < n" "length ls \<le> m"
  shows "finishes ls (parse_mapping pf blk n indent out ls)"
  using assms(2,3)
proof (induction n arbitrary: out ls)
  case (Suc n)
  show ?case
  proof (cases ls)
    case (Cons l rest)
    have "finishes rest (and_then (parse_value pf blk indent v rest) (\<lambda>x rest'.
        if key \<in> set (map fst out) then Some (Inl (DuplicateKey (yl_num l) key)) else parse_mapping pf blk n indent (out @ [(key, x)]) rest'))" for v key
      by (rule finishes_and_then [OF nested_finishes(2) [OF assms(1)]])
        (use Suc.prems Cons in \<open>auto intro: finishes_longer [OF Suc.IH]\<close>)
    then have "finishes ls (and_then (parse_value pf blk indent v rest) (\<lambda>x rest'.
        if key \<in> set (map fst out) then Some (Inl (DuplicateKey (yl_num l) key)) else parse_mapping pf blk n indent (out @ [(key, x)]) rest'))" for v key
      by (rule finishes_longer) (simp add: Cons)
    then show ?thesis by (simp add: Cons split: option.split)
  qed simp
qed simp

lemma item_finishes:
  assumes "finishes_below m blk" "length ls < n" "length ls < m"
  shows "finishes ls (parse_item pf blk n indent r ls)"
proof -
  have "finishes ls (and_then (parse_value pf blk (indent + 2) v ls) (\<lambda>x rest'. parse_entries pf blk n (indent + 2) [(key, x)] rest'))" for key v
    by (rule finishes_and_then [OF nested_finishes(2) [OF assms(1,3)] finishes_longer [OF entries_finishes [OF assms(1)]]])
      (use assms in simp_all)
  with nested_finishes(1) [OF assms(1,3)] show ?thesis
    by (simp add: parse_item_def split: option.split)
qed

lemma sequence_finishes:
  assumes "finishes_below m blk" "length ls < n" "length ls \<le> m"
  shows "finishes ls (parse_sequence pf blk n indent out ls)"
  using assms(2,3)
proof (induction n arbitrary: out ls)
  case (Suc n)
  show ?case
  proof (cases ls)
    case (Cons l rest)
    have "finishes rest (and_then (parse_item pf blk n indent (item_rest l) rest) (\<lambda>x rest'. parse_sequence pf blk n indent (out @ [x]) rest'))"
      by (rule finishes_and_then [OF item_finishes [OF assms(1)]])
        (use Suc.prems Cons in \<open>auto intro: finishes_longer [OF Suc.IH]\<close>)
    then have "finishes ls (and_then (parse_item pf blk n indent (item_rest l) rest) (\<lambda>x rest'. parse_sequence pf blk n indent (out @ [x]) rest'))"
      by (rule finishes_longer) (simp add: Cons)
    then show ?thesis by (simp add: Cons)
  qed simp
qed simp

lemma block_finishes: "length ls < n \<Longrightarrow> finishes ls (parse_block pf n indent ls)"
proof (induction n arbitrary: indent ls)
  case (Suc n)
  have m: "finishes_below n (parse_block pf n)" using Suc.IH by (simp add: finishes_below_def)
  have l: "length ls < Suc (length ls)" "length ls \<le> n" using Suc.prems by simp_all
  show ?case
    using sequence_finishes [OF m l, where out = "[]" and indent = indent and pf = pf]
      mapping_finishes [OF m l, where out = "[]" and indent = indent and pf = pf]
    by (auto simp del: parse_sequence.simps parse_mapping.simps split: list.split)
qed simp

text \<open>More fuel changes nothing.\<close>

definition agree_below :: "nat \<Rightarrow> 'f block_parser \<Rightarrow> 'f block_parser \<Rightarrow> bool" where
  "agree_below m b b' = (\<forall>i ls. length ls < m \<longrightarrow> b i ls = b' i ls)"

lemma and_then_cong:
  assumes "finishes ls r" "\<And>v ls'. length ls' \<le> length ls \<Longrightarrow> k v ls' = k' v ls'"
  shows "and_then r k = and_then r k'"
proof (cases r)
  case (Some x)
  then show ?thesis using assms by (cases x) (auto simp: and_then_def)
qed (use assms in simp)

lemma nested_agree:
  assumes "agree_below m b b'" "length ls < m"
  shows "parse_nested_block b indent ls = parse_nested_block b' indent ls" "parse_value pf b indent v ls = parse_value pf b' indent v ls"
  using assms by (auto simp: agree_below_def parse_nested_block_def parse_value_def split: list.split)

lemma entries_agree:
  assumes fin: "finishes_below m b" and agree: "agree_below m b b'"
  shows "length ls \<le> m \<Longrightarrow> parse_entries pf b n child out ls = parse_entries pf b' n child out ls"
proof (induction n arbitrary: out ls)
  case (Suc n)
  show ?case
  proof (cases ls)
    case (Cons l rest)
    have less: "length rest < m" using Suc.prems Cons by simp
    have step: "and_then (parse_value pf b child v rest) (\<lambda>x rest'. if c then e else parse_entries pf b n child (q x) rest') =
        and_then (parse_value pf b' child v rest) (\<lambda>x rest'. if c then e else parse_entries pf b' n child (q x) rest')" for v c e q
      unfolding nested_agree(2) [OF agree less, symmetric]
      by (rule and_then_cong [OF nested_finishes(2) [OF fin less]]) (use less in \<open>auto intro: Suc.IH\<close>)
    show ?thesis by (simp add: Cons step split: option.split)
  qed simp
qed simp

lemma mapping_agree:
  assumes fin: "finishes_below m b" and agree: "agree_below m b b'"
  shows "length ls \<le> m \<Longrightarrow> parse_mapping pf b n indent out ls = parse_mapping pf b' n indent out ls"
proof (induction n arbitrary: out ls)
  case (Suc n)
  show ?case
  proof (cases ls)
    case (Cons l rest)
    have less: "length rest < m" using Suc.prems Cons by simp
    have step: "and_then (parse_value pf b indent v rest) (\<lambda>x rest'. if c then e else parse_mapping pf b n indent (q x) rest') =
        and_then (parse_value pf b' indent v rest) (\<lambda>x rest'. if c then e else parse_mapping pf b' n indent (q x) rest')" for v c e q
      unfolding nested_agree(2) [OF agree less, symmetric]
      by (rule and_then_cong [OF nested_finishes(2) [OF fin less]]) (use less in \<open>auto intro: Suc.IH\<close>)
    show ?thesis by (simp add: Cons step split: option.split)
  qed simp
qed simp

lemma item_agree:
  assumes fin: "finishes_below m b" and agree: "agree_below m b b'" and less: "length ls < m"
  shows "parse_item pf b n indent r ls = parse_item pf b' n indent r ls"
proof -
  have "and_then (parse_value pf b (indent + 2) v ls) (\<lambda>x rest'. parse_entries pf b n (indent + 2) [(key, x)] rest') =
      and_then (parse_value pf b' (indent + 2) v ls) (\<lambda>x rest'. parse_entries pf b' n (indent + 2) [(key, x)] rest')" for key v
    unfolding nested_agree(2) [OF agree less, symmetric]
    by (rule and_then_cong [OF nested_finishes(2) [OF fin less]]) (use less in \<open>auto intro: entries_agree [OF fin agree]\<close>)
  then show ?thesis by (simp add: parse_item_def nested_agree(1) [OF agree less] split: option.split)
qed

lemma sequence_agree:
  assumes fin: "finishes_below m b" and agree: "agree_below m b b'"
  shows "length ls \<le> m \<Longrightarrow> length ls < n \<Longrightarrow> parse_sequence pf b n indent out ls = parse_sequence pf b' n indent out ls"
proof (induction n arbitrary: out ls)
  case (Suc n)
  show ?case
  proof (cases ls)
    case (Cons l rest)
    have less: "length rest < m" "length rest < n" using Suc.prems Cons by simp_all
    have "and_then (parse_item pf b n indent r rest) (\<lambda>x rest'. parse_sequence pf b n indent (out @ [x]) rest') =
        and_then (parse_item pf b' n indent r rest) (\<lambda>x rest'. parse_sequence pf b' n indent (out @ [x]) rest')" for r
      unfolding item_agree [OF fin agree less(1), symmetric]
      by (rule and_then_cong [OF item_finishes [OF fin less(2,1)]]) (use less in \<open>auto intro: Suc.IH\<close>)
    then show ?thesis by (simp add: Cons)
  qed simp
qed simp

lemma block_fuel: "length ls < n \<Longrightarrow> parse_block pf (n + k) indent ls = parse_block pf n indent ls"
proof (induction n arbitrary: indent ls)
  case (Suc n)
  have "finishes_below n (parse_block pf (n + k))" using block_finishes [of _ "n + k" pf] by (simp add: finishes_below_def)
  moreover have "agree_below n (parse_block pf (n + k)) (parse_block pf n)" using Suc.IH by (simp add: agree_below_def)
  ultimately have "parse_sequence pf (parse_block pf (n + k)) (Suc (length ls)) indent [] ls = parse_sequence pf (parse_block pf n) (Suc (length ls)) indent [] ls"
    "parse_mapping pf (parse_block pf (n + k)) (Suc (length ls)) indent [] ls = parse_mapping pf (parse_block pf n) (Suc (length ls)) indent [] ls"
    using Suc.prems by (simp_all only: sequence_agree [of n] mapping_agree [of n] less_Suc_eq_le le_refl)
  then show ?case by (auto simp del: parse_sequence.simps parse_mapping.simps split: list.split)
qed simp

text \<open>C32: On every input the parser of the configuration returns, a tree or an error, and the fuel of the model does not
  decide which: any larger amount gives the same answer.\<close>

lemma yaml_total:
  "parse_yaml pf data \<noteq> None \<and>
   parse_document pf (Suc (length (yaml_lines data)) + k) (yaml_lines data) = parse_yaml pf data"
proof -
  have fin: "parse_document pf (Suc (length ls) + j) ls \<noteq> None" and fuel: "parse_document pf (Suc (length ls) + k) ls = parse_document pf (Suc (length ls)) ls"
    for ls :: "yaml_line list" and j k
  proof -
    define body where "body = (case ls of [] \<Rightarrow> [] | l # rest \<Rightarrow> if yl_body l = ''---'' then rest else ls)"
    have len: "length body < Suc (length ls) + j" for j by (auto simp: body_def split: list.split)
    show "parse_document pf (Suc (length ls) + j) ls \<noteq> None"
      using block_finishes [OF len, of pf j "yl_indent (hd body)"]
      by (auto simp: parse_document_def Let_def simp flip: body_def simp del: parse_block.simps dest: finishes_Some split: list.split)
    show "parse_document pf (Suc (length ls) + k) ls = parse_document pf (Suc (length ls)) ls"
      using block_fuel [OF len [of 0], of pf k] by (simp add: parse_document_def Let_def flip: body_def del: parse_block.simps split: list.split)
  qed
  show ?thesis using fin [where j = 0] by (simp only: parse_yaml_def Let_def fuel) simp
qed

section \<open>Quoted values\<close>

text \<open>A value as a careful author of the file writes it: in double quotes, with the escapes the parser knows.\<close>

definition escape_char :: "char \<Rightarrow> string" where
  "escape_char c =
     (if c = CHR 0x22 \<or> c = CHR 0x5C then [CHR 0x5C, c]
      else if c = CHR 0x0A then [CHR 0x5C, CHR ''n'']
      else if c = CHR 0x0D then [CHR 0x5C, CHR ''r'']
      else if c = CHR 0x09 then [CHR 0x5C, CHR ''t''] else [c])"

definition double_quoted :: "string \<Rightarrow> string" where
  "double_quoted s = CHR 0x22 # concat (map escape_char s) @ [CHR 0x22]"

text \<open>The names of the settings.\<close>

definition setting_name :: "string \<Rightarrow> bool" where
  "setting_name k = (k \<noteq> [] \<and> list_all (\<lambda>c. is_lower c \<or> c = CHR ''_'') k)"

definition trailing_comment :: "string \<Rightarrow> bool" where
  "trailing_comment t = (t = [] \<or> has_prefix '' #'' t \<and> CHR 0x0A \<notin> set t)"

lemma escape_char_shape:
  obtains "escape_char c = [c]" "c \<noteq> CHR 0x22" "c \<noteq> CHR 0x5C"
  | d where "escape_char c = [CHR 0x5C, d]"
      "(if d = CHR ''n'' then CHR 0x0A else if d = CHR ''t'' then CHR 0x09 else if d = CHR ''r'' then CHR 0x0D else d) = c"
proof -
  consider "c \<in> set [CHR 0x22, CHR 0x5C]" | "c = CHR 0x0A" | "c = CHR 0x0D" | "c = CHR 0x09" | "c \<notin> set [CHR 0x22, CHR 0x5C, CHR 0x0A, CHR 0x0D, CHR 0x09]"
    by fastforce
  then show ?thesis using that by cases (auto simp: escape_char_def)
qed

lemma unescape_escape_char: "unescape_dq (escape_char c @ r) = c # unescape_dq r"
  by (cases c rule: escape_char_shape; cases r) auto

lemma unescape_escaped: "unescape_dq (concat (map escape_char s)) = s"
  by (induction s) (simp_all add: unescape_escape_char)

lemma parse_double_quoted: "parse_scalar pf (double_quoted s) = YString s"
  by (simp add: parse_scalar_def unquote_def double_quoted_def unescape_escaped)

lemma strip_escape_char:
  "r \<noteq> [] \<Longrightarrow> strip_comment_loop prev False True (escape_char c @ r) =
     escape_char c @ strip_comment_loop (Some (last (escape_char c))) False True r"
  by (cases c rule: escape_char_shape; cases r) auto

lemma strip_inside_quotes:
  "strip_comment_loop prev False True (concat (map escape_char s) @ CHR 0x22 # t) =
     concat (map escape_char s) @ CHR 0x22 # strip_comment_loop (Some CHR 0x22) False False t"
proof (induction s arbitrary: prev)
  case Nil
  then show ?case by (cases t) auto
qed (simp add: strip_escape_char)

lemma strip_key:
  "list_all (\<lambda>c. is_lower c \<or> c \<in> set ''_: '') k \<Longrightarrow>
   strip_comment_loop prev False False (k @ CHR 0x22 # t) = k @ CHR 0x22 # strip_comment_loop (Some CHR 0x22) False True t"
proof (induction k arbitrary: prev)
  case Nil
  then show ?case by (cases t) auto
next
  case (Cons c k)
  obtain d ds where rest: "k @ CHR 0x22 # t = d # ds" by (cases "k @ CHR 0x22 # t") auto
  have "c \<noteq> CHR ''#'' \<and> c \<noteq> CHR 0x22 \<and> c \<noteq> CHR 0x27" using Cons.prems by (auto simp: is_lower_def less_eq_char_def)
  with Cons show ?case by (simp add: rest)
qed

lemma strip_setting:
  assumes "setting_name k" "trailing_comment t"
  shows "\<exists>pad. set pad \<subseteq> {CHR '' ''} \<and> strip_comment (k @ '': '' @ double_quoted s @ t) = k @ '': '' @ double_quoted s @ pad"
proof -
  have key: "list_all (\<lambda>c. is_lower c \<or> c \<in> set ''_: '') (k @ '': '')"
    using assms(1) by (auto simp: setting_name_def list_all_iff)
  have "\<exists>pad. set pad \<subseteq> {CHR '' ''} \<and> strip_comment_loop (Some CHR 0x22) False False t = pad"
  proof (cases t)
    case (Cons c t')
    with assms(2) have "take 2 t = '' #''" by (simp add: trailing_comment_def has_prefix_def numeral_2_eq_2)
    then have "t = '' #'' @ drop 2 t" using append_take_drop_id [of 2 t] by simp
    then obtain u where "t = '' #'' @ u" ..
    then show ?thesis by (cases u) (auto simp: blank_def)
  qed simp
  with strip_key [OF key, of None "concat (map escape_char s) @ CHR 0x22 # t"] show ?thesis
    by (auto simp: strip_comment_def double_quoted_def strip_inside_quotes)
qed

lemma escape_char_line: "CHR 0x0A \<notin> set (escape_char c)"
  by (simp add: escape_char_def)

lemma trim_right_append: "x \<noteq> c \<Longrightarrow> trim_right c (p @ x # u) = p @ x # trim_right c u"
  by (simp add: trim_right_def dropWhile_append)

lemma trim_blank_right_append: "\<not> blank x \<Longrightarrow> set pad \<subseteq> {CHR '' ''} \<Longrightarrow> trim_blank_right (p @ x # pad) = p @ [x]"
proof -
  assume "\<not> blank x" "set pad \<subseteq> {CHR '' ''}"
  moreover from this(2) have "\<And>y. y \<in> set (rev pad) \<Longrightarrow> blank y" by (auto simp: blank_def)
  ultimately show ?thesis using dropWhile_append2 [of "rev pad" blank "x # rev p"] by (simp add: trim_blank_right_def)
qed

lemma setting_lines:
  assumes "setting_name k" "trailing_comment t"
  shows "yaml_lines (k @ '': '' @ double_quoted s @ t) = [\<lparr>yl_num = 1, yl_indent = 0, yl_body = k @ '': '' @ double_quoted s\<rparr>]"
proof -
  define line where "line = k @ '': '' @ double_quoted s @ t"
  obtain c cs where k: "k = c # cs" and c: "is_lower c \<or> c = CHR ''_''"
    using assms(1) by (cases k) (auto simp: setting_name_def)
  have c': "c \<noteq> CHR '' ''" "c \<noteq> CHR 0x09" "\<not> is_space c" using c by (auto simp: is_lower_def less_eq_char_def is_space_def)
  have nl: "CHR 0x0A \<notin> set line"
    using assms by (auto simp: line_def double_quoted_def escape_char_line setting_name_def list_all_iff trailing_comment_def is_lower_def less_eq_char_def)
  obtain t' where t': "trim_right CHR 0x0D line = k @ '': '' @ double_quoted s @ t'" "trailing_comment t'"
  proof (cases t)
    case Nil
    then show ?thesis using that [of "[]"] trim_right_append [of "CHR 0x22" "CHR 0x0D" "k @ '': '' @ CHR 0x22 # concat (map escape_char s)" "[]"]
      by (simp add: line_def double_quoted_def trailing_comment_def trim_right_def)
  next
    case (Cons d ds)
    then obtain u where u: "t = '' #'' @ u" "CHR 0x0A \<notin> set u"
      using assms(2) by (cases ds) (auto simp: trailing_comment_def has_prefix_def)
    have "set (trim_right CHR 0x0D u) \<subseteq> set u" by (auto simp: trim_right_def dest: set_dropWhileD)
    with u show ?thesis using that [of "'' #'' @ trim_right CHR 0x0D u"] trim_right_append [of "CHR ''#''" "CHR 0x0D" "k @ '': '' @ double_quoted s @ '' ''" u]
      by (auto simp: line_def trailing_comment_def has_prefix_def)
  qed
  obtain pad where pad: "set pad \<subseteq> {CHR '' ''}" "strip_comment (k @ '': '' @ double_quoted s @ t') = k @ '': '' @ double_quoted s @ pad"
    using strip_setting [OF assms(1) t'(2)] by blast
  have "trim_blank_right (k @ '': '' @ double_quoted s @ pad) = k @ '': '' @ double_quoted s"
    using trim_blank_right_append [OF _ pad(1), of "CHR 0x22" "k @ '': '' @ CHR 0x22 # concat (map escape_char s)"]
    by (simp add: double_quoted_def blank_def)
  moreover have "trim_space (k @ '': '' @ double_quoted s @ pad) \<noteq> []" using c' by (simp add: trim_space_def k)
  ultimately have "read_yaml_line 1 line = Some \<lparr>yl_num = 1, yl_indent = 0, yl_body = k @ '': '' @ double_quoted s\<rparr>"
    using pad(2) c' by (simp add: read_yaml_line_def t'(1) Let_def split_indent_def k)
  then have "yaml_lines line = [\<lparr>yl_num = 1, yl_indent = 0, yl_body = k @ '': '' @ double_quoted s\<rparr>]"
    by (simp add: yaml_lines_def split_on_no_sep [OF nl] List.map_filter_def)
  then show ?thesis unfolding line_def .
qed

lemma setting_key:
  assumes "setting_name k"
  shows "try_mapping_key (k @ '': '' @ double_quoted s) = Some (k, double_quoted s)"
proof -
  have "split_colon acc (u @ CHR '':'' # CHR '' '' # double_quoted s) = Some (acc @ u, double_quoted s)"
    if "list_all (\<lambda>c. is_lower c \<or> c = CHR ''_'') u" "acc @ u \<noteq> []" "list_all (\<lambda>c. is_lower c \<or> c = CHR ''_'') acc" for acc u
    using that
  proof (induction u arbitrary: acc)
    case Nil
    have "trim_blank_right acc = acc" using Nil by (cases acc rule: rev_cases) (auto simp: trim_blank_right_def blank_def is_lower_def less_eq_char_def)
    with Nil show ?case by (simp add: Let_def blank_def trim_blank_left_def double_quoted_def)
  next
    case (Cons c u)
    then show ?case by (auto simp: is_lower_def less_eq_char_def)
  qed
  from this [of k "[]"] assms show ?thesis
    by (cases k) (auto simp: try_mapping_key_def setting_name_def is_lower_def less_eq_char_def)
qed

text \<open>An indented first key makes the keys after it, at column zero, disappear without an error.\<close>

lemma indented_start_drops_rest:
  "parse_yaml (\<lambda>_. None :: nat option) (''  a: x'' @ [CHR 0x0A] @ ''b: y'') = Some (Inr (YMap [(''a'', YString ''x'')]))"
  by code_simp

text \<open>C31: A setting written as a name and a double-quoted value is read back as that value, whatever bytes it holds (quotes,
  backslashes, line ends, a number sign) and whether or not a comment follows.\<close>

lemma quoted_setting:
  assumes "setting_name k" "trailing_comment t"
  shows "parse_yaml pf (k @ '': '' @ double_quoted s @ t) = Some (Inr (YMap [(k, YString s)]))"
proof -
  have "hd k \<noteq> CHR ''-''" "k \<noteq> []" using assms(1) by (cases k; auto simp: setting_name_def is_lower_def less_eq_char_def)+
  then have "\<not> is_item \<lparr>yl_num = 1, yl_indent = 0, yl_body = k @ '': '' @ double_quoted s\<rparr>" "k @ '': '' @ double_quoted s \<noteq> ''---''"
    by (cases k; auto simp: is_item_def has_prefix_def)+
  moreover have "parse_value pf blk 0 (double_quoted s) [] = Some (Inr (YString s, []))" for blk
    by (simp add: parse_value_def parse_double_quoted) (simp add: double_quoted_def)
  ultimately show ?thesis
    unfolding parse_yaml_def setting_lines [OF assms] by (simp add: parse_document_def setting_key [OF assms(1), simplified] and_then_def)
qed

lemma quoted_setting_witness:
  "parse_yaml Some (''password'' @ '': '' @ double_quoted (CHR 0x22 # ''a # b'') @ '' # secret'') = Some (Inr (YMap [(''password'', YString (CHR 0x22 # ''a # b''))]))"
  by (rule quoted_setting) (simp_all add: setting_name_def trailing_comment_def is_lower_def less_eq_char_def has_prefix_def)

end
