(* ===== verification/Config.thy ===== *)
theory Config
  imports Yaml "HOL-Library.List_Lexorder"
begin

text \<open>
  The configuration file, \<^verbatim>\<open>internal/config/config.go\<close>, \<^verbatim>\<open>env.go\<close> and \<^verbatim>\<open>validate.go\<close>: the tree of settings, the defaults,
  the paths relative to the file, the secrets taken from the environment and the checks. A Go \<^verbatim>\<open>int\<close> of the file is an
  \<^typ>\<open>int\<close> (no setting is computed with here), a pointer is an option. The environment is a function argument.
\<close>

section \<open>The settings\<close>

record admin_info =
  ai_Name :: string
  ai_Email :: string

record listener =
  ls_Address :: string
  ls_TLS :: bool
  ls_CertFile :: string
  ls_KeyFile :: string

record limits_config =
  lc_MaxClients :: int
  lc_MaxChannelsPerUser :: int
  lc_NickLength :: int
  lc_ChannelLength :: int
  lc_TopicLength :: int
  lc_KickReasonLength :: int
  lc_AwayLength :: int
  lc_SendQBytes :: int
  lc_RecvQMessages :: int
  lc_PingIntervalSeconds :: int
  lc_PingTimeoutSeconds :: int
  lc_MessageBurst :: int
  lc_MessageRefillPerSecond :: int
  lc_MessageViolationsToKick :: int
  lc_WhowasHistory :: int

record server_config =
  sc_Name :: string
  sc_Description :: string
  sc_Network :: string
  sc_MOTDFile :: string
  sc_Admin :: admin_info
  sc_Listeners :: "listener list"
  sc_Limits :: limits_config
  sc_ClientPassword :: string

record sqlite_config =
  sq_Path :: string
  sq_JournalMode :: string

record postgres_config =
  pg_DSN :: string
  pg_DSNEnv :: string
  pg_MaxOpenConns :: int
  pg_MaxIdleConns :: int

record storage_config =
  st_Driver :: string
  st_SQLite :: sqlite_config
  st_Postgres :: postgres_config

record tls_config =
  tl_Enabled :: bool
  tl_CertFile :: string
  tl_KeyFile :: string

record session_config =
  ss_CookieName :: string
  ss_MaxAgeHours :: int
  ss_Secure :: bool
  ss_SameSite :: string

record dashboard_config =
  db_Enabled :: bool
  db_Address :: string
  db_TLS :: tls_config
  db_Session :: session_config

record api_config =
  ap_Enabled :: bool
  ap_AllowOrigins :: "string list"

record argon2id_config =
  ag_MemoryKiB :: int
  ag_Iterations :: int
  ag_Parallelism :: int

record initial_admin_config =
  ia_Username :: string
  ia_Password :: string
  ia_PasswordEnv :: string

record auth_config =
  au_PasswordHash :: string
  au_Argon2id :: argon2id_config
  au_InitialAdmin :: initial_admin_config

record retry_block =
  rb_MaxAttempts :: int
  rb_BackoffSeconds :: "int list"

record sink_config =
  sk_Type :: string
  sk_Enabled :: "bool option"
  sk_Path :: string
  sk_RotateMB :: int
  sk_Keep :: int
  sk_URL :: string
  sk_Secret :: string
  sk_SecretEnv :: string
  sk_TimeoutSeconds :: int
  sk_BatchMax :: int
  sk_BatchMaxAgeMs :: int
  sk_Retry :: "retry_block option"
  sk_DeadLetterPath :: string
  sk_Types :: "string list"

record events_config =
  ev_Sinks :: "sink_config list"

record bots_config =
  bc_Enabled :: bool
  bc_MaxBots :: int
  bc_PerBotMemoryMB :: int
  bc_PerBotInstructionBudget :: int

record link_spec =
  lk_Name :: string
  lk_Accept :: bool
  lk_Connect :: bool
  lk_Host :: string
  lk_Port :: int
  lk_PasswordIn :: string
  lk_PasswordInEnv :: string
  lk_PasswordOut :: string
  lk_PasswordOutEnv :: string
  lk_TLS :: bool
  lk_TLSFingerprint :: string
  lk_Zip :: bool

record federation_config =
  fc_Enabled :: bool
  fc_MyServerName :: string
  fc_ListenAddress :: string
  fc_ListenCertFile :: string
  fc_ListenKeyFile :: string
  fc_BroadcastMode :: string
  fc_Links :: "link_spec list"

record logging_config =
  lg_Level :: string
  lg_Format :: string
  lg_RingBufferEntries :: int

record operator_config =
  oc_Name :: string
  oc_HostMask :: string
  oc_PasswordHash :: string
  oc_PasswordHashEnv :: string
  oc_Flags :: "string list"

record root_config =
  rc_Version :: int
  rc_Server :: server_config
  rc_Storage :: storage_config
  rc_Dashboard :: dashboard_config
  rc_API :: api_config
  rc_Auth :: auth_config
  rc_Events :: events_config
  rc_Bots :: bots_config
  rc_Federation :: federation_config
  rc_Logging :: logging_config
  rc_Operators :: "operator_config list"

definition schema_version :: int where
  "schema_version = 1"

section \<open>Defaults\<close>

text \<open>\<^verbatim>\<open>if x == 0\<close> and \<^verbatim>\<open>if x == ""\<close>, then the default.\<close>

definition or_default :: "'a \<Rightarrow> 'a \<Rightarrow> 'a \<Rightarrow> 'a" where
  "or_default z d x = (if x = z then d else x)"

definition default_limits :: "limits_config \<Rightarrow> limits_config" where
  "default_limits l = \<lparr>
     lc_MaxClients = or_default 0 1024 (lc_MaxClients l),
     lc_MaxChannelsPerUser = or_default 0 50 (lc_MaxChannelsPerUser l),
     lc_NickLength = or_default 0 30 (lc_NickLength l),
     lc_ChannelLength = or_default 0 50 (lc_ChannelLength l),
     lc_TopicLength = or_default 0 390 (lc_TopicLength l),
     lc_KickReasonLength = or_default 0 255 (lc_KickReasonLength l),
     lc_AwayLength = or_default 0 255 (lc_AwayLength l),
     lc_SendQBytes = or_default 0 1048576 (lc_SendQBytes l),
     lc_RecvQMessages = or_default 0 64 (lc_RecvQMessages l),
     lc_PingIntervalSeconds = or_default 0 120 (lc_PingIntervalSeconds l),
     lc_PingTimeoutSeconds = or_default 0 240 (lc_PingTimeoutSeconds l),
     lc_MessageBurst = or_default 0 10 (lc_MessageBurst l),
     lc_MessageRefillPerSecond = or_default 0 2 (lc_MessageRefillPerSecond l),
     lc_MessageViolationsToKick = or_default 0 5 (lc_MessageViolationsToKick l),
     lc_WhowasHistory = or_default 0 1024 (lc_WhowasHistory l)\<rparr>"

definition default_storage :: "storage_config \<Rightarrow> storage_config" where
  "default_storage s =
     (let s = s\<lparr>st_Driver := or_default [] ''sqlite'' (st_Driver s)\<rparr> in
      if st_Driver s = ''sqlite'' then s\<lparr>st_SQLite := (st_SQLite s)\<lparr>sq_JournalMode := or_default [] ''wal'' (sq_JournalMode (st_SQLite s))\<rparr>\<rparr>
      else s)"

definition default_session :: "session_config \<Rightarrow> session_config" where
  "default_session s = s\<lparr>ss_CookieName := or_default [] ''ircat_session'' (ss_CookieName s),
     ss_MaxAgeHours := or_default 0 24 (ss_MaxAgeHours s), ss_SameSite := or_default [] ''lax'' (ss_SameSite s)\<rparr>"

definition default_auth :: "auth_config \<Rightarrow> auth_config" where
  "default_auth a = a\<lparr>au_PasswordHash := or_default [] ''argon2id'' (au_PasswordHash a),
     au_Argon2id := \<lparr>ag_MemoryKiB = or_default 0 65536 (ag_MemoryKiB (au_Argon2id a)),
       ag_Iterations = or_default 0 3 (ag_Iterations (au_Argon2id a)),
       ag_Parallelism = or_default 0 2 (ag_Parallelism (au_Argon2id a))\<rparr>\<rparr>"

definition default_logging :: "logging_config \<Rightarrow> logging_config" where
  "default_logging l = \<lparr>lg_Level = or_default [] ''info'' (lg_Level l), lg_Format = or_default [] ''json'' (lg_Format l),
     lg_RingBufferEntries = or_default 0 10000 (lg_RingBufferEntries l)\<rparr>"

definition apply_defaults :: "root_config \<Rightarrow> root_config" where
  "apply_defaults c = c\<lparr>
     rc_Version := or_default 0 schema_version (rc_Version c),
     rc_Server := (rc_Server c)\<lparr>sc_Limits := default_limits (sc_Limits (rc_Server c))\<rparr>,
     rc_Storage := default_storage (rc_Storage c),
     rc_Dashboard := (rc_Dashboard c)\<lparr>db_Session := default_session (db_Session (rc_Dashboard c))\<rparr>,
     rc_Auth := default_auth (rc_Auth c),
     rc_Logging := default_logging (rc_Logging c),
     rc_Bots := (rc_Bots c)\<lparr>bc_MaxBots := or_default 0 100 (bc_MaxBots (rc_Bots c))\<rparr>\<rparr>"

section \<open>Errors\<close>

text \<open>
  An error of \<open>Invalid\<close> names the setting as the format string of the source does, with the index for its \<^verbatim>\<open>%d\<close>, and
  what is wrong with it.
\<close>

datatype problem = WrongVersion int | Missing | NotAHostname string | TimeoutNotGreater int int | Negative int | OuterWhitespace
  | Placeholder string | BadAddress string | NeedsCertAndKey | NeedsHostAndPort | NotOneOf string | EmptyEnv string

datatype config_error = Invalid string "nat option" problem | UnknownExtension string | Unreadable | BadYaml yaml_error | BadJson
  | UnknownField string | WrongType

definition bind_ok :: "'e + 'a \<Rightarrow> ('a \<Rightarrow> 'e + 'b) \<Rightarrow> 'e + 'b" where
  "bind_ok r k = (case r of Inl e \<Rightarrow> Inl e | Inr x \<Rightarrow> k x)"

lemma bind_ok_Inr [simp]: "bind_ok r k = Inr y \<longleftrightarrow> (\<exists>x. r = Inr x \<and> k x = Inr y)"
  by (simp add: bind_ok_def split: sum.split)

lemma bind_ok_simps [simp]: "bind_ok (Inl e) k = Inl e" "bind_ok (Inr x) k = k x"
  by (simp_all add: bind_ok_def)

text \<open>A loop over a list with its index that stops at the first error.\<close>

fun each_from :: "nat \<Rightarrow> (nat \<Rightarrow> 'a \<Rightarrow> 'e + 'b) \<Rightarrow> 'a list \<Rightarrow> 'e + 'b list" where
  "each_from i f [] = Inr []"
| "each_from i f (x # xs) = bind_ok (f i x) (\<lambda>y. bind_ok (each_from (Suc i) f xs) (\<lambda>ys. Inr (y # ys)))"

fun first_error :: "nat \<Rightarrow> (nat \<Rightarrow> 'a \<Rightarrow> 'e option) \<Rightarrow> 'a list \<Rightarrow> 'e option" where
  "first_error i f [] = None"
| "first_error i f (x # xs) = (case f i x of Some e \<Rightarrow> Some e | None \<Rightarrow> first_error (Suc i) f xs)"

lemma first_error_None: "first_error i f xs = None \<longleftrightarrow> (\<forall>j < length xs. f (i + j) (xs ! j) = None)"
proof (induction xs arbitrary: i)
  case (Cons x xs)
  then show ?case by (auto simp: less_Suc_eq_0_disj split: option.splits)
qed simp

lemma each_from_Inr: "each_from i f xs = Inr ys \<longleftrightarrow> length ys = length xs \<and> (\<forall>j < length xs. f (i + j) (xs ! j) = Inr (ys ! j))"
proof (induction xs arbitrary: i ys)
  case (Cons x xs)
  then show ?case by (cases ys) (auto simp: less_Suc_eq_0_disj)
qed auto

section \<open>Paths\<close>

text \<open>\<^verbatim>\<open>filepath.Clean\<close>, \<^verbatim>\<open>Join\<close> of two elements, \<^verbatim>\<open>IsAbs\<close>, \<^verbatim>\<open>Dir\<close> and \<^verbatim>\<open>Ext\<close> on slash-separated paths.\<close>

fun clean_parts :: "bool \<Rightarrow> string list \<Rightarrow> string list \<Rightarrow> string list" where
  "clean_parts rooted up [] = rev up"
| "clean_parts rooted up (p # ps) =
     (if p = [] \<or> p = ''.'' then clean_parts rooted up ps
      else if p = ''..'' then
        (if up \<noteq> [] \<and> hd up \<noteq> ''..'' then clean_parts rooted (tl up) ps
         else if rooted then clean_parts rooted up ps
         else clean_parts rooted (p # up) ps)
      else clean_parts rooted (p # up) ps)"

definition is_abs :: "string \<Rightarrow> bool" where
  "is_abs p = has_prefix ''/'' p"

definition clean_path :: "string \<Rightarrow> string" where
  "clean_path p =
     (let out = join_with ''/'' (clean_parts (is_abs p) [] (split_on CHR ''/'' p)) in
      if is_abs p then CHR ''/'' # out else if out = [] then ''.'' else out)"

definition join_path :: "string \<Rightarrow> string \<Rightarrow> string" where
  "join_path base p = (if base = [] then (if p = [] then [] else clean_path p) else clean_path (base @ ''/'' @ p))"

definition dir_of :: "string \<Rightarrow> string" where
  "dir_of p = clean_path (rev (dropWhile (\<lambda>c. c \<noteq> CHR ''/'') (rev p)))"

definition ext_of :: "string \<Rightarrow> string" where
  "ext_of p =
     (let name = rev (takeWhile (\<lambda>c. c \<noteq> CHR ''/'') (rev p)) in
      if CHR ''.'' \<in> set name then CHR ''.'' # rev (takeWhile (\<lambda>c. c \<noteq> CHR ''.'') (rev name)) else [])"

definition rel_path :: "string \<Rightarrow> string \<Rightarrow> string" where
  "rel_path base p = (if p = [] \<or> is_abs p then p else join_path base p)"

definition resolve_paths_relative_to :: "string \<Rightarrow> root_config \<Rightarrow> root_config" where
  "resolve_paths_relative_to base c =
     (if base = [] then c
      else
        let r = rel_path base; s = rc_Server c; st = rc_Storage c; d = rc_Dashboard c; e = rc_Events c in
        c\<lparr>rc_Server := s\<lparr>sc_MOTDFile := r (sc_MOTDFile s),
             sc_Listeners := map (\<lambda>l. l\<lparr>ls_CertFile := r (ls_CertFile l), ls_KeyFile := r (ls_KeyFile l)\<rparr>) (sc_Listeners s)\<rparr>,
          rc_Storage := st\<lparr>st_SQLite := (st_SQLite st)\<lparr>sq_Path := r (sq_Path (st_SQLite st))\<rparr>\<rparr>,
          rc_Dashboard := d\<lparr>db_TLS := (db_TLS d)\<lparr>tl_CertFile := r (tl_CertFile (db_TLS d)), tl_KeyFile := r (tl_KeyFile (db_TLS d))\<rparr>\<rparr>,
          rc_Events := e\<lparr>ev_Sinks := map (\<lambda>k. k\<lparr>sk_Path := r (sk_Path k), sk_DeadLetterPath := r (sk_DeadLetterPath k)\<rparr>) (ev_Sinks e)\<rparr>\<rparr>)"

section \<open>Secrets from the environment\<close>

definition pull :: "(string \<Rightarrow> string) \<Rightarrow> string \<Rightarrow> string \<Rightarrow> string \<Rightarrow> nat option \<Rightarrow> config_error + string" where
  "pull lookup direct env field i =
     (if env = [] then Inr direct
      else if lookup env = [] then Inl (Invalid field i (EmptyEnv env))
      else Inr (lookup env))"

definition sink_env :: "(string \<Rightarrow> string) \<Rightarrow> nat \<Rightarrow> sink_config \<Rightarrow> config_error + sink_config" where
  "sink_env lookup i s = bind_ok (pull lookup (sk_Secret s) (sk_SecretEnv s) ''events.sinks[%d].secret_env'' (Some i)) (\<lambda>v. Inr (s\<lparr>sk_Secret := v\<rparr>))"

definition link_env :: "(string \<Rightarrow> string) \<Rightarrow> nat \<Rightarrow> link_spec \<Rightarrow> config_error + link_spec" where
  "link_env lookup i l =
     bind_ok (pull lookup (lk_PasswordIn l) (lk_PasswordInEnv l) ''federation.links[%d].password_in_env'' (Some i)) (\<lambda>pin.
     bind_ok (pull lookup (lk_PasswordOut l) (lk_PasswordOutEnv l) ''federation.links[%d].password_out_env'' (Some i)) (\<lambda>pout.
     Inr (l\<lparr>lk_PasswordIn := pin, lk_PasswordOut := pout\<rparr>)))"

definition operator_env :: "(string \<Rightarrow> string) \<Rightarrow> nat \<Rightarrow> operator_config \<Rightarrow> config_error + operator_config" where
  "operator_env lookup i op =
     bind_ok (pull lookup (oc_PasswordHash op) (oc_PasswordHashEnv op) ''operators[%d].password_hash_env'' (Some i)) (\<lambda>v. Inr (op\<lparr>oc_PasswordHash := v\<rparr>))"

definition resolve_env :: "(string \<Rightarrow> string) \<Rightarrow> root_config \<Rightarrow> config_error + root_config" where
  "resolve_env lookup c =
     (let pg = st_Postgres (rc_Storage c); ia = au_InitialAdmin (rc_Auth c) in
      bind_ok (pull lookup (pg_DSN pg) (pg_DSNEnv pg) ''storage.postgres.dsn_env'' None) (\<lambda>dsn.
      bind_ok (pull lookup (ia_Password ia) (ia_PasswordEnv ia) ''auth.initial_admin.password_env'' None) (\<lambda>pw.
      bind_ok (each_from 0 (sink_env lookup) (ev_Sinks (rc_Events c))) (\<lambda>sinks.
      bind_ok (each_from 0 (link_env lookup) (fc_Links (rc_Federation c))) (\<lambda>links.
      bind_ok (each_from 0 (operator_env lookup) (rc_Operators c)) (\<lambda>ops.
      Inr (c\<lparr>rc_Storage := (rc_Storage c)\<lparr>st_Postgres := pg\<lparr>pg_DSN := dsn\<rparr>\<rparr>,
        rc_Auth := (rc_Auth c)\<lparr>au_InitialAdmin := ia\<lparr>ia_Password := pw\<rparr>\<rparr>,
        rc_Events := (rc_Events c)\<lparr>ev_Sinks := sinks\<rparr>,
        rc_Federation := (rc_Federation c)\<lparr>fc_Links := links\<rparr>,
        rc_Operators := ops\<rparr>)))))))"

section \<open>Checks\<close>

text \<open>\<^verbatim>\<open>net.SplitHostPort\<close>: the host, without its brackets, and the port; \<^const>\<open>None\<close> for its error.\<close>

definition last_colon :: "string \<Rightarrow> nat option" where
  "last_colon s = map_option (\<lambda>i. length s - 1 - i) (index_byte CHR '':'' (rev s))"

definition split_host_port :: "string \<Rightarrow> (string \<times> string) option" where
  "split_host_port s =
     (case last_colon s of
        None \<Rightarrow> None
      | Some i \<Rightarrow>
          if hd s = CHR ''['' then
            (case index_byte CHR '']'' s of
               None \<Rightarrow> None
             | Some e \<Rightarrow>
                 if e + 1 \<noteq> i then None
                 else if CHR ''['' \<in> set (drop 1 s) \<or> CHR '']'' \<in> set (drop (e + 1) s) then None
                 else Some (take (e - 1) (drop 1 s), drop (i + 1) s))
          else if CHR '':'' \<in> set (take i s) \<or> CHR ''['' \<in> set s \<or> CHR '']'' \<in> set s then None
          else Some (take i s, drop (i + 1) s))"

definition looks_like_server_name :: "string \<Rightarrow> bool" where
  "looks_like_server_name s =
     (s \<noteq> [] \<and> length s \<le> 253 \<and> list_all (\<lambda>c. is_lower c \<or> is_upper c \<or> is_digit c \<or> c = CHR ''.'' \<or> c = CHR ''-'') s)"

definition or_else :: "'e option \<Rightarrow> 'e option \<Rightarrow> 'e option" where
  "or_else a b = (case a of Some e \<Rightarrow> Some e | None \<Rightarrow> b)"

lemma or_else_None [simp]: "or_else a b = None \<longleftrightarrow> a = None \<and> b = None"
  by (simp add: or_else_def split: option.split)

definition fail_if :: "bool \<Rightarrow> string \<Rightarrow> nat option \<Rightarrow> problem \<Rightarrow> config_error option" where
  "fail_if b field i p = (if b then Some (Invalid field i p) else None)"

lemma fail_if_None [simp]: "fail_if b field i p = None \<longleftrightarrow> \<not> b"
  by (simp add: fail_if_def)

definition check_server :: "server_config \<Rightarrow> config_error option" where
  "check_server s =
     or_else (fail_if (trim_space (sc_Name s) = []) ''server.name'' None Missing)
     (or_else (fail_if (\<not> looks_like_server_name (sc_Name s)) ''server.name'' None (NotAHostname (sc_Name s)))
     (or_else (fail_if (trim_space (sc_Network s) = []) ''server.network'' None Missing)
     (or_else (fail_if (lc_PingTimeoutSeconds (sc_Limits s) \<le> lc_PingIntervalSeconds (sc_Limits s))
                ''server.limits.ping_timeout_seconds'' None
                (TimeoutNotGreater (lc_PingTimeoutSeconds (sc_Limits s)) (lc_PingIntervalSeconds (sc_Limits s))))
              (fail_if (lc_WhowasHistory (sc_Limits s) < 0) ''server.limits.whowas_history'' None (Negative (lc_WhowasHistory (sc_Limits s)))))))"

definition check_client_password :: "string \<Rightarrow> config_error option" where
  "check_client_password p =
     (if p = [] then None
      else or_else (fail_if (trim_space p \<noteq> p) ''server.client_password'' None OuterWhitespace)
        (fail_if (p = ''${IRCAT_CLIENT_PASSWORD}'' \<or> p = ''$IRCAT_CLIENT_PASSWORD'') ''server.client_password'' None (Placeholder p)))"

definition check_listener :: "nat \<Rightarrow> listener \<Rightarrow> config_error option" where
  "check_listener i l =
     or_else (fail_if (ls_Address l = []) ''server.listeners[%d].address'' (Some i) Missing)
     (or_else (fail_if (split_host_port (ls_Address l) = None) ''server.listeners[%d].address'' (Some i) (BadAddress (ls_Address l)))
       (fail_if (ls_TLS l \<and> (ls_CertFile l = [] \<or> ls_KeyFile l = [])) ''server.listeners[%d]'' (Some i) NeedsCertAndKey))"

definition check_storage :: "storage_config \<Rightarrow> config_error option" where
  "check_storage s =
     (if st_Driver s = ''sqlite'' then fail_if (sq_Path (st_SQLite s) = []) ''storage.sqlite.path'' None Missing
      else if st_Driver s = ''postgres'' then
        fail_if (pg_DSN (st_Postgres s) = [] \<and> pg_DSNEnv (st_Postgres s) = []) ''storage.postgres.dsn'' None Missing
      else Some (Invalid ''storage.driver'' None (NotOneOf (st_Driver s))))"

definition check_dashboard :: "dashboard_config \<Rightarrow> config_error option" where
  "check_dashboard d =
     (if \<not> db_Enabled d then None
      else or_else (fail_if (db_Address d = []) ''dashboard.address'' None Missing)
        (or_else (fail_if (split_host_port (db_Address d) = None) ''dashboard.address'' None (BadAddress (db_Address d)))
        (or_else (fail_if (tl_Enabled (db_TLS d) \<and> (tl_CertFile (db_TLS d) = [] \<or> tl_KeyFile (db_TLS d) = [])) ''dashboard.tls'' None NeedsCertAndKey)
          (fail_if (to_lower (ss_SameSite (db_Session d)) \<notin> set [''lax'', ''strict'', ''none''])
            ''dashboard.session.same_site'' None (NotOneOf (ss_SameSite (db_Session d)))))))"

definition validate_sink :: "nat \<Rightarrow> sink_config \<Rightarrow> config_error option" where
  "validate_sink i s =
     (if sk_Type s = ''jsonl'' then fail_if (sk_Path s = []) ''events.sinks[%d].path'' (Some i) Missing
      else if sk_Type s = ''webhook'' then fail_if (sk_URL s = []) ''events.sinks[%d].url'' (Some i) Missing
      else if sk_Type s = [] then Some (Invalid ''events.sinks[%d].type'' (Some i) Missing)
      else Some (Invalid ''events.sinks[%d].type'' (Some i) (NotOneOf (sk_Type s))))"

definition check_link :: "nat \<Rightarrow> link_spec \<Rightarrow> config_error option" where
  "check_link i l =
     or_else (fail_if (lk_Name l = []) ''federation.links[%d].name'' (Some i) Missing)
       (fail_if (lk_Connect l \<and> (lk_Host l = [] \<or> lk_Port l = 0)) ''federation.links[%d]'' (Some i) NeedsHostAndPort)"

definition check_federation :: "federation_config \<Rightarrow> config_error option" where
  "check_federation f =
     (if \<not> fc_Enabled f then None
      else or_else (fail_if (fc_MyServerName f = []) ''federation.my_server_name'' None Missing) (first_error 0 check_link (fc_Links f)))"

definition check_logging :: "logging_config \<Rightarrow> config_error option" where
  "check_logging l =
     or_else (fail_if (to_lower (lg_Format l) \<notin> set [''json'', ''text'']) ''logging.format'' None (NotOneOf (lg_Format l)))
       (fail_if (to_lower (lg_Level l) \<notin> set [''debug'', ''info'', ''warn'', ''warning'', ''error'', ''err''])
         ''logging.level'' None (NotOneOf (lg_Level l)))"

definition check_operator :: "nat \<Rightarrow> operator_config \<Rightarrow> config_error option" where
  "check_operator i op =
     or_else (fail_if (oc_Name op = []) ''operators[%d].name'' (Some i) Missing)
       (fail_if (oc_PasswordHash op = []) ''operators[%d].password_hash'' (Some i) Missing)"

definition validate :: "root_config \<Rightarrow> config_error option" where
  "validate c =
     or_else (fail_if (rc_Version c \<noteq> schema_version) ''version'' None (WrongVersion (rc_Version c)))
     (or_else (check_server (rc_Server c))
     (or_else (check_client_password (sc_ClientPassword (rc_Server c)))
     (or_else (fail_if (sc_Listeners (rc_Server c) = []) ''server.listeners'' None Missing)
     (or_else (first_error 0 check_listener (sc_Listeners (rc_Server c)))
     (or_else (check_storage (rc_Storage c))
     (or_else (check_dashboard (rc_Dashboard c))
     (or_else (fail_if (au_PasswordHash (rc_Auth c) \<notin> set [''argon2id'', ''bcrypt'']) ''auth.password_hash'' None (NotOneOf (au_PasswordHash (rc_Auth c))))
     (or_else (first_error 0 validate_sink (ev_Sinks (rc_Events c)))
     (or_else (check_federation (rc_Federation c))
     (or_else (check_logging (rc_Logging c))
              (first_error 0 check_operator (rc_Operators c))))))))))))"

end
