(* ===== verification/Config_Load.thy ===== *)
theory Config_Load
  imports Config
begin

text \<open>
  How a configuration file becomes the tree of settings, and the whole of \<^verbatim>\<open>config.Load\<close>. The parsed tree is decoded into
  the structs by their \<^verbatim>\<open>json\<close> tags, as \<^verbatim>\<open>encoding/json\<close> does with \<^verbatim>\<open>DisallowUnknownFields\<close>: a null leaves
  a value as it is and empties a list or a pointer, a name matches a tag exactly or else up to case, the first error is
  reported. The JSON text parser of the library is the argument \<open>json\<close>; \<open>fi\<close> is the integer that the JSON text of a
  float denotes, if it denotes one. Files are taken to be valid UTF-8.
\<close>

section \<open>Zero values\<close>

definition zero_admin_info :: admin_info where
  "zero_admin_info = \<lparr>ai_Name = [], ai_Email = []\<rparr>"

definition zero_listener :: listener where
  "zero_listener = \<lparr>ls_Address = [], ls_TLS = False, ls_CertFile = [], ls_KeyFile = []\<rparr>"

definition zero_limits_config :: limits_config where
  "zero_limits_config = \<lparr>lc_MaxClients = 0, lc_MaxChannelsPerUser = 0, lc_NickLength = 0, lc_ChannelLength = 0, lc_TopicLength = 0, lc_KickReasonLength = 0,
     lc_AwayLength = 0, lc_SendQBytes = 0, lc_RecvQMessages = 0, lc_PingIntervalSeconds = 0, lc_PingTimeoutSeconds = 0, lc_MessageBurst = 0,
     lc_MessageRefillPerSecond = 0, lc_MessageViolationsToKick = 0, lc_WhowasHistory = 0\<rparr>"

definition zero_server_config :: server_config where
  "zero_server_config = \<lparr>sc_Name = [], sc_Description = [], sc_Network = [], sc_MOTDFile = [], sc_Admin = zero_admin_info, sc_Listeners = [],
     sc_Limits = zero_limits_config, sc_ClientPassword = []\<rparr>"

definition zero_sqlite_config :: sqlite_config where
  "zero_sqlite_config = \<lparr>sq_Path = [], sq_JournalMode = []\<rparr>"

definition zero_postgres_config :: postgres_config where
  "zero_postgres_config = \<lparr>pg_DSN = [], pg_DSNEnv = [], pg_MaxOpenConns = 0, pg_MaxIdleConns = 0\<rparr>"

definition zero_storage_config :: storage_config where
  "zero_storage_config = \<lparr>st_Driver = [], st_SQLite = zero_sqlite_config, st_Postgres = zero_postgres_config\<rparr>"

definition zero_tls_config :: tls_config where
  "zero_tls_config = \<lparr>tl_Enabled = False, tl_CertFile = [], tl_KeyFile = []\<rparr>"

definition zero_session_config :: session_config where
  "zero_session_config = \<lparr>ss_CookieName = [], ss_MaxAgeHours = 0, ss_Secure = False, ss_SameSite = []\<rparr>"

definition zero_dashboard_config :: dashboard_config where
  "zero_dashboard_config = \<lparr>db_Enabled = False, db_Address = [], db_TLS = zero_tls_config, db_Session = zero_session_config\<rparr>"

definition zero_api_config :: api_config where
  "zero_api_config = \<lparr>ap_Enabled = False, ap_AllowOrigins = []\<rparr>"

definition zero_argon2id_config :: argon2id_config where
  "zero_argon2id_config = \<lparr>ag_MemoryKiB = 0, ag_Iterations = 0, ag_Parallelism = 0\<rparr>"

definition zero_initial_admin_config :: initial_admin_config where
  "zero_initial_admin_config = \<lparr>ia_Username = [], ia_Password = [], ia_PasswordEnv = []\<rparr>"

definition zero_auth_config :: auth_config where
  "zero_auth_config = \<lparr>au_PasswordHash = [], au_Argon2id = zero_argon2id_config, au_InitialAdmin = zero_initial_admin_config\<rparr>"

definition zero_retry_block :: retry_block where
  "zero_retry_block = \<lparr>rb_MaxAttempts = 0, rb_BackoffSeconds = []\<rparr>"

definition zero_sink_config :: sink_config where
  "zero_sink_config = \<lparr>sk_Type = [], sk_Enabled = None, sk_Path = [], sk_RotateMB = 0, sk_Keep = 0, sk_URL = [], sk_Secret = [], sk_SecretEnv = [],
     sk_TimeoutSeconds = 0, sk_BatchMax = 0, sk_BatchMaxAgeMs = 0, sk_Retry = None, sk_DeadLetterPath = [], sk_Types = []\<rparr>"

definition zero_events_config :: events_config where
  "zero_events_config = \<lparr>ev_Sinks = []\<rparr>"

definition zero_bots_config :: bots_config where
  "zero_bots_config = \<lparr>bc_Enabled = False, bc_MaxBots = 0, bc_PerBotMemoryMB = 0, bc_PerBotInstructionBudget = 0\<rparr>"

definition zero_link_spec :: link_spec where
  "zero_link_spec = \<lparr>lk_Name = [], lk_Accept = False, lk_Connect = False, lk_Host = [], lk_Port = 0, lk_PasswordIn = [], lk_PasswordInEnv = [], lk_PasswordOut = [],
     lk_PasswordOutEnv = [], lk_TLS = False, lk_TLSFingerprint = [], lk_Zip = False\<rparr>"

definition zero_federation_config :: federation_config where
  "zero_federation_config = \<lparr>fc_Enabled = False, fc_MyServerName = [], fc_ListenAddress = [], fc_ListenCertFile = [], fc_ListenKeyFile = [], fc_BroadcastMode = [],
     fc_Links = []\<rparr>"

definition zero_logging_config :: logging_config where
  "zero_logging_config = \<lparr>lg_Level = [], lg_Format = [], lg_RingBufferEntries = 0\<rparr>"

definition zero_operator_config :: operator_config where
  "zero_operator_config = \<lparr>oc_Name = [], oc_HostMask = [], oc_PasswordHash = [], oc_PasswordHashEnv = [], oc_Flags = []\<rparr>"

definition zero_root_config :: root_config where
  "zero_root_config = \<lparr>rc_Version = 0, rc_Server = zero_server_config, rc_Storage = zero_storage_config, rc_Dashboard = zero_dashboard_config, rc_API = zero_api_config,
     rc_Auth = zero_auth_config, rc_Events = zero_events_config, rc_Bots = zero_bots_config, rc_Federation = zero_federation_config,
     rc_Logging = zero_logging_config, rc_Operators = []\<rparr>"

section \<open>Decoding\<close>

type_synonym ('f, 'a) decoder = "'f yaml \<Rightarrow> 'a \<Rightarrow> config_error + 'a"

type_synonym ('f, 'r) field = "string \<times> ('f, 'r) decoder"

definition dec_string :: "('f, string) decoder" where
  "dec_string t x = (case t of YString s \<Rightarrow> Inr s | YNull \<Rightarrow> Inr x | _ \<Rightarrow> Inl WrongType)"

definition dec_bool :: "('f, bool) decoder" where
  "dec_bool t x = (case t of YBool b \<Rightarrow> Inr b | YNull \<Rightarrow> Inr x | _ \<Rightarrow> Inl WrongType)"

definition dec_int :: "('f \<Rightarrow> int option) \<Rightarrow> ('f, int) decoder" where
  "dec_int fi t x =
     (case t of
        YInt i \<Rightarrow> Inr i
      | YFloat f \<Rightarrow> (case fi f of Some i \<Rightarrow> Inr i | None \<Rightarrow> Inl WrongType)
      | YNull \<Rightarrow> Inr x
      | _ \<Rightarrow> Inl WrongType)"

text \<open>An element is decoded onto the element the list had at its place, if it had one.\<close>

fun dec_elems :: "'a \<Rightarrow> ('f, 'a) decoder \<Rightarrow> 'f yaml list \<Rightarrow> 'a list \<Rightarrow> config_error + 'a list" where
  "dec_elems z d [] old = Inr []"
| "dec_elems z d (t # ts) old =
     bind_ok (d t (if old = [] then z else hd old)) (\<lambda>x. bind_ok (dec_elems z d ts (tl old)) (\<lambda>xs. Inr (x # xs)))"

definition dec_list :: "'a \<Rightarrow> ('f, 'a) decoder \<Rightarrow> ('f, 'a list) decoder" where
  "dec_list z d t old = (case t of YList ts \<Rightarrow> dec_elems z d ts old | YNull \<Rightarrow> Inr [] | _ \<Rightarrow> Inl WrongType)"

definition dec_opt :: "'a \<Rightarrow> ('f, 'a) decoder \<Rightarrow> ('f, 'a option) decoder" where
  "dec_opt z d t old =
     (case t of
        YNull \<Rightarrow> Inr None
      | _ \<Rightarrow> bind_ok (d t (case old of Some x \<Rightarrow> x | None \<Rightarrow> z)) (\<lambda>x. Inr (Some x)))"

definition field_of :: "('f, 'r) field list \<Rightarrow> string \<Rightarrow> ('f, 'r) decoder option" where
  "field_of fs k =
     (case map_of fs k of
        Some d \<Rightarrow> Some d
      | None \<Rightarrow> map_option snd (find (\<lambda>f. to_lower (fst f) = to_lower k) fs))"

fun dec_fields :: "('f, 'r) field list \<Rightarrow> (string \<times> 'f yaml) list \<Rightarrow> 'r \<Rightarrow> config_error + 'r" where
  "dec_fields fs [] r = Inr r"
| "dec_fields fs ((k, t) # kvs) r =
     (case field_of fs k of
        None \<Rightarrow> Inl (UnknownField k)
      | Some d \<Rightarrow> bind_ok (d t r) (dec_fields fs kvs))"

definition dec_struct :: "('f, 'r) field list \<Rightarrow> ('f, 'r) decoder" where
  "dec_struct fs t r = (case t of YMap kvs \<Rightarrow> dec_fields fs kvs r | YNull \<Rightarrow> Inr r | _ \<Rightarrow> Inl WrongType)"

text \<open>The decoder of one field, on the struct that has it.\<close>

definition at_field :: "('r \<Rightarrow> 'a) \<Rightarrow> (('a \<Rightarrow> 'a) \<Rightarrow> 'r \<Rightarrow> 'r) \<Rightarrow> ('f, 'a) decoder \<Rightarrow> ('f, 'r) decoder" where
  "at_field get upd d t r = bind_ok (d t (get r)) (\<lambda>x. Inr (upd (\<lambda>_. x) r))"

section \<open>The fields and their tags\<close>

definition admin_info_fields :: "('f \<Rightarrow> int option) \<Rightarrow> ('f, admin_info) field list" where
  "admin_info_fields fi = [
     (''name'', at_field ai_Name ai_Name_update dec_string),
     (''email'', at_field ai_Email ai_Email_update dec_string)]"

definition listener_fields :: "('f \<Rightarrow> int option) \<Rightarrow> ('f, listener) field list" where
  "listener_fields fi = [
     (''address'', at_field ls_Address ls_Address_update dec_string),
     (''tls'', at_field ls_TLS ls_TLS_update dec_bool),
     (''cert_file'', at_field ls_CertFile ls_CertFile_update dec_string),
     (''key_file'', at_field ls_KeyFile ls_KeyFile_update dec_string)]"

definition limits_config_fields :: "('f \<Rightarrow> int option) \<Rightarrow> ('f, limits_config) field list" where
  "limits_config_fields fi = [
     (''max_clients'', at_field lc_MaxClients lc_MaxClients_update (dec_int fi)),
     (''max_channels_per_user'', at_field lc_MaxChannelsPerUser lc_MaxChannelsPerUser_update (dec_int fi)),
     (''nick_length'', at_field lc_NickLength lc_NickLength_update (dec_int fi)),
     (''channel_length'', at_field lc_ChannelLength lc_ChannelLength_update (dec_int fi)),
     (''topic_length'', at_field lc_TopicLength lc_TopicLength_update (dec_int fi)),
     (''kick_reason_length'', at_field lc_KickReasonLength lc_KickReasonLength_update (dec_int fi)),
     (''away_length'', at_field lc_AwayLength lc_AwayLength_update (dec_int fi)),
     (''sendq_bytes'', at_field lc_SendQBytes lc_SendQBytes_update (dec_int fi)),
     (''recvq_messages'', at_field lc_RecvQMessages lc_RecvQMessages_update (dec_int fi)),
     (''ping_interval_seconds'', at_field lc_PingIntervalSeconds lc_PingIntervalSeconds_update (dec_int fi)),
     (''ping_timeout_seconds'', at_field lc_PingTimeoutSeconds lc_PingTimeoutSeconds_update (dec_int fi)),
     (''message_burst'', at_field lc_MessageBurst lc_MessageBurst_update (dec_int fi)),
     (''message_refill_per_second'', at_field lc_MessageRefillPerSecond lc_MessageRefillPerSecond_update (dec_int fi)),
     (''message_violations_to_kick'', at_field lc_MessageViolationsToKick lc_MessageViolationsToKick_update (dec_int fi)),
     (''whowas_history'', at_field lc_WhowasHistory lc_WhowasHistory_update (dec_int fi))]"

definition server_config_fields :: "('f \<Rightarrow> int option) \<Rightarrow> ('f, server_config) field list" where
  "server_config_fields fi = [
     (''name'', at_field sc_Name sc_Name_update dec_string),
     (''description'', at_field sc_Description sc_Description_update dec_string),
     (''network'', at_field sc_Network sc_Network_update dec_string),
     (''motd_file'', at_field sc_MOTDFile sc_MOTDFile_update dec_string),
     (''admin'', at_field sc_Admin sc_Admin_update (dec_struct (admin_info_fields fi))),
     (''listeners'', at_field sc_Listeners sc_Listeners_update (dec_list zero_listener (dec_struct (listener_fields fi)))),
     (''limits'', at_field sc_Limits sc_Limits_update (dec_struct (limits_config_fields fi))),
     (''client_password'', at_field sc_ClientPassword sc_ClientPassword_update dec_string)]"

definition sqlite_config_fields :: "('f \<Rightarrow> int option) \<Rightarrow> ('f, sqlite_config) field list" where
  "sqlite_config_fields fi = [
     (''path'', at_field sq_Path sq_Path_update dec_string),
     (''journal_mode'', at_field sq_JournalMode sq_JournalMode_update dec_string)]"

definition postgres_config_fields :: "('f \<Rightarrow> int option) \<Rightarrow> ('f, postgres_config) field list" where
  "postgres_config_fields fi = [
     (''dsn'', at_field pg_DSN pg_DSN_update dec_string),
     (''dsn_env'', at_field pg_DSNEnv pg_DSNEnv_update dec_string),
     (''max_open_conns'', at_field pg_MaxOpenConns pg_MaxOpenConns_update (dec_int fi)),
     (''max_idle_conns'', at_field pg_MaxIdleConns pg_MaxIdleConns_update (dec_int fi))]"

definition storage_config_fields :: "('f \<Rightarrow> int option) \<Rightarrow> ('f, storage_config) field list" where
  "storage_config_fields fi = [
     (''driver'', at_field st_Driver st_Driver_update dec_string),
     (''sqlite'', at_field st_SQLite st_SQLite_update (dec_struct (sqlite_config_fields fi))),
     (''postgres'', at_field st_Postgres st_Postgres_update (dec_struct (postgres_config_fields fi)))]"

definition tls_config_fields :: "('f \<Rightarrow> int option) \<Rightarrow> ('f, tls_config) field list" where
  "tls_config_fields fi = [
     (''enabled'', at_field tl_Enabled tl_Enabled_update dec_bool),
     (''cert_file'', at_field tl_CertFile tl_CertFile_update dec_string),
     (''key_file'', at_field tl_KeyFile tl_KeyFile_update dec_string)]"

definition session_config_fields :: "('f \<Rightarrow> int option) \<Rightarrow> ('f, session_config) field list" where
  "session_config_fields fi = [
     (''cookie_name'', at_field ss_CookieName ss_CookieName_update dec_string),
     (''max_age_hours'', at_field ss_MaxAgeHours ss_MaxAgeHours_update (dec_int fi)),
     (''secure'', at_field ss_Secure ss_Secure_update dec_bool),
     (''same_site'', at_field ss_SameSite ss_SameSite_update dec_string)]"

definition dashboard_config_fields :: "('f \<Rightarrow> int option) \<Rightarrow> ('f, dashboard_config) field list" where
  "dashboard_config_fields fi = [
     (''enabled'', at_field db_Enabled db_Enabled_update dec_bool),
     (''address'', at_field db_Address db_Address_update dec_string),
     (''tls'', at_field db_TLS db_TLS_update (dec_struct (tls_config_fields fi))),
     (''session'', at_field db_Session db_Session_update (dec_struct (session_config_fields fi)))]"

definition api_config_fields :: "('f \<Rightarrow> int option) \<Rightarrow> ('f, api_config) field list" where
  "api_config_fields fi = [
     (''enabled'', at_field ap_Enabled ap_Enabled_update dec_bool),
     (''allow_origins'', at_field ap_AllowOrigins ap_AllowOrigins_update (dec_list [] dec_string))]"

definition argon2id_config_fields :: "('f \<Rightarrow> int option) \<Rightarrow> ('f, argon2id_config) field list" where
  "argon2id_config_fields fi = [
     (''memory_kib'', at_field ag_MemoryKiB ag_MemoryKiB_update (dec_int fi)),
     (''iterations'', at_field ag_Iterations ag_Iterations_update (dec_int fi)),
     (''parallelism'', at_field ag_Parallelism ag_Parallelism_update (dec_int fi))]"

definition initial_admin_config_fields :: "('f \<Rightarrow> int option) \<Rightarrow> ('f, initial_admin_config) field list" where
  "initial_admin_config_fields fi = [
     (''username'', at_field ia_Username ia_Username_update dec_string),
     (''password'', at_field ia_Password ia_Password_update dec_string),
     (''password_env'', at_field ia_PasswordEnv ia_PasswordEnv_update dec_string)]"

definition auth_config_fields :: "('f \<Rightarrow> int option) \<Rightarrow> ('f, auth_config) field list" where
  "auth_config_fields fi = [
     (''password_hash'', at_field au_PasswordHash au_PasswordHash_update dec_string),
     (''argon2id'', at_field au_Argon2id au_Argon2id_update (dec_struct (argon2id_config_fields fi))),
     (''initial_admin'', at_field au_InitialAdmin au_InitialAdmin_update (dec_struct (initial_admin_config_fields fi)))]"

definition retry_block_fields :: "('f \<Rightarrow> int option) \<Rightarrow> ('f, retry_block) field list" where
  "retry_block_fields fi = [
     (''max_attempts'', at_field rb_MaxAttempts rb_MaxAttempts_update (dec_int fi)),
     (''backoff_seconds'', at_field rb_BackoffSeconds rb_BackoffSeconds_update (dec_list 0 (dec_int fi)))]"

definition sink_config_fields :: "('f \<Rightarrow> int option) \<Rightarrow> ('f, sink_config) field list" where
  "sink_config_fields fi = [
     (''type'', at_field sk_Type sk_Type_update dec_string),
     (''enabled'', at_field sk_Enabled sk_Enabled_update (dec_opt False dec_bool)),
     (''path'', at_field sk_Path sk_Path_update dec_string),
     (''rotate_mb'', at_field sk_RotateMB sk_RotateMB_update (dec_int fi)),
     (''keep'', at_field sk_Keep sk_Keep_update (dec_int fi)),
     (''url'', at_field sk_URL sk_URL_update dec_string),
     (''secret'', at_field sk_Secret sk_Secret_update dec_string),
     (''secret_env'', at_field sk_SecretEnv sk_SecretEnv_update dec_string),
     (''timeout_seconds'', at_field sk_TimeoutSeconds sk_TimeoutSeconds_update (dec_int fi)),
     (''batch_max'', at_field sk_BatchMax sk_BatchMax_update (dec_int fi)),
     (''batch_max_age_ms'', at_field sk_BatchMaxAgeMs sk_BatchMaxAgeMs_update (dec_int fi)),
     (''retry'', at_field sk_Retry sk_Retry_update (dec_opt zero_retry_block (dec_struct (retry_block_fields fi)))),
     (''dead_letter_path'', at_field sk_DeadLetterPath sk_DeadLetterPath_update dec_string),
     (''types'', at_field sk_Types sk_Types_update (dec_list [] dec_string))]"

definition events_config_fields :: "('f \<Rightarrow> int option) \<Rightarrow> ('f, events_config) field list" where
  "events_config_fields fi = [
     (''sinks'', at_field ev_Sinks ev_Sinks_update (dec_list zero_sink_config (dec_struct (sink_config_fields fi))))]"

definition bots_config_fields :: "('f \<Rightarrow> int option) \<Rightarrow> ('f, bots_config) field list" where
  "bots_config_fields fi = [
     (''enabled'', at_field bc_Enabled bc_Enabled_update dec_bool),
     (''max_bots'', at_field bc_MaxBots bc_MaxBots_update (dec_int fi)),
     (''per_bot_memory_mb'', at_field bc_PerBotMemoryMB bc_PerBotMemoryMB_update (dec_int fi)),
     (''per_bot_instruction_budget'', at_field bc_PerBotInstructionBudget bc_PerBotInstructionBudget_update (dec_int fi))]"

definition link_spec_fields :: "('f \<Rightarrow> int option) \<Rightarrow> ('f, link_spec) field list" where
  "link_spec_fields fi = [
     (''name'', at_field lk_Name lk_Name_update dec_string),
     (''accept'', at_field lk_Accept lk_Accept_update dec_bool),
     (''connect'', at_field lk_Connect lk_Connect_update dec_bool),
     (''host'', at_field lk_Host lk_Host_update dec_string),
     (''port'', at_field lk_Port lk_Port_update (dec_int fi)),
     (''password_in'', at_field lk_PasswordIn lk_PasswordIn_update dec_string),
     (''password_in_env'', at_field lk_PasswordInEnv lk_PasswordInEnv_update dec_string),
     (''password_out'', at_field lk_PasswordOut lk_PasswordOut_update dec_string),
     (''password_out_env'', at_field lk_PasswordOutEnv lk_PasswordOutEnv_update dec_string),
     (''tls'', at_field lk_TLS lk_TLS_update dec_bool),
     (''tls_fingerprint'', at_field lk_TLSFingerprint lk_TLSFingerprint_update dec_string),
     (''zip'', at_field lk_Zip lk_Zip_update dec_bool)]"

definition federation_config_fields :: "('f \<Rightarrow> int option) \<Rightarrow> ('f, federation_config) field list" where
  "federation_config_fields fi = [
     (''enabled'', at_field fc_Enabled fc_Enabled_update dec_bool),
     (''my_server_name'', at_field fc_MyServerName fc_MyServerName_update dec_string),
     (''listen_address'', at_field fc_ListenAddress fc_ListenAddress_update dec_string),
     (''listen_cert_file'', at_field fc_ListenCertFile fc_ListenCertFile_update dec_string),
     (''listen_key_file'', at_field fc_ListenKeyFile fc_ListenKeyFile_update dec_string),
     (''broadcast_mode'', at_field fc_BroadcastMode fc_BroadcastMode_update dec_string),
     (''links'', at_field fc_Links fc_Links_update (dec_list zero_link_spec (dec_struct (link_spec_fields fi))))]"

definition logging_config_fields :: "('f \<Rightarrow> int option) \<Rightarrow> ('f, logging_config) field list" where
  "logging_config_fields fi = [
     (''level'', at_field lg_Level lg_Level_update dec_string),
     (''format'', at_field lg_Format lg_Format_update dec_string),
     (''ring_buffer_entries'', at_field lg_RingBufferEntries lg_RingBufferEntries_update (dec_int fi))]"

definition operator_config_fields :: "('f \<Rightarrow> int option) \<Rightarrow> ('f, operator_config) field list" where
  "operator_config_fields fi = [
     (''name'', at_field oc_Name oc_Name_update dec_string),
     (''host_mask'', at_field oc_HostMask oc_HostMask_update dec_string),
     (''password_hash'', at_field oc_PasswordHash oc_PasswordHash_update dec_string),
     (''password_hash_env'', at_field oc_PasswordHashEnv oc_PasswordHashEnv_update dec_string),
     (''flags'', at_field oc_Flags oc_Flags_update (dec_list [] dec_string))]"

definition root_config_fields :: "('f \<Rightarrow> int option) \<Rightarrow> ('f, root_config) field list" where
  "root_config_fields fi = [
     (''version'', at_field rc_Version rc_Version_update (dec_int fi)),
     (''server'', at_field rc_Server rc_Server_update (dec_struct (server_config_fields fi))),
     (''storage'', at_field rc_Storage rc_Storage_update (dec_struct (storage_config_fields fi))),
     (''dashboard'', at_field rc_Dashboard rc_Dashboard_update (dec_struct (dashboard_config_fields fi))),
     (''api'', at_field rc_API rc_API_update (dec_struct (api_config_fields fi))),
     (''auth'', at_field rc_Auth rc_Auth_update (dec_struct (auth_config_fields fi))),
     (''events'', at_field rc_Events rc_Events_update (dec_struct (events_config_fields fi))),
     (''bots'', at_field rc_Bots rc_Bots_update (dec_struct (bots_config_fields fi))),
     (''federation'', at_field rc_Federation rc_Federation_update (dec_struct (federation_config_fields fi))),
     (''logging'', at_field rc_Logging rc_Logging_update (dec_struct (logging_config_fields fi))),
     (''operators'', at_field rc_Operators rc_Operators_update (dec_list zero_operator_config (dec_struct (operator_config_fields fi))))]"

section \<open>Loading\<close>

text \<open>\<^verbatim>\<open>json.Marshal\<close> writes the keys of a map in order.\<close>

fun sort_keys :: "'f yaml \<Rightarrow> 'f yaml" where
  "sort_keys (YMap kvs) = YMap (sort_key fst (map (\<lambda>(k, t). (k, sort_keys t)) kvs))"
| "sort_keys (YList ts) = YList (map sort_keys ts)"
| "sort_keys t = t"

definition load_json :: "(string \<Rightarrow> 'f yaml option) \<Rightarrow> ('f \<Rightarrow> int option) \<Rightarrow> string \<Rightarrow> config_error + root_config" where
  "load_json json fi data =
     (case json data of
        None \<Rightarrow> Inl BadJson
      | Some t \<Rightarrow> dec_struct (root_config_fields fi) t zero_root_config)"

definition load_yaml :: "(string \<Rightarrow> 'f option) \<Rightarrow> ('f \<Rightarrow> int option) \<Rightarrow> string \<Rightarrow> config_error + root_config" where
  "load_yaml pf fi data =
     (case parse_yaml pf data of
        Some (Inr YNull) \<Rightarrow> Inr zero_root_config
      | Some (Inr t) \<Rightarrow> dec_struct (root_config_fields fi) (sort_keys t) zero_root_config
      | Some (Inl e) \<Rightarrow> Inl (BadYaml e)
      | None \<Rightarrow> Inl BadJson)"

datatype format = JsonFormat | YamlFormat

definition format_from_ext :: "string \<Rightarrow> format option" where
  "format_from_ext path =
     (let e = to_lower (ext_of path) in
      if e = ''.json'' then Some JsonFormat else if e \<in> set [''.yaml'', ''.yml''] then Some YamlFormat else None)"

text \<open>What \<^verbatim>\<open>Load\<close> finds outside: standard input, the files, the environment.\<close>

record outside =
  ou_Stdin :: "string option"
  ou_File :: "string \<Rightarrow> string option"
  ou_Env :: "string \<Rightarrow> string"

definition finish_config :: "outside \<Rightarrow> string \<Rightarrow> root_config \<Rightarrow> config_error + root_config" where
  "finish_config ou base c =
     bind_ok (resolve_env (ou_Env ou) (resolve_paths_relative_to base (apply_defaults c))) (\<lambda>c'.
       case validate c' of Some e \<Rightarrow> Inl e | None \<Rightarrow> Inr c')"

definition load_config ::
  "(string \<Rightarrow> 'f yaml option) \<Rightarrow> (string \<Rightarrow> 'f option) \<Rightarrow> ('f \<Rightarrow> int option) \<Rightarrow> outside \<Rightarrow> string \<Rightarrow> config_error + root_config" where
  "load_config json pf fi ou path =
     (if path = ''-'' then
        (case ou_Stdin ou of
           None \<Rightarrow> Inl Unreadable
         | Some data \<Rightarrow> bind_ok (load_json json fi data) (finish_config ou []))
      else case format_from_ext path of
        None \<Rightarrow> Inl (UnknownExtension path)
      | Some k \<Rightarrow>
          (case ou_File ou path of
             None \<Rightarrow> Inl Unreadable
           | Some data \<Rightarrow>
               bind_ok (case k of JsonFormat \<Rightarrow> load_json json fi data | YamlFormat \<Rightarrow> load_yaml pf fi data)
                 (finish_config ou (dir_of path))))"

end
