(* ===== verification/Config_Props.thy ===== *)
theory Config_Props
  imports Config_Load
begin

text \<open>
  What the daemon may rely on once its configuration is loaded: every check passed, no default is left out, every secret
  named in the environment was found there, and loading the result again would change nothing.
\<close>

section \<open>Each stage is a projection\<close>

lemma or_default_idem [simp]: "or_default z d (or_default z d x) = or_default z d x"
  by (simp add: or_default_def)

lemma or_default_fixed: "d \<noteq> z \<Longrightarrow> or_default z d x = x \<longleftrightarrow> x \<noteq> z"
  by (simp add: or_default_def)

lemma default_limits_idem [simp]: "default_limits (default_limits l) = default_limits l"
  by (simp add: default_limits_def)

lemma default_storage_idem [simp]: "default_storage (default_storage s) = default_storage s"
  by (simp add: default_storage_def Let_def or_default_def)

lemma default_session_idem [simp]: "default_session (default_session s) = default_session s"
  by (simp add: default_session_def)

lemma default_auth_idem [simp]: "default_auth (default_auth a) = default_auth a"
  by (simp add: default_auth_def)

lemma default_logging_idem [simp]: "default_logging (default_logging l) = default_logging l"
  by (simp add: default_logging_def)

lemma apply_defaults_idem [simp]: "apply_defaults (apply_defaults c) = apply_defaults c"
  by (simp add: apply_defaults_def)

lemma is_abs_clean [simp]: "is_abs (clean_path p) \<longleftrightarrow> is_abs p" if "is_abs p"
  using that by (simp add: clean_path_def is_abs_def has_prefix_def Let_def)

lemma is_abs_append: "is_abs p \<Longrightarrow> is_abs (p @ q)"
  by (cases p) (auto simp: is_abs_def has_prefix_def)

lemma rel_path_abs: "is_abs base \<Longrightarrow> rel_path base p = [] \<or> is_abs (rel_path base p)"
  using is_abs_clean [OF is_abs_append, of base "''/'' @ p"] is_abs_append [of base "''/'' @ p"]
  by (auto simp: rel_path_def join_path_def is_abs_def has_prefix_def)

lemma rel_path_idem [simp]: "is_abs base \<Longrightarrow> rel_path base (rel_path base p) = rel_path base p"
  using rel_path_abs [of base p] by (auto simp: rel_path_def [of base "rel_path base p"])

lemma resolve_paths_idem: "base = [] \<or> is_abs base \<Longrightarrow> resolve_paths_relative_to base (resolve_paths_relative_to base c) = resolve_paths_relative_to base c"
  by (auto simp: resolve_paths_relative_to_def Let_def)

lemma pull_idem: "pull lookup d env f i = Inr v \<Longrightarrow> pull lookup v env f i = Inr v"
  by (auto simp: pull_def split: if_splits)

lemma pull_env: "pull lookup d env f i = Inr v \<Longrightarrow> env \<noteq> [] \<Longrightarrow> v = lookup env \<and> v \<noteq> []"
  by (auto simp: pull_def split: if_splits)

lemma each_from_idem:
  assumes "each_from i f xs = Inr ys" "\<And>i x y. f i x = Inr y \<Longrightarrow> f i y = Inr y"
  shows "each_from i f ys = Inr ys"
  using assms by (auto simp: each_from_Inr)

lemma sink_env_Inr:
  assumes "sink_env lookup i s = Inr s'"
  obtains v where "pull lookup (sk_Secret s) (sk_SecretEnv s) ''events.sinks[%d].secret_env'' (Some i) = Inr v" "s' = s\<lparr>sk_Secret := v\<rparr>"
  using assms by (auto simp: sink_env_def)

lemma link_env_Inr:
  assumes "link_env lookup i l = Inr l'"
  obtains pin pout where
    "pull lookup (lk_PasswordIn l) (lk_PasswordInEnv l) ''federation.links[%d].password_in_env'' (Some i) = Inr pin"
    "pull lookup (lk_PasswordOut l) (lk_PasswordOutEnv l) ''federation.links[%d].password_out_env'' (Some i) = Inr pout"
    "l' = l\<lparr>lk_PasswordIn := pin, lk_PasswordOut := pout\<rparr>"
  using assms by (auto simp: link_env_def)

lemma operator_env_Inr:
  assumes "operator_env lookup i op = Inr op'"
  obtains v where "pull lookup (oc_PasswordHash op) (oc_PasswordHashEnv op) ''operators[%d].password_hash_env'' (Some i) = Inr v"
    "op' = op\<lparr>oc_PasswordHash := v\<rparr>"
  using assms by (auto simp: operator_env_def)

lemma sink_env_idem: "sink_env lookup i s = Inr s' \<Longrightarrow> sink_env lookup i s' = Inr s'"
  by (erule sink_env_Inr) (simp add: sink_env_def pull_idem)

lemma link_env_idem: "link_env lookup i l = Inr l' \<Longrightarrow> link_env lookup i l' = Inr l'"
  by (erule link_env_Inr) (simp add: link_env_def pull_idem)

lemma operator_env_idem: "operator_env lookup i op = Inr op' \<Longrightarrow> operator_env lookup i op' = Inr op'"
  by (erule operator_env_Inr) (simp add: operator_env_def pull_idem)

lemma resolve_env_Inr:
  assumes "resolve_env lookup c = Inr c'"
  obtains dsn pw sinks links ops where
    "pull lookup (pg_DSN (st_Postgres (rc_Storage c))) (pg_DSNEnv (st_Postgres (rc_Storage c))) ''storage.postgres.dsn_env'' None = Inr dsn"
    "pull lookup (ia_Password (au_InitialAdmin (rc_Auth c))) (ia_PasswordEnv (au_InitialAdmin (rc_Auth c))) ''auth.initial_admin.password_env'' None = Inr pw"
    "each_from 0 (sink_env lookup) (ev_Sinks (rc_Events c)) = Inr sinks"
    "each_from 0 (link_env lookup) (fc_Links (rc_Federation c)) = Inr links"
    "each_from 0 (operator_env lookup) (rc_Operators c) = Inr ops"
    "c' = c\<lparr>rc_Storage := (rc_Storage c)\<lparr>st_Postgres := (st_Postgres (rc_Storage c))\<lparr>pg_DSN := dsn\<rparr>\<rparr>,
        rc_Auth := (rc_Auth c)\<lparr>au_InitialAdmin := (au_InitialAdmin (rc_Auth c))\<lparr>ia_Password := pw\<rparr>\<rparr>,
        rc_Events := (rc_Events c)\<lparr>ev_Sinks := sinks\<rparr>,
        rc_Federation := (rc_Federation c)\<lparr>fc_Links := links\<rparr>,
        rc_Operators := ops\<rparr>"
  using assms by (auto simp: resolve_env_def Let_def)

lemma resolve_env_idem:
  assumes "resolve_env lookup c = Inr c'"
  shows "resolve_env lookup c' = Inr c'"
  using assms
proof (rule resolve_env_Inr)
  fix dsn pw sinks links ops
  assume r: "pull lookup (pg_DSN (st_Postgres (rc_Storage c))) (pg_DSNEnv (st_Postgres (rc_Storage c))) ''storage.postgres.dsn_env'' None = Inr dsn"
    "pull lookup (ia_Password (au_InitialAdmin (rc_Auth c))) (ia_PasswordEnv (au_InitialAdmin (rc_Auth c))) ''auth.initial_admin.password_env'' None = Inr pw"
    and e: "each_from 0 (sink_env lookup) (ev_Sinks (rc_Events c)) = Inr sinks"
    "each_from 0 (link_env lookup) (fc_Links (rc_Federation c)) = Inr links"
    "each_from 0 (operator_env lookup) (rc_Operators c) = Inr ops"
    and c': "c' = c\<lparr>rc_Storage := (rc_Storage c)\<lparr>st_Postgres := (st_Postgres (rc_Storage c))\<lparr>pg_DSN := dsn\<rparr>\<rparr>,
        rc_Auth := (rc_Auth c)\<lparr>au_InitialAdmin := (au_InitialAdmin (rc_Auth c))\<lparr>ia_Password := pw\<rparr>\<rparr>,
        rc_Events := (rc_Events c)\<lparr>ev_Sinks := sinks\<rparr>,
        rc_Federation := (rc_Federation c)\<lparr>fc_Links := links\<rparr>,
        rc_Operators := ops\<rparr>"
  have "each_from 0 (sink_env lookup) sinks = Inr sinks" "each_from 0 (link_env lookup) links = Inr links"
    "each_from 0 (operator_env lookup) ops = Inr ops"
    by (rule each_from_idem [OF e(1) sink_env_idem] each_from_idem [OF e(2) link_env_idem] each_from_idem [OF e(3) operator_env_idem], assumption)+
  with r [THEN pull_idem] show ?thesis by (simp add: resolve_env_def Let_def c')
qed

section \<open>The stages do not disturb each other\<close>

lemma default_secrets:
  "default_storage (s\<lparr>st_Postgres := x\<rparr>) = (default_storage s)\<lparr>st_Postgres := x\<rparr>"
  "default_auth (a\<lparr>au_InitialAdmin := y\<rparr>) = (default_auth a)\<lparr>au_InitialAdmin := y\<rparr>"
  by (simp_all add: default_storage_def default_auth_def Let_def)

lemma default_secrets_kept:
  "st_Postgres (default_storage s) = st_Postgres s" "au_InitialAdmin (default_auth a) = au_InitialAdmin a"
  by (simp_all add: default_storage_def default_auth_def Let_def)

text \<open>The state of the settings after a stage, as the stages write it.\<close>

definition with_secrets :: "string \<Rightarrow> string \<Rightarrow> sink_config list \<Rightarrow> link_spec list \<Rightarrow> operator_config list \<Rightarrow> root_config \<Rightarrow> root_config" where
  "with_secrets dsn pw sinks links ops c =
     c\<lparr>rc_Storage := (rc_Storage c)\<lparr>st_Postgres := (st_Postgres (rc_Storage c))\<lparr>pg_DSN := dsn\<rparr>\<rparr>,
        rc_Auth := (rc_Auth c)\<lparr>au_InitialAdmin := (au_InitialAdmin (rc_Auth c))\<lparr>ia_Password := pw\<rparr>\<rparr>,
        rc_Events := (rc_Events c)\<lparr>ev_Sinks := sinks\<rparr>,
        rc_Federation := (rc_Federation c)\<lparr>fc_Links := links\<rparr>,
        rc_Operators := ops\<rparr>"

lemma defaults_with_secrets: "apply_defaults (with_secrets dsn pw sinks links ops c) = with_secrets dsn pw sinks links ops (apply_defaults c)"
  by (simp add: apply_defaults_def with_secrets_def default_secrets default_secrets_kept)

lemma resolve_env_keeps_defaults:
  assumes "resolve_env lookup c = Inr c'" "apply_defaults c = c"
  shows "apply_defaults c' = c'"
  using assms(1) by (rule resolve_env_Inr) (simp add: assms(2) defaults_with_secrets flip: with_secrets_def)

abbreviation resolve_sink :: "string \<Rightarrow> sink_config \<Rightarrow> sink_config" where
  "resolve_sink base k \<equiv> k\<lparr>sk_Path := rel_path base (sk_Path k), sk_DeadLetterPath := rel_path base (sk_DeadLetterPath k)\<rparr>"

lemma resolve_sink_fixed:
  "resolve_sink base k = k \<longleftrightarrow> rel_path base (sk_Path k) = sk_Path k \<and> rel_path base (sk_DeadLetterPath k) = sk_DeadLetterPath k"
  by (cases k) auto

lemma paths_with_secrets:
  "base \<noteq> [] \<Longrightarrow> resolve_paths_relative_to base (with_secrets dsn pw sinks links ops c) =
     with_secrets dsn pw (map (resolve_sink base) sinks) links ops (resolve_paths_relative_to base c)"
  by (simp add: resolve_paths_relative_to_def with_secrets_def Let_def)

lemma resolved_sinks: "base \<noteq> [] \<Longrightarrow> ev_Sinks (rc_Events (resolve_paths_relative_to base c)) = map (resolve_sink base) (ev_Sinks (rc_Events c))"
  by (simp add: resolve_paths_relative_to_def Let_def)

lemma resolve_env_keeps_paths:
  assumes "resolve_env lookup c = Inr c'" "resolve_paths_relative_to base c = c"
  shows "resolve_paths_relative_to base c' = c'"
proof (cases "base = []")
  case False
  from assms(1) show ?thesis
  proof (rule resolve_env_Inr, fold with_secrets_def)
    fix dsn pw sinks links ops
    assume e: "each_from 0 (sink_env lookup) (ev_Sinks (rc_Events c)) = Inr sinks" and c': "c' = with_secrets dsn pw sinks links ops c"
    have fixed: "map (resolve_sink base) (ev_Sinks (rc_Events c)) = ev_Sinks (rc_Events c)"
      using resolved_sinks [OF False, of c] assms(2) by simp
    have "resolve_sink base (sinks ! j) = sinks ! j" if j: "j < length sinks" for j
    proof -
      have "sink_env lookup j (ev_Sinks (rc_Events c) ! j) = Inr (sinks ! j)"
        using e j by (simp add: each_from_Inr)
      then obtain v where "sinks ! j = (ev_Sinks (rc_Events c) ! j)\<lparr>sk_Secret := v\<rparr>" by (rule sink_env_Inr)
      moreover have "resolve_sink base (ev_Sinks (rc_Events c) ! j) = ev_Sinks (rc_Events c) ! j"
        using arg_cong [OF fixed, of "\<lambda>xs. xs ! j"] j e by (simp add: each_from_Inr)
      ultimately show ?thesis unfolding resolve_sink_fixed by simp
    qed
    then have "map (resolve_sink base) sinks = sinks" by (simp add: list_eq_iff_nth_eq)
    then show ?thesis using assms(2) by (simp add: c' paths_with_secrets [OF False])
  qed
qed (simp add: resolve_paths_relative_to_def)

lemma resolve_paths_keeps_defaults:
  "apply_defaults c = c \<Longrightarrow> apply_defaults (resolve_paths_relative_to base c) = resolve_paths_relative_to base c"
proof -
  have "apply_defaults (resolve_paths_relative_to base c) = resolve_paths_relative_to base (apply_defaults c)"
    by (simp add: apply_defaults_def resolve_paths_relative_to_def default_storage_def Let_def)
  then show "apply_defaults c = c \<Longrightarrow> ?thesis" by simp
qed

text \<open>Passing a loaded configuration through the stages of loading again changes nothing.\<close>

lemma finish_config_idem:
  assumes "finish_config ou base c = Inr c'" "base = [] \<or> is_abs base"
  shows "finish_config ou base c' = Inr c'"
proof -
  let ?p = "resolve_paths_relative_to base (apply_defaults c)"
  have env: "resolve_env (ou_Env ou) ?p = Inr c'" and ok: "validate c' = None"
    using assms(1) by (auto simp: finish_config_def split: option.splits)
  have "apply_defaults c' = c'"
    by (rule resolve_env_keeps_defaults [OF env resolve_paths_keeps_defaults [OF apply_defaults_idem]])
  moreover have "resolve_paths_relative_to base c' = c'"
    by (rule resolve_env_keeps_paths [OF env resolve_paths_idem [OF assms(2)]])
  ultimately show ?thesis using resolve_env_idem [OF env] ok by (simp add: finish_config_def)
qed

section \<open>What a loaded configuration guarantees\<close>

lemma load_config_Inr:
  assumes "load_config json pf fi ou path = Inr c"
  obtains d base where "finish_config ou base d = Inr c" "path \<noteq> ''-'' \<longrightarrow> base = dir_of path"
  using assms by (auto simp: load_config_def split: if_splits option.splits)

lemma finish_config_fixed:
  assumes "finish_config ou base d = Inr c"
  shows "validate c = None" "apply_defaults c = c" "resolve_env (ou_Env ou) c = Inr c"
proof -
  have env: "resolve_env (ou_Env ou) (resolve_paths_relative_to base (apply_defaults d)) = Inr c" and ok: "validate c = None"
    using assms by (auto simp: finish_config_def split: option.splits)
  show "validate c = None" by (rule ok)
  show "apply_defaults c = c"
    by (rule resolve_env_keeps_defaults [OF env resolve_paths_keeps_defaults [OF apply_defaults_idem]])
  show "resolve_env (ou_Env ou) c = Inr c" by (rule resolve_env_idem [OF env])
qed

lemma each_from_results:
  assumes "each_from i f xs = Inr ys" "\<And>i x y. f i x = Inr y \<Longrightarrow> P y"
  shows "\<forall>y \<in> set ys. P y"
  using assms by (auto simp: each_from_Inr all_set_conv_all_nth)

lemma entry_secrets:
  "sink_env lookup i k = Inr k' \<Longrightarrow> sk_SecretEnv k' \<noteq> [] \<longrightarrow> sk_Secret k' = lookup (sk_SecretEnv k')"
  "link_env lookup i l = Inr l' \<Longrightarrow> (lk_PasswordInEnv l' \<noteq> [] \<longrightarrow> lk_PasswordIn l' = lookup (lk_PasswordInEnv l')) \<and>
     (lk_PasswordOutEnv l' \<noteq> [] \<longrightarrow> lk_PasswordOut l' = lookup (lk_PasswordOutEnv l'))"
  "operator_env lookup i op = Inr op' \<Longrightarrow> oc_PasswordHashEnv op' \<noteq> [] \<longrightarrow> oc_PasswordHash op' = lookup (oc_PasswordHashEnv op')"
proof -
  show "sink_env lookup i k = Inr k' \<Longrightarrow> sk_SecretEnv k' \<noteq> [] \<longrightarrow> sk_Secret k' = lookup (sk_SecretEnv k')"
    by (erule sink_env_Inr) (auto dest: pull_env)
  show "link_env lookup i l = Inr l' \<Longrightarrow> (lk_PasswordInEnv l' \<noteq> [] \<longrightarrow> lk_PasswordIn l' = lookup (lk_PasswordInEnv l')) \<and>
     (lk_PasswordOutEnv l' \<noteq> [] \<longrightarrow> lk_PasswordOut l' = lookup (lk_PasswordOutEnv l'))"
    by (erule link_env_Inr) (auto dest: pull_env)
  show "operator_env lookup i op = Inr op' \<Longrightarrow> oc_PasswordHashEnv op' \<noteq> [] \<longrightarrow> oc_PasswordHash op' = lookup (oc_PasswordHashEnv op')"
    by (erule operator_env_Inr) (auto dest: pull_env)
qed

lemma resolved_secrets:
  assumes "resolve_env lookup c = Inr c'"
  shows "pg_DSNEnv (st_Postgres (rc_Storage c')) \<noteq> [] \<longrightarrow> pg_DSN (st_Postgres (rc_Storage c')) \<noteq> []"
    "\<forall>k \<in> set (ev_Sinks (rc_Events c')). sk_SecretEnv k \<noteq> [] \<longrightarrow> sk_Secret k = lookup (sk_SecretEnv k)"
    "\<forall>l \<in> set (fc_Links (rc_Federation c')). (lk_PasswordInEnv l \<noteq> [] \<longrightarrow> lk_PasswordIn l = lookup (lk_PasswordInEnv l)) \<and>
       (lk_PasswordOutEnv l \<noteq> [] \<longrightarrow> lk_PasswordOut l = lookup (lk_PasswordOutEnv l))"
    "\<forall>op \<in> set (rc_Operators c'). oc_PasswordHashEnv op \<noteq> [] \<longrightarrow> oc_PasswordHash op = lookup (oc_PasswordHashEnv op)"
proof -
  from assms obtain dsn pw sinks links ops where
    dsn: "pull lookup (pg_DSN (st_Postgres (rc_Storage c))) (pg_DSNEnv (st_Postgres (rc_Storage c))) ''storage.postgres.dsn_env'' None = Inr dsn"
    and e: "each_from 0 (sink_env lookup) (ev_Sinks (rc_Events c)) = Inr sinks"
      "each_from 0 (link_env lookup) (fc_Links (rc_Federation c)) = Inr links"
      "each_from 0 (operator_env lookup) (rc_Operators c) = Inr ops"
    and c': "c' = with_secrets dsn pw sinks links ops c"
    by (rule resolve_env_Inr) (simp flip: with_secrets_def)
  show "pg_DSNEnv (st_Postgres (rc_Storage c')) \<noteq> [] \<longrightarrow> pg_DSN (st_Postgres (rc_Storage c')) \<noteq> []"
    using pull_env [OF dsn] by (auto simp: c' with_secrets_def)
  show "\<forall>k \<in> set (ev_Sinks (rc_Events c')). sk_SecretEnv k \<noteq> [] \<longrightarrow> sk_Secret k = lookup (sk_SecretEnv k)"
    using each_from_results [OF e(1) entry_secrets(1)] by (simp add: c' with_secrets_def)
  show "\<forall>l \<in> set (fc_Links (rc_Federation c')). (lk_PasswordInEnv l \<noteq> [] \<longrightarrow> lk_PasswordIn l = lookup (lk_PasswordInEnv l)) \<and>
       (lk_PasswordOutEnv l \<noteq> [] \<longrightarrow> lk_PasswordOut l = lookup (lk_PasswordOutEnv l))"
    using each_from_results [OF e(2) entry_secrets(2)] by (simp add: c' with_secrets_def)
  show "\<forall>op \<in> set (rc_Operators c'). oc_PasswordHashEnv op \<noteq> [] \<longrightarrow> oc_PasswordHash op = lookup (oc_PasswordHashEnv op)"
    using each_from_results [OF e(3) entry_secrets(3)] by (simp add: c' with_secrets_def)
qed

lemma validated_server:
  assumes "validate c = None"
  shows "rc_Version c = schema_version" "looks_like_server_name (sc_Name (rc_Server c))"
    "lc_PingIntervalSeconds (sc_Limits (rc_Server c)) < lc_PingTimeoutSeconds (sc_Limits (rc_Server c))"
    "sc_Listeners (rc_Server c) \<noteq> []"
    "\<forall>l \<in> set (sc_Listeners (rc_Server c)). split_host_port (ls_Address l) \<noteq> None \<and> (ls_TLS l \<longrightarrow> ls_CertFile l \<noteq> [] \<and> ls_KeyFile l \<noteq> [])"
  using assms by (auto simp: validate_def check_server_def first_error_None all_set_conv_all_nth check_listener_def)

lemma validated_storage:
  "validate c = None \<Longrightarrow> st_Driver (rc_Storage c) = ''sqlite'' \<and> sq_Path (st_SQLite (rc_Storage c)) \<noteq> [] \<or>
     st_Driver (rc_Storage c) = ''postgres'' \<and> (pg_DSN (st_Postgres (rc_Storage c)) \<noteq> [] \<or> pg_DSNEnv (st_Postgres (rc_Storage c)) \<noteq> [])"
  by (auto simp: validate_def check_storage_def split: if_splits)

lemma validated_operators: "validate c = None \<Longrightarrow> \<forall>op \<in> set (rc_Operators c). oc_Name op \<noteq> [] \<and> oc_PasswordHash op \<noteq> []"
  by (simp add: validate_def first_error_None all_set_conv_all_nth check_operator_def)


section \<open>An example\<close>

definition example_file :: string where
  "example_file = join_with [CHR 0x0A] [
     ''server:'',
     ''  name: irc.example.org'',
     ''  network: ExampleNet  # the network'',
     ''  listeners:'',
     ''    - address: '' @ [CHR 0x22] @ ''0.0.0.0:6667'' @ [CHR 0x22],
     ''    - address: '' @ [CHR 0x22] @ ''[::]:6697'' @ [CHR 0x22],
     ''      tls: yes'',
     ''      cert_file: tls/cert.pem'',
     ''      key_file: tls/key.pem'',
     ''storage:'',
     ''  sqlite:'',
     ''    path: ../data/ircat.db'',
     ''operators:'',
     ''  - name: root'',
     ''    password_hash_env: ROOT_HASH'']"

definition example_outside :: outside where
  "example_outside = \<lparr>ou_Stdin = None, ou_File = (\<lambda>p. if p = ''/etc/ircat/ircat.yaml'' then Some example_file else None),
     ou_Env = (\<lambda>v. if v = ''ROOT_HASH'' then ''h'' else [])\<rparr>"

lemma example_loads:
  "case load_config (\<lambda>_. None) (\<lambda>_. None) (\<lambda>_ :: nat. None) example_outside ''/etc/ircat/ircat.yaml'' of
     Inl e \<Rightarrow> False
   | Inr c \<Rightarrow> length (rc_Operators c) = 1 \<and> sq_Path (st_SQLite (rc_Storage c)) = ''/etc/data/ircat.db''"
  by code_simp


end
