(* ===== verification/Event_Bus.thy ===== *)
theory Event_Bus
  imports Prelude "HOL-Library.Sublist" "HOL-Library.Multiset"
begin

text \<open>
  The outbound event bus, \<^verbatim>\<open>internal/events/events.go\<close>. A state holds the subscribers, the calls of \<^verbatim>\<open>Publish\<close> and
  \<^verbatim>\<open>Close\<close> that are under way, and whether the process has panicked; a step is one action of one goroutine, up to its next
  use of shared state. Which events the calls of \<^verbatim>\<open>Publish\<close> took a subscriber in for, which it has been offered and which its
  sink has handled are kept as histories, for the statements only, as is the number of subscribers at \<^verbatim>\<open>Close\<close>.
\<close>

section \<open>State\<close>

record bus_event =
  be_ID :: string
  be_Timestamp :: int
  be_Server :: string
  be_Type :: string
  be_Actor :: string
  be_Target :: string
  be_DataJSON :: string

record subscriber =
  su_cap :: nat
  su_inbox :: "bus_event list"
  su_closed :: bool
  su_dropped :: "64 word"
  su_done :: bool
  su_sinkClosed :: bool
  su_due :: "bus_event list"
  su_offered :: "bus_event list"
  su_handled :: "bus_event list"

text \<open>A call of \<^verbatim>\<open>Publish\<close> with the subscribers it has not come to; a call of \<^verbatim>\<open>Close\<close> with the inboxes to close and the workers to wait for.\<close>

record bus =
  bs_subscribers :: "subscriber list"
  bs_closed :: bool
  bs_publishing :: "(bus_event \<times> nat list) list"
  bs_closing :: "(nat list \<times> nat list) option"
  bs_panicked :: bool
  bs_atClose :: nat

definition new_bus :: bus where
  "new_bus = \<lparr>bs_subscribers = [], bs_closed = False, bs_publishing = [], bs_closing = None, bs_panicked = False, bs_atClose = 0\<rparr>"

definition new_subscriber :: "int \<Rightarrow> subscriber" where
  "new_subscriber queueSize = \<lparr>su_cap = (if queueSize \<le> 0 then 256 else nat queueSize), su_inbox = [], su_closed = False,
     su_dropped = 0, su_done = False, su_sinkClosed = False, su_due = [], su_offered = [], su_handled = []\<rparr>"

section \<open>Operations\<close>

definition subscribe :: "int \<Rightarrow> bus \<Rightarrow> bus" where
  "subscribe queueSize b = b\<lparr>bs_subscribers := bs_subscribers b @ [new_subscriber queueSize]\<rparr>"

definition upd_sub :: "nat \<Rightarrow> (subscriber \<Rightarrow> subscriber) \<Rightarrow> bus \<Rightarrow> bus" where
  "upd_sub i f b = b\<lparr>bs_subscribers := (bs_subscribers b)[i := f (bs_subscribers b ! i)]\<rparr>"

text \<open>The part of \<^verbatim>\<open>Publish\<close> under the lock.\<close>

definition publish :: "bus_event \<Rightarrow> bus \<Rightarrow> bus" where
  "publish ev b =
     (if bs_closed b then b
      else b\<lparr>bs_publishing := bs_publishing b @ [(ev, [0..<length (bs_subscribers b)])],
        bs_subscribers := map (\<lambda>s. s\<lparr>su_due := su_due s @ [ev]\<rparr>) (bs_subscribers b)\<rparr>)"

text \<open>The non-blocking send to an open inbox.\<close>

definition offer :: "bus_event \<Rightarrow> subscriber \<Rightarrow> subscriber" where
  "offer ev s =
     (let s = s\<lparr>su_offered := su_offered s @ [ev]\<rparr> in
      if length (su_inbox s) < su_cap s then s\<lparr>su_inbox := su_inbox s @ [ev]\<rparr>
      else s\<lparr>su_dropped := su_dropped s + 1\<rparr>)"

text \<open>One turn of the loop of the call \<open>p\<close>; a send to a closed inbox panics.\<close>

definition publish_turn :: "nat \<Rightarrow> bus \<Rightarrow> bus" where
  "publish_turn p b =
     (case bs_publishing b ! p of
        (ev, []) \<Rightarrow> b\<lparr>bs_publishing := take p (bs_publishing b) @ drop (Suc p) (bs_publishing b)\<rparr>
      | (ev, i # is) \<Rightarrow>
          if su_closed (bs_subscribers b ! i) then b\<lparr>bs_panicked := True\<rparr>
          else upd_sub i (offer ev) (b\<lparr>bs_publishing := (bs_publishing b)[p := (ev, is)]\<rparr>))"

text \<open>The part of \<^verbatim>\<open>Close\<close> under the lock, and its two loops.\<close>

definition close_bus :: "bus \<Rightarrow> bus" where
  "close_bus b =
     (if bs_closed b then b
      else b\<lparr>bs_closed := True, bs_atClose := length (bs_subscribers b),
        bs_closing := Some ([0..<length (bs_subscribers b)], [0..<length (bs_subscribers b)])\<rparr>)"

definition close_turn :: "bus \<Rightarrow> bus" where
  "close_turn b =
     (case bs_closing b of
        Some (i # is, ws) \<Rightarrow> upd_sub i (\<lambda>s. s\<lparr>su_closed := True\<rparr>) (b\<lparr>bs_closing := Some (is, ws)\<rparr>)
      | Some ([], w # ws) \<Rightarrow>
          if su_done (bs_subscribers b ! w) then upd_sub w (\<lambda>s. s\<lparr>su_sinkClosed := True\<rparr>) (b\<lparr>bs_closing := Some ([], ws)\<rparr>)
          else b
      | _ \<Rightarrow> b)"

text \<open>One turn of the worker loop: handle the next event, or end when the inbox is closed and empty.\<close>

definition run_turn :: "subscriber \<Rightarrow> subscriber" where
  "run_turn s =
     (case su_inbox s of
        ev # evs \<Rightarrow> s\<lparr>su_inbox := evs, su_handled := su_handled s @ [ev]\<rparr>
      | [] \<Rightarrow> if su_closed s then s\<lparr>su_done := True\<rparr> else s)"

section \<open>Steps\<close>

inductive bus_step :: "bus \<Rightarrow> bus \<Rightarrow> bool" where
  Subscribe: "\<not> bs_panicked b \<Longrightarrow> bus_step b (subscribe q b)"
| Publish: "\<not> bs_panicked b \<Longrightarrow> bus_step b (publish ev b)"
| PublishTurn: "\<not> bs_panicked b \<Longrightarrow> p < length (bs_publishing b) \<Longrightarrow> bus_step b (publish_turn p b)"
| Run: "\<not> bs_panicked b \<Longrightarrow> i < length (bs_subscribers b) \<Longrightarrow> \<not> su_done (bs_subscribers b ! i) \<Longrightarrow> bus_step b (upd_sub i run_turn b)"
| Close: "\<not> bs_panicked b \<Longrightarrow> bus_step b (close_bus b)"
| CloseTurn: "\<not> bs_panicked b \<Longrightarrow> bus_step b (close_turn b)"

inductive bus_reachable :: "bus \<Rightarrow> bool" where
  Start: "bus_reachable new_bus"
| Step: "bus_reachable b \<Longrightarrow> bus_step b b' \<Longrightarrow> bus_reachable b'"

inductive_cases bus_stepE: "bus_step b b'"

section \<open>What holds of every subscriber\<close>

definition wf_subscriber :: "subscriber \<Rightarrow> bool" where
  "wf_subscriber s =
     (length (su_inbox s) \<le> su_cap s \<and> 0 < su_cap s \<and>
      subseq (su_handled s @ su_inbox s) (su_offered s) \<and>
      of_nat (length (su_offered s)) = of_nat (length (su_handled s) + length (su_inbox s)) + su_dropped s \<and>
      (su_done s \<longrightarrow> su_closed s \<and> su_inbox s = []) \<and> (su_sinkClosed s \<longrightarrow> su_done s))"

lemma wf_new_subscriber: "wf_subscriber (new_subscriber q)"
  by (simp add: wf_subscriber_def new_subscriber_def)

lemma wf_offer: "wf_subscriber s \<Longrightarrow> \<not> su_closed s \<Longrightarrow> wf_subscriber (offer ev s)"
  by (auto simp: wf_subscriber_def offer_def Let_def simp flip: append_assoc)

lemma wf_run_turn: "wf_subscriber s \<Longrightarrow> \<not> su_done s \<Longrightarrow> wf_subscriber (run_turn s)"
  by (auto simp: wf_subscriber_def run_turn_def split: list.splits)

lemma wf_close: "wf_subscriber s \<Longrightarrow> wf_subscriber (s\<lparr>su_closed := True\<rparr>)"
  by (auto simp: wf_subscriber_def)

lemma wf_close_sink: "wf_subscriber s \<Longrightarrow> su_done s \<Longrightarrow> wf_subscriber (s\<lparr>su_sinkClosed := True\<rparr>)"
  by (auto simp: wf_subscriber_def)

lemma wf_due: "wf_subscriber s \<Longrightarrow> wf_subscriber (s\<lparr>su_due := d\<rparr>)"
  by (auto simp: wf_subscriber_def)

section \<open>The invariant of the bus\<close>

text \<open>The events whose calls still have to come to the subscriber \<open>i\<close>.\<close>

definition awaited :: "nat \<Rightarrow> (bus_event \<times> nat list) list \<Rightarrow> bus_event multiset" where
  "awaited i ps = mset (map fst (filter (\<lambda>p. i \<in> set (snd p)) ps))"

definition wf_pending :: "bus \<Rightarrow> bool" where
  "wf_pending b = (\<forall>(ev, is) \<in> set (bs_publishing b). distinct is \<and> (\<forall>i \<in> set is. i < length (bs_subscribers b)))"

definition balanced :: "bus \<Rightarrow> bool" where
  "balanced b =
     (\<forall>i < length (bs_subscribers b).
        mset (su_due (bs_subscribers b ! i)) = mset (su_offered (bs_subscribers b ! i)) + awaited i (bs_publishing b))"

definition wf_closing :: "bus \<Rightarrow> bool" where
  "wf_closing b =
     (bs_atClose b \<le> length (bs_subscribers b) \<and>
      (case bs_closing b of
         None \<Rightarrow> \<not> bs_closed b
       | Some (cs, ws) \<Rightarrow> bs_closed b \<and> (\<forall>i \<in> set cs \<union> set ws. i < bs_atClose b) \<and>
           (\<forall>i < bs_atClose b. (i \<in> set cs \<or> su_closed (bs_subscribers b ! i)) \<and> (i \<in> set ws \<or> su_sinkClosed (bs_subscribers b ! i)))))"

definition wf_bus :: "bus \<Rightarrow> bool" where
  "wf_bus b = ((\<forall>i < length (bs_subscribers b). wf_subscriber (bs_subscribers b ! i)) \<and> wf_pending b \<and> balanced b \<and> wf_closing b)"

lemma wf_new_bus: "wf_bus new_bus"
  by (simp add: wf_bus_def new_bus_def wf_closing_def wf_pending_def balanced_def)

lemma awaited_append [simp]: "awaited i (ps @ qs) = awaited i ps + awaited i qs"
  by (simp add: awaited_def)

lemma awaited_Cons [simp]: "awaited i (p # ps) = (if i \<in> set (snd p) then {#fst p#} else {#}) + awaited i ps"
  by (simp add: awaited_def)

lemma awaited_Nil [simp]: "awaited i [] = {#}"
  by (simp add: awaited_def)

lemma awaited_out_of_range: "wf_pending b \<Longrightarrow> awaited (length (bs_subscribers b)) (bs_publishing b) = {#}"
  by (fastforce simp: awaited_def filter_empty_conv wf_pending_def)

lemma length_upd_sub [simp]: "length (bs_subscribers (upd_sub i f b)) = length (bs_subscribers b)"
  by (simp add: upd_sub_def)

lemma nth_upd_sub: "j < length (bs_subscribers b) \<Longrightarrow> bs_subscribers (upd_sub i f b) ! j = (if j = i then f (bs_subscribers b ! i) else bs_subscribers b ! j)"
  by (simp add: upd_sub_def)

lemma upd_sub_rest [simp]: "bs_publishing (upd_sub i f b) = bs_publishing b" "bs_closing (upd_sub i f b) = bs_closing b"
  "bs_closed (upd_sub i f b) = bs_closed b" "bs_atClose (upd_sub i f b) = bs_atClose b" "bs_panicked (upd_sub i f b) = bs_panicked b"
  by (simp_all add: upd_sub_def)

lemma wf_subscribe: "wf_bus b \<Longrightarrow> wf_bus (subscribe q b)"
  unfolding wf_bus_def
proof (elim conjE, intro conjI)
  assume w: "wf_pending b" "balanced b" "wf_closing b" "\<forall>i < length (bs_subscribers b). wf_subscriber (bs_subscribers b ! i)"
  show "\<forall>i < length (bs_subscribers (subscribe q b)). wf_subscriber (bs_subscribers (subscribe q b) ! i)"
    using w(4) by (auto simp: subscribe_def nth_append less_Suc_eq wf_new_subscriber)
  show "wf_pending (subscribe q b)" using w(1) by (fastforce simp: wf_pending_def subscribe_def)
  show "balanced (subscribe q b)" using w(2) awaited_out_of_range [OF w(1)]
    by (auto simp: balanced_def subscribe_def nth_append less_Suc_eq new_subscriber_def)
  show "wf_closing (subscribe q b)" using w(3) by (auto simp: wf_closing_def subscribe_def nth_append split: option.splits)
qed

lemma wf_publish: "wf_bus b \<Longrightarrow> wf_bus (publish ev b)"
  unfolding wf_bus_def
proof (elim conjE, intro conjI)
  assume w: "wf_pending b" "balanced b" "wf_closing b" "\<forall>i < length (bs_subscribers b). wf_subscriber (bs_subscribers b ! i)"
  show "\<forall>i < length (bs_subscribers (publish ev b)). wf_subscriber (bs_subscribers (publish ev b) ! i)"
    using w(4) by (auto simp: publish_def wf_due)
  show "wf_pending (publish ev b)" using w(1) by (auto simp: wf_pending_def publish_def)
  show "balanced (publish ev b)" using w(2) by (auto simp: balanced_def publish_def)
  show "wf_closing (publish ev b)" using w(3) by (auto simp: wf_closing_def publish_def split: option.splits)
qed

lemma wf_upd_sub:
  assumes "wf_bus b" "wf_subscriber (bs_subscribers b ! i) \<Longrightarrow> wf_subscriber (f (bs_subscribers b ! i))"
    "\<And>s. su_due (f s) = su_due s \<and> su_offered (f s) = su_offered s \<and> (su_closed s \<longrightarrow> su_closed (f s)) \<and> (su_sinkClosed s \<longrightarrow> su_sinkClosed (f s))"
  shows "wf_bus (upd_sub i f b)"
proof -
  have w: "wf_pending b" "balanced b" "wf_closing b" "\<forall>j < length (bs_subscribers b). wf_subscriber (bs_subscribers b ! j)"
    using assms(1) by (simp_all add: wf_bus_def)
  have "\<forall>j < length (bs_subscribers b). wf_subscriber (bs_subscribers (upd_sub i f b) ! j)"
    using w(4) assms(2) by (auto simp: nth_upd_sub)
  moreover have "wf_pending (upd_sub i f b)" using w(1) by (simp add: wf_pending_def)
  moreover have "balanced (upd_sub i f b)" using w(2) assms(3) by (simp add: balanced_def nth_upd_sub)
  moreover have "wf_closing (upd_sub i f b)" using w(3) assms(3) by (auto simp: wf_closing_def nth_upd_sub split: option.splits)
  ultimately show ?thesis by (simp add: wf_bus_def)
qed

lemma offer_keeps [simp]: "su_due (offer ev s) = su_due s" "su_offered (offer ev s) = su_offered s @ [ev]"
  "su_closed (offer ev s) = su_closed s" "su_sinkClosed (offer ev s) = su_sinkClosed s"
  by (simp_all add: offer_def Let_def)

lemma wf_publish_turn:
  assumes "wf_bus b" "p < length (bs_publishing b)"
  shows "wf_bus (publish_turn p b)"
proof -
  have w: "wf_pending b" "balanced b" "wf_closing b" "\<forall>j < length (bs_subscribers b). wf_subscriber (bs_subscribers b ! j)"
    using assms(1) by (simp_all add: wf_bus_def)
  obtain ev ks where p: "bs_publishing b ! p = (ev, ks)" by (cases "bs_publishing b ! p")
  define us where "us = take p (bs_publishing b)"
  define vs where "vs = drop (Suc p) (bs_publishing b)"
  have split: "bs_publishing b = us @ (ev, ks) # vs" "length us = p"
    using id_take_nth_drop [OF assms(2)] p assms(2) by (simp_all add: us_def vs_def)
  show ?thesis
  proof (cases ks)
    case Nil
    with w p split show ?thesis
      by (auto simp: publish_turn_def wf_bus_def wf_pending_def balanced_def wf_closing_def simp flip: us_def vs_def split: option.splits)
  next
    case (Cons i js)
    have i: "i < length (bs_subscribers b)" "i \<notin> set js" "distinct js" "\<forall>j \<in> set js. j < length (bs_subscribers b)"
      using w(1) Cons by (simp_all add: wf_pending_def split)
    show ?thesis
    proof (cases "su_closed (bs_subscribers b ! i)")
      case True
      with assms(1) show ?thesis
        by (auto simp: publish_turn_def p Cons wf_bus_def wf_pending_def balanced_def wf_closing_def split: option.splits)
    next
      case False
      let ?b = "upd_sub i (offer ev) (b\<lparr>bs_publishing := us @ (ev, js) # vs\<rparr>)"
      have "publish_turn p b = ?b" using False by (simp add: publish_turn_def split(1) Cons list_update_append flip: split(2))
      moreover have "\<forall>j < length (bs_subscribers b). wf_subscriber (bs_subscribers ?b ! j)"
        using w(4) False by (simp add: nth_upd_sub wf_offer)
      moreover have "wf_pending ?b" using w(1) i by (auto simp: wf_pending_def split)
      moreover have "balanced ?b" using w(2) i(2) by (auto simp: balanced_def nth_upd_sub split Cons)
      moreover have "wf_closing ?b" using w(3) by (auto simp: wf_closing_def nth_upd_sub split: option.splits)
      ultimately show ?thesis by (simp add: wf_bus_def)
    qed
  qed
qed

lemma wf_close_bus: "wf_bus b \<Longrightarrow> wf_bus (close_bus b)"
  by (auto simp: close_bus_def wf_bus_def wf_pending_def balanced_def wf_closing_def)

lemma wf_close_turn:
  assumes "wf_bus b"
  shows "wf_bus (close_turn b)"
proof (cases "bs_closing b")
  case (Some x)
  have w: "wf_pending b" "balanced b" "wf_closing b" "\<forall>j < length (bs_subscribers b). wf_subscriber (bs_subscribers b ! j)"
    using assms by (simp_all add: wf_bus_def)
  obtain cs ws where x: "x = (cs, ws)" by (cases x)
  show ?thesis
  proof (cases cs)
    case (Cons i ks)
    have "close_turn b = upd_sub i (\<lambda>s. s\<lparr>su_closed := True\<rparr>) (b\<lparr>bs_closing := Some (ks, ws)\<rparr>)"
      by (simp add: close_turn_def Some x Cons)
    moreover have "wf_bus (upd_sub i (\<lambda>s. s\<lparr>su_closed := True\<rparr>) (b\<lparr>bs_closing := Some (ks, ws)\<rparr>))"
      using w by (auto simp: wf_bus_def wf_pending_def balanced_def wf_closing_def nth_upd_sub wf_close Some x Cons)
    ultimately show ?thesis by simp
  next
    case Nil
    show ?thesis
    proof (cases ws)
      case (Cons i ks)
      have wf: "wf_bus (upd_sub i (\<lambda>s. s\<lparr>su_sinkClosed := True\<rparr>) (b\<lparr>bs_closing := Some ([], ks)\<rparr>))" if "su_done (bs_subscribers b ! i)"
        using w that by (auto simp: wf_bus_def wf_pending_def balanced_def wf_closing_def nth_upd_sub wf_close_sink Some x Cons Nil)
      show ?thesis using wf assms by (simp add: close_turn_def Some x Nil Cons)
    qed (use assms in \<open>simp add: close_turn_def Some x Nil\<close>)
  qed
qed (use assms in \<open>simp add: close_turn_def\<close>)

lemma wf_bus_step: "bus_step b b' \<Longrightarrow> wf_bus b \<Longrightarrow> wf_bus b'"
proof (induction rule: bus_step.induct)
  case (Run b i)
  then show ?case
    by (intro wf_upd_sub wf_run_turn) (auto simp: run_turn_def split: list.splits)
qed (simp_all add: wf_subscribe wf_publish wf_publish_turn wf_close_bus wf_close_turn)

lemma wf_reachable: "bus_reachable b \<Longrightarrow> wf_bus b"
  by (induction rule: bus_reachable.induct) (auto intro: wf_new_bus wf_bus_step)

section \<open>Runs\<close>

datatype action = ASubscribe int | APublish bus_event | APublishTurn nat | ARun nat | AClose | ACloseTurn

definition enabled :: "action \<Rightarrow> bus \<Rightarrow> bool" where
  "enabled a b =
     (\<not> bs_panicked b \<and>
      (case a of
         APublishTurn p \<Rightarrow> p < length (bs_publishing b)
       | ARun i \<Rightarrow> i < length (bs_subscribers b) \<and> \<not> su_done (bs_subscribers b ! i)
       | _ \<Rightarrow> True))"

fun act :: "action \<Rightarrow> bus \<Rightarrow> bus" where
  "act (ASubscribe q) b = subscribe q b"
| "act (APublish ev) b = publish ev b"
| "act (APublishTurn p) b = publish_turn p b"
| "act (ARun i) b = upd_sub i run_turn b"
| "act AClose b = close_bus b"
| "act ACloseTurn b = close_turn b"

fun run_acts :: "action list \<Rightarrow> bus \<Rightarrow> bus option" where
  "run_acts [] b = Some b"
| "run_acts (a # as) b = (if enabled a b then run_acts as (act a b) else None)"

lemma act_step: "enabled a b \<Longrightarrow> bus_step b (act a b)"
  by (cases a) (auto simp: enabled_def intro: bus_step.intros)

lemma run_acts_reachable: "bus_reachable b \<Longrightarrow> run_acts as b = Some b' \<Longrightarrow> bus_reachable b'"
  by (induction as arbitrary: b) (auto split: if_splits intro: act_step bus_reachable.Step)

section \<open>Delivery\<close>

text \<open>C15: Every event published is offered exactly once to every sink subscribed at that time, before the call returns. What
  the sink handles is what it was offered, in order, less the events counted as dropped (modulo the counter's width) because
  its inbox was full; a sink is closed only after its worker has drained the inbox.\<close>

theorem bus_delivery:
  assumes "bus_reachable b" "i < length (bs_subscribers b)"
  defines "s \<equiv> bs_subscribers b ! i"
  shows "mset (su_due s) = mset (su_offered s) + awaited i (bs_publishing b) \<and>
    subseq (su_handled s @ su_inbox s) (su_offered s) \<and>
    of_nat (length (su_offered s)) = of_nat (length (su_handled s) + length (su_inbox s)) + su_dropped s \<and>
    length (su_inbox s) \<le> su_cap s \<and> (su_sinkClosed s \<longrightarrow> su_closed s \<and> su_inbox s = [])"
proof -
  have "wf_subscriber s" "balanced b" using wf_reachable [OF assms(1)] assms(2) by (simp_all add: wf_bus_def s_def)
  then show ?thesis using assms(2) by (auto simp: wf_subscriber_def balanced_def s_def)
qed

definition example_event :: "string \<Rightarrow> bus_event" where
  "example_event t = \<lparr>be_ID = [], be_Timestamp = 0, be_Server = [], be_Type = t, be_Actor = [], be_Target = [], be_DataJSON = []\<rparr>"

text \<open>A sink with room for one event gets two at once.\<close>

definition overrun :: "bus option" where
  "overrun = run_acts [ASubscribe 1, APublish (example_event ''a''), APublish (example_event ''b''), APublishTurn 0, APublishTurn 1, ARun 0] new_bus"

lemma run_acts_from_new: "run_acts as new_bus = Some b \<Longrightarrow> bus_reachable b"
  by (rule run_acts_reachable [OF bus_reachable.Start])

lemma overrun_outcome:
  "case overrun of None \<Rightarrow> False
   | Some b \<Rightarrow> length (bs_subscribers b) = 1 \<and> su_handled (bs_subscribers b ! 0) = [example_event ''a''] \<and> su_dropped (bs_subscribers b ! 0) = 1 \<and>
       length (su_offered (bs_subscribers b ! 0)) = 2 \<and> bs_publishing b = [(example_event ''a'', []), (example_event ''b'', [])]"
  by code_simp

theorem bus_delivery_witness:
  "\<exists>b. bus_reachable b \<and> mset (su_due (bs_subscribers b ! 0)) = mset (su_offered (bs_subscribers b ! 0)) \<and>
     length (su_offered (bs_subscribers b ! 0)) = 2 \<and> su_handled (bs_subscribers b ! 0) = [example_event ''a'']"
proof -
  obtain b where b: "overrun = Some b" "length (bs_subscribers b) = 1" "su_handled (bs_subscribers b ! 0) = [example_event ''a'']"
    "length (su_offered (bs_subscribers b ! 0)) = 2" "bs_publishing b = [(example_event ''a'', []), (example_event ''b'', [])]"
    using overrun_outcome by (auto split: option.splits)
  have "bus_reachable b" using b(1) unfolding overrun_def by (rule run_acts_from_new)
  with bus_delivery [of b 0] b show ?thesis by (intro exI [of _ b]) auto
qed


definition shutdown :: "bus option" where
  "shutdown = run_acts [ASubscribe 1, APublish (example_event ''a''), APublishTurn 0, APublishTurn 0, AClose, ACloseTurn, ARun 0, ARun 0, ACloseTurn] new_bus"

lemma shutdown_outcome:
  "case shutdown of None \<Rightarrow> False
   | Some b \<Rightarrow> bs_closing b = Some ([], []) \<and> bs_atClose b = 1 \<and> su_handled (bs_subscribers b ! 0) = [example_event ''a'']"
  by code_simp



end
