(* ===== verification/Encoding.thy ===== *)
theory Encoding
  imports Auth
begin

text \<open>
  The text encodings of \<^verbatim>\<open>encoding/hex\<close> and of the unpadded URL alphabet of \<^verbatim>\<open>encoding/base64\<close>, which signatures
  and tokens are written in.
\<close>

definition hex_digit :: "nat \<Rightarrow> char" where
  "hex_digit d = (if d < 10 then char_of (48 + d) else char_of (87 + d))"

definition hex_string :: "string \<Rightarrow> string" where
  "hex_string s = concat (map (\<lambda>c. [hex_digit (of_char c div 16), hex_digit (of_char c mod 16)]) s)"

definition url_char :: "char \<Rightarrow> char" where
  "url_char c = (if c = CHR ''+'' then CHR ''-'' else if c = CHR ''/'' then CHR ''_'' else c)"

definition b64_url :: "string \<Rightarrow> string" where
  "b64_url s = map url_char (b64_encode s)"

end
