(* ===== verification/Event_Sinks.thy ===== *)
theory Event_Sinks
  imports Event_Bus Config Encoding
begin

text \<open>
  The two sinks of the event bus, \<^verbatim>\<open>internal/events/webhook.go\<close> and \<^verbatim>\<open>jsonl.go\<close>, and their construction from the
  configuration, \<^verbatim>\<open>cmd/ircat/events.go\<close>. The JSON text of an event is the argument \<open>enc\<close>, the keyed hash of the signature the
  argument \<open>hmac\<close>. What the endpoint answers to the attempt \<open>k\<close> is \<open>resp k\<close>. The directory of a log file is a map from
  names to contents, on which no operation fails but the renaming of a missing file. Durations are nanoseconds.
\<close>

section \<open>Webhook\<close>

record webhook_options =
  wo_URL :: string
  wo_Secret :: string
  wo_Timeout :: int
  wo_MaxRetries :: int
  wo_Backoff :: "nat \<Rightarrow> int"
  wo_DeadLetterPath :: string

definition second :: int where
  "second = 1000000000"

text \<open>\<^verbatim>\<open>time.Second << attempt\<close> is a 64-bit signed value.\<close>

definition default_backoff :: "nat \<Rightarrow> int" where
  "default_backoff attempt =
     (let d = push_bit attempt (1000000000 :: 64 word) in if sint d > 60 * second then 60 * second else sint d)"

text \<open>\<^verbatim>\<open>NewWebhookSink\<close>: the options in force; the dead letter file is opened when it is named.\<close>

definition webhook_defaults :: "(nat \<Rightarrow> int) option \<Rightarrow> webhook_options \<Rightarrow> webhook_options option" where
  "webhook_defaults backoff o1 =
     (if wo_URL o1 = [] then None
      else Some (o1\<lparr>wo_Timeout := (if wo_Timeout o1 = 0 then 5 * second else wo_Timeout o1),
        wo_MaxRetries := (if wo_MaxRetries o1 \<le> 0 then 5 else wo_MaxRetries o1),
        wo_Backoff := (case backoff of None \<Rightarrow> default_backoff | Some f \<Rightarrow> f)\<rparr>))"

datatype response = BadRequest | TransportError | Status int

definition request_headers :: "(string \<Rightarrow> string \<Rightarrow> string) \<Rightarrow> webhook_options \<Rightarrow> string \<Rightarrow> (string \<times> string) list" where
  "request_headers hmac opts body =
     (''Content-Type'', ''application/json'') #
     (if wo_Secret opts \<noteq> [] then [(''X-Ircat-Signature'', ''sha256='' @ hex_string (hmac (wo_Secret opts) body))] else [])"

text \<open>Whether an attempt succeeded, and whether its failure is permanent.\<close>

fun attempt_result :: "response \<Rightarrow> bool \<times> bool" where
  "attempt_result BadRequest = (False, True)"
| "attempt_result TransportError = (False, False)"
| "attempt_result (Status c) =
     (if 200 \<le> c \<and> c < 300 then (True, False) else if 400 \<le> c \<and> c < 500 then (False, True) else (False, False))"

text \<open>The loop over the attempts from \<open>k\<close> on, \<open>n\<close> of them: success, the number made, the delays waited.\<close>

fun attempt_loop :: "webhook_options \<Rightarrow> (nat \<Rightarrow> response) \<Rightarrow> nat \<Rightarrow> nat \<Rightarrow> bool \<times> nat \<times> int list" where
  "attempt_loop opts resp 0 k = (False, k, [])"
| "attempt_loop opts resp (Suc n) k =
     (let wait = (if k = 0 then [] else [wo_Backoff opts (k - 1)]) in
      case attempt_result (resp k) of
        (True, _) \<Rightarrow> (True, Suc k, wait)
      | (False, True) \<Rightarrow> (False, Suc k, wait)
      | (False, False) \<Rightarrow> (case attempt_loop opts resp n (Suc k) of (ok, m, ds) \<Rightarrow> (ok, m, wait @ ds)))"

datatype sink_error = NoDeadLetterFile | SinkFailed

text \<open>The dead letter file, if there is one, by its content.\<close>

definition write_dlq :: "(bus_event \<Rightarrow> string) \<Rightarrow> bus_event \<Rightarrow> string option \<Rightarrow> sink_error option \<times> string option" where
  "write_dlq enc ev dlq = (case dlq of None \<Rightarrow> (Some NoDeadLetterFile, None) | Some f \<Rightarrow> (None, Some (f @ enc ev @ [CHR 0x0A])))"

definition webhook_handle ::
  "(bus_event \<Rightarrow> string) \<Rightarrow> webhook_options \<Rightarrow> (nat \<Rightarrow> response) \<Rightarrow> bus_event \<Rightarrow> string option \<Rightarrow> sink_error option \<times> string option" where
  "webhook_handle enc opts resp ev dlq =
     (case attempt_loop opts resp (nat (wo_MaxRetries opts + 1)) 0 of
        (True, _) \<Rightarrow> (None, dlq)
      | (False, _) \<Rightarrow> write_dlq enc ev dlq)"

definition transient :: "response \<Rightarrow> bool" where
  "transient r = (attempt_result r = (False, False))"

definition accepted :: "response \<Rightarrow> bool" where
  "accepted r = fst (attempt_result r)"

lemma waits_upto:
  "k < m \<Longrightarrow> (if k = 0 then [] else [f (k - 1)]) @ map (\<lambda>j. f (j - 1)) [max 1 (Suc k)..<m] = map (\<lambda>j. f (j - 1)) [max 1 k..<m]"
  by (cases k) (simp_all add: upt_conv_Cons del: upt_Suc)

text \<open>The outcome of the loop is decided by the first attempt that is not transient.\<close>

lemma attempt_loop_spec:
  "attempt_loop opts resp n k =
     (case find (\<lambda>j. \<not> transient (resp j)) [k..<k + n] of
        None \<Rightarrow> (False, k + n, map (\<lambda>j. wo_Backoff opts (j - 1)) [max 1 k..<k + n])
      | Some j \<Rightarrow> (accepted (resp j), Suc j, map (\<lambda>j. wo_Backoff opts (j - 1)) [max 1 k..<Suc j]))"
proof (induction n arbitrary: k)
  case (Suc n)
  have up: "[k..<k + Suc n] = k # [Suc k..<Suc k + n]" by (simp add: upt_conv_Cons)
  consider "attempt_result (resp k) = (True, snd (attempt_result (resp k)))" | "attempt_result (resp k) = (False, True)" | "attempt_result (resp k) = (False, False)"
    by (cases "attempt_result (resp k)") auto
  then show ?case
  proof cases
    case 3
    have ge: "k < j" if "find (\<lambda>j. \<not> transient (resp j)) [Suc k..<Suc k + n] = Some j" for j
      using that unfolding find_Some_iff by (metis Suc_le_lessD atLeastLessThan_iff nth_mem set_upt)
    have k: "\<not> (\<lambda>j. \<not> transient (resp j)) k" using 3 by (simp add: transient_def)
    show ?thesis
    proof (cases "find (\<lambda>j. \<not> transient (resp j)) [Suc k..<Suc k + n]")
      case None
      then show ?thesis unfolding up find.simps using k 3 waits_upto [of k "k + Suc n" "wo_Backoff opts"]
        by (simp add: Suc.IH Let_def del: upt_Suc)
    next
      case (Some j)
      then show ?thesis unfolding up find.simps using k 3 waits_upto [of k "Suc j" "wo_Backoff opts"] ge [OF Some]
        by (simp add: Suc.IH Let_def del: upt_Suc)
    qed
  qed (unfold up, auto simp: Let_def transient_def accepted_def split: prod.splits)
qed simp

text \<open>The webhook makes at most one attempt more than its retries. The first answer that is not transient decides: a 2xx
  delivers the event, anything else that is final, or no final answer at all, puts it into the dead letter file, once, or is
  reported when there is none.\<close>

theorem webhook_outcome:
  "webhook_handle enc opts resp ev dlq =
     (case find (\<lambda>k. \<not> transient (resp k)) [0..<nat (wo_MaxRetries opts + 1)] of
        Some k \<Rightarrow> (if accepted (resp k) then (None, dlq) else write_dlq enc ev dlq)
      | None \<Rightarrow> write_dlq enc ev dlq) \<and>
   fst (snd (attempt_loop opts resp (nat (wo_MaxRetries opts + 1)) 0)) \<le> nat (wo_MaxRetries opts + 1)"
proof -
  have le: "Suc j \<le> n" if "find P [0..<n] = Some j" for P j n
    using that unfolding find_Some_iff by (metis Suc_leI atLeastLessThan_iff nth_mem set_upt)
  show ?thesis by (auto simp: webhook_handle_def attempt_loop_spec intro: le split: option.split)
qed

text \<open>The default delays double from a second up to a minute, until the shift overflows: from the 34th on they are no
  longer capped, and the first of those is negative.\<close>

theorem default_backoff_overflow:
  "map default_backoff [0..<35] = map (\<lambda>a. min (2 ^ a * second) (60 * second)) [0..<34] @ [- 1266874889709551616]"
  by code_simp

section \<open>JSON lines\<close>

record jsonl_options =
  jo_Base :: string
  jo_RotateBytes :: int
  jo_Keep :: int

text \<open>The sink: whether its file is open, and how much was written to it.\<close>

record jsonl_sink =
  js_open :: bool
  js_written :: int

type_synonym dir = "(string, string) gomap"

text \<open>\<^verbatim>\<open>fmt.Sscanf(s, "%d", ..)\<close>: an integer at the start of the text.\<close>

definition scan_d :: "string \<Rightarrow> int option" where
  "scan_d s =
     (let t = dropWhile (\<lambda>c. c = CHR '' '' \<or> c = CHR 0x09) s in
      if t \<noteq> [] \<and> (hd t = CHR ''-'' \<or> hd t = CHR ''+'') then parse_int (hd t # takeWhile is_digit (tl t))
      else parse_int (takeWhile is_digit t))"

definition rotated_number :: "string \<Rightarrow> string \<Rightarrow> int option" where
  "rotated_number base name =
     (if has_prefix (base @ ''.'') name then scan_d (drop (length base + 1) name) else None)"

definition list_rotated :: "string \<Rightarrow> dir \<Rightarrow> string list" where
  "list_rotated base d =
     sort_key (\<lambda>n. the (rotated_number base n)) (filter (\<lambda>n. rotated_number base n \<noteq> None) (map fst d))"

definition rotated_name :: "string \<Rightarrow> nat \<Rightarrow> string" where
  "rotated_name base i = base @ ''.'' @ itoa_nat i"

definition rename :: "string \<Rightarrow> string \<Rightarrow> dir \<Rightarrow> dir option" where
  "rename a b d = (case map_of d a of None \<Rightarrow> None | Some f \<Rightarrow> Some (if a = b then d else mput b f (mdel a d)))"

definition rename_anyway :: "string \<Rightarrow> string \<Rightarrow> dir \<Rightarrow> dir" where
  "rename_anyway a b d = (case rename a b d of None \<Rightarrow> d | Some d' \<Rightarrow> d')"

definition effective_keep :: "int \<Rightarrow> nat" where
  "effective_keep k = (if k \<le> 0 then 7 else nat k)"

text \<open>The two loops of the rotation over the existing files, and the whole.\<close>

definition remove_old :: "nat \<Rightarrow> string list \<Rightarrow> dir \<Rightarrow> dir" where
  "remove_old keep existing d = fold mdel (drop (keep - 1) existing) d"

definition shift_up :: "string \<Rightarrow> nat \<Rightarrow> string list \<Rightarrow> dir \<Rightarrow> dir" where
  "shift_up base keep existing d =
     fold (\<lambda>i. rename_anyway (existing ! i) (rotated_name base (i + 2))) (rev [0..<min (length existing) (keep - 1)]) d"

definition rotate :: "jsonl_options \<Rightarrow> jsonl_sink \<Rightarrow> dir \<Rightarrow> sink_error option \<times> jsonl_sink \<times> dir" where
  "rotate opts s d =
     (let base = jo_Base opts; keep = effective_keep (jo_Keep opts); existing = list_rotated base d;
          d1 = shift_up base keep existing (remove_old keep existing d) in
      case rename base (rotated_name base 1) d1 of
        None \<Rightarrow> (Some SinkFailed, s\<lparr>js_open := False\<rparr>, d1)
      | Some d2 \<Rightarrow> (None, s\<lparr>js_open := True, js_written := 0\<rparr>, mput base [] d2))"

definition open_jsonl :: "jsonl_options \<Rightarrow> dir \<Rightarrow> jsonl_sink \<times> dir" where
  "open_jsonl opts d =
     (case map_of d (jo_Base opts) of
        Some f \<Rightarrow> (\<lparr>js_open = True, js_written = int (length f)\<rparr>, d)
      | None \<Rightarrow> (\<lparr>js_open = True, js_written = 0\<rparr>, mput (jo_Base opts) [] d))"

definition jsonl_handle ::
  "(bus_event \<Rightarrow> string) \<Rightarrow> jsonl_options \<Rightarrow> bus_event \<Rightarrow> jsonl_sink \<Rightarrow> dir \<Rightarrow> sink_error option \<times> jsonl_sink \<times> dir" where
  "jsonl_handle enc opts ev s d =
     (if \<not> js_open s then (Some SinkFailed, s, d)
      else
        let line = enc ev @ [CHR 0x0A];
            d = mput (jo_Base opts) ((case map_of d (jo_Base opts) of Some f \<Rightarrow> f | None \<Rightarrow> []) @ line) d;
            s = s\<lparr>js_written := js_written s + int (length line)\<rparr> in
        if jo_RotateBytes opts > 0 \<and> js_written s \<ge> jo_RotateBytes opts then rotate opts s d else (None, s, d))"

section \<open>From the configuration\<close>

datatype sink_options = JsonlSink jsonl_options | WebhookSink webhook_options

text \<open>The delays of a retry block, the last one repeated.\<close>

definition schedule_backoff :: "int list \<Rightarrow> nat \<Rightarrow> int" where
  "schedule_backoff sch attempt = (if attempt \<ge> length sch then last sch * second else sch ! attempt * second)"

definition build_sink :: "sink_config \<Rightarrow> sink_options option" where
  "build_sink spec =
     (if sk_Type spec = ''jsonl'' then
        (if sk_Path spec = [] then None
         else Some (JsonlSink \<lparr>jo_Base = sk_Path spec, jo_RotateBytes = sk_RotateMB spec * 1024 * 1024, jo_Keep = sk_Keep spec\<rparr>))
      else if sk_Type spec = ''webhook'' then
        map_option WebhookSink
          (webhook_defaults
            (case sk_Retry spec of
               None \<Rightarrow> None
             | Some r \<Rightarrow> if rb_BackoffSeconds r = [] then None else Some (schedule_backoff (rb_BackoffSeconds r)))
            \<lparr>wo_URL = sk_URL spec, wo_Secret = sk_Secret spec,
             wo_Timeout = (if sk_TimeoutSeconds spec > 0 then sk_TimeoutSeconds spec * second else 0),
             wo_MaxRetries = (case sk_Retry spec of None \<Rightarrow> 0 | Some r \<Rightarrow> rb_MaxAttempts r),
             wo_Backoff = default_backoff, wo_DeadLetterPath = sk_DeadLetterPath spec\<rparr>)
      else None)"

text \<open>The sinks subscribed at startup, in order; \<^const>\<open>None\<close> when one cannot be built.\<close>

fun build_sinks :: "sink_config list \<Rightarrow> sink_options list option" where
  "build_sinks [] = Some []"
| "build_sinks (spec # specs) =
     (if sk_Enabled spec = Some False then build_sinks specs
      else case build_sink spec of
        None \<Rightarrow> None
      | Some s \<Rightarrow> map_option (\<lambda>ss. s # ss) (build_sinks specs))"

definition build_event_bus :: "sink_config list \<Rightarrow> (sink_options list \<times> bus) option" where
  "build_event_bus specs =
     map_option (\<lambda>ss. (ss, fold (\<lambda>_. subscribe 0) ss new_bus)) (build_sinks specs)"

end
