(* ===== verification/Jsonl_Props.thy ===== *)
theory Jsonl_Props
  imports Event_Sinks
begin

text \<open>
  What the rotation of the JSON lines sink keeps: the directory, seen as the list of contents from the current file to the
  oldest rotated one, is a queue of bounded length.
\<close>

section \<open>Names of rotated files\<close>

lemma scan_d_itoa: "i < 2 ^ 63 \<Longrightarrow> scan_d (itoa_nat i) = Some (int i)"
proof -
  assume i: "i < 2 ^ 63"
  obtain c cs where c: "itoa_nat i = c # cs" using itoa_nat_digits [of i] by (cases "itoa_nat i") auto
  have d: "list_all is_digit (c # cs)" using itoa_nat_digits [of i] c by simp
  have "\<forall>c. is_digit c \<longrightarrow> c \<noteq> CHR '' '' \<and> c \<noteq> CHR 0x09" by code_simp
  then have "c \<noteq> CHR '' ''" "c \<noteq> CHR 0x09" "c \<noteq> CHR ''-''" "c \<noteq> CHR ''+''" using d is_digit_not_sign [of c] by auto
  moreover have "takeWhile is_digit (c # cs) = c # cs" using d by (metis Ball_set takeWhile_eq_all_conv)
  ultimately show ?thesis using parse_int_itoa [OF i] by (simp only: scan_d_def Let_def c) simp
qed

lemma rotated_number_name: "i < 2 ^ 63 \<Longrightarrow> rotated_number base (rotated_name base i) = Some (int i)"
  by (simp add: rotated_number_def rotated_name_def has_prefix_def scan_d_itoa)

lemma rotated_name_inj: "rotated_name base i = rotated_name base j \<longleftrightarrow> i = j"
proof
  assume "rotated_name base i = rotated_name base j"
  then have "itoa_nat i = itoa_nat j" by (simp add: rotated_name_def)
  then show "i = j" by (metis itoa_nat_val)
qed simp

lemma rotated_name_not_base [simp]: "rotated_name base i \<noteq> base" "base \<noteq> rotated_name base i"
  by (simp_all add: rotated_name_def)

lemma rotated_number_base [simp]: "rotated_number base base = None"
  by (simp add: rotated_number_def has_prefix_def)

section \<open>A directory as a queue of contents\<close>

text \<open>\<open>cs\<close> is what the directory holds, the current file first, then the rotated files from the newest.\<close>

definition holds :: "string \<Rightarrow> dir \<Rightarrow> string list \<Rightarrow> bool" where
  "holds base d cs =
     (wf_map d \<and> cs \<noteq> [] \<and> map_of d base = Some (hd cs) \<and>
      (\<forall>i < length (tl cs). map_of d (rotated_name base (Suc i)) = Some (tl cs ! i)) \<and>
      (\<forall>n. mhas d n \<and> rotated_number base n \<noteq> None \<longrightarrow> (\<exists>i < length (tl cs). n = rotated_name base (Suc i))))"

lemma list_rotated_names:
  assumes "holds base d cs" "length cs < 2 ^ 63"
  shows "list_rotated base d = map (\<lambda>i. rotated_name base (Suc i)) [0..<length (tl cs)]"
proof -
  let ?key = "\<lambda>n. the (rotated_number base n)" and ?names = "map (\<lambda>i. rotated_name base (Suc i)) [0..<length (tl cs)]"
  have small: "Suc i < 2 ^ 63" if "i < length (tl cs)" for i using that assms(2) by simp
  have key: "?key (rotated_name base (Suc i)) = int (Suc i)" if "i < length (tl cs)" for i
    using rotated_number_name [OF small [OF that], of base] by simp
  have members: "set (list_rotated base d) = set ?names"
  proof
    show "set (list_rotated base d) \<subseteq> set ?names"
      using assms(1) by (auto simp: list_rotated_def holds_def mhas_iff)
    have "mhas d (rotated_name base (Suc i)) \<and> rotated_number base (rotated_name base (Suc i)) \<noteq> None" if "i < length (tl cs)" for i
      using assms(1) that rotated_number_name [OF small [OF that], of base] by (simp add: holds_def mhas_def)
    then show "set ?names \<subseteq> set (list_rotated base d)"
      by (auto simp: list_rotated_def mhas_iff)
  qed
  have keys: "map ?key ?names = map (\<lambda>i. int (Suc i)) [0..<length (tl cs)]" using key by simp
  have inj: "inj_on ?key (set (list_rotated base d) \<union> set ?names)"
    unfolding members Un_absorb by (auto simp: inj_on_def key)
  have "distinct (list_rotated base d)" using assms(1) by (simp add: list_rotated_def holds_def wf_map_def)
  then have "distinct (map ?key (list_rotated base d))" using inj by (simp add: distinct_map inj_on_Un)
  moreover have "sorted (map ?key (list_rotated base d))" by (simp add: list_rotated_def)
  moreover have "sorted (map ?key ?names)" "distinct (map ?key ?names)" unfolding keys by (simp_all add: sorted_iff_nth_mono distinct_map inj_on_def)
  moreover have "set (map ?key (list_rotated base d)) = set (map ?key ?names)" using members by (simp only: set_map)
  ultimately have "map ?key (list_rotated base d) = map ?key ?names" by (metis sorted_distinct_set_unique)
  then show ?thesis by (rule map_inj_on) (rule inj)
qed

section \<open>The loops of the rotation\<close>

lemma shift_loop:
  assumes "\<forall>i < k. map_of d (rotated_name base (Suc i)) = Some (r i)" "wf_map d"
  defines "d' \<equiv> fold (\<lambda>i. rename_anyway (rotated_name base (Suc i)) (rotated_name base (i + 2))) (rev [0..<k]) d"
  shows "wf_map d' \<and> (\<forall>i < k. map_of d' (rotated_name base (i + 2)) = Some (r i)) \<and> (0 < k \<longrightarrow> map_of d' (rotated_name base 1) = None) \<and>
    (\<forall>n. k = 0 \<or> (\<forall>i \<le> k. n \<noteq> rotated_name base (Suc i)) \<longrightarrow> map_of d' n = map_of d n)"
  using assms(1,2) unfolding d'_def
proof (induction k arbitrary: d)
  case (Suc k)
  let ?d = "mput (rotated_name base (k + 2)) (r k) (mdel (rotated_name base (Suc k)) d)"
  have step: "rename_anyway (rotated_name base (Suc k)) (rotated_name base (k + 2)) d = ?d"
    using Suc.prems(1) by (simp add: rename_anyway_def rename_def rotated_name_inj)
  have "\<forall>i < k. map_of ?d (rotated_name base (Suc i)) = Some (r i)" using Suc.prems(1) by (simp add: rotated_name_inj)
  note IH = Suc.IH [OF this wf_map_put [OF wf_map_del [OF Suc.prems(2)]]]
  define D where "D = fold (\<lambda>i. rename_anyway (rotated_name base (Suc i)) (rotated_name base (i + 2))) (rev [0..<k]) ?d"
  have fold: "fold (\<lambda>i. rename_anyway (rotated_name base (Suc i)) (rotated_name base (i + 2))) (rev [0..<Suc k]) d = D"
    by (simp add: D_def step [simplified])
  have D: "wf_map D" "\<forall>i < k. map_of D (rotated_name base (i + 2)) = Some (r i)" "0 < k \<longrightarrow> map_of D (rotated_name base 1) = None"
    "\<And>n. k = 0 \<or> (\<forall>i \<le> k. n \<noteq> rotated_name base (Suc i)) \<Longrightarrow> map_of D n = map_of ?d n"
    using IH unfolding D_def by blast+
  have "map_of D (rotated_name base (k + 2)) = Some (r k)" using D(4) [of "rotated_name base (k + 2)"] by (simp add: rotated_name_inj)
  moreover have "map_of D (rotated_name base 1) = None" using D(3) D(4) [of "rotated_name base 1"]
    by (cases k) (simp_all add: rotated_name_inj)
  moreover have "map_of D n = map_of d n" if "\<forall>i \<le> Suc k. n \<noteq> rotated_name base (Suc i)" for n
    using D(4) [of n] that by auto
  ultimately show ?case unfolding fold using D(1,2) by (auto simp: less_Suc_eq)
qed simp

lemma fold_mdel: "map_of (fold mdel ns d) n = (if n \<in> set ns then None else map_of d n)"
  by (induction ns arbitrary: d) auto

lemma wf_fold_mdel: "wf_map d \<Longrightarrow> wf_map (fold mdel ns d)"
  by (induction ns arbitrary: d) auto

lemma effective_keep_pos: "0 < effective_keep k"
  by (simp add: effective_keep_def)

lemma removed:
  fixes keep :: nat
  assumes "holds base d cs" "length cs < 2 ^ 63"
  defines "d0 \<equiv> remove_old keep (list_rotated base d) d"
  shows "wf_map d0" "\<And>i. i < length (tl cs) \<Longrightarrow> map_of d0 (rotated_name base (Suc i)) = (if i < keep - 1 then Some (tl cs ! i) else None)"
    "\<And>n. (\<forall>i < length (tl cs). n \<noteq> rotated_name base (Suc i)) \<Longrightarrow> map_of d0 n = map_of d n"
proof -
  have d0: "d0 = fold mdel (map (\<lambda>i. rotated_name base (Suc i)) [keep - 1..<length (tl cs)]) d"
    unfolding d0_def remove_old_def list_rotated_names [OF assms(1,2)] by (simp add: drop_map del: length_tl)
  show "wf_map d0" using assms(1) unfolding d0 by (intro wf_fold_mdel) (simp add: holds_def)
  show "map_of d0 (rotated_name base (Suc i)) = (if i < keep - 1 then Some (tl cs ! i) else None)" if "i < length (tl cs)" for i
    using assms(1) that unfolding d0 fold_mdel by (auto simp: holds_def rotated_name_inj)
  show "map_of d0 n = map_of d n" if "\<forall>i < length (tl cs). n \<noteq> rotated_name base (Suc i)" for n
    using that unfolding d0 fold_mdel by auto
qed

lemma shifted:
  fixes keep :: nat
  assumes "holds base d cs" "length cs < 2 ^ 62"
  defines "d1 \<equiv> shift_up base keep (list_rotated base d) (remove_old keep (list_rotated base d) d)" and "k \<equiv> min (length (tl cs)) (keep - 1)"
  shows "wf_map d1" "\<And>i. i < k \<Longrightarrow> map_of d1 (rotated_name base (i + 2)) = Some (tl cs ! i)"
    "\<And>n. \<forall>i < k. n \<noteq> rotated_name base (i + 2) \<Longrightarrow> rotated_number base n \<noteq> None \<Longrightarrow> map_of d1 n = None"
    "\<And>n. rotated_number base n = None \<Longrightarrow> map_of d1 n = map_of d n"
proof -
  have len: "length cs < 2 ^ 63" using assms(2) by simp
  define d0 where "d0 = remove_old keep (list_rotated base d) d"
  note rm = removed [OF assms(1) len, where keep = keep, folded d0_def]
  have ex: "list_rotated base d = map (\<lambda>i. rotated_name base (Suc i)) [0..<length (tl cs)]" by (rule list_rotated_names [OF assms(1) len])
  have d1: "d1 = fold (\<lambda>i. rename_anyway (rotated_name base (Suc i)) (rotated_name base (i + 2))) (rev [0..<k]) d0"
    unfolding d1_def shift_up_def d0_def [symmetric] by (intro fold_cong) (simp_all add: ex k_def)
  have "\<forall>i < k. map_of d0 (rotated_name base (Suc i)) = Some (tl cs ! i)" using rm(2) by (simp add: k_def)
  note sh = shift_loop [OF this rm(1), folded d1]
  show "wf_map d1" "\<And>i. i < k \<Longrightarrow> map_of d1 (rotated_name base (i + 2)) = Some (tl cs ! i)" using sh by blast+
  have rest: "map_of d1 n = map_of d0 n" if "k = 0 \<or> (\<forall>i \<le> k. n \<noteq> rotated_name base (Suc i))" for n using sh that by blast
  show "map_of d1 n = map_of d n" if n: "rotated_number base n = None" for n
  proof -
    have "n \<noteq> rotated_name base (Suc i)" if "i < 2 ^ 62" for i using rotated_number_name [of "Suc i" base] that n by auto
    then have "\<forall>i \<le> length (tl cs). n \<noteq> rotated_name base (Suc i)" using assms(2) by simp
    then show ?thesis using rest [of n] rm(3) [of n] by (auto simp: k_def)
  qed
  show "map_of d1 n = None" if n: "\<forall>i < k. n \<noteq> rotated_name base (i + 2)" "rotated_number base n \<noteq> None" for n
  proof (cases "0 < k \<and> n = rotated_name base 1")
    case True
    then show ?thesis using sh by simp
  next
    case False
    then have "n \<noteq> rotated_name base (Suc i)" if "i \<le> k" "0 < k" for i using that n(1) by (cases i) auto
    then have "k = 0 \<or> (\<forall>i \<le> k. n \<noteq> rotated_name base (Suc i))" by blast
    then have "map_of d1 n = map_of d0 n" by (rule rest)
    moreover have "map_of d0 n = None"
    proof (cases "\<exists>i < length (tl cs). n = rotated_name base (Suc i)")
      case True
      then obtain i where i: "i < length (tl cs)" "n = rotated_name base (Suc i)" by blast
      have "\<not> i < keep - 1" using i n(1) False by (cases i) (auto simp: k_def rotated_name_inj dest: Suc_lessD)
      then show ?thesis using rm(2) [OF i(1)] i(2) by simp
    next
      case False
      then have "map_of d0 n = map_of d n" using rm(3) [of n] by blast
      moreover have "map_of d n = None" using False n(2) assms(1) by (auto simp: holds_def mhas_def)
      ultimately show ?thesis by simp
    qed
    ultimately show ?thesis by simp
  qed
qed

lemma rotate_refines:
  assumes "holds (jo_Base opts) d cs" "length cs < 2 ^ 62" "effective_keep (jo_Keep opts) < 2 ^ 62"
  shows "\<exists>d'. rotate opts s d = (None, s\<lparr>js_open := True, js_written := 0\<rparr>, d') \<and>
    holds (jo_Base opts) d' ([] # take (effective_keep (jo_Keep opts)) cs)"
proof -
  let ?base = "jo_Base opts" and ?keep = "effective_keep (jo_Keep opts)"
  define d1 where "d1 = shift_up ?base ?keep (list_rotated ?base d) (remove_old ?keep (list_rotated ?base d) d)"
  let ?k = "min (length (tl cs)) (?keep - 1)"
  let ?d = "mput ?base [] (mput (rotated_name ?base 1) (hd cs) (mdel ?base d1))"
  note sh = shifted [OF assms(1,2), where keep = ?keep, folded d1_def]
  have cur: "map_of d1 ?base = Some (hd cs)" using sh(4) [of ?base] assms(1) by (simp add: holds_def)
  have "rotate opts s d = (None, s\<lparr>js_open := True, js_written := 0\<rparr>, ?d)"
    by (simp add: rotate_def Let_def rename_def cur flip: d1_def)
  moreover have "holds ?base ?d ([] # take ?keep cs)"
  proof -
    have ne: "cs \<noteq> []" using assms(1) by (simp add: holds_def)
    then have queue: "take ?keep cs = hd cs # take ?k (tl cs)"
      using effective_keep_pos [of "jo_Keep opts"] by (cases cs; cases ?keep) (auto simp: min_def)
    have "map_of ?d (rotated_name ?base (Suc i)) = Some ((hd cs # take ?k (tl cs)) ! i)" if "i < Suc ?k" for i
      using that sh(2) [of "i - 1"] by (cases i) (auto simp: rotated_name_inj)
    moreover have "\<exists>i < Suc ?k. n = rotated_name ?base (Suc i)" if "mhas ?d n" "rotated_number ?base n \<noteq> None" for n
    proof (rule ccontr)
      assume "\<not> (\<exists>i < Suc ?k. n = rotated_name ?base (Suc i))"
      then have "n \<noteq> rotated_name ?base 1" "\<forall>i < ?k. n \<noteq> rotated_name ?base (i + 2)" by (auto simp del: min_less_iff_conj)
      with sh(3) [of n] that show False by (auto simp: mhas_def split: if_splits)
    qed
    ultimately show ?thesis using sh(1) by (simp add: holds_def queue del: min_less_iff_conj)
  qed
  ultimately show ?thesis by blast
qed

section \<open>The queue of lines\<close>

text \<open>What a sink does to its directory, on the queue of contents and the number of bytes in the current file.\<close>

definition queue_handle :: "jsonl_options \<Rightarrow> string \<Rightarrow> int \<Rightarrow> string list \<Rightarrow> int \<times> string list" where
  "queue_handle opts line w cs =
     (let w = w + int (length line); cs = (hd cs @ line) # tl cs in
      if jo_RotateBytes opts > 0 \<and> w \<ge> jo_RotateBytes opts then (0, [] # take (effective_keep (jo_Keep opts)) cs) else (w, cs))"

lemma handle_refines:
  assumes "holds (jo_Base opts) d cs" "length cs < 2 ^ 62" "effective_keep (jo_Keep opts) < 2 ^ 62" "js_open s"
  shows "\<exists>d'. jsonl_handle enc opts ev s d =
      (None, s\<lparr>js_written := fst (queue_handle opts (enc ev @ [CHR 0x0A]) (js_written s) cs)\<rparr>, d') \<and>
    holds (jo_Base opts) d' (snd (queue_handle opts (enc ev @ [CHR 0x0A]) (js_written s) cs))"
proof -
  let ?line = "enc ev @ [CHR 0x0A]" and ?base = "jo_Base opts"
  let ?d = "mput ?base (hd cs @ ?line) d"
  have put: "holds ?base ?d ((hd cs @ ?line) # tl cs)" using assms(1) by (auto simp: holds_def)
  have cur: "map_of d ?base = Some (hd cs)" using assms(1) by (simp add: holds_def)
  have "length ((hd cs @ ?line) # tl cs) < 2 ^ 62" using assms(1,2) by (cases cs) (simp_all add: holds_def)
  from rotate_refines [OF put this assms(3), of "s\<lparr>js_written := js_written s + int (length ?line)\<rparr>"] put assms(4) show ?thesis
    by (auto simp: jsonl_handle_def queue_handle_def Let_def cur)
qed

text \<open>A sink that handles a list of events: what it reports, its state and its directory.\<close>

fun handle_all ::
  "(bus_event \<Rightarrow> string) \<Rightarrow> jsonl_options \<Rightarrow> bus_event list \<Rightarrow> jsonl_sink \<Rightarrow> dir \<Rightarrow> sink_error option list \<times> jsonl_sink \<times> dir" where
  "handle_all enc opts [] s d = ([], s, d)"
| "handle_all enc opts (ev # evs) s d =
     (case jsonl_handle enc opts ev s d of
        (r, s', d') \<Rightarrow> (case handle_all enc opts evs s' d' of (rs, s'', d'') \<Rightarrow> (r # rs, s'', d'')))"

fun queue_all :: "jsonl_options \<Rightarrow> string list \<Rightarrow> int \<Rightarrow> string list \<Rightarrow> int \<times> string list" where
  "queue_all opts [] w cs = (w, cs)"
| "queue_all opts (l # ls) w cs = (case queue_handle opts l w cs of (w', cs') \<Rightarrow> queue_all opts ls w' cs')"

definition line_of :: "(bus_event \<Rightarrow> string) \<Rightarrow> bus_event \<Rightarrow> string" where
  "line_of enc ev = enc ev @ [CHR 0x0A]"

lemma queue_handle_length:
  "cs \<noteq> [] \<Longrightarrow> length cs \<le> Suc (effective_keep (jo_Keep opts)) \<Longrightarrow>
     snd (queue_handle opts l w cs) \<noteq> [] \<and> length (snd (queue_handle opts l w cs)) \<le> Suc (effective_keep (jo_Keep opts))"
  by (cases cs) (auto simp: queue_handle_def Let_def)

lemma handle_all_refines:
  assumes "holds (jo_Base opts) d cs" "length cs \<le> Suc (effective_keep (jo_Keep opts))" "effective_keep (jo_Keep opts) < 2 ^ 62 - 1" "js_open s"
  shows "\<exists>d'. handle_all enc opts evs s d =
      (replicate (length evs) None, s\<lparr>js_written := fst (queue_all opts (map (line_of enc) evs) (js_written s) cs)\<rparr>, d') \<and>
    holds (jo_Base opts) d' (snd (queue_all opts (map (line_of enc) evs) (js_written s) cs))"
  using assms
proof (induction evs arbitrary: s d cs)
  case (Cons ev evs)
  obtain w cs' where q: "queue_handle opts (line_of enc ev) (js_written s) cs = (w, cs')" by fastforce
  obtain d1 where d1: "jsonl_handle enc opts ev s d = (None, s\<lparr>js_written := w\<rparr>, d1)" "holds (jo_Base opts) d1 cs'"
    using handle_refines [OF Cons.prems(1) _ _ Cons.prems(4), of enc ev] Cons.prems(2,3) q by (auto simp: line_of_def)
  have "length cs' \<le> Suc (effective_keep (jo_Keep opts))"
    using queue_handle_length [OF _ Cons.prems(2), of "line_of enc ev" "js_written s"] Cons.prems(1) q by (simp add: holds_def)
  from Cons.IH [OF d1(2) this Cons.prems(3), of "s\<lparr>js_written := w\<rparr>"] Cons.prems(4) show ?case
    by (auto simp: d1(1) q)
qed simp

definition queue_inv :: "jsonl_options \<Rightarrow> string \<Rightarrow> int \<Rightarrow> string list \<Rightarrow> bool" where
  "queue_inv opts past w cs =
     (cs \<noteq> [] \<and> length cs \<le> Suc (effective_keep (jo_Keep opts)) \<and> w = int (length (hd cs)) \<and>
      suffix (concat (rev cs)) past \<and> (length cs \<le> effective_keep (jo_Keep opts) \<longrightarrow> concat (rev cs) = past) \<and>
      (jo_RotateBytes opts > 0 \<longrightarrow> w < jo_RotateBytes opts))"

lemma suffix_take_rev: "suffix (concat (rev (take n cs))) (concat (rev cs))"
  by (metis append_take_drop_id concat_append rev_append suffixI)

lemma queue_inv_handle:
  assumes "queue_inv opts past w cs" "queue_handle opts l w cs = (w', cs')"
  shows "queue_inv opts (past @ l) w' cs'"
proof -
  obtain c rest where cs: "cs = c # rest" using assms(1) by (cases cs) (simp_all add: queue_inv_def)
  have suf: "suffix (concat (rev ((c @ l) # rest))) (past @ l)" using assms(1) by (auto simp: queue_inv_def cs suffix_def)
  let ?keep = "effective_keep (jo_Keep opts)" and ?w = "w + int (length l)"
  show ?thesis
  proof (cases "jo_RotateBytes opts > 0 \<and> ?w \<ge> jo_RotateBytes opts")
    case True
    then have q: "w' = 0" "cs' = [] # take ?keep ((c @ l) # rest)" using assms(2) by (auto simp: queue_handle_def Let_def cs)
    have "suffix (concat (rev cs')) (past @ l)"
      using suffix_order.trans [OF suffix_take_rev suf] by (simp add: q)
    moreover have "concat (rev cs') = past @ l" if "length cs' \<le> ?keep"
    proof -
      have "length cs \<le> ?keep" "take ?keep ((c @ l) # rest) = (c @ l) # rest" using that by (auto simp: q cs min_def split: if_splits)
      then show ?thesis using assms(1) by (simp add: q(2) queue_inv_def cs flip: append_assoc)
    qed
    ultimately show ?thesis using True by (simp add: queue_inv_def q)
  next
    case False
    then have "w' = ?w" "cs' = (c @ l) # rest" using assms(2) by (auto simp: queue_handle_def Let_def cs)
    then show ?thesis using assms(1) suf False by (auto simp: queue_inv_def cs simp flip: append_assoc)
  qed
qed

lemma queue_inv_all:
  "queue_inv opts past w cs \<Longrightarrow> queue_all opts ls w cs = (w', cs') \<Longrightarrow> queue_inv opts (past @ concat ls) w' cs'"
proof (induction ls arbitrary: past w cs)
  case (Cons l ls)
  obtain w1 cs1 where q: "queue_handle opts l w cs = (w1, cs1)" by fastforce
  from Cons.IH [OF queue_inv_handle [OF Cons.prems(1) q]] Cons.prems(2) q show ?case by simp
qed simp

text \<open>C26: From an empty log, the sink writes every event without error. The files hold, from the oldest to the current one,
  the last of what was written, all of it as long as fewer rotated files exist than are kept; there are never more than
  that, and the current file is below its limit.\<close>

theorem jsonl_retention:
  fixes enc :: "bus_event \<Rightarrow> string" and evs :: "bus_event list"
  assumes "wf_map d" "map_of d (jo_Base opts) = None" "\<forall>n. mhas d n \<longrightarrow> rotated_number (jo_Base opts) n = None"
    "effective_keep (jo_Keep opts) < 2 ^ 62 - 1"
  defines "past \<equiv> concat (map (line_of enc) evs)"
  shows "\<exists>s' d' cs. handle_all enc opts evs (fst (open_jsonl opts d)) (snd (open_jsonl opts d)) = (replicate (length evs) None, s', d') \<and>
    holds (jo_Base opts) d' cs \<and> suffix (concat (rev cs)) past \<and> length cs \<le> Suc (effective_keep (jo_Keep opts)) \<and>
    (length cs \<le> effective_keep (jo_Keep opts) \<longrightarrow> concat (rev cs) = past) \<and>
    (jo_RotateBytes opts > 0 \<longrightarrow> int (length (hd cs)) < jo_RotateBytes opts)"
proof -
  let ?s = "fst (open_jsonl opts d)" and ?d = "snd (open_jsonl opts d)"
  have s: "js_open ?s" "js_written ?s = 0" "?d = mput (jo_Base opts) [] d" using assms(2) by (simp_all add: open_jsonl_def)
  have h: "holds (jo_Base opts) ?d [[]]" using assms(1,3) by (auto simp: holds_def s(3) simp del: not_None_eq)
  have inv: "queue_inv opts [] 0 [[]]" using effective_keep_pos by (simp add: queue_inv_def)
  obtain w cs where q: "queue_all opts (map (line_of enc) evs) 0 [[]] = (w, cs)" by fastforce
  obtain d' where "handle_all enc opts evs ?s ?d = (replicate (length evs) None, ?s\<lparr>js_written := w\<rparr>, d')" "holds (jo_Base opts) d' cs"
    using handle_all_refines [OF h _ assms(4) s(1), of enc evs] by (auto simp: s(2) q)
  moreover have "queue_inv opts past w cs" using queue_inv_all [OF inv q] by (simp add: past_def)
  ultimately show ?thesis unfolding queue_inv_def by blast
qed

text \<open>A line of one byte and its end, a limit of three bytes, two rotated files kept: five events, of which the last three files remain.\<close>

lemma jsonl_retention_witness:
  "\<exists>s' d' cs. handle_all be_ID \<lparr>jo_Base = ''log'', jo_RotateBytes = 3, jo_Keep = 2\<rparr> (replicate 5 (example_event ''a''))
      (fst (open_jsonl \<lparr>jo_Base = ''log'', jo_RotateBytes = 3, jo_Keep = 2\<rparr> [])) (snd (open_jsonl \<lparr>jo_Base = ''log'', jo_RotateBytes = 3, jo_Keep = 2\<rparr> []))
      = (replicate 5 None, s', d') \<and> holds ''log'' d' cs \<and> length cs \<le> 3 \<and> int (length (hd cs)) < 3"
  using jsonl_retention [of "[]" "\<lparr>jo_Base = ''log'', jo_RotateBytes = 3, jo_Keep = 2\<rparr>" be_ID "replicate 5 (example_event ''a'')"]
  by (simp add: effective_keep_def) blast

end
