(* ===== verification/Admin_Api.thy ===== *)
theory Admin_Api
  imports Oper_Cmds Encoding
begin

text \<open>
  The admin API, \<^verbatim>\<open>internal/api\<close>, with the API tokens of \<^verbatim>\<open>internal/auth/token.go\<close> and their table in
  \<^verbatim>\<open>internal/storage/sqlite/tokens.go\<close>. A route with its path values and its decoded body is a value of \<open>api_call\<close>; a
  body that is not JSON is \<^const>\<open>None\<close>. The answer is a status with a body of records, or an error with its code. The
  random bytes a request draws, the salt of a password hash and the halves of a token, come with the request; SHA-256 is
  the argument \<open>sha\<close>. Operators are stored without their times in this model, so their records have none.
\<close>

section \<open>Tokens\<close>

record api_token =
  tk_ID :: string
  tk_Label :: string
  tk_Hash :: string
  tk_Scopes :: "string list"
  tk_CreatedAt :: time
  tk_LastUsedAt :: time

type_synonym tokens = "(string, api_token) gomap"

definition tokens_get :: "string \<Rightarrow> tokens \<Rightarrow> api_token option" where
  "tokens_get i ts = map_of ts i"

definition tokens_get_by_hash :: "string \<Rightarrow> tokens \<Rightarrow> api_token option" where
  "tokens_get_by_hash h ts = find (\<lambda>t. tk_Hash t = h) (map snd ts)"

definition tokens_list :: "tokens \<Rightarrow> api_token list" where
  "tokens_list ts = sort_key (\<lambda>t. - tk_CreatedAt t) (map snd ts)"

text \<open>Scopes are stored as one comma-separated column.\<close>

definition split_flags :: "string \<Rightarrow> string list" where
  "split_flags s = (if s = [] then [] else filter (\<lambda>p. p \<noteq> []) (map trim_space (split_on CHR '','' s)))"

definition join_flags :: "string list \<Rightarrow> string" where
  "join_flags flags = join_with '','' flags"

definition tokens_create :: "api_token \<Rightarrow> time \<Rightarrow> tokens \<Rightarrow> tokens \<times> storage_error option" where
  "tokens_create t now ts =
     (if tk_ID t = [] \<or> tk_Hash t = [] then (ts, Some ErrOther)
      else if mhas ts (tk_ID t) \<or> tokens_get_by_hash (tk_Hash t) ts \<noteq> None then (ts, Some ErrConflict)
      else (mput (tk_ID t) (t\<lparr>tk_Scopes := split_flags (join_flags (tk_Scopes t)), tk_CreatedAt := now, tk_LastUsedAt := zero_time\<rparr>) ts, None))"

definition tokens_touch :: "string \<Rightarrow> time \<Rightarrow> tokens \<Rightarrow> tokens \<times> storage_error option" where
  "tokens_touch i now ts =
     (case map_of ts i of None \<Rightarrow> (ts, Some ErrNotFound) | Some t \<Rightarrow> (mput i (t\<lparr>tk_LastUsedAt := now\<rparr>) ts, None))"

definition tokens_delete :: "string \<Rightarrow> tokens \<Rightarrow> tokens \<times> storage_error option" where
  "tokens_delete i ts = (if mhas ts i then (mdel i ts, None) else (ts, Some ErrNotFound))"

type_synonym sha256 = "string \<Rightarrow> string"

definition hash_api_token :: "sha256 \<Rightarrow> string \<Rightarrow> string" where
  "hash_api_token sha plaintext = hex_string (sha plaintext)"

definition verify_api_token :: "sha256 \<Rightarrow> string \<Rightarrow> string \<Rightarrow> bool" where
  "verify_api_token sha storedHash plaintext = (hash_api_token sha plaintext = storedHash)"

record minted_token =
  mt_ID :: string
  mt_Plaintext :: string
  mt_Hash :: string

definition generate_api_token :: "sha256 \<Rightarrow> string \<Rightarrow> string \<Rightarrow> minted_token" where
  "generate_api_token sha idBytes secretBytes =
     (let i = ''ircat_'' @ hex_string idBytes; p = i @ ''_'' @ hex_string secretBytes in
      \<lparr>mt_ID = i, mt_Plaintext = p, mt_Hash = hash_api_token sha p\<rparr>)"

section \<open>Requests and answers\<close>

record registration_body =
  rq_FounderID :: string
  rq_Guard :: bool
  rq_KeepTopic :: bool

datatype api_call =
    GetServer
  | ListOperators | GetOperator string | CreateOperator "(string \<times> string \<times> string \<times> string list) option" | DeleteOperator string
  | ListUsers | GetUser string | KickUser string "string option option"
  | ListChannels | GetChannel string
  | ListTokens | CreateToken "(string \<times> string list) option" | DeleteToken string
  | ListAccounts | GetAccount string | CreateAccount "(string \<times> string \<times> string) option" | DeleteAccount string
  | ResetAccountPassword string "string option"
  | GetRegistration string | CreateRegistration string "registration_body option" | UpdateRegistration string "registration_body option"
  | DeleteRegistration string | SetAccess string string "string option" | DeleteAccess string string

record operator_view =
  ov_Name :: string
  ov_HostMask :: string
  ov_Flags :: "string list"

record account_view =
  av_ID :: string
  av_Username :: string
  av_Email :: string
  av_Verified :: bool
  av_CreatedAt :: time
  av_UpdatedAt :: time
  av_Nicks :: "string list"

record user_view =
  uv_Nick :: string
  uv_User :: string
  uv_Host :: string
  uv_Realname :: string
  uv_Modes :: string
  uv_Hostmask :: string
  uv_ConnectAt :: time
  uv_Channels :: "string list"

record member_view =
  mv_Nick :: string
  mv_Op :: bool
  mv_Voice :: bool
  mv_Prefix :: string

record channel_view =
  cv_Name :: string
  cv_Topic :: string
  cv_TopicSetBy :: string
  cv_TopicSetAt :: time
  cv_ModeWord :: string
  cv_Key :: string
  cv_Limit :: int
  cv_MemberCount :: nat
  cv_Members :: "member_view list"
  cv_Bans :: "(string \<times> time) list"

record token_view =
  tv_ID :: string
  tv_Label :: string
  tv_Scopes :: "string list"
  tv_CreatedAt :: time
  tv_LastUsedAt :: time

record registration_view =
  rv_Channel :: string
  rv_FounderID :: string
  rv_Guard :: bool
  rv_KeepTopic :: bool
  rv_CreatedAt :: time
  rv_UpdatedAt :: time
  rv_Access :: "(string \<times> string) list"

record server_view =
  svv_Name :: string
  svv_Network :: string
  svv_Version :: string
  svv_StartedAt :: time
  svv_Users :: nat
  svv_Channels :: nat

datatype api_body = BServer server_view | BOperators "operator_view list" | BOperator operator_view
  | BUsers "user_view list" | BUser user_view | BChannels "channel_view list" | BChannel channel_view
  | BTokens "token_view list" | BNewToken token_view string | BAccounts "account_view list" | BAccount account_view
  | BRegistration registration_view | BAccess "string \<times> string"

datatype api_response = ApiOk nat api_body | NoContent | ApiError nat string

record admin =
  ad_server :: server
  ad_tokens :: tokens

record drawn =
  dr_salt :: string
  dr_id :: string
  dr_secret :: string

definition ad_store :: "admin \<Rightarrow> store" where
  "ad_store ad = (case sv_store (ad_server ad) of Some st \<Rightarrow> st | None \<Rightarrow> empty_store)"

definition put_store :: "store \<Rightarrow> admin \<Rightarrow> admin" where
  "put_store st ad = ad\<lparr>ad_server := (ad_server ad)\<lparr>sv_store := Some st\<rparr>\<rparr>"

abbreviation ad_now :: "admin \<Rightarrow> time" where
  "ad_now ad \<equiv> sv_now (ad_server ad)"

abbreviation ad_world :: "admin \<Rightarrow> world" where
  "ad_world ad \<equiv> sv_world (ad_server ad)"

text \<open>The answer to a write: what each error of the store becomes, else \<open>ok\<close>.\<close>

definition on_error :: "(storage_error \<times> nat \<times> string) list \<Rightarrow> storage_error option \<Rightarrow> api_response \<Rightarrow> api_response" where
  "on_error table e ok =
     (case e of
        None \<Rightarrow> ok
      | Some err \<Rightarrow> (case map_of table err of Some (st, code) \<Rightarrow> ApiError st code | None \<Rightarrow> ApiError 500 ''internal''))"

definition new_password_hash :: "admin \<Rightarrow> drawn \<Rightarrow> string \<Rightarrow> string" where
  "new_password_hash ad dr pw = hash_argon2id (cf_argon2 (sv_cfg (ad_server ad))) (dr_salt dr) pw default_argon2id_params"

section \<open>Operators\<close>

definition to_operator_view :: "operator_rec \<Rightarrow> operator_view" where
  "to_operator_view op = \<lparr>ov_Name = op_Name op, ov_HostMask = op_HostMask op, ov_Flags = op_Flags op\<rparr>"

definition api_list_operators :: "admin \<Rightarrow> api_response" where
  "api_list_operators ad = ApiOk 200 (BOperators (map to_operator_view (operators_list (ad_store ad))))"

definition api_get_operator :: "string \<Rightarrow> admin \<Rightarrow> api_response" where
  "api_get_operator name ad =
     (case operators_get name (ad_store ad) of
        None \<Rightarrow> ApiError 404 ''not_found''
      | Some op \<Rightarrow> ApiOk 200 (BOperator (to_operator_view op)))"

definition api_create_operator :: "drawn \<Rightarrow> (string \<times> string \<times> string \<times> string list) option \<Rightarrow> admin \<Rightarrow> admin \<times> api_response" where
  "api_create_operator dr body ad =
     (case body of
        None \<Rightarrow> (ad, ApiError 400 ''bad_json'')
      | Some (name, pw, hostMask, flags) \<Rightarrow>
          if name = [] \<or> pw = [] then (ad, ApiError 400 ''bad_request'')
          else
            let op = \<lparr>op_Name = name, op_HostMask = hostMask, op_PasswordHash = new_password_hash ad dr pw, op_Flags = flags\<rparr>;
                (st, e) = operators_create op (ad_store ad) in
            (put_store st ad, on_error [(ErrConflict, 409, ''conflict'')] e (ApiOk 201 (BOperator (to_operator_view op)))))"

definition api_delete_operator :: "string \<Rightarrow> admin \<Rightarrow> admin \<times> api_response" where
  "api_delete_operator name ad =
     (case operators_delete name (ad_store ad) of
        (st, e) \<Rightarrow> (put_store st ad, on_error [(ErrNotFound, 404, ''not_found'')] e NoContent))"

section \<open>Users and channels\<close>

definition api_get_server :: "admin \<Rightarrow> api_response" where
  "api_get_server ad = ApiOk 200 (BServer \<lparr>svv_Name = srv_name (ad_server ad), svv_Network = cf_Network (sv_cfg (ad_server ad)),
     svv_Version = server_version, svv_StartedAt = sv_createdAt (ad_server ad),
     svv_Users = user_count (ad_world ad), svv_Channels = channel_count (ad_world ad)\<rparr>)"

definition user_to_record :: "admin \<Rightarrow> user \<Rightarrow> user_view" where
  "user_to_record ad u = \<lparr>uv_Nick = u_Nick u, uv_User = u_User u, uv_Host = u_Host u, uv_Realname = u_Realname u, uv_Modes = u_Modes u,
     uv_Hostmask = hostmask u, uv_ConnectAt = u_ConnectAt u, uv_Channels = sort (map ch_name (user_channels (u_ID u) (ad_world ad)))\<rparr>"

definition api_list_users :: "admin \<Rightarrow> api_response" where
  "api_list_users ad = ApiOk 200 (BUsers (sort_key uv_Nick (map (user_to_record ad) (snapshot (ad_world ad)))))"

definition api_get_user :: "string \<Rightarrow> admin \<Rightarrow> api_response" where
  "api_get_user nick ad =
     (case find_by_nick nick (ad_world ad) of
        None \<Rightarrow> ApiError 404 ''not_found''
      | Some i \<Rightarrow> ApiOk 200 (BUser (user_to_record ad (user_of i (ad_server ad)))))"

text \<open>
  A body is read only when there is one. The error of the server for an unknown nickname is not the error of this package
  that the handler asks for, so it is an internal error.
\<close>

definition api_kick_user :: "string \<Rightarrow> string option option \<Rightarrow> admin \<Rightarrow> admin \<times> api_response" where
  "api_kick_user nick body ad =
     (case body of
        Some None \<Rightarrow> (ad, ApiError 400 ''bad_json'')
      | _ \<Rightarrow>
          let given = (case body of Some (Some r) \<Rightarrow> r | _ \<Rightarrow> []);
              reason = take 255 (if given = [] then ''Kicked by admin API'' else given);
              (s, ok) = kick_user nick reason (ad_server ad) in
          (ad\<lparr>ad_server := s\<rparr>, if ok then NoContent else ApiError 500 ''internal''))"

definition to_channel_view :: "channel \<Rightarrow> channel_view" where
  "to_channel_view ch = \<lparr>cv_Name = ch_name ch, cv_Topic = ch_topic ch, cv_TopicSetBy = ch_topicSetBy ch, cv_TopicSetAt = ch_topicSetAt ch,
     cv_ModeWord = fst (mode_string ch), cv_Key = ch_key ch, cv_Limit = ch_limit ch, cv_MemberCount = member_count ch, cv_Members = [], cv_Bans = []\<rparr>"

definition api_list_channels :: "admin \<Rightarrow> api_response" where
  "api_list_channels ad = ApiOk 200 (BChannels (sort_key cv_Name (map to_channel_view (channels_snapshot (ad_world ad)))))"

definition to_member_view :: "admin \<Rightarrow> uid \<times> membership \<Rightarrow> member_view option" where
  "to_member_view ad m =
     (case find_by_id (fst m) (ad_world ad) of
        None \<Rightarrow> None
      | Some i \<Rightarrow> Some \<lparr>mv_Nick = u_Nick (user_of i (ad_server ad)), mv_Op = mem_is_op (snd m), mv_Voice = mem_is_voice (snd m), mv_Prefix = mem_prefix (snd m)\<rparr>)"

definition api_get_channel :: "string \<Rightarrow> admin \<Rightarrow> api_response" where
  "api_get_channel name ad =
     (case find_channel name (ad_world ad) of
        None \<Rightarrow> ApiError 404 ''not_found''
      | Some ch \<Rightarrow> ApiOk 200 (BChannel ((to_channel_view ch)\<lparr>
            cv_Members := sort_key mv_Nick (List.map_filter (to_member_view ad) (ch_members ch)),
            cv_Bans := sort_key fst (ch_bans ch)\<rparr>)))"

section \<open>Tokens over HTTP\<close>

definition to_token_view :: "api_token \<Rightarrow> token_view" where
  "to_token_view t = \<lparr>tv_ID = tk_ID t, tv_Label = tk_Label t, tv_Scopes = tk_Scopes t, tv_CreatedAt = tk_CreatedAt t, tv_LastUsedAt = tk_LastUsedAt t\<rparr>"

definition api_list_tokens :: "admin \<Rightarrow> api_response" where
  "api_list_tokens ad = ApiOk 200 (BTokens (map to_token_view (tokens_list (ad_tokens ad))))"

definition api_create_token :: "sha256 \<Rightarrow> drawn \<Rightarrow> (string \<times> string list) option \<Rightarrow> admin \<Rightarrow> admin \<times> api_response" where
  "api_create_token sha dr body ad =
     (case body of
        None \<Rightarrow> (ad, ApiError 400 ''bad_json'')
      | Some (label, scopes) \<Rightarrow>
          if label = [] then (ad, ApiError 400 ''bad_request'')
          else
            let m = generate_api_token sha (dr_id dr) (dr_secret dr);
                t = \<lparr>tk_ID = mt_ID m, tk_Label = label, tk_Hash = mt_Hash m, tk_Scopes = scopes, tk_CreatedAt = ad_now ad, tk_LastUsedAt = zero_time\<rparr>;
                (ts, e) = tokens_create t (ad_now ad) (ad_tokens ad) in
            (ad\<lparr>ad_tokens := ts\<rparr>, on_error [] e (ApiOk 201 (BNewToken (to_token_view t) (mt_Plaintext m)))))"

definition api_delete_token :: "string \<Rightarrow> admin \<Rightarrow> admin \<times> api_response" where
  "api_delete_token i ad =
     (case tokens_delete i (ad_tokens ad) of
        (ts, e) \<Rightarrow> (ad\<lparr>ad_tokens := ts\<rparr>, on_error [(ErrNotFound, 404, ''not_found'')] e NoContent))"

section \<open>Accounts\<close>

definition accounts_list :: "store \<Rightarrow> account list" where
  "accounts_list st = sort_key ac_Username (map snd (st_accounts st))"

definition to_account_view :: "admin \<Rightarrow> account \<Rightarrow> account_view" where
  "to_account_view ad a = \<lparr>av_ID = ac_ID a, av_Username = ac_Username a, av_Email = ac_Email a, av_Verified = ac_Verified a,
     av_CreatedAt = ac_CreatedAt a, av_UpdatedAt = ac_UpdatedAt a,
     av_Nicks = sort (map no_Nick (nick_owners_by_account (ac_ID a) (ad_store ad)))\<rparr>"

definition api_list_accounts :: "admin \<Rightarrow> api_response" where
  "api_list_accounts ad = ApiOk 200 (BAccounts (map (to_account_view ad) (accounts_list (ad_store ad))))"

definition api_get_account :: "string \<Rightarrow> admin \<Rightarrow> api_response" where
  "api_get_account i ad =
     (case accounts_get_by_id i (ad_store ad) of
        None \<Rightarrow> ApiError 404 ''not_found''
      | Some a \<Rightarrow> ApiOk 200 (BAccount (to_account_view ad a)))"

definition api_create_account :: "drawn \<Rightarrow> (string \<times> string \<times> string) option \<Rightarrow> admin \<Rightarrow> admin \<times> api_response" where
  "api_create_account dr body ad =
     (case body of
        None \<Rightarrow> (ad, ApiError 400 ''bad_json'')
      | Some (name, pw, email) \<Rightarrow>
          if name = [] \<or> pw = [] then (ad, ApiError 400 ''bad_request'')
          else
            let a = \<lparr>ac_ID = name, ac_Username = name, ac_PasswordHash = new_password_hash ad dr pw, ac_Email = email, ac_Verified = False,
                     ac_CreatedAt = ad_now ad, ac_UpdatedAt = ad_now ad\<rparr>;
                (st, e) = accounts_create a (ad_now ad) (ad_store ad); ad' = put_store st ad in
            (ad', on_error [(ErrConflict, 409, ''conflict'')] e (ApiOk 201 (BAccount (to_account_view ad' a)))))"

definition api_delete_account :: "string \<Rightarrow> admin \<Rightarrow> admin \<times> api_response" where
  "api_delete_account i ad =
     (case accounts_get_by_id i (ad_store ad) of
        None \<Rightarrow> (ad, ApiError 404 ''not_found'')
      | Some a \<Rightarrow>
          (case accounts_delete (ac_Username a) (ad_store ad) of
             (st, e) \<Rightarrow> (put_store st ad, on_error [(ErrNotFound, 404, ''not_found'')] e NoContent)))"

definition api_reset_password :: "drawn \<Rightarrow> string \<Rightarrow> string option \<Rightarrow> admin \<Rightarrow> admin \<times> api_response" where
  "api_reset_password dr i body ad =
     (case body of
        None \<Rightarrow> (ad, ApiError 400 ''bad_json'')
      | Some pw \<Rightarrow>
          if pw = [] then (ad, ApiError 400 ''bad_request'')
          else case accounts_get_by_id i (ad_store ad) of
            None \<Rightarrow> (ad, ApiError 404 ''not_found'')
          | Some a \<Rightarrow>
              (case accounts_update (a\<lparr>ac_PasswordHash := new_password_hash ad dr pw\<rparr>) (ad_now ad) (ad_store ad) of
                 (st, e) \<Rightarrow> (put_store st ad, on_error [] e NoContent)))"

section \<open>Channel registrations\<close>

definition access_list :: "string \<Rightarrow> store \<Rightarrow> (string \<times> string) list" where
  "access_list name st = sort_key fst (map (\<lambda>((c, a), flags). (a, flags)) (filter (\<lambda>((c, a), flags). c = name) (st_access st)))"

definition to_registration_view :: "registered_channel \<Rightarrow> (string \<times> string) list \<Rightarrow> registration_view" where
  "to_registration_view r access = \<lparr>rv_Channel = rc_Channel r, rv_FounderID = rc_FounderID r, rv_Guard = rc_Guard r, rv_KeepTopic = rc_KeepTopic r,
     rv_CreatedAt = rc_CreatedAt r, rv_UpdatedAt = rc_UpdatedAt r, rv_Access = access\<rparr>"

definition api_get_registration :: "string \<Rightarrow> admin \<Rightarrow> api_response" where
  "api_get_registration name ad =
     (case reg_channels_get name (ad_store ad) of
        None \<Rightarrow> ApiError 404 ''not_found''
      | Some r \<Rightarrow> ApiOk 200 (BRegistration (to_registration_view r (access_list name (ad_store ad)))))"

definition api_create_registration :: "string \<Rightarrow> registration_body option \<Rightarrow> admin \<Rightarrow> admin \<times> api_response" where
  "api_create_registration name body ad =
     (case body of
        None \<Rightarrow> (ad, ApiError 400 ''bad_json'')
      | Some rq \<Rightarrow>
          if rq_FounderID rq = [] \<or> accounts_get_by_id (rq_FounderID rq) (ad_store ad) = None then (ad, ApiError 400 ''bad_request'')
          else
            let r = \<lparr>rc_Channel = name, rc_FounderID = rq_FounderID rq, rc_Guard = rq_Guard rq, rc_KeepTopic = rq_KeepTopic rq,
                     rc_CreatedAt = ad_now ad, rc_UpdatedAt = ad_now ad\<rparr>;
                (st, e) = reg_channels_create r (ad_now ad) (ad_store ad) in
            (put_store st ad, on_error [(ErrConflict, 409, ''conflict'')] e (ApiOk 201 (BRegistration (to_registration_view r [])))))"

definition api_update_registration :: "string \<Rightarrow> registration_body option \<Rightarrow> admin \<Rightarrow> admin \<times> api_response" where
  "api_update_registration name body ad =
     (case body of
        None \<Rightarrow> (ad, ApiError 400 ''bad_json'')
      | Some rq \<Rightarrow>
          (case reg_channels_get name (ad_store ad) of
             None \<Rightarrow> (ad, ApiError 404 ''not_found'')
           | Some r \<Rightarrow>
               if rq_FounderID rq \<noteq> [] \<and> accounts_get_by_id (rq_FounderID rq) (ad_store ad) = None then (ad, ApiError 400 ''bad_request'')
               else
                 let r' = r\<lparr>rc_FounderID := (if rq_FounderID rq \<noteq> [] then rq_FounderID rq else rc_FounderID r),
                            rc_Guard := rq_Guard rq, rc_KeepTopic := rq_KeepTopic rq, rc_UpdatedAt := ad_now ad\<rparr>;
                     (st, e) = reg_channels_update r' (ad_now ad) (ad_store ad) in
                 (put_store st ad, on_error [] e (ApiOk 200 (BRegistration (to_registration_view r' []))))))"

definition api_delete_registration :: "string \<Rightarrow> admin \<Rightarrow> admin \<times> api_response" where
  "api_delete_registration name ad =
     (case reg_channels_delete name (ad_store ad) of
        (st, e) \<Rightarrow> (put_store st ad, on_error [(ErrNotFound, 404, ''not_found'')] e NoContent))"

definition api_set_access :: "string \<Rightarrow> string \<Rightarrow> string option \<Rightarrow> admin \<Rightarrow> admin \<times> api_response" where
  "api_set_access name acct body ad =
     (case body of
        None \<Rightarrow> (ad, ApiError 400 ''bad_json'')
      | Some flags \<Rightarrow>
          if reg_channels_get name (ad_store ad) = None then (ad, ApiError 404 ''not_found'')
          else if accounts_get_by_id acct (ad_store ad) = None then (ad, ApiError 400 ''bad_request'')
          else case access_set name acct flags (ad_store ad) of
            (st, e) \<Rightarrow> (put_store st ad, on_error [] e (ApiOk 200 (BAccess (acct, flags)))))"

definition api_delete_access :: "string \<Rightarrow> string \<Rightarrow> admin \<Rightarrow> admin \<times> api_response" where
  "api_delete_access name acct ad =
     (case access_delete name acct (ad_store ad) of
        (st, e) \<Rightarrow> (put_store st ad, on_error [(ErrNotFound, 404, ''not_found'')] e NoContent))"

section \<open>The routes\<close>

fun api_route :: "sha256 \<Rightarrow> drawn \<Rightarrow> api_call \<Rightarrow> admin \<Rightarrow> admin \<times> api_response" where
  "api_route sha dr GetServer ad = (ad, api_get_server ad)"
| "api_route sha dr ListOperators ad = (ad, api_list_operators ad)"
| "api_route sha dr (GetOperator n) ad = (ad, api_get_operator n ad)"
| "api_route sha dr (CreateOperator b) ad = api_create_operator dr b ad"
| "api_route sha dr (DeleteOperator n) ad = api_delete_operator n ad"
| "api_route sha dr ListUsers ad = (ad, api_list_users ad)"
| "api_route sha dr (GetUser n) ad = (ad, api_get_user n ad)"
| "api_route sha dr (KickUser n b) ad = api_kick_user n b ad"
| "api_route sha dr ListChannels ad = (ad, api_list_channels ad)"
| "api_route sha dr (GetChannel n) ad = (ad, api_get_channel n ad)"
| "api_route sha dr ListTokens ad = (ad, api_list_tokens ad)"
| "api_route sha dr (CreateToken b) ad = api_create_token sha dr b ad"
| "api_route sha dr (DeleteToken i) ad = api_delete_token i ad"
| "api_route sha dr ListAccounts ad = (ad, api_list_accounts ad)"
| "api_route sha dr (GetAccount i) ad = (ad, api_get_account i ad)"
| "api_route sha dr (CreateAccount b) ad = api_create_account dr b ad"
| "api_route sha dr (DeleteAccount i) ad = api_delete_account i ad"
| "api_route sha dr (ResetAccountPassword i b) ad = api_reset_password dr i b ad"
| "api_route sha dr (GetRegistration n) ad = (ad, api_get_registration n ad)"
| "api_route sha dr (CreateRegistration n b) ad = api_create_registration n b ad"
| "api_route sha dr (UpdateRegistration n b) ad = api_update_registration n b ad"
| "api_route sha dr (DeleteRegistration n) ad = api_delete_registration n ad"
| "api_route sha dr (SetAccess n a b) ad = api_set_access n a b ad"
| "api_route sha dr (DeleteAccess n a) ad = api_delete_access n a ad"

text \<open>The bearer token of the header, if the header has one.\<close>

definition bearer :: "string \<Rightarrow> string option" where
  "bearer header =
     (if has_prefix ''Bearer '' header \<and> trim_space (drop 7 header) \<noteq> [] then Some (trim_space (drop 7 header)) else None)"

definition require_token :: "sha256 \<Rightarrow> string \<Rightarrow> (admin \<Rightarrow> admin \<times> api_response) \<Rightarrow> admin \<Rightarrow> admin \<times> api_response" where
  "require_token sha header next_handler ad =
     (if sv_store (ad_server ad) = None then (ad, ApiError 503 ''no_store'')
      else case bearer header of
        None \<Rightarrow> (ad, ApiError 401 ''missing_token'')
      | Some plaintext \<Rightarrow>
          (case tokens_get_by_hash (hash_api_token sha plaintext) (ad_tokens ad) of
             None \<Rightarrow> (ad, ApiError 401 ''invalid_token'')
           | Some t \<Rightarrow> next_handler (ad\<lparr>ad_tokens := fst (tokens_touch (tk_ID t) (ad_now ad) (ad_tokens ad))\<rparr>)))"

definition api_handle :: "sha256 \<Rightarrow> drawn \<Rightarrow> string \<Rightarrow> api_call \<Rightarrow> admin \<Rightarrow> admin \<times> api_response" where
  "api_handle sha dr header call ad = require_token sha header (api_route sha dr call) ad"

end
