(* ===== verification/Admin_Props.thy ===== *)
theory Admin_Props
  imports Admin_Api
begin

text \<open>
  What the admin API guarantees: nothing happens without a stored token, a minted token works until it is deleted, and no
  answer depends on a stored password hash.
\<close>

section \<open>Password hashes stay inside\<close>

abbreviation no_op_hash :: "operator_rec \<Rightarrow> operator_rec" where
  "no_op_hash op \<equiv> op\<lparr>op_PasswordHash := []\<rparr>"

abbreviation no_ac_hash :: "account \<Rightarrow> account" where
  "no_ac_hash a \<equiv> a\<lparr>ac_PasswordHash := []\<rparr>"

text \<open>The store with every password hash blanked out.\<close>

definition blank_hashes :: "store \<Rightarrow> store" where
  "blank_hashes st = st\<lparr>st_operators := map (apsnd no_op_hash) (st_operators st), st_accounts := map (apsnd no_ac_hash) (st_accounts st)\<rparr>"

lemma map_of_apsnd: "map_of (map (apsnd f) m) k = map_option f (map_of m k)"
  by (induction m) auto

lemma find_map_same: "(\<And>x. P (f x) \<longleftrightarrow> P x) \<Longrightarrow> find P (map f xs) = map_option f (find P xs)"
  by (induction xs) auto

lemma insort_key_map: "insort_key k (f x) (map f xs) = map f (insort_key (\<lambda>x. k (f x)) x xs)"
  by (induction xs) auto

lemma sort_key_map: "sort_key k (map f xs) = map f (sort_key (\<lambda>x. k (f x)) xs)"
  by (induction xs) (simp_all add: insort_key_map)

lemma map_snd_apsnd: "map snd (map (apsnd f) m) = map f (map snd m)"
  by (simp add: comp_def)

lemma blank_rest [simp]:
  "st_nickOwners (blank_hashes st) = st_nickOwners st" "st_regChannels (blank_hashes st) = st_regChannels st"
  "st_access (blank_hashes st) = st_access st" "st_memos (blank_hashes st) = st_memos st"
  by (simp_all add: blank_hashes_def)

lemma blank_tables:
  "st_operators (blank_hashes st) = map (apsnd no_op_hash) (st_operators st)" "st_accounts (blank_hashes st) = map (apsnd no_ac_hash) (st_accounts st)"
  by (simp_all add: blank_hashes_def)

lemma mhas_blank [simp]:
  "mhas (st_operators (blank_hashes st)) k = mhas (st_operators st) k" "mhas (st_accounts (blank_hashes st)) k = mhas (st_accounts st) k"
  by (simp_all add: mhas_def blank_hashes_def map_of_apsnd)

lemma operators_blank:
  "operators_get n (blank_hashes st) = map_option no_op_hash (operators_get n st)"
  by (simp add: operators_get_def blank_hashes_def map_of_apsnd)

lemma accounts_blank:
  "accounts_get_by_id i (blank_hashes st) = map_option no_ac_hash (accounts_get_by_id i st)"
  "accounts_get n (blank_hashes st) = map_option no_ac_hash (accounts_get n st)"
proof -
  show "accounts_get_by_id i (blank_hashes st) = map_option no_ac_hash (accounts_get_by_id i st)"
    by (simp add: accounts_get_by_id_def blank_hashes_def map_of_apsnd)
  show "accounts_get n (blank_hashes st) = map_option no_ac_hash (accounts_get n st)"
    unfolding accounts_get_def blank_tables map_snd_apsnd by (rule find_map_same) simp
qed

lemma lists_blank:
  "map to_operator_view (operators_list (blank_hashes st)) = map to_operator_view (operators_list st)"
  "accounts_list (blank_hashes st) = map no_ac_hash (accounts_list st)"
proof -
  show "map to_operator_view (operators_list (blank_hashes st)) = map to_operator_view (operators_list st)"
    unfolding operators_list_def blank_tables map_snd_apsnd sort_key_map by (simp add: to_operator_view_def)
  show "accounts_list (blank_hashes st) = map no_ac_hash (accounts_list st)"
    unfolding accounts_list_def blank_tables map_snd_apsnd sort_key_map by simp
qed

text \<open>Whether a write succeeds does not depend on a hash either.\<close>

lemma writes_blank:
  "snd (operators_create (op\<lparr>op_PasswordHash := h\<rparr>) (blank_hashes st)) = snd (operators_create op st)"
  "snd (operators_delete n (blank_hashes st)) = snd (operators_delete n st)"
  "snd (accounts_create (a\<lparr>ac_PasswordHash := h\<rparr>) t (blank_hashes st)) = snd (accounts_create a t st)"
  "snd (accounts_update (a\<lparr>ac_PasswordHash := h\<rparr>) t (blank_hashes st)) = snd (accounts_update a t st)"
  "snd (accounts_delete n (blank_hashes st)) = snd (accounts_delete n st)"
  "snd (reg_channels_create r t (blank_hashes st)) = snd (reg_channels_create r t st)"
  "snd (reg_channels_update r t (blank_hashes st)) = snd (reg_channels_update r t st)"
  "snd (reg_channels_delete n (blank_hashes st)) = snd (reg_channels_delete n st)"
  "snd (access_set n i f (blank_hashes st)) = snd (access_set n i f st)"
  "snd (access_delete n i (blank_hashes st)) = snd (access_delete n i st)"
  by (auto simp: operators_create_def operators_delete_def accounts_create_def accounts_update_def accounts_delete_def
      reg_channels_create_def reg_channels_update_def reg_channels_delete_def access_set_def access_delete_def accounts_blank
      split: option.splits)

definition blank_admin :: "admin \<Rightarrow> admin" where
  "blank_admin ad = ad\<lparr>ad_server := (ad_server ad)\<lparr>sv_store := map_option blank_hashes (sv_store (ad_server ad))\<rparr>\<rparr>"

lemma blank_admin_simps [simp]:
  "ad_store (blank_admin ad) = blank_hashes (ad_store ad)" "ad_tokens (blank_admin ad) = ad_tokens ad"
  "ad_world (blank_admin ad) = ad_world ad" "ad_now (blank_admin ad) = ad_now ad"
  "sv_cfg (ad_server (blank_admin ad)) = sv_cfg (ad_server ad)" "sv_createdAt (ad_server (blank_admin ad)) = sv_createdAt (ad_server ad)"
  "user_of u (ad_server (blank_admin ad)) = user_of u (ad_server ad)"
  "sv_store (ad_server (blank_admin ad)) = map_option blank_hashes (sv_store (ad_server ad))"
  by (simp_all add: blank_admin_def ad_store_def user_of_def blank_hashes_def empty_store_def split: option.splits)

lemma views_blank:
  "to_operator_view (no_op_hash op) = to_operator_view op" "to_account_view (blank_admin ad) (no_ac_hash a) = to_account_view ad a"
  "to_account_view (blank_admin ad) a = to_account_view ad a" "to_account_view ad (no_ac_hash a) = to_account_view ad a" "user_to_record (blank_admin ad) u = user_to_record ad u"
  by (simp_all add: to_operator_view_def to_account_view_def nick_owners_by_account_def user_to_record_def)

lemma put_store_simps [simp]: "ad_store (put_store st ad) = st" "ad_now (put_store st ad) = ad_now ad"
  by (simp_all add: put_store_def ad_store_def)

lemma account_view_store: "st_nickOwners (ad_store ad') = st_nickOwners (ad_store ad) \<Longrightarrow> to_account_view ad' a = to_account_view ad a"
  by (simp add: to_account_view_def nick_owners_by_account_def)

lemma accounts_create_owners: "st_nickOwners (fst (accounts_create a t st)) = st_nickOwners st"
  by (simp add: accounts_create_def)

lemma kick_user_answer: "snd (kick_user nick why (ad_server (blank_admin ad))) = snd (kick_user nick why (ad_server ad))"
  by (auto simp: kick_user_def conn_for_def blank_admin_def Let_def split: option.splits)

text \<open>One handler at a time: the answer over the blanked store is the answer over the store.\<close>

lemma operator_answers:
  "api_list_operators (blank_admin ad) = api_list_operators ad"
  "api_get_operator n (blank_admin ad) = api_get_operator n ad"
  "snd (api_create_operator dr b (blank_admin ad)) = snd (api_create_operator dr b ad)"
  "snd (api_delete_operator n (blank_admin ad)) = snd (api_delete_operator n ad)"
proof -
  show "snd (api_create_operator dr b (blank_admin ad)) = snd (api_create_operator dr b ad)"
  proof -
    have same: "snd (operators_create op (blank_hashes (ad_store ad))) = snd (operators_create op (ad_store ad))" for op
      using writes_blank(1) [where op = op and h = "op_PasswordHash op"] by simp
    show ?thesis
      by (auto simp: same api_create_operator_def new_password_hash_def Let_def to_operator_view_def case_prod_beta split: option.splits)
  qed
  show "snd (api_delete_operator n (blank_admin ad)) = snd (api_delete_operator n ad)"
    by (simp add: api_delete_operator_def case_prod_beta writes_blank)
qed (auto simp: api_list_operators_def api_get_operator_def lists_blank operators_blank to_operator_view_def split: option.splits)

lemma user_answers:
  "api_list_users (blank_admin ad) = api_list_users ad" "api_get_user n (blank_admin ad) = api_get_user n ad"
  "snd (api_kick_user n c (blank_admin ad)) = snd (api_kick_user n c ad)"
  "api_get_server (blank_admin ad) = api_get_server ad"
proof -
  show "api_list_users (blank_admin ad) = api_list_users ad"
    by (simp add: api_list_users_def views_blank cong: map_cong)
  show "snd (api_kick_user n c (blank_admin ad)) = snd (api_kick_user n c ad)"
    by (auto simp: api_kick_user_def Let_def case_prod_beta kick_user_answer split: option.splits)
qed (auto simp: api_get_user_def api_get_server_def  views_blank split: option.splits)

lemma member_view_blank: "to_member_view (blank_admin ad) = to_member_view ad"
  by (rule ext) (simp add: to_member_view_def split: option.splits)

lemma channel_answers:
  "api_list_channels (blank_admin ad) = api_list_channels ad" "api_get_channel n (blank_admin ad) = api_get_channel n ad"
  by (auto simp: api_list_channels_def api_get_channel_def member_view_blank split: option.splits)

lemma token_answers:
  "api_list_tokens (blank_admin ad) = api_list_tokens ad"
  "snd (api_create_token sha dr c (blank_admin ad)) = snd (api_create_token sha dr c ad)"
  "snd (api_delete_token n (blank_admin ad)) = snd (api_delete_token n ad)"
  by (auto simp: api_list_tokens_def api_create_token_def api_delete_token_def Let_def case_prod_beta split: option.splits)

lemma account_answers:
  "api_list_accounts (blank_admin ad) = api_list_accounts ad" "api_get_account n (blank_admin ad) = api_get_account n ad"
  "snd (api_delete_account n (blank_admin ad)) = snd (api_delete_account n ad)"
  "snd (api_reset_password dr n r (blank_admin ad)) = snd (api_reset_password dr n r ad)"
proof -
  show "api_list_accounts (blank_admin ad) = api_list_accounts ad"
    by (simp add: api_list_accounts_def lists_blank views_blank)
  show "snd (api_reset_password dr n r (blank_admin ad)) = snd (api_reset_password dr n r ad)"
  proof (cases "accounts_get_by_id n (ad_store ad)")
    case (Some a)
    have "snd (accounts_update ((no_ac_hash a)\<lparr>ac_PasswordHash := h\<rparr>) t (blank_hashes (ad_store ad)))
        = snd (accounts_update (a\<lparr>ac_PasswordHash := h\<rparr>) t (ad_store ad))" for h t
      using writes_blank(4) [where a = "a\<lparr>ac_PasswordHash := h\<rparr>" and h = h] by simp
    then show ?thesis
      using Some by (auto simp: api_reset_password_def new_password_hash_def accounts_blank case_prod_beta split: option.splits)
  qed (auto simp: api_reset_password_def accounts_blank split: option.splits)
qed (auto simp: api_get_account_def api_delete_account_def accounts_blank views_blank writes_blank case_prod_beta split: option.splits)

lemma account_created:
  "snd (api_create_account dr c (blank_admin ad)) = snd (api_create_account dr c ad)"
proof (cases c)
  case (Some q)
  obtain name pw email where q: "q = (name, pw, email)" by (cases q)
  define a where "a = \<lparr>ac_ID = name, ac_Username = name, ac_PasswordHash = new_password_hash ad dr pw, ac_Email = email,
    ac_Verified = False, ac_CreatedAt = ad_now ad, ac_UpdatedAt = ad_now ad\<rparr>"
  have hash: "new_password_hash (blank_admin ad) dr pw = new_password_hash ad dr pw"
    by (simp add: new_password_hash_def)
  have "snd (accounts_create a t (blank_hashes (ad_store ad))) = snd (accounts_create a t (ad_store ad))" for t
    using writes_blank(3) [where a = a and h = "ac_PasswordHash a"] by simp
  moreover have "to_account_view (put_store (fst (accounts_create a t (blank_hashes (ad_store ad)))) (blank_admin ad)) a
      = to_account_view (put_store (fst (accounts_create a t (ad_store ad))) ad) a" for t
    by (rule account_view_store) (simp add: accounts_create_owners)
  ultimately show ?thesis
    by (simp add: api_create_account_def Some q Let_def case_prod_beta hash flip: a_def)
qed (simp add: api_create_account_def)

lemma registration_answers:
  "api_get_registration n (blank_admin ad) = api_get_registration n ad"
  "snd (api_create_registration n b (blank_admin ad)) = snd (api_create_registration n b ad)"
  "snd (api_update_registration n b (blank_admin ad)) = snd (api_update_registration n b ad)"
  "snd (api_delete_registration n (blank_admin ad)) = snd (api_delete_registration n ad)"
  "snd (api_set_access n i f (blank_admin ad)) = snd (api_set_access n i f ad)"
  "snd (api_delete_access n i (blank_admin ad)) = snd (api_delete_access n i ad)"
proof -
  have gets: "reg_channels_get n (blank_hashes st) = reg_channels_get n st" "access_list n (blank_hashes st) = access_list n st" for st
    by (simp_all add: reg_channels_get_def access_list_def)
  show "api_get_registration n (blank_admin ad) = api_get_registration n ad"
    by (auto simp: api_get_registration_def gets split: option.splits)
  show "snd (api_create_registration n b (blank_admin ad)) = snd (api_create_registration n b ad)"
    by (auto simp: api_create_registration_def Let_def case_prod_beta writes_blank accounts_blank split: option.splits)
  show "snd (api_update_registration n b (blank_admin ad)) = snd (api_update_registration n b ad)"
    by (auto simp: api_update_registration_def Let_def case_prod_beta writes_blank accounts_blank gets split: option.splits)
  show "snd (api_set_access n i f (blank_admin ad)) = snd (api_set_access n i f ad)"
    by (auto simp: api_set_access_def case_prod_beta writes_blank accounts_blank gets split: option.splits)
qed (auto simp: api_delete_registration_def api_delete_access_def case_prod_beta writes_blank)

lemmas answers_blank = operator_answers user_answers channel_answers token_answers account_answers account_created registration_answers

lemma route_blank: "snd (api_route sha dr call (blank_admin ad)) = snd (api_route sha dr call ad)"
  by (cases call) (simp_all add: answers_blank)

lemma touch_blank: "(blank_admin ad)\<lparr>ad_tokens := ts\<rparr> = blank_admin (ad\<lparr>ad_tokens := ts\<rparr>)"
  by (simp add: blank_admin_def)


section \<open>The life of a token\<close>

text \<open>The token table: one row per identifier, no two rows with one hash.\<close>

definition tokens_wf :: "tokens \<Rightarrow> bool" where
  "tokens_wf ts \<longleftrightarrow> wf_map ts \<and> list_all (\<lambda>(i, t). tk_ID t = i) ts \<and> distinct (map (\<lambda>(i, t). tk_Hash t) ts)"

definition holds_token :: "string \<Rightarrow> string \<Rightarrow> tokens \<Rightarrow> bool" where
  "holds_token i h ts = (case map_of ts i of Some t \<Rightarrow> tk_Hash t = h | None \<Rightarrow> False)"

lemma tokens_wf_iff:
  "tokens_wf ts \<longleftrightarrow> wf_map ts \<and> (\<forall>i t. map_of ts i = Some t \<longrightarrow> tk_ID t = i) \<and>
     (\<forall>i j t u. map_of ts i = Some t \<longrightarrow> map_of ts j = Some u \<longrightarrow> tk_Hash t = tk_Hash u \<longrightarrow> i = j)"
proof (cases "wf_map ts")
  case True
  then have mem: "map_of ts i = Some t \<longleftrightarrow> (i, t) \<in> set ts" for i t
    by (simp add: wf_map_def)
  have "distinct (map (\<lambda>(i, t). tk_Hash t) ts) \<longleftrightarrow> inj_on (\<lambda>(i, t). tk_Hash t) (set ts)"
    using True by (auto simp: distinct_map wf_map_def)
  also have "\<dots> \<longleftrightarrow> (\<forall>i j t u. (i, t) \<in> set ts \<longrightarrow> (j, u) \<in> set ts \<longrightarrow> tk_Hash t = tk_Hash u \<longrightarrow> i = j)"
  proof -
    have "t = u" if "(i, t) \<in> set ts" "(i, u) \<in> set ts" for i t u
      using that mem [of i t, symmetric] mem [of i u, symmetric] by (metis option.inject)
    then show ?thesis
      unfolding inj_on_def by fast
  qed
  finally show ?thesis
    using True by (auto simp: tokens_wf_def mem list_all_iff)
qed (simp add: tokens_wf_def)

lemma tokens_wf_unique:
  assumes "tokens_wf ts" "map_of ts i = Some t" "map_of ts j = Some u" "tk_Hash t = tk_Hash u"
  shows "i = j"
  using conjunct2 [OF conjunct2 [OF assms(1) [unfolded tokens_wf_iff]]] assms(2-4) by blast

lemma get_by_hash_wf:
  assumes "tokens_wf ts"
  shows "tokens_get_by_hash h ts = Some t \<longleftrightarrow> map_of ts (tk_ID t) = Some t \<and> tk_Hash t = h"
proof -
  note parts = assms [unfolded tokens_wf_iff]
  have wf: "wf_map ts" by (rule conjunct1 [OF parts])
  have ids: "tk_ID u = i" if "map_of ts i = Some u" for i u
    using conjunct1 [OF conjunct2 [OF parts]] that by simp
  note hashes = tokens_wf_unique [OF assms]
  have mem: "u \<in> snd ` set ts \<longleftrightarrow> map_of ts (tk_ID u) = Some u" for u
  proof
    assume "u \<in> snd ` set ts"
    then obtain i where "(i, u) \<in> set ts" by auto
    then have "map_of ts i = Some u" using wf by (simp add: wf_map_def)
    with ids show "map_of ts (tk_ID u) = Some u" by simp
  next
    assume "map_of ts (tk_ID u) = Some u"
    then show "u \<in> snd ` set ts" by (metis map_of_SomeD image_eqI snd_conv)
  qed
  have found: "map_of ts (tk_ID u) = Some u \<and> tk_Hash u = h" if "tokens_get_by_hash h ts = Some u" for u
  proof -
    have "u \<in> set (map snd ts)" "tk_Hash u = h"
      using that by (auto simp: tokens_get_by_hash_def find_Some_iff nth_mem simp del: nth_map set_map)
    then show ?thesis using mem [of u] by simp
  qed
  show ?thesis
  proof
    assume given: "map_of ts (tk_ID t) = Some t \<and> tk_Hash t = h"
    then have "t \<in> set (map snd ts)" using mem [of t] by simp
    with given have "tokens_get_by_hash h ts \<noteq> None"
      unfolding tokens_get_by_hash_def find_None_iff by blast
    then obtain u where u: "tokens_get_by_hash h ts = Some u" by blast
    have there: "map_of ts (tk_ID t) = Some t" "tk_Hash t = h" using given by blast+
    have here: "map_of ts (tk_ID u) = Some u" "tk_Hash u = h" using found [OF u] by blast+
    have "tk_ID u = tk_ID t"
      by (rule hashes [OF here(1) there(1)]) (rule trans [OF here(2) there(2) [symmetric]])
    from trans [OF trans [OF here(1) [symmetric] arg_cong [OF this, where f = "map_of ts"]] there(1)]
    have "Some u = Some t" .
    with u show "tokens_get_by_hash h ts = Some t" by (rule trans)
  qed (rule found)
qed

lemma get_by_hash_none: "tokens_wf ts \<Longrightarrow> tokens_get_by_hash h ts = None \<longleftrightarrow> (\<forall>i t. map_of ts i = Some t \<longrightarrow> tk_Hash t \<noteq> h)"
  by (metis get_by_hash_wf not_None_eq tokens_wf_iff)

lemma tokens_wf_ops:
  assumes "tokens_wf ts"
  shows "tokens_wf (fst (tokens_create t now ts))" "tokens_wf (fst (tokens_touch i now ts))" "tokens_wf (fst (tokens_delete i ts))"
proof -
  show "tokens_wf (fst (tokens_create t now ts))"
  proof (cases "tk_ID t = [] \<or> tk_Hash t = [] \<or> mhas ts (tk_ID t) \<or> tokens_get_by_hash (tk_Hash t) ts \<noteq> None")
    case False
    then have "tk_Hash u \<noteq> tk_Hash t" if "map_of ts i = Some u" for i u
      using get_by_hash_none [OF assms, of "tk_Hash t"] that by blast
    moreover from this have "tk_Hash t \<noteq> tk_Hash u" if "map_of ts i = Some u" for i u
      using that by metis
    ultimately show ?thesis
      using assms False unfolding tokens_create_def tokens_wf_iff by (auto split: if_splits)
  next
    case True
    then show ?thesis using assms by (auto simp: tokens_create_def)
  qed
  show "tokens_wf (fst (tokens_touch i now ts))"
    using assms unfolding tokens_touch_def tokens_wf_iff by (auto split: option.splits if_splits)
  show "tokens_wf (fst (tokens_delete i ts))"
    using assms by (auto simp: tokens_delete_def tokens_wf_iff split: if_splits)
qed

lemma holds_token_ops:
  assumes "holds_token i h ts"
  shows "holds_token i h (fst (tokens_create t now ts))" "holds_token i h (fst (tokens_touch j now ts))"
    "j \<noteq> i \<Longrightarrow> holds_token i h (fst (tokens_delete j ts))"
  using assms by (auto simp: holds_token_def tokens_create_def tokens_touch_def tokens_delete_def mhas_def split: option.splits if_splits)

lemma route_tokens:
  "ad_tokens (fst (api_route sha dr call ad)) =
     (case call of
        CreateToken _ \<Rightarrow> ad_tokens (fst (api_route sha dr call ad))
      | DeleteToken i \<Rightarrow> fst (tokens_delete i (ad_tokens ad))
      | _ \<Rightarrow> ad_tokens ad)"
proof -
  have put: "ad_tokens (put_store st a) = ad_tokens a" for st a by (simp add: put_store_def)
  show ?thesis
    by (cases call) (auto simp: put api_create_operator_def api_delete_operator_def api_kick_user_def api_delete_token_def api_create_account_def
        api_delete_account_def api_reset_password_def api_create_registration_def api_update_registration_def api_delete_registration_def
        api_set_access_def api_delete_access_def Let_def case_prod_beta split: option.splits)
qed

lemma route_create_tokens:
  "ad_tokens (fst (api_route sha dr (CreateToken b) ad)) = ad_tokens ad \<or>
   (\<exists>t. ad_tokens (fst (api_route sha dr (CreateToken b) ad)) = fst (tokens_create t (ad_now ad) (ad_tokens ad)))"
  by (auto simp: api_create_token_def Let_def case_prod_beta split: option.splits)

lemma route_keeps:
  assumes "call \<noteq> DeleteToken i" "tokens_wf (ad_tokens ad)" "holds_token i h (ad_tokens ad)"
  shows "tokens_wf (ad_tokens (fst (api_route sha dr call ad))) \<and> holds_token i h (ad_tokens (fst (api_route sha dr call ad)))"
proof (cases "\<exists>b. call = CreateToken b")
  case True
  then obtain b where "call = CreateToken b" ..
  then show ?thesis
    using route_create_tokens [of sha dr b ad] assms by (auto simp: tokens_wf_ops holds_token_ops simp del: api_route.simps)
next
  case False
  then show ?thesis
    using route_tokens [of sha dr call ad] assms
    by (cases call) (simp_all add: tokens_wf_ops holds_token_ops del: api_route.simps)
qed

lemma kick_user_store: "sv_store (fst (kick_user n why s)) = None \<longleftrightarrow> sv_store s = None"
proof -
  have "sv_store (emit_audit a b c d s) = None \<longleftrightarrow> sv_store s = None" for a b c d s
    by (simp add: emit_audit_def Let_def split: option.splits)
  moreover have "sv_store (cancel c x s) = sv_store s" "sv_store (send_error c x s) = sv_store s" "sv_store (upd_conn c f s) = sv_store s" for c x f s
    by (simp_all add: cancel_def send_error_def send_def upd_conn_def)
  ultimately show ?thesis
    by (simp add: kick_user_def Let_def split: option.splits)
qed

lemma route_store: "sv_store (ad_server ad) \<noteq> None \<Longrightarrow> sv_store (ad_server (fst (api_route sha dr call ad))) \<noteq> None"
proof -
  assume st: "sv_store (ad_server ad) \<noteq> None"
  have put: "sv_store (ad_server (put_store x a)) = Some x" for x a by (simp add: put_store_def)
  have kick: "sv_store (fst (kick_user n why (ad_server ad))) \<noteq> None" for n why
    using st kick_user_store [of n why "ad_server ad"] by simp
  show ?thesis
    using st by (cases call) (auto simp: put kick [simplified] api_create_operator_def api_delete_operator_def api_kick_user_def api_create_token_def
        api_delete_token_def api_create_account_def
        api_delete_account_def api_reset_password_def api_create_registration_def api_update_registration_def api_delete_registration_def
        api_set_access_def api_delete_access_def Let_def case_prod_beta split: option.splits)
qed

text \<open>A run of the API: one request after the other, each with the bytes it draws and its header.\<close>

primrec api_run :: "sha256 \<Rightarrow> (drawn \<times> string \<times> api_call) list \<Rightarrow> admin \<Rightarrow> admin" where
  "api_run sha [] ad = ad"
| "api_run sha (r # rs) ad = api_run sha rs (case r of (dr, header, call) \<Rightarrow> fst (api_handle sha dr header call ad))"

definition authorised :: "string \<Rightarrow> string \<Rightarrow> admin \<Rightarrow> bool" where
  "authorised i h ad \<longleftrightarrow> tokens_wf (ad_tokens ad) \<and> holds_token i h (ad_tokens ad) \<and> sv_store (ad_server ad) \<noteq> None"

lemma handle_authorised:
  assumes "authorised i h ad" "call \<noteq> DeleteToken i"
  shows "authorised i h (fst (api_handle sha dr header call ad))"
proof -
  have "authorised i h (fst (api_route sha dr call (ad\<lparr>ad_tokens := fst (tokens_touch j now (ad_tokens ad))\<rparr>)))" for j now
    using assms route_keeps [OF assms(2), of "ad\<lparr>ad_tokens := fst (tokens_touch j now (ad_tokens ad))\<rparr>" h sha dr]
      route_store [of "ad\<lparr>ad_tokens := fst (tokens_touch j now (ad_tokens ad))\<rparr>" sha dr call]
    by (simp add: authorised_def tokens_wf_ops holds_token_ops)
  then show ?thesis
    using assms(1) by (auto simp: api_handle_def require_token_def split: option.splits)
qed

lemma run_authorised:
  assumes "authorised i h ad" "\<forall>(dr, header, call) \<in> set rs. call \<noteq> DeleteToken i"
  shows "authorised i h (api_run sha rs ad)"
  using assms by (induction rs arbitrary: ad) (auto simp: handle_authorised split: prod.splits)

lemma bearer_spaceless:
  assumes "p \<noteq> []" "list_all (\<lambda>c. \<not> is_space c) p"
  shows "bearer (''Bearer '' @ p) = Some p"
proof -
  have keep: "list_all (\<lambda>c. \<not> is_space c) q \<Longrightarrow> dropWhile is_space q = q" for q by (cases q) auto
  have "trim_space p = p" using assms(2) by (simp add: trim_space_def keep)
  then show ?thesis
    using assms(1) by (simp add: bearer_def has_prefix_def)
qed

lemma hex_spaceless: "list_all (\<lambda>c. \<not> is_space c) (hex_string s)"
proof -
  have "\<forall>d \<in> set [0..<16]. \<not> is_space (hex_digit d)" by code_simp
  then have "\<not> is_space (hex_digit d)" if "d < 16" for d using that by simp
  moreover have "(of_char c :: nat) div 16 < 16" for c :: char
    using nat_of_char_less_256 [of c] by (simp add: less_mult_imp_div_less)
  ultimately show ?thesis by (auto simp: hex_string_def list_all_iff)
qed

lemma minted_spaceless: "list_all (\<lambda>c. \<not> is_space c) (mt_Plaintext (generate_api_token sha x y))"
  by (simp add: generate_api_token_def Let_def hex_spaceless) (simp add: is_space_def)

lemma minted_nonempty: "mt_Plaintext (generate_api_token sha x y) \<noteq> []"
  by (simp add: generate_api_token_def Let_def)

lemma created_authorised:
  assumes "tokens_wf (ad_tokens ad)" "sv_store (ad_server ad) \<noteq> None"
    and "api_route sha dr (CreateToken body) ad = (ad1, ApiOk 201 (BNewToken v p))"
  shows "authorised (tv_ID v) (hash_api_token sha p) ad1 \<and> bearer (''Bearer '' @ p) = Some p"
proof -
  obtain l scopes where b: "body = Some (l, scopes)"
    using assms(3) by (auto simp: api_create_token_def split: option.splits)
  define m where "m = generate_api_token sha (dr_id dr) (dr_secret dr)"
  define t where "t = \<lparr>tk_ID = mt_ID m, tk_Label = l, tk_Hash = mt_Hash m, tk_Scopes = scopes, tk_CreatedAt = ad_now ad, tk_LastUsedAt = zero_time\<rparr>"
  have made: "ad1 = ad\<lparr>ad_tokens := fst (tokens_create t (ad_now ad) (ad_tokens ad))\<rparr>" "snd (tokens_create t (ad_now ad) (ad_tokens ad)) = None"
    "v = to_token_view t" "p = mt_Plaintext m"
    using assms(3) unfolding b api_route.simps api_create_token_def
    by (auto simp: Let_def case_prod_beta on_error_def simp flip: m_def t_def split: if_splits option.splits)
  have "mt_Hash m = hash_api_token sha p"
    by (simp add: made(4) m_def generate_api_token_def Let_def)
  then have "holds_token (tk_ID t) (hash_api_token sha p) (fst (tokens_create t (ad_now ad) (ad_tokens ad)))"
    using made(2) by (auto simp: holds_token_def tokens_create_def t_def split: if_splits)
  then show ?thesis
    using assms(1,2) tokens_wf_ops(1) [OF assms(1)] bearer_spaceless [OF minted_nonempty minted_spaceless]
    by (simp add: authorised_def made(1,3,4) to_token_view_def m_def)
qed

lemma authorised_found:
  assumes "authorised i h ad"
  obtains t where "tokens_get_by_hash h (ad_tokens ad) = Some t" "tk_ID t = i"
proof -
  obtain t where t: "map_of (ad_tokens ad) i = Some t" "tk_Hash t = h"
    using assms by (auto simp: authorised_def holds_token_def split: option.splits)
  have wf: "tokens_wf (ad_tokens ad)" using assms by (simp add: authorised_def)
  from wf t(1) have i: "tk_ID t = i" unfolding tokens_wf_iff by blast
  then have "tokens_get_by_hash h (ad_tokens ad) = Some t"
    using get_by_hash_wf [OF wf, of h t] t by simp
  with i show thesis by (rule that [rotated])
qed


definition demo_drawn :: drawn where
  "demo_drawn = \<lparr>dr_salt = ''saltsalt'', dr_id = ''AB'', dr_secret = ''CD''\<rparr>"

definition demo_admin :: admin where
  "demo_admin = \<lparr>ad_server = demo_server, ad_tokens = []\<rparr>"

definition demo_opened :: admin where
  "demo_opened = fst (api_route rev demo_drawn (CreateToken (Some (''deploy'', [''read'', ''write'']))) demo_admin)"

definition demo_used :: admin where
  "demo_used = api_run rev [(demo_drawn, ''Bearer ircat_4142_4344'', ListTokens)] demo_opened"

lemma demo_minted_token:
  "api_route rev demo_drawn (CreateToken (Some (''deploy'', [''read'', ''write'']))) demo_admin = (demo_opened, ApiOk 201 (BNewToken
     \<lparr>tv_ID = ''ircat_4142'', tv_Label = ''deploy'', tv_Scopes = [''read'', ''write''], tv_CreatedAt = 100, tv_LastUsedAt = zero_time\<rparr>
     ''ircat_4142_4344''))"
  by (simp add: demo_opened_def demo_admin_def demo_drawn_def demo_server_def new_server_def api_create_token_def generate_api_token_def
      tokens_create_def tokens_get_by_hash_def hash_api_token_def hex_string_def hex_digit_def on_error_def to_token_view_def Let_def
      of_char_def char_of_def bit_0)


end
