(* ===== verification/Bots.thy ===== *)
theory Bots
  imports Oper_Cmds Encoding
begin

text \<open>
  The bots: their tables in \<^verbatim>\<open>internal/storage/sqlite/bots.go\<close>, the runtime of \<^verbatim>\<open>internal/bots/runtime.go\<close> and the
  supervisor of \<^verbatim>\<open>internal/bots/supervisor.go\<close>. The Lua interpreter is a library: it appears as a record of two
  functions, one that loads a source and one that calls a global function of a loaded script. What a script does is a tree of
  calls into its context with a continuation for each reply, so a script may do anything with the replies, and a
  script that runs forever is cut off by its deadline and is a tree that ends in an error. A script keeps a state
  between two calls, of the type \<^typ>\<open>'vm\<close>.
\<close>

section \<open>The tables\<close>

record bot_rec =
  bt_ID :: string
  bt_Name :: string
  bt_Source :: string
  bt_Enabled :: bool
  bt_TickInterval :: int
  bt_CreatedAt :: time
  bt_UpdatedAt :: time

record bot_tables =
  bk_bots :: "(string, bot_rec) gomap"
  bk_kv :: "(string \<times> string, string) gomap"

definition bots_get :: "string \<Rightarrow> bot_tables \<Rightarrow> bot_rec option" where
  "bots_get i bk = map_of (bk_bots bk) i"

definition bots_get_by_name :: "string \<Rightarrow> bot_tables \<Rightarrow> bot_rec option" where
  "bots_get_by_name n bk = find (\<lambda>b. bt_Name b = n) (map snd (bk_bots bk))"

definition bots_list :: "bot_tables \<Rightarrow> bot_rec list" where
  "bots_list bk = sort_key bt_Name (map snd (bk_bots bk))"

text \<open>The record comes back with the times the statement wrote.\<close>

definition bots_create :: "bot_rec \<Rightarrow> time \<Rightarrow> bot_tables \<Rightarrow> bot_tables \<times> (storage_error + bot_rec)" where
  "bots_create b now bk =
     (if bt_ID b = [] \<or> bt_Name b = [] then (bk, Inl ErrOther)
      else if mhas (bk_bots bk) (bt_ID b) \<or> bots_get_by_name (bt_Name b) bk \<noteq> None then (bk, Inl ErrConflict)
      else let b' = b\<lparr>bt_CreatedAt := now, bt_UpdatedAt := now\<rparr> in (bk\<lparr>bk_bots := mput (bt_ID b) b' (bk_bots bk)\<rparr>, Inr b'))"

text \<open>A name another bot has is an error of the statement, but not a conflict.\<close>

definition bots_update :: "bot_rec \<Rightarrow> time \<Rightarrow> bot_tables \<Rightarrow> bot_tables \<times> (storage_error + bot_rec)" where
  "bots_update b now bk =
     (if bt_ID b = [] then (bk, Inl ErrOther)
      else case map_of (bk_bots bk) (bt_ID b) of
        None \<Rightarrow> (bk, Inl ErrNotFound)
      | Some old \<Rightarrow>
          if list_ex (\<lambda>(i, o'). i \<noteq> bt_ID b \<and> bt_Name o' = bt_Name b) (bk_bots bk) then (bk, Inl ErrOther)
          else (bk\<lparr>bk_bots := mput (bt_ID b)
                  (old\<lparr>bt_Name := bt_Name b, bt_Source := bt_Source b, bt_Enabled := bt_Enabled b,
                       bt_TickInterval := bt_TickInterval b, bt_UpdatedAt := now\<rparr>) (bk_bots bk)\<rparr>,
                Inr (b\<lparr>bt_UpdatedAt := now\<rparr>)))"

text \<open>The rows of a deleted bot go with it.\<close>

definition bots_delete :: "string \<Rightarrow> bot_tables \<Rightarrow> bot_tables \<times> storage_error option" where
  "bots_delete i bk =
     (if mhas (bk_bots bk) i
      then (bk\<lparr>bk_bots := mdel i (bk_bots bk), bk_kv := filter (\<lambda>((b, k), v). b \<noteq> i) (bk_kv bk)\<rparr>, None)
      else (bk, Some ErrNotFound))"

definition kv_get :: "string \<Rightarrow> string \<Rightarrow> bot_tables \<Rightarrow> string option" where
  "kv_get i k bk = map_of (bk_kv bk) (i, k)"

definition kv_set :: "string \<Rightarrow> string \<Rightarrow> string \<Rightarrow> bot_tables \<Rightarrow> bot_tables \<times> storage_error option" where
  "kv_set i k v bk =
     (if mhas (bk_bots bk) i then (bk\<lparr>bk_kv := mput (i, k) v (bk_kv bk)\<rparr>, None) else (bk, Some ErrOther))"

definition kv_delete :: "string \<Rightarrow> string \<Rightarrow> bot_tables \<Rightarrow> bot_tables \<times> storage_error option" where
  "kv_delete i k bk =
     (if mhas (bk_kv bk) (i, k) then (bk\<lparr>bk_kv := mdel (i, k) (bk_kv bk)\<rparr>, None) else (bk, Some ErrNotFound))"

definition kv_list :: "string \<Rightarrow> bot_tables \<Rightarrow> (string \<times> string) list" where
  "kv_list i bk = map (\<lambda>((b, k), v). (k, v)) (filter (\<lambda>((b, k), v). b = i) (bk_kv bk))"

section \<open>Scripts\<close>

record bot_event =
  ev_Channel :: string
  ev_Sender :: string
  ev_Hostmask :: string
  ev_Text :: string
  ev_CommandName :: string
  ev_CommandArgs :: string

datatype bot_call = Say string string | Notice string string | JoinChannel string | PartChannel string string
  | NickOf | Log string string | Now | KVGet string | KVSet string string | KVDelete string

datatype bot_failure = FailedServer bot_error | FailedStore storage_error

datatype bot_reply = Done | TextReply string | NumberReply int | Failed bot_failure

datatype 'vm prog = Finished 'vm | Errored string 'vm | Ask bot_call "bot_reply \<Rightarrow> 'vm prog"

record 'vm lua =
  lua_load :: "string \<Rightarrow> string + 'vm prog"
  lua_call :: "'vm \<Rightarrow> string \<Rightarrow> bot_event option \<Rightarrow> 'vm prog option"

text \<open>The syntax check of the dashboard: the chunk is parsed, not run.\<close>

definition bot_validate :: "'vm lua \<Rightarrow> string \<Rightarrow> string option" where
  "bot_validate lua source = (case lua_load lua source of Inl e \<Rightarrow> Some e | Inr _ \<Rightarrow> None)"

section \<open>The sandbox\<close>

record budget =
  bg_Instructions :: int
  bg_Wallclock :: int
  bg_RegistrySlots :: int

definition default_budget :: budget where
  "default_budget = \<lparr>bg_Instructions = 1000000, bg_Wallclock = 5 * 1000000000, bg_RegistrySlots = 65536\<rparr>"

definition budget_defaults :: "budget \<Rightarrow> budget" where
  "budget_defaults b =
     \<lparr>bg_Instructions = (if bg_Instructions b = 0 then bg_Instructions default_budget else bg_Instructions b),
      bg_Wallclock = (if bg_Wallclock b = 0 then bg_Wallclock default_budget else bg_Wallclock b),
      bg_RegistrySlots = (if bg_RegistrySlots b = 0 then bg_RegistrySlots default_budget else bg_RegistrySlots b)\<rparr>"

text \<open>Durations are signed 64-bit nanoseconds; the product wraps.\<close>

definition effective_deadline :: "budget \<Rightarrow> int" where
  "effective_deadline b =
     (let fromInstr = sint (word_of_int (bg_Instructions b * 1000000000) :: 64 word) div 10000000;
          wall = (if bg_Instructions b > 0 \<and> fromInstr > 0 \<and> fromInstr < bg_Wallclock b then fromInstr else bg_Wallclock b)
      in if wall \<le> 0 then bg_Wallclock default_budget else wall)"

datatype format_error = TrailingPercent | WidthTooLarge | PrecisionTooLarge

definition max_format_args :: nat where "max_format_args = 16"
definition max_format_output :: nat where "max_format_output = 8192"
definition max_format_width :: nat where "max_format_width = 1024"

primrec bounded_number :: "nat \<Rightarrow> string \<Rightarrow> bool" where
  "bounded_number n [] = True"
| "bounded_number n (c # cs) =
     (let n' = n * 10 + (of_char c - 48) in n' \<le> max_format_width \<and> bounded_number n' cs)"

definition format_flag :: "char \<Rightarrow> bool" where
  "format_flag c = (c \<in> set ''-+ #0'')"

text \<open>The loop over the format string; after a directive the byte of the verb is skipped.\<close>

function validate_format :: "string \<Rightarrow> format_error option" where
  "validate_format [] = None"
| "validate_format (c # s) =
     (if c \<noteq> CHR ''%'' then validate_format s
      else case s of
        [] \<Rightarrow> Some TrailingPercent
      | d # s' \<Rightarrow>
          if d = CHR ''%'' then validate_format s'
          else
            let s1 = dropWhile format_flag s; s2 = dropWhile is_digit s1 in
            if \<not> bounded_number 0 (takeWhile is_digit s1) then Some WidthTooLarge
            else if s2 \<noteq> [] \<and> hd s2 = CHR ''.'' then
              (let s3 = tl s2 in
               if \<not> bounded_number 0 (takeWhile is_digit s3) then Some PrecisionTooLarge
               else validate_format (tl (dropWhile is_digit s3)))
            else validate_format (tl s2))"
  by pat_completeness auto
termination
proof (relation "measure length", goal_cases)
  case (4 c s d s' s1 s2 s3)
  have "length (tl (dropWhile is_digit s3)) \<le> length s3"
    using length_dropWhile_le [of is_digit s3] by simp
  also have "\<dots> \<le> length s2" using 4 by simp
  also have "\<dots> \<le> length s" unfolding 4 using length_dropWhile_le le_trans by blast
  finally show ?case by simp
next
  case (5 c s d s' s1 s2)
  have "length (tl s2) \<le> length s2" by simp
  also have "\<dots> \<le> length s" unfolding 5 using length_dropWhile_le le_trans by blast
  finally show ?case by simp
qed auto

fun count_pairs :: "char \<Rightarrow> string \<Rightarrow> nat" where
  "count_pairs c (a # b # s) = (if a = c \<and> b = c then Suc (count_pairs c s) else count_pairs c (b # s))"
| "count_pairs c s = 0"

text \<open>Before the library formats anything, and after.\<close>

definition safe_string_format :: "(string \<Rightarrow> 'v list \<Rightarrow> string) \<Rightarrow> string \<Rightarrow> 'v list \<Rightarrow> string option" where
  "safe_string_format sprintf fmt args =
     (if length args > max_format_args then None
      else if validate_format fmt \<noteq> None then None
      else
        let npat = length (filter (\<lambda>c. c = CHR ''%'') fmt) - count_pairs CHR ''%'' fmt;
            out = sprintf fmt (take npat args)
        in if length out > max_format_output then None else Some out)"

section \<open>Events\<close>

definition extract_command :: "string \<Rightarrow> string \<times> string" where
  "extract_command txt =
     (if \<not> has_prefix ''!'' txt \<or> length txt < 2 then ([], [])
      else
        let body = tl txt in
        case index_byte CHR '' '' body of
          None \<Rightarrow> (body, [])
        | Some sp \<Rightarrow> (take sp body, trim_left CHR '' '' (drop (Suc sp) body)))"

definition bot_sender_from_prefix :: "string \<Rightarrow> string" where
  "bot_sender_from_prefix prefix = (case index_byte CHR ''!'' prefix of Some i \<Rightarrow> take i prefix | None \<Rightarrow> prefix)"

definition is_channel_target :: "string \<Rightarrow> bool" where
  "is_channel_target target = (target \<noteq> [] \<and> (hd target = CHR ''#'' \<or> hd target = CHR ''&''))"

definition plain_event :: "message \<Rightarrow> bot_event" where
  "plain_event m = \<lparr>ev_Channel = msg_Params m ! 0, ev_Sender = bot_sender_from_prefix (msg_Prefix m), ev_Hostmask = msg_Prefix m,
     ev_Text = [], ev_CommandName = [], ev_CommandArgs = []\<rparr>"

text \<open>The handler a message of the inbox goes to, with its event.\<close>

definition dispatch_one :: "string \<Rightarrow> message \<Rightarrow> (string \<times> bot_event) option" where
  "dispatch_one nickName m =
     (if msg_Command m = ''PRIVMSG'' then
        (if length (msg_Params m) < 2 then None
         else
           let target = msg_Params m ! 0; sender = bot_sender_from_prefix (msg_Prefix m);
               reply_to = (if \<not> is_channel_target target \<and> target = nickName then sender else target);
               ev = (plain_event m)\<lparr>ev_Channel := reply_to, ev_Text := msg_Params m ! 1\<rparr>;
               (name, args) = extract_command (msg_Params m ! 1)
           in if name \<noteq> [] then Some (''on_command'', ev\<lparr>ev_CommandName := name, ev_CommandArgs := args\<rparr>)
              else Some (''on_message'', ev))
      else if msg_Command m = ''JOIN'' then
        (if msg_Params m = [] then None else Some (''on_join'', plain_event m))
      else if msg_Command m = ''PART'' then
        (if msg_Params m = [] then None
         else Some (''on_part'', (plain_event m)\<lparr>ev_Text := (if length (msg_Params m) > 1 then msg_Params m ! 1 else [])\<rparr>))
      else None)"

section \<open>What a script can do\<close>

record session =
  se_user :: uid
  se_nick :: string
  se_bot :: string
  se_logs :: "unit ring"

record node =
  nd_server :: server
  nd_tables :: bot_tables

definition server_reply :: "node \<Rightarrow> server \<times> bot_error option \<Rightarrow> bot_reply \<times> node" where
  "server_reply nd r = (case snd r of None \<Rightarrow> Done | Some e \<Rightarrow> Failed (FailedServer e), nd\<lparr>nd_server := fst r\<rparr>)"

definition table_reply :: "node \<Rightarrow> bot_tables \<times> storage_error option \<Rightarrow> bot_reply \<times> node" where
  "table_reply nd r = (case snd r of None \<Rightarrow> Done | Some e \<Rightarrow> Failed (FailedStore e), nd\<lparr>nd_tables := fst r\<rparr>)"

definition session_now :: "node \<Rightarrow> time" where
  "session_now nd = sv_now (nd_server nd)"

fun bot_act :: "bot_call \<Rightarrow> session \<Rightarrow> node \<Rightarrow> bot_reply \<times> session \<times> node" where
  "bot_act (Say t x) se nd = (case server_reply nd (bot_privmsg (se_user se) t x (nd_server nd)) of (r, nd') \<Rightarrow> (r, se, nd'))"
| "bot_act (Notice t x) se nd = (case server_reply nd (bot_notice (se_user se) t x (nd_server nd)) of (r, nd') \<Rightarrow> (r, se, nd'))"
| "bot_act (JoinChannel n) se nd = (case server_reply nd (bot_join (se_user se) n (nd_server nd)) of (r, nd') \<Rightarrow> (r, se, nd'))"
| "bot_act (PartChannel n x) se nd = (case server_reply nd (bot_part (se_user se) n x (nd_server nd)) of (r, nd') \<Rightarrow> (r, se, nd'))"
| "bot_act NickOf se nd = (TextReply (se_nick se), se, nd)"
| "bot_act (Log l x) se nd = (Done, se\<lparr>se_logs := bot_log_append l x (session_now nd) (se_logs se)\<rparr>, nd)"
| "bot_act Now se nd = (NumberReply (session_now nd div 1000000000), se, nd)"
| "bot_act (KVGet k) se nd =
     ((case kv_get (se_bot se) k (nd_tables nd) of None \<Rightarrow> Failed (FailedStore ErrNotFound) | Some v \<Rightarrow> TextReply v), se, nd)"
| "bot_act (KVSet k v) se nd = (case table_reply nd (kv_set (se_bot se) k v (nd_tables nd)) of (r, nd') \<Rightarrow> (r, se, nd'))"
| "bot_act (KVDelete k) se nd = (case table_reply nd (kv_delete (se_bot se) k (nd_tables nd)) of (r, nd') \<Rightarrow> (r, se, nd'))"

text \<open>A run to its end: the state of the script, the error it ended with, and what it left behind.\<close>

primrec run_prog :: "'vm prog \<Rightarrow> session \<times> node \<Rightarrow> 'vm \<times> string option \<times> session \<times> node" where
  "run_prog (Finished vm) = (\<lambda>(se, nd). (vm, None, se, nd))"
| "run_prog (Errored e vm) = (\<lambda>(se, nd). (vm, Some e, se, nd))"
| "run_prog (Ask c k) = (\<lambda>(se, nd). case bot_act c se nd of (r, s) \<Rightarrow> run_prog (k r) s)"

section \<open>The supervisor\<close>

text \<open>A context is cancelled with the process or with the request it belongs to.\<close>

datatype bot_ctx = RootCtx | RequestCtx nat

record 'vm bot_handle =
  bh_session :: session
  bh_vm :: 'vm
  bh_ctx :: bot_ctx
  bh_cancelled :: bool
  bh_started :: bool

record 'vm supervisor =
  sp_node :: node
  sp_running :: "(string, 'vm bot_handle) gomap"
  sp_done :: "bot_ctx list"

datatype bots_error = BotStore storage_error | BotUser state_error | BotCompile string | BotRunning

definition upd_server :: "(server \<Rightarrow> server) \<Rightarrow> 'vm supervisor \<Rightarrow> 'vm supervisor" where
  "upd_server f sp = sp\<lparr>sp_node := (sp_node sp)\<lparr>nd_server := f (nd_server (sp_node sp))\<rparr>\<rparr>"

definition sp_server :: "'vm supervisor \<Rightarrow> server" where
  "sp_server sp = nd_server (sp_node sp)"

definition sp_now :: "'vm supervisor \<Rightarrow> time" where
  "sp_now sp = sv_now (sp_server sp)"

definition bot_user :: "bot_rec \<Rightarrow> user" where
  "bot_user b = zero_user\<lparr>u_Nick := bt_Name b, u_User := ''bot'', u_Host := ''ircat.local'', u_Realname := bt_Name b,
     u_Modes := ''B'', u_Registered := True\<rparr>"

definition new_session :: "uid \<Rightarrow> bot_rec \<Rightarrow> session" where
  "new_session i b = \<lparr>se_user = i, se_nick = bt_Name b, se_bot = bt_ID b,
     se_logs = new_bot_log_ring 1000 \<lparr>le_Seq = 0, le_Time = zero_time, le_Level = [], le_Message = [], le_Attrs = ()\<rparr>\<rparr>"

definition remove_bot_user :: "uid \<Rightarrow> 'vm supervisor \<Rightarrow> 'vm supervisor" where
  "remove_bot_user i = upd_server (upd_sworld (\<lambda>w. fst (remove_user i w)))"

text \<open>
  \<open>new_runtime\<close> runs the chunk, with the context of the script already working; \<open>start_bot\<close> gives up the user when it
  fails, but nothing the chunk has done until then.
\<close>

definition new_runtime :: "'vm lua \<Rightarrow> string \<Rightarrow> session \<times> node \<Rightarrow> (string + 'vm) \<times> session \<times> node" where
  "new_runtime lua source s =
     (case lua_load lua source of
        Inl e \<Rightarrow> (Inl e, s)
      | Inr p \<Rightarrow> (case run_prog p s of (vm, None, s') \<Rightarrow> (Inr vm, s') | (_, Some e, s') \<Rightarrow> (Inl e, s')))"

definition start_bot :: "'vm lua \<Rightarrow> bot_ctx \<Rightarrow> bot_rec \<Rightarrow> 'vm supervisor \<Rightarrow> 'vm supervisor \<times> bots_error option" where
  "start_bot lua ctx b sp =
     (case add_user (bot_user b) (sp_now sp) (sv_world (sp_server sp)) of
        (_, Inl e) \<Rightarrow> (sp, Some (BotUser e))
      | (w, Inr i) \<Rightarrow>
          (case new_runtime lua (bt_Source b) (new_session i b, sp_node (upd_server (upd_sworld (\<lambda>_. w)) sp)) of
             (Inl e, _, nd) \<Rightarrow> (remove_bot_user i (sp\<lparr>sp_node := nd\<rparr>), Some (BotCompile e))
           | (Inr vm, se, nd) \<Rightarrow>
               let sp1 = sp\<lparr>sp_node := nd\<rparr> in
               (case map_of (sp_running sp1) (bt_ID b) of
                  Some prev \<Rightarrow> (sp1\<lparr>sp_running := mput (bt_ID b) (prev\<lparr>bh_cancelled := True\<rparr>) (sp_running sp1)\<rparr>, Some BotRunning)
                | None \<Rightarrow>
                    let h = \<lparr>bh_session = se, bh_vm = vm, bh_ctx = ctx, bh_cancelled = False, bh_started = False\<rparr> in
                    (upd_server (register_bot i (LuaBot [])) (sp1\<lparr>sp_running := mput (bt_ID b) h (sp_running sp1)\<rparr>), None))))"

text \<open>The goroutine of a bot lives as long as its context; a call into a script after that ends at once.\<close>

definition bot_live :: "'vm supervisor \<Rightarrow> 'vm bot_handle \<Rightarrow> bool" where
  "bot_live sp h \<longleftrightarrow> \<not> bh_cancelled h \<and> bh_ctx h \<notin> set (sp_done sp)"

definition call_handler :: "'vm lua \<Rightarrow> string \<Rightarrow> bot_event option \<Rightarrow> 'vm bot_handle \<Rightarrow> node \<Rightarrow> 'vm bot_handle \<times> node" where
  "call_handler lua name ev h nd =
     (case lua_call lua (bh_vm h) name ev of
        None \<Rightarrow> (h, nd)
      | Some p \<Rightarrow> (case run_prog p (bh_session h, nd) of (vm, _, se, nd') \<Rightarrow> (h\<lparr>bh_vm := vm, bh_session := se\<rparr>, nd')))"

text \<open>The first thing the goroutine does.\<close>

definition bot_init :: "'vm lua \<Rightarrow> string \<Rightarrow> 'vm supervisor \<Rightarrow> 'vm supervisor" where
  "bot_init lua i sp =
     (case map_of (sp_running sp) i of
        None \<Rightarrow> sp
      | Some h \<Rightarrow>
          if \<not> bot_live sp h \<or> bh_started h then sp
          else case call_handler lua ''init'' None h (sp_node sp) of
            (h', nd) \<Rightarrow> sp\<lparr>sp_node := nd, sp_running := mput i (h'\<lparr>bh_started := True\<rparr>) (sp_running sp)\<rparr>)"

text \<open>One turn of its loop: it takes the oldest message of the inbox.\<close>

definition bot_turn :: "'vm lua \<Rightarrow> string \<Rightarrow> 'vm supervisor \<Rightarrow> 'vm supervisor" where
  "bot_turn lua i sp =
     (case map_of (sp_running sp) i of
        None \<Rightarrow> sp
      | Some h \<Rightarrow>
          if \<not> bot_live sp h \<or> \<not> bh_started h then sp
          else case bot_for (se_user (bh_session h)) (sp_server sp) of
            Some (LuaBot (m # ms)) \<Rightarrow>
              let sp1 = upd_server (register_bot (se_user (bh_session h)) (LuaBot ms)) sp in
              (case dispatch_one (se_nick (bh_session h)) m of
                 None \<Rightarrow> sp1
               | Some (name, ev) \<Rightarrow>
                   (case call_handler lua name (Some ev) h (sp_node sp1) of
                      (h', nd) \<Rightarrow> sp1\<lparr>sp_node := nd, sp_running := mput i h' (sp_running sp1)\<rparr>))
          | _ \<Rightarrow> sp)"

text \<open>The end of a bot: its goroutine has ended, the script says goodbye, and the user leaves the directory.\<close>

definition finish_bot :: "'vm lua \<Rightarrow> 'vm bot_handle \<Rightarrow> 'vm supervisor \<Rightarrow> 'vm supervisor" where
  "finish_bot lua h sp =
     (case call_handler lua ''shutdown'' None h (sp_node sp) of
        (h', nd) \<Rightarrow> remove_bot_user (se_user (bh_session h)) (sp\<lparr>sp_node := nd\<rparr>))"

definition stop_bot :: "'vm lua \<Rightarrow> string \<Rightarrow> 'vm supervisor \<Rightarrow> 'vm supervisor" where
  "stop_bot lua i sp =
     (case map_of (sp_running sp) i of
        None \<Rightarrow> sp
      | Some h \<Rightarrow>
          finish_bot lua h (upd_server (unregister_bot (se_user (bh_session h))) (sp\<lparr>sp_running := mdel i (sp_running sp)\<rparr>)))"

definition supervisor_stop :: "'vm lua \<Rightarrow> 'vm supervisor \<Rightarrow> 'vm supervisor" where
  "supervisor_stop lua sp = fold (\<lambda>(i, h). finish_bot lua h) (sp_running sp) (sp\<lparr>sp_running := []\<rparr>)"

definition put_tables :: "bot_tables \<Rightarrow> 'vm supervisor \<Rightarrow> 'vm supervisor" where
  "put_tables bk sp = sp\<lparr>sp_node := (sp_node sp)\<lparr>nd_tables := bk\<rparr>\<rparr>"

abbreviation sp_tables :: "'vm supervisor \<Rightarrow> bot_tables" where
  "sp_tables sp \<equiv> nd_tables (sp_node sp)"

definition supervisor_start :: "'vm lua \<Rightarrow> 'vm supervisor \<Rightarrow> 'vm supervisor" where
  "supervisor_start lua sp =
     fold (\<lambda>b sp. if bt_Enabled b then fst (start_bot lua RootCtx b sp) else sp) (bots_list (sp_tables sp)) sp"

fun hex_acc :: "nat \<Rightarrow> string \<Rightarrow> string" where
  "hex_acc n acc = (if n = 0 then acc else hex_acc (n div 16) (hex_digit (n mod 16) # acc))"

declare hex_acc.simps [simp del]

definition new_bot_id :: "time \<Rightarrow> string" where
  "new_bot_id now = ''bot_'' @ hex_acc (nat now) []"

definition create_bot :: "'vm lua \<Rightarrow> bot_ctx \<Rightarrow> bot_rec \<Rightarrow> 'vm supervisor \<Rightarrow> 'vm supervisor \<times> (bots_error + bot_rec)" where
  "create_bot lua ctx b0 sp =
     (let b = (if bt_ID b0 = [] then b0\<lparr>bt_ID := new_bot_id (sp_now sp)\<rparr> else b0) in
      case bots_create b (sp_now sp) (sp_tables sp) of
        (_, Inl e) \<Rightarrow> (sp, Inl (BotStore e))
      | (bk, Inr b') \<Rightarrow>
          if bt_Enabled b' then
            (case start_bot lua ctx b' (put_tables bk sp) of
               (sp', None) \<Rightarrow> (sp', Inr b')
             | (sp', Some e) \<Rightarrow> (sp', Inl e))
          else (put_tables bk sp, Inr b'))"

definition update_bot :: "'vm lua \<Rightarrow> bot_ctx \<Rightarrow> bot_rec \<Rightarrow> 'vm supervisor \<Rightarrow> 'vm supervisor \<times> (bots_error + bot_rec)" where
  "update_bot lua ctx b sp =
     (case bots_update b (sp_now sp) (sp_tables sp) of
        (_, Inl e) \<Rightarrow> (sp, Inl (BotStore e))
      | (bk, Inr b') \<Rightarrow>
          let sp1 = stop_bot lua (bt_ID b) (put_tables bk sp) in
          if bt_Enabled b' then
            (case start_bot lua ctx b' sp1 of
               (sp', None) \<Rightarrow> (sp', Inr b')
             | (sp', Some e) \<Rightarrow> (sp', Inl e))
          else (sp1, Inr b'))"

definition delete_bot :: "'vm lua \<Rightarrow> string \<Rightarrow> 'vm supervisor \<Rightarrow> 'vm supervisor \<times> storage_error option" where
  "delete_bot lua i sp =
     (let sp1 = stop_bot lua i sp in
      case bots_delete i (sp_tables sp1) of (bk, e) \<Rightarrow> (put_tables bk sp1, e))"

definition bot_logs_since :: "string \<Rightarrow> nat \<Rightarrow> 'vm supervisor \<Rightarrow> unit log_entry list" where
  "bot_logs_since i seq sp =
     (case map_of (sp_running sp) i of None \<Rightarrow> [] | Some h \<Rightarrow> bot_log_since seq (se_logs (bh_session h)))"

definition bot_sessions :: "'vm supervisor \<Rightarrow> (uid \<times> session) list" where
  "bot_sessions sp = map (\<lambda>(i, h). (se_user (bh_session h), bh_session h)) (sp_running sp)"

text \<open>The context of a request ends with the handler that serves it.\<close>

definition end_request :: "nat \<Rightarrow> 'vm supervisor \<Rightarrow> 'vm supervisor" where
  "end_request r sp = sp\<lparr>sp_done := RequestCtx r # sp_done sp\<rparr>"

end
