(* ===== verification/Bot_Props.thy ===== *)
theory Bot_Props
  imports Bots
begin

text \<open>
  What a bot can reach and how long it lives: a script changes no row but its own bot's and keeps the invariant of the
  server, a bot started by a request hears nothing once the request is over, and a stopped bot stays in its channels.
\<close>

section \<open>A script reaches its own rows\<close>

definition same_bot :: "session \<Rightarrow> session \<Rightarrow> bool" where
  "same_bot se se' \<longleftrightarrow> se_user se' = se_user se \<and> se_nick se' = se_nick se \<and> se_bot se' = se_bot se"

text \<open>Nothing but the rows of the bot \<open>i\<close> in the key/value table has changed.\<close>

definition only_rows_of :: "string \<Rightarrow> bot_tables \<Rightarrow> bot_tables \<Rightarrow> bool" where
  "only_rows_of i bk bk' \<longleftrightarrow> bk_bots bk' = bk_bots bk \<and> (\<forall>j k. j \<noteq> i \<longrightarrow> kv_get j k bk' = kv_get j k bk)"

lemma only_rows_refl: "only_rows_of i bk bk"
  by (simp add: only_rows_of_def)

lemma only_rows_trans: "only_rows_of i a b \<Longrightarrow> only_rows_of i b c \<Longrightarrow> only_rows_of i a c"
  by (simp add: only_rows_of_def)

lemma kv_rows:
  "only_rows_of i bk (fst (kv_set i k v bk))" "only_rows_of i bk (fst (kv_delete i k bk))"
  by (auto simp: only_rows_of_def kv_set_def kv_delete_def kv_get_def)

lemma reply_parts:
  "nd_tables (snd (server_reply nd q)) = nd_tables nd" "nd_server (snd (server_reply nd q)) = fst q"
  "nd_tables (snd (table_reply nd r)) = fst r" "nd_server (snd (table_reply nd r)) = nd_server nd"
  by (simp_all add: table_reply_def server_reply_def)

lemma act_confined:
  assumes "bot_act c se nd = (r, se', nd')"
  shows "same_bot se se' \<and> only_rows_of (se_bot se) (nd_tables nd) (nd_tables nd')"
  using assms by (cases c) (auto simp: same_bot_def case_prod_beta only_rows_refl reply_parts kv_rows)

lemma act_wf:
  assumes "bot_act c se nd = (r, se', nd')" "wf_server (nd_server nd)"
  shows "wf_server (nd_server nd')"
  using assms by (cases c) (auto simp: case_prod_beta reply_parts bot_privmsg_def bot_notice_def intro!: invs)

lemma run_confined:
  "run_prog p (se, nd) = (vm, e, se', nd') \<Longrightarrow>
   same_bot se se' \<and> only_rows_of (se_bot se) (nd_tables nd) (nd_tables nd') \<and> (wf_server (nd_server nd) \<longrightarrow> wf_server (nd_server nd'))"
proof (induction p arbitrary: se nd)
  case (Ask c k)
  obtain r se1 nd1 where a: "bot_act c se nd = (r, se1, nd1)" by (rule prod_cases3)
  have run: "run_prog (k r) (se1, nd1) = (vm, e, se', nd')"
    using Ask.prems by (simp add: a)
  have ih: "same_bot se1 se' \<and> only_rows_of (se_bot se1) (nd_tables nd1) (nd_tables nd') \<and> (wf_server (nd_server nd1) \<longrightarrow> wf_server (nd_server nd'))"
    by (rule Ask.IH [OF _ run]) simp
  from act_confined [OF a] have 1: "same_bot se se1" "only_rows_of (se_bot se) (nd_tables nd) (nd_tables nd1)" by blast+
  then have "se_bot se1 = se_bot se" by (simp add: same_bot_def)
  with ih 1 have "only_rows_of (se_bot se) (nd_tables nd) (nd_tables nd')" using only_rows_trans by metis
  moreover have "same_bot se se'" using ih 1(1) by (simp add: same_bot_def)
  ultimately show ?case using ih act_wf [OF a] by blast
qed (auto simp: same_bot_def only_rows_refl)

text \<open>
  C20: The sandbox of a bot. Whatever a script does, with any interpreter and any of the replies it gets, when its call is
  over it still speaks for the same user and the same bot, no bot record and no key/value row of
  another bot has changed, and the server is as sound as it was.
\<close>

theorem script_confined:
  assumes "run_prog p (se, nd) = (vm, e, se', nd')" "wf_server (nd_server nd)"
  shows "same_bot se se' \<and> only_rows_of (se_bot se) (nd_tables nd) (nd_tables nd') \<and> wf_server (nd_server nd')"
  using run_confined [OF assms(1)] assms(2) by blast

definition demo_node :: node where
  "demo_node = \<lparr>nd_server = demo_server, nd_tables = \<lparr>bk_bots = [], bk_kv = [((''b2'', ''k''), ''v'')]\<rparr>\<rparr>"

definition demo_session :: session where
  "demo_session = new_session 7 \<lparr>bt_ID = ''b1'', bt_Name = ''bot'', bt_Source = [], bt_Enabled = True, bt_TickInterval = 0, bt_CreatedAt = 0, bt_UpdatedAt = 0\<rparr>"

definition demo_prog :: "unit prog" where
  "demo_prog = Ask (KVDelete ''k'') (\<lambda>r. case r of Done \<Rightarrow> Finished () | _ \<Rightarrow> Ask NickOf (\<lambda>_. Errored ''not mine'' ()))"

lemma script_confined_witness:
  "run_prog demo_prog (demo_session, demo_node) = ((), Some ''not mine'', demo_session, demo_node) \<and>
   only_rows_of (se_bot demo_session) (nd_tables demo_node) (nd_tables demo_node)"
proof -
  have run: "run_prog demo_prog (demo_session, demo_node) = ((), Some ''not mine'', demo_session, demo_node)"
    by (simp add: demo_prog_def demo_session_def demo_node_def new_session_def table_reply_def kv_delete_def mhas_def)
  moreover have "wf_server (nd_server demo_node)" by (simp add: demo_node_def wf_demo_server)
  ultimately show ?thesis using script_confined [OF run] by blast
qed

section \<open>A bot lives as long as its context\<close>

text \<open>What can happen between two commands to the supervisor; the server may do anything with its own state.\<close>

datatype bot_step = ServerStep "server \<Rightarrow> server" | InitStep string | TurnStep string | RequestDone nat

fun do_step :: "'vm lua \<Rightarrow> bot_step \<Rightarrow> 'vm supervisor \<Rightarrow> 'vm supervisor" where
  "do_step lua (ServerStep f) sp = upd_server f sp"
| "do_step lua (InitStep i) sp = bot_init lua i sp"
| "do_step lua (TurnStep i) sp = bot_turn lua i sp"
| "do_step lua (RequestDone r) sp = end_request r sp"

lemma upd_server_running [simp]: "sp_running (upd_server f sp) = sp_running sp" "sp_done (upd_server f sp) = sp_done sp"
  by (simp_all add: upd_server_def)

lemma call_handler_ctx: "bh_ctx (fst (call_handler lua n ev h nd)) = bh_ctx h"
  by (simp add: call_handler_def case_prod_beta split: option.splits)

lemma init_ctx:
  assumes "map_of (sp_running sp) i = Some h"
  shows "\<exists>h'. map_of (sp_running (bot_init lua j sp)) i = Some h' \<and> bh_ctx h' = bh_ctx h \<and> (bh_ctx h \<in> set (sp_done sp) \<longrightarrow> h' = h)"
    and "sp_done (bot_init lua j sp) = sp_done sp"
proof -
  show "sp_done (bot_init lua j sp) = sp_done sp"
    by (simp add: bot_init_def case_prod_beta split: option.splits)
  show "\<exists>h'. map_of (sp_running (bot_init lua j sp)) i = Some h' \<and> bh_ctx h' = bh_ctx h \<and> (bh_ctx h \<in> set (sp_done sp) \<longrightarrow> h' = h)"
    using assms by (auto simp: bot_init_def bot_live_def case_prod_beta call_handler_ctx split: option.splits)
qed

lemma turn_ctx:
  assumes "map_of (sp_running sp) i = Some h"
  shows "\<exists>h'. map_of (sp_running (bot_turn lua j sp)) i = Some h' \<and> bh_ctx h' = bh_ctx h \<and> (bh_ctx h \<in> set (sp_done sp) \<longrightarrow> h' = h)"
    and "sp_done (bot_turn lua j sp) = sp_done sp"
proof -
  show "sp_done (bot_turn lua j sp) = sp_done sp"
    by (simp add: bot_turn_def Let_def case_prod_beta split: option.splits bot.splits list.splits)
  show "\<exists>h'. map_of (sp_running (bot_turn lua j sp)) i = Some h' \<and> bh_ctx h' = bh_ctx h \<and> (bh_ctx h \<in> set (sp_done sp) \<longrightarrow> h' = h)"
    using assms by (auto simp: bot_turn_def bot_live_def Let_def case_prod_beta call_handler_ctx split: option.splits bot.splits list.splits)
qed

lemma step_ctx:
  assumes "map_of (sp_running sp) i = Some h"
  shows "\<exists>h'. map_of (sp_running (do_step lua st sp)) i = Some h' \<and> bh_ctx h' = bh_ctx h \<and> (bh_ctx h \<in> set (sp_done sp) \<longrightarrow> h' = h)"
    and "set (sp_done sp) \<subseteq> set (sp_done (do_step lua st sp))"
proof -
  show "set (sp_done sp) \<subseteq> set (sp_done (do_step lua st sp))"
    by (cases st) (auto simp: init_ctx(2) [OF assms] turn_ctx(2) [OF assms] end_request_def)
  show "\<exists>h'. map_of (sp_running (do_step lua st sp)) i = Some h' \<and> bh_ctx h' = bh_ctx h \<and> (bh_ctx h \<in> set (sp_done sp) \<longrightarrow> h' = h)"
    using init_ctx(1) [OF assms] turn_ctx(1) [OF assms] assms by (cases st) (auto simp: end_request_def)
qed

lemma steps_ctx:
  assumes "map_of (sp_running sp) i = Some h"
  shows "\<exists>h'. map_of (sp_running (fold (do_step lua) sts sp)) i = Some h' \<and> bh_ctx h' = bh_ctx h \<and> (bh_ctx h \<in> set (sp_done sp) \<longrightarrow> h' = h)"
  using assms
proof (induction sts arbitrary: sp h)
  case (Cons st sts)
  obtain h1 where h1: "map_of (sp_running (do_step lua st sp)) i = Some h1" "bh_ctx h1 = bh_ctx h" "bh_ctx h \<in> set (sp_done sp) \<longrightarrow> h1 = h"
    using step_ctx(1) [OF Cons.prems] by blast
  from Cons.IH [OF h1(1)] step_ctx(2) [OF Cons.prems, of lua st] h1(2,3) show ?case by auto
qed simp

lemma start_bot_started:
  assumes "start_bot lua ctx b sp = (sp1, None)"
  shows "\<exists>h. map_of (sp_running sp1) (bt_ID b) = Some h \<and> bh_ctx h = ctx \<and> bot_for (se_user (bh_session h)) (sp_server sp1) = Some (LuaBot [])"
proof -
  have reg: "bot_for i (sp_server (upd_server (register_bot i x) sp')) = Some x" for i x sp'
    by (simp add: bot_for_def sp_server_def upd_server_def register_bot_def)
  have user: "se_user (fst s') = se_user (fst s)" if "new_runtime lua src s = (x, s')" for src s x s'
  proof -
    obtain se nd se' nd' where s: "s = (se, nd)" "s' = (se', nd')" by (cases s; cases s') auto
    show ?thesis
    proof (cases "lua_load lua src")
      case (Inr p)
      obtain vm e se2 nd2 where r: "run_prog p (se, nd) = (vm, e, se2, nd2)" by (rule prod_cases4)
      with that Inr s have "se2 = se'" by (auto simp: new_runtime_def split: option.splits)
      with run_confined [OF r] s show ?thesis by (simp add: same_bot_def)
    qed (use that s in \<open>auto simp: new_runtime_def\<close>)
  qed
  obtain w i where a: "add_user (bot_user b) (sp_now sp) (sv_world (sp_server sp)) = (w, Inr i)"
    using assms by (auto simp: start_bot_def split: prod.splits sum.splits)
  obtain r se nd where n: "new_runtime lua (bt_Source b) (new_session i b, sp_node (upd_server (upd_sworld (\<lambda>_. w)) sp)) = (r, se, nd)"
    by (rule prod_cases3)
  then have "se_user se = i" using user [OF n] by (simp add: new_session_def)
  with assms a n show ?thesis
    by (auto simp: start_bot_def Let_def reg split: sum.splits option.splits)
qed


definition counting_lua :: "nat lua" where
  "counting_lua = \<lparr>lua_load = (\<lambda>_. Inr (Finished 0)), lua_call = (\<lambda>n name ev. Some (Finished (Suc n)))\<rparr>"

definition demo_bot :: bot_rec where
  "demo_bot = \<lparr>bt_ID = ''b1'', bt_Name = ''bot'', bt_Source = ''x = 1'', bt_Enabled = True, bt_TickInterval = 0,
     bt_CreatedAt = zero_time, bt_UpdatedAt = zero_time\<rparr>"

definition demo_supervisor :: "nat supervisor" where
  "demo_supervisor = \<lparr>sp_node = demo_node, sp_running = [], sp_done = []\<rparr>"

definition demo_created :: "nat supervisor" where
  "demo_created = fst (create_bot counting_lua (RequestCtx 1) demo_bot demo_supervisor)"

lemma demo_creation:
  "create_bot counting_lua (RequestCtx 1) demo_bot demo_supervisor = (demo_created, Inr (demo_bot\<lparr>bt_CreatedAt := 100, bt_UpdatedAt := 100\<rparr>))"
  by (simp add: demo_created_def create_bot_def bots_create_def demo_bot_def demo_supervisor_def demo_node_def demo_server_def new_server_def
      sp_now_def sp_server_def mhas_def bots_get_by_name_def put_tables_def start_bot_def add_user_def bot_user_def new_world_def
      new_runtime_def counting_lua_def Let_def upd_server_def upd_sworld_def new_session_def)


section \<open>A stopped bot stays in its channels\<close>

lemma stopped_bot_stays:
  assumes "map_of (sp_running sp) i = Some h" "lua_call lua (bh_vm h) ''shutdown'' None = None"
  shows "w_byChannel (sv_world (sp_server (stop_bot lua i sp))) = w_byChannel (sv_world (sp_server sp)) \<and>
    find_by_id (se_user (bh_session h)) (sv_world (sp_server (stop_bot lua i sp))) = None"
  using assms
  by (simp add: stop_bot_def finish_bot_def call_handler_def remove_bot_user_def upd_server_def sp_server_def unregister_bot_def
      upd_sworld_def remove_user_def find_by_id_def)

end
