(* ===== verification/Dash_Session.thy ===== *)
theory Dash_Session
  imports Channel Encoding
begin

text \<open>
  The sessions of the dashboard, \<^verbatim>\<open>internal/dashboard/session.go\<close>: a session is a signed cookie, there is no table of
  sessions. HMAC-SHA256 is the argument \<open>mac\<close>; the key is drawn when the daemon starts.
\<close>

record dash_session =
  ds_Operator :: string
  ds_Expires :: time

record session_store =
  ss_key :: string
  ss_cookieName :: string
  ss_maxAge :: int
  ss_secure :: bool

text \<open>A cookie of an answer. The fields that are the same in every cookie are left out.\<close>

record set_cookie =
  ck_Name :: string
  ck_Value :: string
  ck_Expires :: time
  ck_MaxAge :: int
  ck_Secure :: bool

type_synonym hmac = "string \<Rightarrow> string \<Rightarrow> string"

definition new_session_store :: "string \<Rightarrow> string \<Rightarrow> int \<Rightarrow> bool \<Rightarrow> session_store" where
  "new_session_store key cookieName maxAge secure =
     \<lparr>ss_key = key, ss_cookieName = (if cookieName = [] then ''ircat_session'' else cookieName),
      ss_maxAge = (if maxAge \<le> 0 then 24 * 3600 * 1000000000 else maxAge), ss_secure = secure\<rparr>"

definition signature :: "hmac \<Rightarrow> session_store \<Rightarrow> string \<Rightarrow> string" where
  "signature mac ss body = b64_url (mac (ss_key ss) body)"

definition session_encode :: "hmac \<Rightarrow> session_store \<Rightarrow> dash_session \<Rightarrow> string" where
  "session_encode mac ss sess =
     (let body = ds_Operator sess @ ''|'' @ format_int (unix_seconds (ds_Expires sess)) in body @ ''|'' @ signature mac ss body)"

text \<open>\<^verbatim>\<open>strings.SplitN(value, "|", 3)\<close>, when it has three parts.\<close>

definition split_three :: "string \<Rightarrow> (string \<times> string \<times> string) option" where
  "split_three v =
     (case index_byte CHR ''|'' v of
        None \<Rightarrow> None
      | Some i \<Rightarrow>
          (case index_byte CHR ''|'' (drop (Suc i) v) of
             None \<Rightarrow> None
           | Some j \<Rightarrow> Some (take i v, take j (drop (Suc i) v), drop (Suc j) (drop (Suc i) v))))"

definition session_decode :: "hmac \<Rightarrow> session_store \<Rightarrow> string \<Rightarrow> dash_session option" where
  "session_decode mac ss v =
     (case split_three v of
        None \<Rightarrow> None
      | Some (a, b, c) \<Rightarrow>
          if signature mac ss (a @ ''|'' @ b) \<noteq> c then None
          else (case parse_int b of None \<Rightarrow> None | Some t \<Rightarrow> Some \<lparr>ds_Operator = a, ds_Expires = t * 1000000000\<rparr>))"

definition session_extract :: "hmac \<Rightarrow> session_store \<Rightarrow> time \<Rightarrow> (string \<times> string) list \<Rightarrow> dash_session option" where
  "session_extract mac ss now cookies =
     (case map_of cookies (ss_cookieName ss) of
        None \<Rightarrow> None
      | Some v \<Rightarrow>
          (case session_decode mac ss v of
             None \<Rightarrow> None
           | Some sess \<Rightarrow> if now > ds_Expires sess then None else Some sess))"

definition session_issue :: "hmac \<Rightarrow> session_store \<Rightarrow> time \<Rightarrow> string \<Rightarrow> set_cookie" where
  "session_issue mac ss now operator =
     (let expires = now + ss_maxAge ss in
      \<lparr>ck_Name = ss_cookieName ss, ck_Value = session_encode mac ss \<lparr>ds_Operator = operator, ds_Expires = expires\<rparr>,
       ck_Expires = expires, ck_MaxAge = 0, ck_Secure = ss_secure ss\<rparr>)"

definition session_clear :: "session_store \<Rightarrow> set_cookie" where
  "session_clear ss = \<lparr>ck_Name = ss_cookieName ss, ck_Value = [], ck_Expires = 0, ck_MaxAge = -1, ck_Secure = ss_secure ss\<rparr>"

definition csrf_token :: "hmac \<Rightarrow> session_store \<Rightarrow> dash_session \<Rightarrow> string" where
  "csrf_token mac ss sess = signature mac ss (''csrf:'' @ ds_Operator sess)"

definition check_csrf :: "hmac \<Rightarrow> session_store \<Rightarrow> dash_session \<Rightarrow> string \<Rightarrow> bool" where
  "check_csrf mac ss sess supplied = (csrf_token mac ss sess = supplied)"

section \<open>What a cookie is worth\<close>

lemma split_three_parts:
  assumes "CHR ''|'' \<notin> set a" "CHR ''|'' \<notin> set b"
  shows "split_three (a @ ''|'' @ b @ ''|'' @ c) = Some (a, b, c)"
  using assms by (simp add: split_three_def index_byte_append)

lemma format_int_no_bar: "CHR ''|'' \<notin> set (format_int i)"
proof -
  have "\<not> is_digit CHR ''|''" by code_simp
  then have "CHR ''|'' \<notin> set (itoa_nat n)" for n using itoa_nat_digits [of n] by (auto simp: list_all_iff)
  then show ?thesis by (simp add: format_int_def)
qed

lemma decode_encode:
  assumes "CHR ''|'' \<notin> set (ds_Operator sess)" "- (2 ^ 63) \<le> unix_seconds (ds_Expires sess)" "unix_seconds (ds_Expires sess) < 2 ^ 63"
  shows "session_decode mac ss (session_encode mac ss sess)
    = Some \<lparr>ds_Operator = ds_Operator sess, ds_Expires = unix_seconds (ds_Expires sess) * 1000000000\<rparr>"
proof -
  have "split_three (session_encode mac ss sess) =
      Some (ds_Operator sess, format_int (unix_seconds (ds_Expires sess)),
        signature mac ss (ds_Operator sess @ ''|'' @ format_int (unix_seconds (ds_Expires sess))))"
    unfolding session_encode_def Let_def append_assoc by (rule split_three_parts [OF assms(1) format_int_no_bar])
  then show ?thesis
    by (simp add: session_decode_def parse_int_format [OF assms(2,3)])
qed

text \<open>
  An operator whose name has a bar in it gets a cookie that is read as something else: the part before the bar as
  the name, and a piece of the name as the time.
\<close>

lemma decode_bar_name:
  assumes "CHR ''|'' \<notin> set a" "ds_Operator sess = a @ ''|'' @ b" "CHR ''|'' \<notin> set b"
    and "session_decode mac ss (session_encode mac ss sess) = Some sess'"
  shows "ds_Operator sess' = a \<and> (\<exists>t. parse_int b = Some t)"
proof -
  have "split_three (session_encode mac ss sess) =
      Some (a, b, format_int (unix_seconds (ds_Expires sess)) @ ''|'' @
        signature mac ss (ds_Operator sess @ ''|'' @ format_int (unix_seconds (ds_Expires sess))))"
    unfolding session_encode_def Let_def append_assoc assms(2) by (rule split_three_parts [OF assms(1,3)])
  then show ?thesis
    using assms(4) by (auto simp: session_decode_def split: if_splits option.splits)
qed

end
