(* ===== verification/Dashboard.thy ===== *)
theory Dashboard
  imports Admin_Api Bots Dash_Session
begin

text \<open>
  The dashboard, \<^verbatim>\<open>internal/dashboard\<close>: the login, the pages and the form posts of \<^verbatim>\<open>pages.go\<close> behind a session cookie
  and a CSRF token. A request is its cookies and its form, which is \<^const>\<open>None\<close> when it does not parse; a page is
  the data the template is filled with, times before they are printed. \<^verbatim>\<open>cmd/ircat\<close> wires everything but the store
  unconditionally, so the store is the only part that can be missing here.
\<close>

record 'vm portal =
  pt_sup :: "'vm supervisor"
  pt_tokens :: tokens
  pt_sessions :: session_store

record dash_request =
  dq_cookies :: "(string \<times> string) list"
  dq_form :: "(string \<times> string) list option"

definition pt_admin :: "'vm portal \<Rightarrow> admin" where
  "pt_admin pt = \<lparr>ad_server = sp_server (pt_sup pt), ad_tokens = pt_tokens pt\<rparr>"

definition put_admin :: "admin \<Rightarrow> 'vm portal \<Rightarrow> 'vm portal" where
  "put_admin ad pt = pt\<lparr>pt_sup := upd_server (\<lambda>_. ad_server ad) (pt_sup pt), pt_tokens := ad_tokens ad\<rparr>"

abbreviation pt_now :: "'vm portal \<Rightarrow> time" where
  "pt_now pt \<equiv> sp_now (pt_sup pt)"

abbreviation pt_store :: "'vm portal \<Rightarrow> store" where
  "pt_store pt \<equiv> ad_store (pt_admin pt)"

definition has_store :: "'vm portal \<Rightarrow> bool" where
  "has_store pt \<longleftrightarrow> sv_store (sp_server (pt_sup pt)) \<noteq> None"

definition form_get :: "(string \<times> string) list \<Rightarrow> string \<Rightarrow> string" where
  "form_get form k = (case map_of form k of Some v \<Rightarrow> v | None \<Rightarrow> [])"

section \<open>Pages\<close>

record page_head =
  ph_Title :: string
  ph_Operator :: string
  ph_CSRF :: string
  ph_NavActive :: string
  ph_ServerName :: string
  ph_Flash :: string

record user_detail =
  ud_Nick :: string
  ud_Hostmask :: string
  ud_Modes :: string
  ud_HomeServer :: string
  ud_Channels :: "string list"

record channel_member_row =
  cm_Nick :: string
  cm_Prefix :: string
  cm_Remote :: bool

record channel_registration_row =
  cg_FounderID :: string
  cg_FounderUsername :: string
  cg_Guard :: bool
  cg_KeepTopic :: bool
  cg_CreatedAt :: time
  cg_Access :: "(string \<times> string) list"

record channel_detail =
  cd_Name :: string
  cd_MemberCount :: nat
  cd_ModeWord :: string
  cd_Topic :: string
  cd_TopicSetBy :: string
  cd_Members :: "channel_member_row list"
  cd_Bans :: "string list"
  cd_Exceptions :: "string list"
  cd_Invexes :: "string list"
  cd_Quiets :: "string list"
  cd_Registration :: "channel_registration_row option"
  cd_AccountOptions :: "string list"

record account_detail =
  at_View :: account_view
  at_FounderChannels :: "string list"
  at_AccessChannels :: "(string \<times> string) list"

record overview =
  ow_Name :: string
  ow_Network :: string
  ow_Version :: string
  ow_StartedAt :: time
  ow_UserCount :: nat
  ow_ChannelCount :: nat

datatype page_body = OverviewBody overview
  | UsersBody "(string \<times> string \<times> string \<times> string list) list" | UserBody user_detail
  | ChannelsBody "(string \<times> nat \<times> string \<times> string) list" | ChannelBody channel_detail
  | BotsBody "(string \<times> string \<times> bool) list" | BotBody bot_rec
  | OperatorsBody "operator_view list" | TokensBody "token_view list"
  | AccountsBody "account_view list" | AccountBody account_detail

datatype dash_answer = LoginForm string | Page page_head page_body | Fragment string | Redirect string | HttpError nat string

record dash_response =
  dp_answer :: dash_answer
  dp_cookie :: "set_cookie option"

abbreviation answer_only :: "dash_answer \<Rightarrow> dash_response" where
  "answer_only a \<equiv> \<lparr>dp_answer = a, dp_cookie = None\<rparr>"

definition new_page_head :: "hmac \<Rightarrow> 'vm portal \<Rightarrow> dash_session \<Rightarrow> string \<Rightarrow> string \<Rightarrow> page_head" where
  "new_page_head mac pt sess nav title =
     \<lparr>ph_Title = title, ph_Operator = ds_Operator sess, ph_CSRF = csrf_token mac (pt_sessions pt) sess, ph_NavActive = nav,
      ph_ServerName = srv_name (sp_server (pt_sup pt)), ph_Flash = []\<rparr>"

text \<open>Where the name of a page holds the name of a thing, the two are separated by a dash of three bytes in UTF-8.\<close>

definition dash_title :: "string \<Rightarrow> string \<Rightarrow> string" where
  "dash_title kind name = kind @ '' '' @ map char_of [226, 128, 148 :: nat] @ '' '' @ name"

definition overview_page :: "'vm portal \<Rightarrow> page_body" where
  "overview_page pt =
     (let s = sp_server (pt_sup pt) in
      OverviewBody \<lparr>ow_Name = srv_name s, ow_Network = cf_Network (sv_cfg s), ow_Version = server_version, ow_StartedAt = sv_createdAt s,
        ow_UserCount = user_count (sv_world s), ow_ChannelCount = channel_count (sv_world s)\<rparr>)"

definition users_page :: "'vm portal \<Rightarrow> page_body" where
  "users_page pt =
     (let w = sv_world (sp_server (pt_sup pt)) in
      UsersBody (sort_key fst (map (\<lambda>u. (u_Nick u, hostmask u, u_Modes u, sort (map ch_name (user_channels (u_ID u) w)))) (snapshot w))))"

definition user_detail_page :: "string \<Rightarrow> 'vm portal \<Rightarrow> page_body option" where
  "user_detail_page nick pt =
     (let w = sv_world (sp_server (pt_sup pt)) in
      case find_by_nick nick w of
        None \<Rightarrow> None
      | Some i \<Rightarrow>
          let u = w_store w i in
          Some (UserBody \<lparr>ud_Nick = u_Nick u, ud_Hostmask = hostmask u, ud_Modes = u_Modes u, ud_HomeServer = u_HomeServer u,
            ud_Channels = sort (map ch_name (user_channels i w))\<rparr>))"

definition channels_page :: "'vm portal \<Rightarrow> page_body" where
  "channels_page pt =
     ChannelsBody (sort_key fst (map (\<lambda>ch. (ch_name ch, member_count ch, fst (mode_string ch), ch_topic ch))
       (channels_snapshot (sv_world (sp_server (pt_sup pt))))))"

definition normalize_channel_name :: "string \<Rightarrow> string" where
  "normalize_channel_name name =
     (case name of [] \<Rightarrow> [] | c # _ \<Rightarrow> if c \<in> set ''#&+!'' then name else CHR ''#'' # name)"

definition sorted_keys :: "(string, 'v) gomap \<Rightarrow> string list" where
  "sorted_keys m = sort (map fst m)"

definition channel_registration_of :: "string \<Rightarrow> 'vm portal \<Rightarrow> channel_registration_row option" where
  "channel_registration_of name pt =
     (if \<not> has_store pt then None
      else case reg_channels_get name (pt_store pt) of
        None \<Rightarrow> None
      | Some rc \<Rightarrow>
          Some \<lparr>cg_FounderID = rc_FounderID rc,
            cg_FounderUsername = (case accounts_get_by_id (rc_FounderID rc) (pt_store pt) of Some a \<Rightarrow> ac_Username a | None \<Rightarrow> rc_FounderID rc),
            cg_Guard = rc_Guard rc, cg_KeepTopic = rc_KeepTopic rc, cg_CreatedAt = rc_CreatedAt rc,
            cg_Access = sort_key fst (access_list name (pt_store pt))\<rparr>)"

definition member_row :: "world \<Rightarrow> uid \<times> membership \<Rightarrow> channel_member_row option" where
  "member_row w m =
     (case find_by_id (fst m) w of
        None \<Rightarrow> None
      | Some i \<Rightarrow> Some \<lparr>cm_Nick = u_Nick (w_store w i), cm_Prefix = mem_prefix (snd m), cm_Remote = is_remote (w_store w i)\<rparr>)"

definition channel_detail_page :: "string \<Rightarrow> 'vm portal \<Rightarrow> page_body option" where
  "channel_detail_page name pt =
     (let w = sv_world (sp_server (pt_sup pt)) in
      case find_channel name w of
        None \<Rightarrow> None
      | Some ch \<Rightarrow>
          Some (ChannelBody \<lparr>cd_Name = ch_name ch, cd_MemberCount = member_count ch, cd_ModeWord = fst (mode_string ch),
            cd_Topic = ch_topic ch, cd_TopicSetBy = ch_topicSetBy ch,
            cd_Members = sort_key cm_Nick (List.map_filter (member_row w) (ch_members ch)),
            cd_Bans = sorted_keys (ch_bans ch), cd_Exceptions = sorted_keys (ch_exceptions ch),
            cd_Invexes = sorted_keys (ch_invexes ch), cd_Quiets = sorted_keys (ch_quiets ch),
            cd_Registration = channel_registration_of name pt,
            cd_AccountOptions = (if has_store pt then sort (map ac_Username (accounts_list (pt_store pt))) else [])\<rparr>))"

definition bots_page :: "'vm portal \<Rightarrow> page_body" where
  "bots_page pt =
     BotsBody (if has_store pt then sort_key (\<lambda>(i, n, e). n) (map (\<lambda>b. (bt_ID b, bt_Name b, bt_Enabled b)) (bots_list (sp_tables (pt_sup pt)))) else [])"

definition operators_page :: "'vm portal \<Rightarrow> page_body" where
  "operators_page pt = OperatorsBody (if has_store pt then map to_operator_view (operators_list (pt_store pt)) else [])"

definition tokens_page :: "'vm portal \<Rightarrow> page_body" where
  "tokens_page pt = TokensBody (if has_store pt then sort_key tv_ID (map to_token_view (tokens_list (pt_tokens pt))) else [])"

definition accounts_page :: "'vm portal \<Rightarrow> page_body" where
  "accounts_page pt =
     AccountsBody (if has_store pt then sort_key av_Username (map (to_account_view (pt_admin pt)) (accounts_list (pt_store pt))) else [])"

definition account_detail_page :: "string \<Rightarrow> 'vm portal \<Rightarrow> page_body option" where
  "account_detail_page i pt =
     (case accounts_get_by_id i (pt_store pt) of
        None \<Rightarrow> None
      | Some a \<Rightarrow>
          let regs = sort_key rc_Channel (map snd (st_regChannels (pt_store pt))) in
          Some (AccountBody \<lparr>at_View = to_account_view (pt_admin pt) a,
            at_FounderChannels = sort (map rc_Channel (filter (\<lambda>rc. rc_FounderID rc = ac_ID a) regs)),
            at_AccessChannels = sort_key fst (List.map_filter (\<lambda>rc. map_option (\<lambda>f. (rc_Channel rc, f)) (access_get (rc_Channel rc) (ac_ID a) (pt_store pt))) regs)\<rparr>))"

section \<open>Form posts\<close>

definition upper_hex :: "nat \<Rightarrow> char" where
  "upper_hex d = (if d < 10 then char_of (48 + d) else char_of (55 + d))"

text \<open>\<^verbatim>\<open>url.PathEscape\<close>: what may stand in a path segment stays, every other byte becomes three.\<close>

definition path_plain :: "char \<Rightarrow> bool" where
  "path_plain c \<longleftrightarrow> is_lower c \<or> is_upper c \<or> is_digit c \<or> c \<in> set ''-_.~$&+:=@''"

definition path_escape :: "string \<Rightarrow> string" where
  "path_escape s =
     concat (map (\<lambda>c. if path_plain c then [c] else [CHR ''%'', upper_hex (of_char c div 16), upper_hex (of_char c mod 16)]) s)"

definition split_csv :: "string \<Rightarrow> string list" where
  "split_csv s = filter (\<lambda>p. p \<noteq> []) (map trim_space (split_on CHR '','' s))"

definition with_store :: "string \<Rightarrow> ('vm portal \<Rightarrow> 'vm portal \<times> dash_answer) \<Rightarrow> 'vm portal \<Rightarrow> 'vm portal \<times> dash_answer" where
  "with_store what k pt = (if has_store pt then k pt else (pt, HttpError 503 what))"

text \<open>What every form post does first: it reads the form and compares its token with the one of the session.\<close>

definition with_form ::
  "hmac \<Rightarrow> dash_session \<Rightarrow> dash_request \<Rightarrow> ((string \<times> string) list \<Rightarrow> 'vm portal \<Rightarrow> 'vm portal \<times> dash_answer) \<Rightarrow> 'vm portal \<Rightarrow> 'vm portal \<times> dash_answer" where
  "with_form mac sess rq k pt =
     (case dq_form rq of
        None \<Rightarrow> (pt, HttpError 400 ''bad form'')
      | Some f \<Rightarrow>
          if \<not> check_csrf mac (pt_sessions pt) sess (form_get f ''csrf'') then (pt, HttpError 403 ''bad csrf token'') else k f pt)"

text \<open>A change of the store that answers with a redirect unless it fails; the texts of store errors are left out.\<close>

definition store_change ::
  "(storage_error \<times> nat \<times> string) list \<Rightarrow> string \<Rightarrow> string \<Rightarrow> (store \<Rightarrow> store \<times> storage_error option) \<Rightarrow> 'vm portal \<Rightarrow> 'vm portal \<times> dash_answer" where
  "store_change table failed url op pt =
     (case op (pt_store pt) of
        (st, None) \<Rightarrow> (put_admin (put_store st (pt_admin pt)) pt, Redirect url)
      | (st, Some e) \<Rightarrow> (put_admin (put_store st (pt_admin pt)) pt,
           (case map_of table e of Some (code, txt) \<Rightarrow> HttpError code txt | None \<Rightarrow> HttpError 500 failed)))"

definition with_flash :: "hmac \<Rightarrow> dash_session \<Rightarrow> string \<Rightarrow> string \<Rightarrow> ('vm portal \<Rightarrow> page_body) \<Rightarrow> string \<Rightarrow> 'vm portal \<Rightarrow> dash_answer" where
  "with_flash mac sess nav title body flash pt = Page ((new_page_head mac pt sess nav title)\<lparr>ph_Flash := flash\<rparr>) (body pt)"

definition handle_kick_page :: "hmac \<Rightarrow> string \<Rightarrow> dash_session \<Rightarrow> dash_request \<Rightarrow> 'vm portal \<Rightarrow> 'vm portal \<times> dash_answer" where
  "handle_kick_page mac nick sess rq =
     with_form mac sess rq (\<lambda>f pt.
       let reason = (if form_get f ''reason'' = [] then ''Kicked from dashboard by '' @ ds_Operator sess else form_get f ''reason'');
           (s, ok) = kick_user nick reason (sp_server (pt_sup pt)) in
       (pt\<lparr>pt_sup := upd_server (\<lambda>_. s) (pt_sup pt)\<rparr>, if ok then Redirect ''/dashboard/users'' else HttpError 500 ''kick failed''))"

text \<open>Here a name is taken for a channel name only with one of two of the four prefixes.\<close>

definition topic_channel_name :: "string \<Rightarrow> string" where
  "topic_channel_name name = (if name \<noteq> [] \<and> hd name \<noteq> CHR ''#'' \<and> hd name \<noteq> CHR ''&'' then CHR ''#'' # name else name)"

definition handle_topic_page :: "hmac \<Rightarrow> string \<Rightarrow> dash_session \<Rightarrow> dash_request \<Rightarrow> 'vm portal \<Rightarrow> 'vm portal \<times> dash_answer" where
  "handle_topic_page mac raw sess rq =
     with_form mac sess rq (\<lambda>f pt.
       let name = topic_channel_name raw;
           (s, ok) = set_channel_topic name (form_get f ''topic'') (''dashboard:'' @ ds_Operator sess) (sp_server (pt_sup pt)) in
       (pt\<lparr>pt_sup := upd_server (\<lambda>_. s) (pt_sup pt)\<rparr>,
        if ok then Redirect (''/dashboard/channels/'' @ path_escape name) else HttpError 500 ''set topic failed''))"

definition channel_url :: "string \<Rightarrow> string" where
  "channel_url name = ''/dashboard/channels/'' @ path_escape name"

definition handle_channel_register :: "hmac \<Rightarrow> string \<Rightarrow> dash_session \<Rightarrow> dash_request \<Rightarrow> 'vm portal \<Rightarrow> 'vm portal \<times> dash_answer" where
  "handle_channel_register mac raw sess rq =
     with_store ''store not configured'' (with_form mac sess rq (\<lambda>f pt.
       let name = normalize_channel_name raw; founder = trim_space (form_get f ''founder_id'') in
       if founder = [] then (pt, HttpError 400 ''founder_id required'')
       else if accounts_get_by_id founder (pt_store pt) = None then (pt, HttpError 400 ''founder account does not exist'')
       else store_change [(ErrConflict, 409, ''already registered'')] ''register failed'' (channel_url name)
         (reg_channels_create \<lparr>rc_Channel = name, rc_FounderID = founder, rc_Guard = (form_get f ''guard'' \<noteq> []), rc_KeepTopic = False,
            rc_CreatedAt = zero_time, rc_UpdatedAt = zero_time\<rparr> (pt_now pt)) pt))"

definition handle_registration_update :: "hmac \<Rightarrow> string \<Rightarrow> dash_session \<Rightarrow> dash_request \<Rightarrow> 'vm portal \<Rightarrow> 'vm portal \<times> dash_answer" where
  "handle_registration_update mac raw sess rq =
     with_store ''store not configured'' (with_form mac sess rq (\<lambda>f pt.
       let name = normalize_channel_name raw; founder = trim_space (form_get f ''founder_id'') in
       case reg_channels_get name (pt_store pt) of
         None \<Rightarrow> (pt, HttpError 404 ''not registered'')
       | Some rc \<Rightarrow>
           if founder \<noteq> [] \<and> accounts_get_by_id founder (pt_store pt) = None then (pt, HttpError 400 ''founder account does not exist'')
           else store_change [] ''update failed'' (channel_url name)
             (reg_channels_update (rc\<lparr>rc_FounderID := (if founder \<noteq> [] then founder else rc_FounderID rc),
                rc_Guard := (form_get f ''guard'' \<noteq> []), rc_KeepTopic := (form_get f ''keep_topic'' \<noteq> [])\<rparr>) (pt_now pt)) pt))"

definition handle_channel_drop :: "hmac \<Rightarrow> string \<Rightarrow> dash_session \<Rightarrow> dash_request \<Rightarrow> 'vm portal \<Rightarrow> 'vm portal \<times> dash_answer" where
  "handle_channel_drop mac raw sess rq =
     with_store ''store not configured'' (with_form mac sess rq (\<lambda>f.
       store_change [(ErrNotFound, 404, ''not registered'')] ''drop failed'' (channel_url (normalize_channel_name raw))
         (reg_channels_delete (normalize_channel_name raw))))"

definition handle_access_add :: "hmac \<Rightarrow> string \<Rightarrow> dash_session \<Rightarrow> dash_request \<Rightarrow> 'vm portal \<Rightarrow> 'vm portal \<times> dash_answer" where
  "handle_access_add mac raw sess rq =
     with_store ''store not configured'' (with_form mac sess rq (\<lambda>f pt.
       let name = normalize_channel_name raw; acct = trim_space (form_get f ''account_id''); flags = trim_space (form_get f ''flags'') in
       if acct = [] then (pt, HttpError 400 ''account_id required'')
       else if reg_channels_get name (pt_store pt) = None then (pt, HttpError 404 ''channel not registered'')
       else if accounts_get_by_id acct (pt_store pt) = None then (pt, HttpError 400 ''account does not exist'')
       else store_change [] ''set access failed'' (channel_url name) (access_set name acct flags) pt))"

definition handle_access_remove :: "hmac \<Rightarrow> string \<Rightarrow> string \<Rightarrow> dash_session \<Rightarrow> dash_request \<Rightarrow> 'vm portal \<Rightarrow> 'vm portal \<times> dash_answer" where
  "handle_access_remove mac raw acct sess rq =
     with_store ''store not configured'' (with_form mac sess rq (\<lambda>f.
       store_change [(ErrNotFound, 404, ''access entry not found'')] ''delete failed'' (channel_url (normalize_channel_name raw))
         (access_delete (normalize_channel_name raw) acct)))"

definition pt_password_hash :: "drawn \<Rightarrow> 'vm portal \<Rightarrow> string \<Rightarrow> string" where
  "pt_password_hash dr pt pw = new_password_hash (pt_admin pt) dr pw"

text \<open>A creation that fails shows the page with the form again.\<close>

definition handle_operator_create :: "hmac \<Rightarrow> drawn \<Rightarrow> dash_session \<Rightarrow> dash_request \<Rightarrow> 'vm portal \<Rightarrow> 'vm portal \<times> dash_answer" where
  "handle_operator_create mac dr sess rq =
     with_store ''operators not configured'' (with_form mac sess rq (\<lambda>f pt.
       let name = trim_space (form_get f ''name''); pw = form_get f ''password'';
           again = (\<lambda>flash. with_flash mac sess ''operators'' ''operators'' operators_page flash) in
       if name = [] \<or> pw = [] then (pt, again ''name and password are required'' pt)
       else
         let op = \<lparr>op_Name = name, op_HostMask = trim_space (form_get f ''host_mask''),
                   op_PasswordHash = pt_password_hash dr pt pw, op_Flags = split_csv (form_get f ''flags'')\<rparr> in
         case operators_create op (pt_store pt) of
           (st, None) \<Rightarrow> (put_admin (put_store st (pt_admin pt)) pt, Redirect ''/dashboard/operators'')
         | (_, Some ErrConflict) \<Rightarrow> (pt, again ''operator already exists'' pt)
         | (_, Some _) \<Rightarrow> (pt, again ''create failed'' pt)))"

definition handle_operator_delete :: "hmac \<Rightarrow> string \<Rightarrow> dash_session \<Rightarrow> dash_request \<Rightarrow> 'vm portal \<Rightarrow> 'vm portal \<times> dash_answer" where
  "handle_operator_delete mac name sess rq =
     with_store ''operators not configured'' (with_form mac sess rq (\<lambda>f.
       store_change [] ''delete failed'' ''/dashboard/operators'' (operators_delete name)))"

definition handle_token_create :: "hmac \<Rightarrow> sha256 \<Rightarrow> drawn \<Rightarrow> dash_session \<Rightarrow> dash_request \<Rightarrow> 'vm portal \<Rightarrow> 'vm portal \<times> dash_answer" where
  "handle_token_create mac sha dr sess rq =
     with_store ''tokens not configured'' (with_form mac sess rq (\<lambda>f pt.
       let label = trim_space (form_get f ''label'') in
       if label = [] then (pt, HttpError 400 ''label required'')
       else
         let m = generate_api_token sha (dr_id dr) (dr_secret dr);
             t = \<lparr>tk_ID = mt_ID m, tk_Label = label, tk_Hash = mt_Hash m, tk_Scopes = [], tk_CreatedAt = zero_time, tk_LastUsedAt = zero_time\<rparr> in
         case tokens_create t (pt_now pt) (pt_tokens pt) of
           (_, Some _) \<Rightarrow> (pt, HttpError 500 ''persist failed'')
         | (ts, None) \<Rightarrow>
             let pt1 = pt\<lparr>pt_tokens := ts\<rparr> in
             (pt1, with_flash mac sess ''tokens'' ''API tokens'' tokens_page (''minted: '' @ mt_Plaintext m) pt1)))"

definition handle_token_delete :: "hmac \<Rightarrow> string \<Rightarrow> dash_session \<Rightarrow> dash_request \<Rightarrow> 'vm portal \<Rightarrow> 'vm portal \<times> dash_answer" where
  "handle_token_delete mac i sess rq =
     with_store ''tokens not configured'' (with_form mac sess rq (\<lambda>f pt.
       case tokens_delete i (pt_tokens pt) of
         (ts, None) \<Rightarrow> (pt\<lparr>pt_tokens := ts\<rparr>, Redirect ''/dashboard/tokens'')
       | (_, Some _) \<Rightarrow> (pt, HttpError 500 ''delete failed'')))"

definition handle_account_create :: "hmac \<Rightarrow> drawn \<Rightarrow> dash_session \<Rightarrow> dash_request \<Rightarrow> 'vm portal \<Rightarrow> 'vm portal \<times> dash_answer" where
  "handle_account_create mac dr sess rq =
     with_store ''accounts not configured'' (with_form mac sess rq (\<lambda>f pt.
       let name = trim_space (form_get f ''username''); pw = form_get f ''password'';
           again = (\<lambda>flash. with_flash mac sess ''accounts'' ''accounts'' accounts_page flash) in
       if name = [] \<or> pw = [] then (pt, again ''username and password are required'' pt)
       else
         let a = \<lparr>ac_ID = name, ac_Username = name, ac_PasswordHash = pt_password_hash dr pt pw, ac_Email = trim_space (form_get f ''email''),
                  ac_Verified = False, ac_CreatedAt = zero_time, ac_UpdatedAt = zero_time\<rparr> in
         case accounts_create a (pt_now pt) (pt_store pt) of
           (st, None) \<Rightarrow> (put_admin (put_store st (pt_admin pt)) pt, Redirect ''/dashboard/accounts'')
         | (_, Some ErrConflict) \<Rightarrow> (pt, again ''account already exists'' pt)
         | (_, Some _) \<Rightarrow> (pt, again ''create failed'' pt)))"

definition handle_account_delete :: "hmac \<Rightarrow> string \<Rightarrow> dash_session \<Rightarrow> dash_request \<Rightarrow> 'vm portal \<Rightarrow> 'vm portal \<times> dash_answer" where
  "handle_account_delete mac i sess rq =
     with_store ''accounts not configured'' (with_form mac sess rq (\<lambda>f pt.
       case accounts_get_by_id i (pt_store pt) of
         None \<Rightarrow> (pt, HttpError 404 ''no such account'')
       | Some a \<Rightarrow> store_change [] ''delete failed'' ''/dashboard/accounts'' (accounts_delete (ac_Username a)) pt))"

definition handle_account_password :: "hmac \<Rightarrow> drawn \<Rightarrow> string \<Rightarrow> dash_session \<Rightarrow> dash_request \<Rightarrow> 'vm portal \<Rightarrow> 'vm portal \<times> dash_answer" where
  "handle_account_password mac dr i sess rq =
     with_store ''accounts not configured'' (with_form mac sess rq (\<lambda>f pt.
       let pw = form_get f ''password'' in
       if pw = [] then (pt, HttpError 400 ''password required'')
       else case accounts_get_by_id i (pt_store pt) of
         None \<Rightarrow> (pt, HttpError 404 ''no such account'')
       | Some a \<Rightarrow>
           store_change [] ''update failed'' (''/dashboard/accounts/'' @ i)
             (accounts_update (a\<lparr>ac_PasswordHash := pt_password_hash dr pt pw\<rparr>) (pt_now pt)) pt))"

section \<open>Bots\<close>

text \<open>The context of a request is the one a bot is started with.\<close>

definition handle_bots_create :: "hmac \<Rightarrow> 'vm lua \<Rightarrow> nat \<Rightarrow> dash_session \<Rightarrow> dash_request \<Rightarrow> 'vm portal \<Rightarrow> 'vm portal \<times> dash_answer" where
  "handle_bots_create mac lua r sess rq =
     with_form mac sess rq (\<lambda>f pt.
       let name = trim_space (form_get f ''name'');
           again = (\<lambda>flash. with_flash mac sess ''bots'' ''bots'' bots_page flash);
           b = \<lparr>bt_ID = [], bt_Name = name, bt_Source = form_get f ''source'', bt_Enabled = (form_get f ''enabled'' \<noteq> []),
                bt_TickInterval = 0, bt_CreatedAt = zero_time, bt_UpdatedAt = zero_time\<rparr> in
       if name = [] then (pt, again ''name is required'' pt)
       else case create_bot lua (RequestCtx r) b (pt_sup pt) of
         (sp, Inr _) \<Rightarrow> (pt\<lparr>pt_sup := sp\<rparr>, Redirect ''/dashboard/bots'')
       | (sp, Inl _) \<Rightarrow> (pt\<lparr>pt_sup := sp\<rparr>, again ''create failed'' (pt\<lparr>pt_sup := sp\<rparr>)))"

definition bot_detail :: "hmac \<Rightarrow> dash_session \<Rightarrow> bot_rec \<Rightarrow> string \<Rightarrow> 'vm portal \<Rightarrow> dash_answer" where
  "bot_detail mac sess b flash = with_flash mac sess ''bots'' (dash_title ''bot'' (bt_Name b)) (\<lambda>_. BotBody b) flash"

definition update_bot_page :: "string \<Rightarrow> string \<Rightarrow> 'vm lua \<Rightarrow> nat \<Rightarrow> bot_rec \<Rightarrow> 'vm portal \<Rightarrow> 'vm portal \<times> dash_answer" where
  "update_bot_page failed url lua r b pt =
     (case update_bot lua (RequestCtx r) b (pt_sup pt) of
        (sp, Inr _) \<Rightarrow> (pt\<lparr>pt_sup := sp\<rparr>, Redirect url)
      | (sp, Inl _) \<Rightarrow> (pt\<lparr>pt_sup := sp\<rparr>, HttpError 500 failed))"

text \<open>\<open>parse_duration\<close> is \<^verbatim>\<open>time.ParseDuration\<close>; a blank field keeps the interval.\<close>

definition handle_bot_source ::
  "hmac \<Rightarrow> 'vm lua \<Rightarrow> (string \<Rightarrow> int option) \<Rightarrow> nat \<Rightarrow> string \<Rightarrow> dash_session \<Rightarrow> dash_request \<Rightarrow> 'vm portal \<Rightarrow> 'vm portal \<times> dash_answer" where
  "handle_bot_source mac lua parse_duration r i sess rq =
     with_store ''bot manager not configured'' (with_form mac sess rq (\<lambda>f pt.
       case bots_get i (sp_tables (pt_sup pt)) of
         None \<Rightarrow> (pt, HttpError 404 ''no such bot'')
       | Some b0 \<Rightarrow>
           let b = b0\<lparr>bt_Source := form_get f ''source''\<rparr>; raw = trim_space (form_get f ''tick_interval'');
               save = (\<lambda>b. case bot_validate lua (bt_Source b) of
                  Some e \<Rightarrow> (pt, bot_detail mac sess b (''lua error: '' @ e) pt)
                | None \<Rightarrow> update_bot_page ''update failed'' (''/dashboard/bots/'' @ i) lua r b pt) in
           if raw = [] then save b
           else case parse_duration raw of
             None \<Rightarrow> (pt, bot_detail mac sess b ''bad tick_interval'' pt)
           | Some d \<Rightarrow>
               if d < 0 then (pt, bot_detail mac sess b ''tick_interval must be zero or positive'' pt)
               else save (b\<lparr>bt_TickInterval := d\<rparr>)))"

definition html_escape :: "string \<Rightarrow> string" where
  "html_escape s =
     concat (map (\<lambda>c. if c = CHR ''&'' then ''&amp;'' else if c = CHR ''<'' then ''&lt;'' else if c = CHR ''>'' then ''&gt;''
       else if c = CHR 0x22 then ''&quot;'' else if c = CHR 0x27 then ''&#39;'' else [c]) s)"

text \<open>The attributes of the two fragments are written with the byte of the double quote.\<close>

definition pill :: "string \<Rightarrow> string \<Rightarrow> string" where
  "pill cls txt = ''<span class='' @ [CHR 0x22] @ ''pill '' @ cls @ [CHR 0x22] @ ''>'' @ txt @ ''</span>''"

definition handle_bot_validate :: "hmac \<Rightarrow> 'vm lua \<Rightarrow> dash_session \<Rightarrow> dash_request \<Rightarrow> 'vm portal \<Rightarrow> 'vm portal \<times> dash_answer" where
  "handle_bot_validate mac lua sess rq =
     with_form mac sess rq (\<lambda>f pt.
       case bot_validate lua (form_get f ''source'') of
         Some e \<Rightarrow> (pt, Fragment (pill ''warn'' ''invalid'' @ '' <code>'' @ html_escape e @ ''</code>''))
       | None \<Rightarrow> (pt, Fragment (pill ''ok'' ''lua ok'')))"

definition handle_bot_toggle :: "hmac \<Rightarrow> 'vm lua \<Rightarrow> nat \<Rightarrow> string \<Rightarrow> dash_session \<Rightarrow> dash_request \<Rightarrow> 'vm portal \<Rightarrow> 'vm portal \<times> dash_answer" where
  "handle_bot_toggle mac lua r i sess rq =
     with_store ''bot manager not configured'' (with_form mac sess rq (\<lambda>f pt.
       case bots_get i (sp_tables (pt_sup pt)) of
         None \<Rightarrow> (pt, HttpError 404 ''no such bot'')
       | Some b \<Rightarrow> update_bot_page ''toggle failed'' ''/dashboard/bots'' lua r (b\<lparr>bt_Enabled := \<not> bt_Enabled b\<rparr>) pt))"

definition handle_bot_delete :: "hmac \<Rightarrow> 'vm lua \<Rightarrow> string \<Rightarrow> dash_session \<Rightarrow> dash_request \<Rightarrow> 'vm portal \<Rightarrow> 'vm portal \<times> dash_answer" where
  "handle_bot_delete mac lua i sess rq =
     with_form mac sess rq (\<lambda>f pt.
       case delete_bot lua i (pt_sup pt) of
         (sp, None) \<Rightarrow> (pt\<lparr>pt_sup := sp\<rparr>, Redirect ''/dashboard/bots'')
       | (sp, Some _) \<Rightarrow> (pt\<lparr>pt_sup := sp\<rparr>, HttpError 500 ''delete failed''))"

section \<open>Bots over the API\<close>

record bot_view =
  vb_ID :: string
  vb_Name :: string
  vb_Source :: string
  vb_Enabled :: bool
  vb_TickIntervalSec :: int
  vb_CreatedAt :: time
  vb_UpdatedAt :: time

definition to_bot_view :: "bot_rec \<Rightarrow> bot_view" where
  "to_bot_view b = \<lparr>vb_ID = bt_ID b, vb_Name = bt_Name b, vb_Source = bt_Source b, vb_Enabled = bt_Enabled b,
     vb_TickIntervalSec = bt_TickInterval b div 1000000000, vb_CreatedAt = bt_CreatedAt b, vb_UpdatedAt = bt_UpdatedAt b\<rparr>"

record bot_body =
  bb_Name :: string
  bb_Source :: string
  bb_Enabled :: bool
  bb_TickIntervalSec :: int

datatype bot_api_call = ListBots | GetBot string | CreateBot "bot_body option" | UpdateBot string "bot_body option"
  | ValidateBot "string option" | DeleteBot string

datatype bot_api_answer = BotsOk "bot_view list" | BotOk nat bot_view | SourceOk | SourceBad string | BotGone | BotApiError nat string

text \<open>Seconds become a 64-bit number of nanoseconds.\<close>

definition bot_of_body :: "string \<Rightarrow> bot_body \<Rightarrow> bot_rec" where
  "bot_of_body i b = \<lparr>bt_ID = i, bt_Name = bb_Name b, bt_Source = bb_Source b, bt_Enabled = bb_Enabled b,
     bt_TickInterval = sint (word_of_int (bb_TickIntervalSec b * 1000000000) :: 64 word), bt_CreatedAt = zero_time, bt_UpdatedAt = zero_time\<rparr>"

definition bot_api_result :: "(storage_error \<times> nat \<times> string) list \<Rightarrow> nat \<Rightarrow> bots_error + bot_rec \<Rightarrow> bot_api_answer" where
  "bot_api_result table code res =
     (case res of
        Inr b \<Rightarrow> BotOk code (to_bot_view b)
      | Inl (BotStore e) \<Rightarrow> (case map_of table e of Some (c, t) \<Rightarrow> BotApiError c t | None \<Rightarrow> BotApiError 500 ''internal'')
      | Inl _ \<Rightarrow> BotApiError 500 ''internal'')"

fun api_bots :: "'vm lua \<Rightarrow> nat \<Rightarrow> bot_api_call \<Rightarrow> 'vm supervisor \<Rightarrow> 'vm supervisor \<times> bot_api_answer" where
  "api_bots lua r ListBots sp = (sp, BotsOk (map to_bot_view (bots_list (sp_tables sp))))"
| "api_bots lua r (GetBot i) sp =
     (sp, case bots_get i (sp_tables sp) of None \<Rightarrow> BotApiError 404 ''not_found'' | Some b \<Rightarrow> BotOk 200 (to_bot_view b))"
| "api_bots lua r (CreateBot body) sp =
     (case body of
        None \<Rightarrow> (sp, BotApiError 400 ''bad_json'')
      | Some b \<Rightarrow>
          if bb_Name b = [] \<or> bb_Source b = [] then (sp, BotApiError 400 ''bad_request'')
          else case create_bot lua (RequestCtx r) (bot_of_body [] b) sp of
            (sp', res) \<Rightarrow> (sp', bot_api_result [(ErrConflict, 409, ''conflict'')] 201 res))"
| "api_bots lua r (UpdateBot i body) sp =
     (case body of
        None \<Rightarrow> (sp, BotApiError 400 ''bad_json'')
      | Some b \<Rightarrow>
          (case update_bot lua (RequestCtx r) (bot_of_body i b) sp of
             (sp', res) \<Rightarrow> (sp', bot_api_result [(ErrNotFound, 404, ''not_found'')] 200 res)))"
| "api_bots lua r (ValidateBot body) sp =
     (sp, case body of
        None \<Rightarrow> BotApiError 400 ''bad_json''
      | Some source \<Rightarrow> (case bot_validate lua source of Some e \<Rightarrow> SourceBad e | None \<Rightarrow> SourceOk))"
| "api_bots lua r (DeleteBot i) sp =
     (case delete_bot lua i sp of
        (sp', None) \<Rightarrow> (sp', BotGone)
      | (sp', Some ErrNotFound) \<Rightarrow> (sp', BotApiError 404 ''not_found'')
      | (sp', Some _) \<Rightarrow> (sp', BotApiError 500 ''internal''))"

text \<open>Behind the same bearer token as the other routes: the middleware lets the empty answer of its inner handler through.\<close>

definition api_bots_handle ::
  "'vm lua \<Rightarrow> sha256 \<Rightarrow> nat \<Rightarrow> string \<Rightarrow> bot_api_call \<Rightarrow> 'vm portal \<Rightarrow> 'vm portal \<times> bot_api_answer" where
  "api_bots_handle lua sha r header call pt =
     (case require_token sha header (\<lambda>ad. (ad, NoContent)) (pt_admin pt) of
        (ad, NoContent) \<Rightarrow> (case api_bots lua r call (pt_sup pt) of (sp, a) \<Rightarrow> (pt\<lparr>pt_sup := sp, pt_tokens := ad_tokens ad\<rparr>, a))
      | (ad, ApiError n code) \<Rightarrow> (pt, BotApiError n code)
      | (ad, ApiOk n b) \<Rightarrow> (pt, BotApiError n []))"

section \<open>The routes\<close>

datatype dash_route = LoginGet | LoginPost | Logout
  | Overview | UsersPage | UserDetailPage string | ChannelsPage | ChannelDetailPage string | BotsPage | BotDetailPage string
  | OperatorsPage | TokensPage | AccountsPage | AccountDetailPage string
  | KickUserPost string | ChannelTopicPost string | ChannelRegister string | ChannelRegistrationUpdate string | ChannelDrop string
  | ChannelAccessAdd string | ChannelAccessRemove string string
  | BotsCreate | BotValidatePost | BotSourcePost string | BotTogglePost string | BotDelete string
  | OperatorCreate | OperatorDelete string | TokenCreate | TokenDelete string
  | AccountCreate | AccountDelete string | AccountPasswordReset string

record 'vm wires =
  wi_mac :: hmac
  wi_sha :: sha256
  wi_lua :: "'vm lua"
  wi_duration :: "string \<Rightarrow> int option"

definition show_page :: "hmac \<Rightarrow> dash_session \<Rightarrow> string \<Rightarrow> string \<Rightarrow> page_body \<Rightarrow> 'vm portal \<Rightarrow> dash_answer" where
  "show_page mac sess nav title body pt = Page (new_page_head mac pt sess nav title) body"

definition page_or_error :: "hmac \<Rightarrow> dash_session \<Rightarrow> string \<Rightarrow> string \<Rightarrow> string \<Rightarrow> page_body option \<Rightarrow> 'vm portal \<Rightarrow> dash_answer" where
  "page_or_error mac sess nav title missing body pt =
     (case body of None \<Rightarrow> HttpError 404 missing | Some b \<Rightarrow> show_page mac sess nav title b pt)"

fun show_route :: "'vm wires \<Rightarrow> dash_session \<Rightarrow> dash_route \<Rightarrow> 'vm portal \<Rightarrow> dash_answer" where
  "show_route wi sess Overview pt = show_page (wi_mac wi) sess ''overview'' ''overview'' (overview_page pt) pt"
| "show_route wi sess UsersPage pt = show_page (wi_mac wi) sess ''users'' ''users'' (users_page pt) pt"
| "show_route wi sess (UserDetailPage nick) pt =
     page_or_error (wi_mac wi) sess ''users'' (dash_title ''user'' nick) ''no such user'' (user_detail_page nick pt) pt"
| "show_route wi sess ChannelsPage pt = show_page (wi_mac wi) sess ''channels'' ''channels'' (channels_page pt) pt"
| "show_route wi sess (ChannelDetailPage raw) pt =
     (let name = normalize_channel_name raw in
      page_or_error (wi_mac wi) sess ''channels'' (dash_title ''channel'' name) ''no such channel'' (channel_detail_page name pt) pt)"
| "show_route wi sess BotsPage pt = show_page (wi_mac wi) sess ''bots'' ''bots'' (bots_page pt) pt"
| "show_route wi sess (BotDetailPage i) pt =
     (if \<not> has_store pt then HttpError 503 ''store not configured''
      else case bots_get i (sp_tables (pt_sup pt)) of
        None \<Rightarrow> HttpError 404 ''no such bot'' | Some b \<Rightarrow> bot_detail (wi_mac wi) sess b [] pt)"
| "show_route wi sess OperatorsPage pt = show_page (wi_mac wi) sess ''operators'' ''operators'' (operators_page pt) pt"
| "show_route wi sess TokensPage pt = show_page (wi_mac wi) sess ''tokens'' ''API tokens'' (tokens_page pt) pt"
| "show_route wi sess AccountsPage pt = show_page (wi_mac wi) sess ''accounts'' ''accounts'' (accounts_page pt) pt"
| "show_route wi sess (AccountDetailPage i) pt =
     (if \<not> has_store pt then HttpError 503 ''accounts not configured''
      else page_or_error (wi_mac wi) sess ''accounts''
        (dash_title ''account'' (case accounts_get_by_id i (pt_store pt) of Some a \<Rightarrow> ac_Username a | None \<Rightarrow> []))
        ''no such account'' (account_detail_page i pt) pt)"
| "show_route wi sess _ pt = HttpError 405 ''Method Not Allowed''"

fun post_route :: "'vm wires \<Rightarrow> drawn \<Rightarrow> nat \<Rightarrow> dash_session \<Rightarrow> dash_request \<Rightarrow> dash_route \<Rightarrow> 'vm portal \<Rightarrow> 'vm portal \<times> dash_answer" where
  "post_route wi dr r sess rq (KickUserPost nick) = handle_kick_page (wi_mac wi) nick sess rq"
| "post_route wi dr r sess rq (ChannelTopicPost n) = handle_topic_page (wi_mac wi) n sess rq"
| "post_route wi dr r sess rq (ChannelRegister n) = handle_channel_register (wi_mac wi) n sess rq"
| "post_route wi dr r sess rq (ChannelRegistrationUpdate n) = handle_registration_update (wi_mac wi) n sess rq"
| "post_route wi dr r sess rq (ChannelDrop n) = handle_channel_drop (wi_mac wi) n sess rq"
| "post_route wi dr r sess rq (ChannelAccessAdd n) = handle_access_add (wi_mac wi) n sess rq"
| "post_route wi dr r sess rq (ChannelAccessRemove n a) = handle_access_remove (wi_mac wi) n a sess rq"
| "post_route wi dr r sess rq BotsCreate = handle_bots_create (wi_mac wi) (wi_lua wi) r sess rq"
| "post_route wi dr r sess rq BotValidatePost = handle_bot_validate (wi_mac wi) (wi_lua wi) sess rq"
| "post_route wi dr r sess rq (BotSourcePost i) = handle_bot_source (wi_mac wi) (wi_lua wi) (wi_duration wi) r i sess rq"
| "post_route wi dr r sess rq (BotTogglePost i) = handle_bot_toggle (wi_mac wi) (wi_lua wi) r i sess rq"
| "post_route wi dr r sess rq (BotDelete i) = handle_bot_delete (wi_mac wi) (wi_lua wi) i sess rq"
| "post_route wi dr r sess rq OperatorCreate = handle_operator_create (wi_mac wi) dr sess rq"
| "post_route wi dr r sess rq (OperatorDelete n) = handle_operator_delete (wi_mac wi) n sess rq"
| "post_route wi dr r sess rq TokenCreate = handle_token_create (wi_mac wi) (wi_sha wi) dr sess rq"
| "post_route wi dr r sess rq (TokenDelete i) = handle_token_delete (wi_mac wi) i sess rq"
| "post_route wi dr r sess rq AccountCreate = handle_account_create (wi_mac wi) dr sess rq"
| "post_route wi dr r sess rq (AccountDelete i) = handle_account_delete (wi_mac wi) i sess rq"
| "post_route wi dr r sess rq (AccountPasswordReset i) = handle_account_password (wi_mac wi) dr i sess rq"
| "post_route wi dr r sess rq shown = (\<lambda>pt. (pt, show_route wi sess shown pt))"

section \<open>Login\<close>

definition login_error :: "string \<Rightarrow> dash_response" where
  "login_error e = answer_only (LoginForm e)"

definition handle_login_post :: "hmac \<Rightarrow> dash_request \<Rightarrow> 'vm portal \<Rightarrow> dash_response" where
  "handle_login_post mac rq pt =
     (case dq_form rq of
        None \<Rightarrow> login_error ''bad form data''
      | Some f \<Rightarrow>
          let name = form_get f ''username''; pw = form_get f ''password''; cfg = sv_cfg (sp_server (pt_sup pt)) in
          if name = [] \<or> pw = [] then login_error ''username and password required''
          else if \<not> has_store pt then login_error ''storage not configured''
          else case operators_get name (pt_store pt) of
            None \<Rightarrow> login_error ''invalid credentials''
          | Some op \<Rightarrow>
              if auth_verify (cf_argon2 cfg) (cf_bcrypt cfg) (op_PasswordHash op) pw \<noteq> Some True then login_error ''invalid credentials''
              else \<lparr>dp_answer = Redirect ''/dashboard'', dp_cookie = Some (session_issue mac (pt_sessions pt) (pt_now pt) (op_Name op))\<rparr>)"

definition handle_logout :: "hmac \<Rightarrow> dash_session \<Rightarrow> dash_request \<Rightarrow> 'vm portal \<Rightarrow> dash_response" where
  "handle_logout mac sess rq pt =
     (case dq_form rq of
        None \<Rightarrow> answer_only (HttpError 400 ''bad form'')
      | Some f \<Rightarrow>
          if \<not> check_csrf mac (pt_sessions pt) sess (form_get f ''csrf'') then answer_only (HttpError 403 ''bad csrf token'')
          else \<lparr>dp_answer = Redirect ''/login'', dp_cookie = Some (session_clear (pt_sessions pt))\<rparr>)"

definition extract_session :: "hmac \<Rightarrow> dash_request \<Rightarrow> 'vm portal \<Rightarrow> dash_session option" where
  "extract_session mac rq pt = session_extract mac (pt_sessions pt) (pt_now pt) (dq_cookies rq)"

definition require_session :: "hmac \<Rightarrow> dash_request \<Rightarrow> (dash_session \<Rightarrow> 'vm portal \<Rightarrow> 'vm portal \<times> dash_response) \<Rightarrow> 'vm portal \<Rightarrow> 'vm portal \<times> dash_response" where
  "require_session mac rq next_handler pt =
     (case extract_session mac rq pt of
        None \<Rightarrow> (pt, answer_only (Redirect ''/login''))
      | Some sess \<Rightarrow> next_handler sess pt)"

text \<open>One request, served to its end; \<open>r\<close> is its context.\<close>

definition dash_serve :: "'vm wires \<Rightarrow> drawn \<Rightarrow> nat \<Rightarrow> dash_request \<Rightarrow> dash_route \<Rightarrow> 'vm portal \<Rightarrow> 'vm portal \<times> dash_response" where
  "dash_serve wi dr r rq route pt =
     (case route of
        LoginGet \<Rightarrow> (pt, answer_only (if extract_session (wi_mac wi) rq pt \<noteq> None then Redirect ''/dashboard'' else LoginForm []))
      | LoginPost \<Rightarrow> (pt, handle_login_post (wi_mac wi) rq pt)
      | Logout \<Rightarrow> require_session (wi_mac wi) rq (\<lambda>sess pt. (pt, handle_logout (wi_mac wi) sess rq pt)) pt
      | _ \<Rightarrow> require_session (wi_mac wi) rq (\<lambda>sess pt. case post_route wi dr r sess rq route pt of (pt', a) \<Rightarrow> (pt', answer_only a)) pt)"

definition dash_request_done :: "nat \<Rightarrow> 'vm portal \<Rightarrow> 'vm portal" where
  "dash_request_done r pt = pt\<lparr>pt_sup := end_request r (pt_sup pt)\<rparr>"

end
