(* ===== verification/Daemon.thy ===== *)
theory Daemon
  imports Config_Load Dashboard
begin

text \<open>
  The process around the server, \<^verbatim>\<open>cmd/ircat\<close>: which operators the store holds after a start, a reload or a
  command of \<^verbatim>\<open>ircat operator\<close>, what a reload changes, and how a link is dialled again. Files, the environment and the arguments that \<^verbatim>\<open>flag\<close> has parsed are arguments of the definitions.
\<close>

section \<open>Hashing a password\<close>

text \<open>\<^const>\<open>None\<close> is an unknown algorithm; \<open>bcrypt_gen\<close> is the library.\<close>

definition auth_hash :: "argon2_kdf \<Rightarrow> (string \<Rightarrow> string option) \<Rightarrow> string \<Rightarrow> string \<Rightarrow> string \<Rightarrow> argon2id_params \<Rightarrow> string option" where
  "auth_hash argon2 bcrypt_gen salt algorithm password params =
     (if algorithm = ''argon2id'' then Some (hash_argon2id argon2 salt password (with_argon2id_defaults params))
      else if algorithm = ''bcrypt'' then bcrypt_gen password
      else None)"

text \<open>The costs of the configuration, cut to the width of the fields.\<close>

definition configured_params :: "auth_config \<Rightarrow> argon2id_params" where
  "configured_params au =
     \<lparr>ap_MemoryKiB = nat (ag_MemoryKiB (au_Argon2id au) mod 2 ^ 32), ap_Iterations = nat (ag_Iterations (au_Argon2id au) mod 2 ^ 32),
      ap_Parallelism = nat (ag_Parallelism (au_Argon2id au) mod 2 ^ 8), ap_SaltLength = 0, ap_KeyLength = 0\<rparr>"

record crypto =
  cr_argon2 :: argon2_kdf
  cr_bcrypt :: "string \<Rightarrow> string option"
  cr_salt :: string

definition configured_hash :: "crypto \<Rightarrow> auth_config \<Rightarrow> string \<Rightarrow> string option" where
  "configured_hash cr au pw = auth_hash (cr_argon2 cr) (cr_bcrypt cr) (cr_salt cr) (au_PasswordHash au) pw (configured_params au)"

section \<open>Operators at the start\<close>

datatype daemon_error = HashFailed | StoreFailed storage_error | ConfigFailed config_error | BadLevel string

definition bootstrap_initial_admin :: "crypto \<Rightarrow> auth_config \<Rightarrow> store \<Rightarrow> store \<times> daemon_error option" where
  "bootstrap_initial_admin cr au st =
     (let ad = au_InitialAdmin au in
      if ia_Username ad = [] \<and> ia_Password ad = [] then (st, None)
      else if operators_list st \<noteq> [] then (st, None)
      else if ia_Username ad = [] \<or> ia_Password ad = [] then (st, None)
      else case configured_hash cr au (ia_Password ad) of
        None \<Rightarrow> (st, Some HashFailed)
      | Some h \<Rightarrow>
          (case operators_create \<lparr>op_Name = ia_Username ad, op_HostMask = [], op_PasswordHash = h, op_Flags = [''all'']\<rparr> st of
             (st', None) \<Rightarrow> (st', None)
           | (_, Some ErrConflict) \<Rightarrow> (st, None)
           | (_, Some e) \<Rightarrow> (st, Some (StoreFailed e))))"

definition static_operator :: "operator_config \<Rightarrow> operator_rec" where
  "static_operator oc = \<lparr>op_Name = oc_Name oc, op_HostMask = oc_HostMask oc, op_PasswordHash = oc_PasswordHash oc, op_Flags = oc_Flags oc\<rparr>"

text \<open>Create, and on a conflict update: the configuration wins at every start.\<close>

definition upsert_operator :: "operator_rec \<Rightarrow> store \<Rightarrow> store \<times> storage_error option" where
  "upsert_operator op st =
     (case operators_create op st of
        (st', None) \<Rightarrow> (st', None)
      | (_, Some ErrConflict) \<Rightarrow> operators_update op st
      | (_, Some e) \<Rightarrow> (st, Some e))"

fun sync_static_operators :: "operator_config list \<Rightarrow> store \<Rightarrow> store \<times> daemon_error option" where
  "sync_static_operators [] st = (st, None)"
| "sync_static_operators (oc # ocs) st =
     (if oc_Name oc = [] \<or> oc_PasswordHash oc = [] then sync_static_operators ocs st
      else case upsert_operator (static_operator oc) st of
        (st', None) \<Rightarrow> sync_static_operators ocs st'
      | (st', Some e) \<Rightarrow> (st', Some (StoreFailed e)))"

definition bootstrap_store :: "crypto \<Rightarrow> root_config \<Rightarrow> store \<Rightarrow> store \<times> daemon_error option" where
  "bootstrap_store cr cfg st =
     (case bootstrap_initial_admin cr (rc_Auth cfg) st of
        (st', Some e) \<Rightarrow> (st', Some e)
      | (st', None) \<Rightarrow> sync_static_operators (rc_Operators cfg) st')"

section \<open>\<open>ircat operator\<close>\<close>

text \<open>The name comes before the flags; the rest of the arguments is for the flag parser.\<close>

definition extract_positional :: "string list \<Rightarrow> (string \<times> string list) option" where
  "extract_positional args =
     (case args of
        [] \<Rightarrow> None
      | a # rest \<Rightarrow>
          if a = ''--'' then (case rest of [] \<Rightarrow> None | n # rest' \<Rightarrow> Some (n, rest'))
          else if has_prefix ''-'' a then None
          else Some (a, rest))"

definition trim_newlines :: "string \<Rightarrow> string" where
  "trim_newlines s = rev (dropWhile (\<lambda>c. c = CHR 0x0D \<or> c = CHR 0x0A) (rev s))"

text \<open>A file is read whole, standard input up to its first line feed.\<close>

definition read_operator_password :: "(string \<Rightarrow> string option) \<Rightarrow> string \<Rightarrow> string \<Rightarrow> string option" where
  "read_operator_password files path stdin =
     (if path \<noteq> [] then map_option trim_newlines (files path)
      else Some (trim_newlines (takeWhile (\<lambda>c. c \<noteq> CHR 0x0A) stdin)))"

record operator_flags =
  of_config :: string
  of_passwordFile :: string
  of_hostMask :: string
  of_flags :: string
  of_extra :: "string list"

datatype cli_result = CliDone "string list" | CliFailed string

definition operator_add ::
  "crypto \<Rightarrow> auth_config \<Rightarrow> string \<Rightarrow> operator_flags \<Rightarrow> string option \<Rightarrow> store \<Rightarrow> store \<times> cli_result" where
  "operator_add cr au name fl password st =
     (if of_extra fl \<noteq> [] then (st, CliFailed ''unexpected extra arguments'')
      else case password of
        None \<Rightarrow> (st, CliFailed ''read password'')
      | Some pw \<Rightarrow>
          if pw = [] then (st, CliFailed ''password is empty'')
          else case configured_hash cr au pw of
            None \<Rightarrow> (st, CliFailed ''hash password'')
          | Some h \<Rightarrow>
              let op = \<lparr>op_Name = name, op_HostMask = of_hostMask fl, op_PasswordHash = h, op_Flags = split_csv (of_flags fl)\<rparr> in
              (case operators_create op st of
                 (st', None) \<Rightarrow> (st', CliDone [name @ '' created''])
               | (_, Some ErrConflict) \<Rightarrow>
                   (case operators_update op st of
                      (st', None) \<Rightarrow> (st', CliDone [name @ '' updated''])
                    | (st', Some _) \<Rightarrow> (st', CliFailed ''update operator''))
               | (_, Some _) \<Rightarrow> (st, CliFailed ''create operator'')))"

definition operator_line :: "operator_rec \<Rightarrow> string" where
  "operator_line op = op_Name op @ [CHR 0x09] @ ''host='' @ (if op_HostMask op = [] then ''*'' else op_HostMask op) @ [CHR 0x09] @
     ''flags='' @ join_with '','' (op_Flags op)"

definition operator_list :: "store \<Rightarrow> cli_result" where
  "operator_list st =
     CliDone (if operators_list st = [] then [''(no operators configured)''] else map operator_line (operators_list st))"

definition operator_delete :: "string \<Rightarrow> operator_flags \<Rightarrow> store \<Rightarrow> store \<times> cli_result" where
  "operator_delete name fl st =
     (if of_extra fl \<noteq> [] then (st, CliFailed ''unexpected extra arguments'')
      else case operators_delete name st of
        (st', None) \<Rightarrow> (st', CliDone [name @ '' deleted''])
      | (st', Some _) \<Rightarrow> (st', CliFailed ''delete operator''))"

text \<open>
  The verbs. \<open>parse_flags\<close> is the flag parser of the library, which stops a command with an error; the store is the one
  that the configuration named by the flags opens.
\<close>

definition run_operator ::
  "crypto \<Rightarrow> auth_config \<Rightarrow> (string list \<Rightarrow> operator_flags option) \<Rightarrow> (string \<Rightarrow> string option) \<Rightarrow> string \<Rightarrow> string list \<Rightarrow> store \<Rightarrow> store \<times> cli_result" where
  "run_operator cr au parse_flags files stdin args st =
     (case args of
        [] \<Rightarrow> (st, CliFailed ''operator: unknown verb'')
      | verb # rest \<Rightarrow>
          if verb = ''list'' then
            (case parse_flags rest of None \<Rightarrow> (st, CliFailed ''flags'') | Some _ \<Rightarrow> (st, operator_list st))
          else if verb \<in> set [''add'', ''delete'', ''remove'', ''rm''] then
            (case extract_positional rest of
               None \<Rightarrow> (st, CliFailed ''operator: expected <username>'')
             | Some (name, rest') \<Rightarrow>
                 (case parse_flags rest' of
                    None \<Rightarrow> (st, CliFailed ''flags'')
                  | Some fl \<Rightarrow>
                      if verb = ''add'' then operator_add cr au name fl (read_operator_password files (of_passwordFile fl) stdin) st
                      else operator_delete name fl st))
          else (st, CliFailed ''operator: unknown verb''))"

section \<open>Reload\<close>

datatype log_level = LevelDebug | LevelInfo | LevelWarn | LevelError

definition parse_level :: "string \<Rightarrow> log_level option" where
  "parse_level s =
     (let l = to_lower (trim_space s) in
      if l \<in> set ['''', ''info''] then Some LevelInfo
      else if l = ''debug'' then Some LevelDebug
      else if l \<in> set [''warn'', ''warning''] then Some LevelWarn
      else if l \<in> set [''error'', ''err''] then Some LevelError
      else None)"

definition level_rank :: "log_level \<Rightarrow> int" where
  "level_rank l = (case l of LevelDebug \<Rightarrow> -4 | LevelInfo \<Rightarrow> 0 | LevelWarn \<Rightarrow> 4 | LevelError \<Rightarrow> 8)"

definition level_enabled :: "log_level \<Rightarrow> log_level \<Rightarrow> bool" where
  "level_enabled threshold l \<longleftrightarrow> level_rank l \<ge> level_rank threshold"

record running =
  rn_level :: log_level
  rn_server :: server

text \<open>\<open>loaded\<close> is what loading the file gives, \<open>motd\<close> the content of a file, \<^const>\<open>None\<close> when it cannot be read.\<close>

definition reload_motd :: "(string \<Rightarrow> string option) \<Rightarrow> string \<Rightarrow> server \<Rightarrow> server" where
  "reload_motd files path s = s\<lparr>sv_motd := load_motd (if path = [] then None else files path)\<rparr>"

definition reload_config :: "config_error + root_config \<Rightarrow> (string \<Rightarrow> string option) \<Rightarrow> running \<Rightarrow> running \<times> daemon_error option" where
  "reload_config loaded files rn =
     (case loaded of
        Inl e \<Rightarrow> (rn, Some (ConfigFailed e))
      | Inr cfg \<Rightarrow>
          (case parse_level (lg_Level (rc_Logging cfg)) of
             None \<Rightarrow> (rn, Some (BadLevel (lg_Level (rc_Logging cfg))))
           | Some l \<Rightarrow>
               let rn1 = rn\<lparr>rn_level := l\<rparr>;
                   (st, e) = (case sv_store (rn_server rn1) of
                      None \<Rightarrow> (None, None)
                    | Some st \<Rightarrow> (case sync_static_operators (rc_Operators cfg) st of (st', e) \<Rightarrow> (Some st', e)));
                   rn2 = rn1\<lparr>rn_server := (rn_server rn1)\<lparr>sv_store := st\<rparr>\<rparr> in
               (case e of
                  Some err \<Rightarrow> (rn2, Some err)
                | None \<Rightarrow> (rn2\<lparr>rn_server := reload_motd files (sc_MOTDFile (rc_Server cfg)) (rn_server rn2)\<rparr>, None))))"

section \<open>Dialling links\<close>

definition max_backoff :: int where "max_backoff = 60 * 1000000000"

text \<open>The wait after a failed dial, and the one before the dial after that; a link that ran starts over.\<close>

definition next_backoff :: "int \<Rightarrow> int" where
  "next_backoff b = (if b < max_backoff then min (b * 2) max_backoff else b)"

fun dial_waits :: "int \<Rightarrow> bool list \<Rightarrow> int list" where
  "dial_waits b [] = []"
| "dial_waits b (up # rest) =
     (if up then 1000000000 # dial_waits 1000000000 rest else b # dial_waits (next_backoff b) rest)"

lemma dial_waits_bounds: "0 < b \<Longrightarrow> b \<le> max_backoff \<Longrightarrow> w \<in> set (dial_waits b ups) \<Longrightarrow> 0 < w \<and> w \<le> max_backoff"
  by (induction b ups rule: dial_waits.induct) (auto simp: next_backoff_def max_backoff_def split: if_splits)

text \<open>While a peer cannot be reached the waits double up to a minute.\<close>

lemma dial_waits_double:
  assumes "0 < b" "b \<le> max_backoff" "k < n"
  shows "dial_waits b (replicate n False) ! k = min (b * 2 ^ k) max_backoff"
  using assms
proof (induction k arbitrary: b n)
  case 0
  then show ?case by (cases n) simp_all
next
  case (Suc k)
  obtain m where m: "n = Suc m" "k < m" using Suc.prems(3) by (cases n) auto
  have next_ok: "0 < next_backoff b" "next_backoff b \<le> max_backoff" using Suc.prems by (auto simp: next_backoff_def max_backoff_def)
  have "min (next_backoff b * 2 ^ k) max_backoff = min (b * 2 ^ Suc k) max_backoff"
  proof (cases "b * 2 \<le> max_backoff")
    case True
    then show ?thesis using Suc.prems by (auto simp: next_backoff_def mult.assoc)
  next
    case False
    have "next_backoff b = max_backoff" using False Suc.prems(2) by (auto simp: next_backoff_def)
    moreover have "max_backoff * 1 \<le> max_backoff * 2 ^ k" "b * 2 * 1 \<le> b * 2 * 2 ^ k"
      using Suc.prems(1,2) by (intro mult_left_mono; simp)+
    ultimately show ?thesis using False by (simp add: min_absorb2 mult.assoc)
  qed
  then show ?case using Suc.IH [OF next_ok m(2)] by (simp add: m(1))
qed

definition is_hex_digit :: "char \<Rightarrow> bool" where
  "is_hex_digit c \<longleftrightarrow> is_digit c \<or> c \<in> set ''abcdefABCDEF''"

definition normalize_fingerprint :: "string \<Rightarrow> string option" where
  "normalize_fingerprint raw =
     (let s = filter (\<lambda>c. c \<noteq> CHR '':'') (trim_prefix ''sha256:'' (trim_space (to_lower raw))) in
      if length s \<noteq> 64 then None else if \<not> list_all is_hex_digit s then None else Some s)"

text \<open>The peer's leaf certificate is checked against the pin; without one there is nothing to check here.\<close>

definition fingerprint_ok :: "sha256 \<Rightarrow> string \<Rightarrow> string list \<Rightarrow> bool" where
  "fingerprint_ok sha want certs = (case certs of [] \<Rightarrow> False | leaf # _ \<Rightarrow> hex_string (sha leaf) = want)"

text \<open>An accepted connection is given to the first link that accepts, whoever called.\<close>

definition accept_spec :: "link_spec list \<Rightarrow> link_spec option" where
  "accept_spec links = find lk_Accept links"

end
