(* ===== verification/Portal_Props.thy ===== *)
theory Portal_Props
  imports Daemon
begin

text \<open>
  What guards the dashboard: nothing changes without a session and its CSRF token, and the operator a first start
  creates can sign in with the configured password.
\<close>

section \<open>No change without a session and its token\<close>

lemma with_form_changed:
  assumes "fst (with_form mac sess rq k pt) \<noteq> pt"
  shows "\<exists>f. dq_form rq = Some f \<and> form_get f ''csrf'' = csrf_token mac (pt_sessions pt) sess"
  using assms by (auto simp: with_form_def check_csrf_def split: option.splits if_splits)

lemma with_store_changed: "fst (with_store what k pt) \<noteq> pt \<Longrightarrow> fst (k pt) \<noteq> pt"
  by (simp add: with_store_def split: if_splits)

lemma post_changed:
  assumes "fst (post_route wi dr r sess rq route pt) \<noteq> pt"
  shows "\<exists>f. dq_form rq = Some f \<and> form_get f ''csrf'' = csrf_token (wi_mac wi) (pt_sessions pt) sess"
  using assms
  by (cases route)
    (auto simp: handle_kick_page_def handle_topic_page_def handle_channel_register_def handle_registration_update_def handle_channel_drop_def
      handle_access_add_def handle_access_remove_def handle_bots_create_def handle_bot_validate_def handle_bot_source_def handle_bot_toggle_def
      handle_bot_delete_def handle_operator_create_def handle_operator_delete_def handle_token_create_def handle_token_delete_def
      handle_account_create_def handle_account_delete_def handle_account_password_def
      dest!: with_store_changed dest: with_form_changed)

lemma extract_cookie:
  "extract_session mac rq pt = Some sess \<longleftrightarrow>
   (\<exists>v. map_of (dq_cookies rq) (ss_cookieName (pt_sessions pt)) = Some v \<and> session_decode mac (pt_sessions pt) v = Some sess \<and> pt_now pt \<le> ds_Expires sess)"
  by (auto simp: extract_session_def session_extract_def split: option.splits if_splits)


section \<open>From the configuration to the dashboard\<close>

lemma configured_bounds:
  "ap_MemoryKiB (with_argon2id_defaults (configured_params au)) < 2 ^ 32" "ap_Iterations (with_argon2id_defaults (configured_params au)) < 2 ^ 32"
  "ap_Parallelism (with_argon2id_defaults (configured_params au)) < 256"
proof -
  have cut: "nat (x mod 2 ^ 32) < 2 ^ 32" "nat (x mod 2 ^ 8) < 256" for x :: int
    using pos_mod_bound [of "2 ^ 32" x] pos_mod_bound [of "2 ^ 8" x] by (simp_all add: nat_less_iff)
  show "ap_MemoryKiB (with_argon2id_defaults (configured_params au)) < 2 ^ 32"
    using cut(1) [of "ag_MemoryKiB (au_Argon2id au)"] by (simp add: with_argon2id_defaults_def configured_params_def default_argon2id_params_def Let_def)
  show "ap_Iterations (with_argon2id_defaults (configured_params au)) < 2 ^ 32"
    using cut(1) [of "ag_Iterations (au_Argon2id au)"] by (simp add: with_argon2id_defaults_def configured_params_def default_argon2id_params_def Let_def)
  show "ap_Parallelism (with_argon2id_defaults (configured_params au)) < 256"
    using cut(2) [of "ag_Parallelism (au_Argon2id au)"] by (simp add: with_argon2id_defaults_def configured_params_def default_argon2id_params_def Let_def)
qed

definition login_request :: "string \<Rightarrow> string \<Rightarrow> dash_request" where
  "login_request name pw = \<lparr>dq_cookies = [], dq_form = Some [(''username'', name), (''password'', pw)]\<rparr>"

definition page_request :: "set_cookie \<Rightarrow> dash_request" where
  "page_request ck = \<lparr>dq_cookies = [(ck_Name ck, ck_Value ck)], dq_form = None\<rparr>"

lemma sort_key_empty: "sort_key f xs = [] \<longleftrightarrow> xs = []"
  using length_sort [of f xs] by (metis length_0_conv)

lemma bootstrap_creates:
  assumes "au_PasswordHash au = ''argon2id''" "ia_Username (au_InitialAdmin au) \<noteq> []" "ia_Password (au_InitialAdmin au) \<noteq> []" "st_operators st = []"
    and "bootstrap_initial_admin cr au st = (st', e)"
  shows "e = None \<and> operators_get (ia_Username (au_InitialAdmin au)) st' = Some \<lparr>op_Name = ia_Username (au_InitialAdmin au), op_HostMask = [],
      op_PasswordHash = hash_argon2id (cr_argon2 cr) (cr_salt cr) (ia_Password (au_InitialAdmin au)) (with_argon2id_defaults (configured_params au)),
      op_Flags = [''all'']\<rparr> \<and> st_operators st' \<noteq> []"
  using assms by (auto simp: bootstrap_initial_admin_def Let_def operators_list_def configured_hash_def auth_hash_def operators_create_def operators_get_def)

lemma served_session:
  assumes "CHR ''|'' \<notin> set name" "0 \<le> until" "until div 1000000000 < 2 ^ 63"
    and "ck = \<lparr>ck_Name = ss_cookieName ss, ck_Value = session_encode mac ss \<lparr>ds_Operator = name, ds_Expires = until\<rparr>, ck_Expires = e, ck_MaxAge = a, ck_Secure = x\<rparr>"
    and "pt_sessions pt = ss"
  shows "extract_session mac (page_request ck) pt =
    (if pt_now pt \<le> until div 1000000000 * 1000000000 then Some \<lparr>ds_Operator = name, ds_Expires = until div 1000000000 * 1000000000\<rparr> else None)"
proof -
  have "session_decode mac ss (session_encode mac ss \<lparr>ds_Operator = name, ds_Expires = until\<rparr>)
      = Some \<lparr>ds_Operator = name, ds_Expires = until div 1000000000 * 1000000000\<rparr>"
    using decode_encode [of "\<lparr>ds_Operator = name, ds_Expires = until\<rparr>" mac ss] assms(1-3) by (simp add: unix_seconds_def pos_imp_zdiv_nonneg_iff)
  then show ?thesis
    by (simp add: extract_session_def session_extract_def page_request_def assms(4,5))
qed


definition demo_wires :: "nat wires" where
  "demo_wires = \<lparr>wi_mac = (\<lambda>k b. k @ b), wi_sha = rev, wi_lua = \<lparr>lua_load = (\<lambda>_. Inr (Finished 0)), lua_call = (\<lambda>_ _ _. None)\<rparr>,
     wi_duration = (\<lambda>_. None)\<rparr>"

definition demo_crypto :: crypto where
  "demo_crypto = \<lparr>cr_argon2 = toy_kdf, cr_bcrypt = (\<lambda>_. None), cr_salt = ''saltsaltsaltsalt''\<rparr>"

definition demo_auth :: auth_config where
  "demo_auth = \<lparr>au_PasswordHash = ''argon2id'', au_Argon2id = \<lparr>ag_MemoryKiB = 65536, ag_Iterations = 3, ag_Parallelism = 2\<rparr>,
     au_InitialAdmin = \<lparr>ia_Username = ''root'', ia_Password = ''pw'', ia_PasswordEnv = []\<rparr>\<rparr>"

definition demo_portal :: "nat portal" where
  "demo_portal =
     \<lparr>pt_sup = \<lparr>sp_node = \<lparr>nd_server = demo_server\<lparr>sv_store := Some (fst (bootstrap_initial_admin demo_crypto demo_auth empty_store))\<rparr>,
        nd_tables = \<lparr>bk_bots = [], bk_kv = []\<rparr>\<rparr>, sp_running = [], sp_done = []\<rparr>,
      pt_tokens = [], pt_sessions = new_session_store ''key'' [] 0 False\<rparr>"

lemma demo_portal_facts:
  "pt_now demo_portal = 100" "ss_maxAge (pt_sessions demo_portal) = 86400000000000"
  "sv_store (sp_server (pt_sup demo_portal)) = Some (fst (bootstrap_initial_admin demo_crypto demo_auth empty_store))"
  "cf_argon2 (sv_cfg (sp_server (pt_sup demo_portal))) = cr_argon2 demo_crypto"
  by (simp_all add: demo_portal_def sp_now_def sp_server_def demo_server_def new_server_def new_session_store_def demo_config_def demo_crypto_def)


text \<open>The same with a token, and the request of its operator that deletes it.\<close>

definition demo_tokens_portal :: "nat portal" where
  "demo_tokens_portal = demo_portal\<lparr>pt_tokens := [(''t'', \<lparr>tk_ID = ''t'', tk_Label = ''ci'', tk_Hash = ''h'', tk_Scopes = [], tk_CreatedAt = 1, tk_LastUsedAt = 0\<rparr>)]\<rparr>"

definition demo_delete :: dash_request where
  "demo_delete =
     (let ss = pt_sessions demo_portal; sess = \<lparr>ds_Operator = ''root'', ds_Expires = 2000000000\<rparr> in
      \<lparr>dq_cookies = [(ss_cookieName ss, session_encode (wi_mac demo_wires) ss sess)],
       dq_form = Some [(''csrf'', csrf_token (wi_mac demo_wires) ss sess)]\<rparr>)"

lemma demo_delete_works:
  "fst (dash_serve demo_wires dr 0 demo_delete (TokenDelete ''t'') demo_tokens_portal) = demo_tokens_portal\<lparr>pt_tokens := []\<rparr>"
proof -
  have same: "pt_sessions demo_tokens_portal = pt_sessions demo_portal" "has_store demo_tokens_portal" "pt_now demo_tokens_portal = 100"
    using demo_portal_facts by (simp_all add: demo_tokens_portal_def has_store_def)
  have "session_decode (wi_mac demo_wires) ss (session_encode (wi_mac demo_wires) ss \<lparr>ds_Operator = ''root'', ds_Expires = 2000000000\<rparr>)
      = Some \<lparr>ds_Operator = ''root'', ds_Expires = 2000000000\<rparr>" for ss
    by (subst decode_encode) (simp_all add: unix_seconds_def)
  then have "extract_session (wi_mac demo_wires) demo_delete demo_tokens_portal = Some \<lparr>ds_Operator = ''root'', ds_Expires = 2000000000\<rparr>"
    by (simp add: extract_session_def session_extract_def demo_delete_def Let_def same)
  moreover have "tokens_delete ''t'' (pt_tokens demo_tokens_portal) = ([], None)"
    by (simp add: demo_tokens_portal_def tokens_delete_def mhas_def)
  moreover have "dq_form demo_delete = Some [(''csrf'', csrf_token (wi_mac demo_wires) (pt_sessions demo_portal) \<lparr>ds_Operator = ''root'', ds_Expires = 2000000000\<rparr>)]"
    by (simp add: demo_delete_def Let_def)
  ultimately show ?thesis
    by (simp add: dash_serve_def require_session_def handle_token_delete_def with_store_def with_form_def same check_csrf_def form_get_def)
qed


end
