(* ===== verification/Log_Stream.thy ===== *)
theory Log_Stream
  imports History Time_Format
begin

text \<open>
  The live log of the dashboard: the event stream that \<^verbatim>\<open>handleLogsSSE\<close> of \<^verbatim>\<open>internal/dashboard/pages.go\<close> feeds from the
  ring of the logger, and \<^verbatim>\<open>handleBotLogsSSE\<close> from the ring of a bot. The stream is the list of what was
  written, given the ring at each tick; a client that goes away ends it.
\<close>

section \<open>Frames\<close>

definition json_escape :: "string \<Rightarrow> string" where
  "json_escape s =
     concat (map (\<lambda>c. if c = CHR 0x22 then [CHR 0x5C, CHR 0x22] else if c = CHR 0x5C then [CHR 0x5C, CHR 0x5C]
       else if c = CHR 0x0A then [CHR 0x5C, CHR ''n''] else if c = CHR 0x0D then [CHR 0x5C, CHR ''r'']
       else if c = CHR 0x09 then [CHR 0x5C, CHR ''t''] else [c]) s)"

definition lower_level :: "string \<Rightarrow> string" where
  "lower_level s =
     (if s \<in> set [''DEBUG'', ''debug''] then ''debug''
      else if s \<in> set [''WARN'', ''warn'', ''WARNING''] then ''warn''
      else if s \<in> set [''ERROR'', ''error'', ''ERR''] then ''error''
      else ''info'')"

definition quoted_key :: "string \<Rightarrow> string" where
  "quoted_key k = [CHR 0x22] @ k @ [CHR 0x22, CHR '':'']"

definition quoted_text :: "string \<Rightarrow> string" where
  "quoted_text s = [CHR 0x22] @ s @ [CHR 0x22]"

definition frame_payload :: "'a log_entry \<Rightarrow> string" where
  "frame_payload e =
     ''{'' @ quoted_key ''seq'' @ itoa_nat (le_Seq e) @
     '','' @ quoted_key ''time'' @ quoted_text (format_clock (le_Time e) @ ''.'' @ padded 3 (le_Time e div 1000000 mod 1000)) @
     '','' @ quoted_key ''level'' @ quoted_text (lower_level (le_Level e)) @
     '','' @ quoted_key ''message'' @ quoted_text (json_escape (le_Message e)) @ ''}''"

definition log_frame :: "'a log_entry \<Rightarrow> string" where
  "log_frame e = ''data: '' @ frame_payload e @ [CHR 0x0A, CHR 0x0A]"

section \<open>The stream\<close>

datatype 'a sse_item = Ping | Frame "'a log_entry"

fun sse_text :: "'a sse_item \<Rightarrow> string" where
  "sse_text Ping = '': ping'' @ [CHR 0x0A, CHR 0x0A]"
| "sse_text (Frame e) = log_frame e"

definition last_seq :: "nat \<Rightarrow> 'a log_entry list \<Rightarrow> nat" where
  "last_seq seq es = foldl (\<lambda>m e. if le_Seq e > m then le_Seq e else m) seq es"

text \<open>One tick: what is newer than the last number sent, or a comment so that the connection stays open.\<close>

definition sse_tick :: "(nat \<Rightarrow> 'r \<Rightarrow> 'a log_entry list) \<Rightarrow> nat \<Rightarrow> 'r \<Rightarrow> 'a sse_item list \<times> nat" where
  "sse_tick since seq r =
     (let es = since seq r in if es = [] then ([Ping], seq) else (map Frame es, last_seq seq es))"

fun sse_ticks :: "(nat \<Rightarrow> 'r \<Rightarrow> 'a log_entry list) \<Rightarrow> nat \<Rightarrow> 'r list \<Rightarrow> 'a sse_item list" where
  "sse_ticks since seq [] = []"
| "sse_ticks since seq (r # rs) = (case sse_tick since seq r of (items, seq') \<Rightarrow> items @ sse_ticks since seq' rs)"

text \<open>First the backlog, then the ticks.\<close>

definition sse_stream :: "(nat \<Rightarrow> 'r \<Rightarrow> 'a log_entry list) \<Rightarrow> 'r \<Rightarrow> 'r list \<Rightarrow> 'a sse_item list" where
  "sse_stream since r0 rs = map Frame (since 0 r0) @ sse_ticks since (last_seq 0 (since 0 r0)) rs"

definition log_stream :: "'a ring \<Rightarrow> 'a ring list \<Rightarrow> 'a sse_item list" where
  "log_stream = sse_stream ring_since"

definition bot_log_stream :: "unit ring \<Rightarrow> unit ring list \<Rightarrow> unit sse_item list" where
  "bot_log_stream = sse_stream bot_log_since"

primrec sent_entry :: "'a sse_item \<Rightarrow> 'a log_entry list" where
  "sent_entry Ping = []"
| "sent_entry (Frame e) = [e]"

definition sent :: "'a sse_item list \<Rightarrow> 'a log_entry list" where
  "sent items = concat (map sent_entry items)"

section \<open>Nothing is lost\<close>

text \<open>The entries as the ring numbers them.\<close>

primrec stamp :: "nat \<Rightarrow> 'a log_entry list \<Rightarrow> 'a log_entry list" where
  "stamp k [] = []"
| "stamp k (e # es) = e\<lparr>le_Seq := k + 1\<rparr> # stamp (k + 1) es"

primrec rings :: "'a ring \<Rightarrow> 'a log_entry list list \<Rightarrow> 'a ring list" where
  "rings r [] = []"
| "rings r (b # bs) = fold ring_append b r # rings (fold ring_append b r) bs"

lemma sent_simps [simp]: "sent [] = []" "sent (xs @ ys) = sent xs @ sent ys" "sent (map Frame es) = es" "sent [Ping] = []"
  by (simp_all add: sent_def comp_def)

lemma length_stamp [simp]: "length (stamp k es) = length es"
  by (induction es arbitrary: k) simp_all

lemma stamp_append: "stamp k (xs @ ys) = stamp k xs @ stamp (k + length xs) ys"
  by (induction xs arbitrary: k) simp_all

lemma stamp_Nil [simp]: "stamp k es = [] \<longleftrightarrow> es = []"
  by (cases es) simp_all

lemma stamp_seqs: "map le_Seq (stamp k es) = [k + 1..<k + length es + 1]"
  by (induction es arbitrary: k) (simp_all add: upt_conv_Cons del: upt_Suc)

lemma stamp_bounds: "e \<in> set (stamp k es) \<Longrightarrow> k < le_Seq e \<and> le_Seq e \<le> k + length es"
  using stamp_seqs [of k es] by (metis (no_types, lifting) Suc_eq_plus1 atLeastLessThan_iff image_eqI less_Suc_eq_le list.set_map set_upt Suc_le_eq)

lemma stored_stamp: "log_ring.stored r es = stamp (rb_total r) es"
proof (induction es arbitrary: r)
  case (Cons e es)
  have "rb_total (ring_append e r) = rb_total r + 1" by (simp add: ring_append_def Let_def)
  then show ?case by (simp only: log_ring.stored.simps stamp.simps Cons.IH if_True)
qed (simp only: log_ring.stored.simps stamp.simps)

lemma ring_contents:
  assumes "cap = (if n \<le> 0 then 10000 else nat n)"
  shows "snapshot_locked (fold ring_append es (new_ring_buffer n z)) = lastn cap (stamp 0 es)"
proof -
  have "snapshot_locked (new_ring_buffer n z) = []" "rb_total (new_ring_buffer n z) = 0" "rb_capacity (new_ring_buffer n z) = cap"
    by (simp_all add: assms snapshot_locked_def new_ring_buffer_def Let_def)
  then show ?thesis
    using log_ring.fold_push [of "new_ring_buffer n z" es, OF wf_new_ring_buffer]
    by (simp only: stored_stamp append_Nil)
qed

lemma since_new:
  assumes "cap = (if n \<le> 0 then 10000 else nat n)" "length ys \<le> cap"
  shows "ring_since (length xs) (fold ring_append (xs @ ys) (new_ring_buffer n z)) = stamp (length xs) ys"
proof -
  have "wf_ring (fold ring_append (xs @ ys) (new_ring_buffer n z))"
    using log_ring.fold_push_inv wf_new_ring_buffer by blast
  then have "ring_since (length xs) (fold ring_append (xs @ ys) (new_ring_buffer n z))
      = filter (\<lambda>e. le_Seq e > length xs) (lastn cap (stamp 0 (xs @ ys)))"
    by (simp only: ring_since_filter ring_contents [OF assms(1)])
  also have "lastn cap (stamp 0 (xs @ ys)) = drop (length xs + length ys - cap) (stamp 0 xs) @ stamp (length xs) ys"
    using assms(2) by (simp add: lastn_def stamp_append)
  also have "filter (\<lambda>e. le_Seq e > length xs) \<dots> = stamp (length xs) ys"
  proof -
    have "filter (\<lambda>e. le_Seq e > length xs) (drop m (stamp 0 xs)) = []" for m
      by (rule filter_False) (auto dest!: in_set_dropD stamp_bounds)
    moreover have "filter (\<lambda>e. le_Seq e > length xs) (stamp (length xs) ys) = stamp (length xs) ys"
      by (rule filter_True) (auto dest: stamp_bounds)
    ultimately show ?thesis by simp
  qed
  finally show ?thesis .
qed

lemma last_seq_stamp: "last_seq k (stamp k es) = k + length es"
  by (induction es arbitrary: k) (simp_all add: last_seq_def)

lemma since_start: "ring_since 0 (fold ring_append es (new_ring_buffer n z)) = snapshot_locked (fold ring_append es (new_ring_buffer n z))"
proof -
  let ?r = "fold ring_append es (new_ring_buffer n z)"
  have wf: "wf_ring ?r" using log_ring.fold_push_inv wf_new_ring_buffer by blast
  have "filter (\<lambda>e. 0 < le_Seq e) (snapshot_locked ?r) = snapshot_locked ?r"
    by (rule filter_True) (auto simp: ring_contents [OF refl] lastn_def simp del: length_stamp dest!: in_set_dropD stamp_bounds)
  then show ?thesis by (simp add: ring_since_filter [OF wf])
qed

lemma ticks_sent:
  assumes "cap = (if n \<le> 0 then 10000 else nat n)" "\<forall>b \<in> set bs. length b \<le> cap"
  shows "sent (sse_ticks ring_since (length xs) (rings (fold ring_append xs (new_ring_buffer n z)) bs)) = stamp (length xs) (concat bs)"
  using assms(2)
proof (induction bs arbitrary: xs)
  case (Cons b bs)
  let ?r = "fold ring_append b (fold ring_append xs (new_ring_buffer n z))"
  have since: "ring_since (length xs) ?r = stamp (length xs) b"
    using since_new [OF assms(1), of b xs z] Cons.prems by simp
  have tick: "sse_tick ring_since (length xs) ?r = (if b = [] then [Ping] else map Frame (stamp (length xs) b), length xs + length b)"
    by (simp only: sse_tick_def since Let_def last_seq_stamp stamp_Nil) (simp split: if_split)
  have rest: "sent (sse_ticks ring_since (length (xs @ b)) (rings (fold ring_append (xs @ b) (new_ring_buffer n z)) bs)) = stamp (length (xs @ b)) (concat bs)"
    by (rule Cons.IH) (use Cons.prems in simp)
  then show ?case by (simp add: tick stamp_append)
qed simp

text \<open>
  C35: The live log loses nothing. If no tick finds more new entries than the ring holds, the frames of the
  stream, read in order, are the retained backlog and then every entry logged since, each
  exactly once and with its number, whatever the ticks are between.
\<close>

theorem log_stream_complete:
  assumes "cap = (if n \<le> 0 then 10000 else nat n)" "\<forall>b \<in> set bs. length b \<le> cap"
    and "r0 = fold ring_append es (new_ring_buffer n z)"
  shows "sent (log_stream r0 (rings r0 bs)) = lastn cap (stamp 0 es) @ stamp (length es) (concat bs)"
proof -
  have "last_seq 0 (lastn cap (stamp 0 es)) = length es"
  proof (cases "es = []")
    case False
    have "0 < cap" using assms(1) by (auto split: if_splits)
    show ?thesis
    proof (cases "length es \<le> cap")
      case True
      then show ?thesis using last_seq_stamp [of 0 es] by (simp add: lastn_def)
    next
      case False
      then have "es = take (length es - cap) es @ drop (length es - cap) es" "length (take (length es - cap) es) = length es - cap" by simp_all
      then have "stamp 0 es = stamp 0 (take (length es - cap) es) @ stamp (length es - cap) (drop (length es - cap) es)"
        by (metis add_0 stamp_append)
      then have "lastn cap (stamp 0 es) = stamp (length es - cap) (drop (length es - cap) es)"
        using False by (simp add: lastn_def)
      moreover have "last_seq 0 (stamp k ys) = k + length ys" if "ys \<noteq> []" for k and ys :: "'a log_entry list"
        using that last_seq_stamp [of "k + 1" "tl ys"] by (cases ys) (simp_all add: last_seq_def)
      ultimately show ?thesis using False \<open>0 < cap\<close> by simp
    qed
  qed (simp add: last_seq_def lastn_def)
  then show ?thesis
    using ticks_sent [OF assms(1,2), of es z]
    by (simp add: log_stream_def sse_stream_def assms(3) since_start ring_contents [OF assms(1)])
qed

text \<open>A ring of two, with three entries before the client connects and three more over as many ticks.\<close>

theorem log_stream_complete_witness:
  "\<exists>e0 r0. r0 = fold ring_append [e0, e0, e0] (new_ring_buffer 2 e0) \<and>
     map le_Seq (sent (log_stream r0 (rings r0 [[e0], [], [e0, e0 :: unit log_entry]]))) = [2, 3, 4, 5, 6]"
proof -
  define e :: "unit log_entry" where "e = \<lparr>le_Seq = 0, le_Time = 0, le_Level = ''INFO'', le_Message = ''m'', le_Attrs = ()\<rparr>"
  define r where "r = fold ring_append [e, e, e] (new_ring_buffer 2 e)"
  have "sent (log_stream r (rings r [[e], [], [e, e]])) = lastn 2 (stamp 0 [e, e, e]) @ stamp (length [e, e, e]) (concat [[e], [], [e, e]])"
    by (rule log_stream_complete [where n = 2, OF _ _ r_def]) simp_all
  then have "map le_Seq (sent (log_stream r (rings r [[e], [], [e, e]]))) = [2, 3, 4, 5, 6]"
    by (simp add: lastn_def)
  with r_def have "r = fold ring_append [e, e, e] (new_ring_buffer 2 e) \<and> map le_Seq (sent (log_stream r (rings r [[e], [], [e, e]]))) = [2, 3, 4, 5, 6]"
    by (rule conjI)
  then show ?thesis by (intro exI)
qed

text \<open>
  The ring of a bot belongs to its session and starts again at one when the bot is restarted. A stream that
  has seen a number of the old session stays silent until the new one has logged as many lines.
\<close>

lemma restarted_bot_silent: "wf_ring r \<Longrightarrow> rb_total r \<le> seq \<Longrightarrow> sse_tick bot_log_since seq r = ([Ping], seq)"
proof -
  assume wf: "wf_ring r" and old: "rb_total r \<le> seq"
  have "filter (\<lambda>k. seq < k) (map le_Seq (snapshot_locked r)) = []"
    using wf old by (auto simp: wf_ring_def simp del: upt_Suc intro!: filter_False)
  then have "bot_log_since seq r = []" by (simp add: bot_log_since_snapshot filter_map comp_def)
  then show ?thesis by (simp add: sse_tick_def)
qed

end
