(* ===== verification/Listings.thy ===== *)
theory Listings
  imports Server_Federation Encoding "HOL-Library.List_Lexorder"
begin

text \<open>
  The two listings the API and the dashboard share: the audit events, page by page (\<^verbatim>\<open>storage/sqlite/events.go\<close>,
  \<^verbatim>\<open>api/events.go\<close>, \<^verbatim>\<open>server/audit.go\<close>), and the federation links (\<^verbatim>\<open>api/federation.go\<close>). The table of events is kept here with the
  identifiers of its rows, which the events of \<open>Storage\<close> leave out; \<open>append_event\<close> is the link between the two. Identifiers are
  compared bytewise, as the database does.
\<close>

section \<open>Identifiers\<close>

primrec hex_fixed :: "nat \<Rightarrow> nat \<Rightarrow> string" where
  "hex_fixed 0 n = []"
| "hex_fixed (Suc k) n = hex_fixed k (n div 16) @ [hex_digit (n mod 16)]"

text \<open>\<open>rnd\<close> are the eight random bytes.\<close>

definition new_audit_id :: "time \<Rightarrow> string \<Rightarrow> string" where
  "new_audit_id t rnd = hex_fixed 16 (nat (t mod 2 ^ 64)) @ ''-'' @ hex_string rnd"

section \<open>The table\<close>

type_synonym audit_table = "(string, audit_event) gomap"

definition audit_append :: "time \<Rightarrow> string \<Rightarrow> audit_event \<Rightarrow> audit_table \<Rightarrow> audit_table \<times> storage_error option" where
  "audit_append now i e tb =
     (if i = [] then (tb, Some ErrOther)
      else let ts = (if ae_Timestamp e = zero_time then now else ae_Timestamp e) in
        if mhas tb i then (tb, Some ErrConflict) else (mput i (e\<lparr>ae_Timestamp := ts\<rparr>) tb, None))"

record list_events_options =
  lo_Since :: time
  lo_Type :: string
  lo_Limit :: int
  lo_BeforeID :: string

definition event_selected :: "list_events_options \<Rightarrow> string \<times> audit_event \<Rightarrow> bool" where
  "event_selected opts = (\<lambda>(i, e).
     (lo_Since opts \<noteq> zero_time \<longrightarrow> lo_Since opts \<le> ae_Timestamp e) \<and>
     (lo_Type opts \<noteq> [] \<longrightarrow> ae_Type e = lo_Type opts) \<and>
     (lo_BeforeID opts \<noteq> [] \<longrightarrow> i < lo_BeforeID opts))"

definition newest_first :: "(string \<times> 'e) list \<Rightarrow> (string \<times> 'e) list" where
  "newest_first rows = rev (sort_key fst rows)"

definition page_limit :: "list_events_options \<Rightarrow> nat" where
  "page_limit opts = (if lo_Limit opts \<le> 0 then 100 else nat (lo_Limit opts))"

definition events_list :: "list_events_options \<Rightarrow> audit_table \<Rightarrow> (string \<times> audit_event) list" where
  "events_list opts tb = take (page_limit opts) (newest_first (filter (event_selected opts) tb))"

section \<open>The route and the page\<close>

definition rfc3339 :: "time \<Rightarrow> string" where
  "rfc3339 t = format_date t @ ''T'' @ format_clock t @ ''Z''"

definition rfc3339_nano :: "time \<Rightarrow> string" where
  "rfc3339_nano t =
     (let f = rev (dropWhile (\<lambda>c. c = CHR ''0'') (rev (padded 9 (t mod 1000000000))))
      in format_date t @ ''T'' @ format_clock t @ (if f = [] then [] else ''.'' @ f) @ ''Z'')"

record event_view =
  ev_ID :: string
  ev_Timestamp :: string
  ev_Event :: audit_event

text \<open>\<open>parse_time\<close> is \<^verbatim>\<open>time.Parse\<close>; what does not parse is ignored, as is a limit that is no number.\<close>

definition query_options :: "(string \<Rightarrow> time option) \<Rightarrow> (string \<Rightarrow> string) \<Rightarrow> list_events_options" where
  "query_options parse_time q =
     \<lparr>lo_Since = (if q ''since'' = [] then zero_time else case parse_time (q ''since'') of None \<Rightarrow> zero_time | Some t \<Rightarrow> t),
      lo_Type = q ''type'',
      lo_Limit = (if q ''limit'' = [] then 0 else case parse_int (q ''limit'') of None \<Rightarrow> 0 | Some n \<Rightarrow> n),
      lo_BeforeID = q ''before''\<rparr>"

definition api_list_events :: "list_events_options \<Rightarrow> audit_table \<Rightarrow> event_view list \<times> string option" where
  "api_list_events opts tb =
     (let out = map (\<lambda>(i, e). \<lparr>ev_ID = i, ev_Timestamp = rfc3339_nano (ae_Timestamp e), ev_Event = e\<rparr>) (events_list opts tb)
      in (out, if out = [] then None else Some (ev_ID (last out))))"

definition events_page :: "audit_table \<Rightarrow> (string \<times> audit_event) list" where
  "events_page tb =
     map (\<lambda>(i, e). (rfc3339 (ae_Timestamp e), e))
       (events_list \<lparr>lo_Since = zero_time, lo_Type = [], lo_Limit = 50, lo_BeforeID = []\<rparr> tb)"

text \<open>A client that asks for the next page until there is none.\<close>

primrec read_all :: "nat \<Rightarrow> list_events_options \<Rightarrow> audit_table \<Rightarrow> event_view list" where
  "read_all 0 opts tb = []"
| "read_all (Suc n) opts tb =
     (case api_list_events opts tb of
        (out, None) \<Rightarrow> out
      | (out, Some c) \<Rightarrow> out @ read_all n (opts\<lparr>lo_BeforeID := c\<rparr>) tb)"

section \<open>Links\<close>

definition federation_page :: "link_report \<Rightarrow> server \<Rightarrow> link_row list" where
  "federation_page rich s = sort_key lr_peer (federation_snapshot rich s)"

record link_view =
  lv_Peer :: string
  lv_State :: string
  lv_SentMessages :: nat
  lv_SentKB :: nat
  lv_RecvMessages :: nat
  lv_RecvKB :: nat
  lv_Uptime :: time

text \<open>The uptime is in nanoseconds here; \<^const>\<open>None\<close> is a handler without a lister.\<close>

definition api_federation_links :: "time \<Rightarrow> link_row list option \<Rightarrow> link_view list" where
  "api_federation_links now lister =
     map (\<lambda>r. \<lparr>lv_Peer = lr_peer r, lv_State = lr_state r, lv_SentMessages = lr_sentMessages r, lv_SentKB = lr_sentBytes r div 1024,
        lv_RecvMessages = lr_recvMessages r, lv_RecvKB = lr_recvBytes r div 1024,
        lv_Uptime = (case lr_openedAt r of None \<Rightarrow> 0 | Some t \<Rightarrow> now - t)\<rparr>) (case lister of None \<Rightarrow> [] | Some rows \<Rightarrow> rows)"

section \<open>Identifiers sort by time\<close>

lemma hex_digit_less: "a < b \<Longrightarrow> b < 16 \<Longrightarrow> hex_digit a < hex_digit b"
  by (auto simp: hex_digit_def less_char_def)

lemma hex_fixed_length [simp]: "length (hex_fixed k n) = k"
  by (induction k arbitrary: n) simp_all

lemma append_less:
  fixes xs ys :: "string"
  shows "length xs = length ys \<Longrightarrow> xs < ys \<Longrightarrow> xs @ us < ys @ vs"
  by (induction xs ys rule: list_induct2) auto

lemma append_less_same:
  fixes us vs :: string
  shows "us < vs \<Longrightarrow> xs @ us < xs @ vs"
  by (induction xs) auto

lemma hex_fixed_less: "a < b \<Longrightarrow> b < 16 ^ k \<Longrightarrow> hex_fixed k a < hex_fixed k b"
proof (induction k arbitrary: a b)
  case (Suc k)
  show ?case
  proof (cases "a div 16 < b div 16")
    case True
    moreover have "b div 16 < 16 ^ k" using Suc.prems(2) by (simp add: less_mult_imp_div_less mult.commute)
    ultimately show ?thesis using Suc.IH by (simp add: append_less)
  next
    case False
    then have "a div 16 = b div 16" using Suc.prems(1) by (metis div_le_mono le_antisym less_imp_le not_less)
    moreover from this have "a mod 16 < b mod 16" using Suc.prems(1) by (metis add_less_cancel_left div_mult_mod_eq)
    ultimately show ?thesis using hex_digit_less [of "a mod 16" "b mod 16"] by (simp add: append_less_same)
  qed
qed simp

lemma audit_id_less:
  assumes "0 \<le> t" "t < t'" "t' < 2 ^ 64"
  shows "new_audit_id t r < new_audit_id t' r'"
proof -
  have "nat (t mod 2 ^ 64) < nat (t' mod 2 ^ 64)" "nat (t' mod 2 ^ 64) < 16 ^ 16" using assms by simp_all
  then have "hex_fixed 16 (nat (t mod 2 ^ 64)) < hex_fixed 16 (nat (t' mod 2 ^ 64))" by (rule hex_fixed_less)
  then show ?thesis unfolding new_audit_id_def by (rule append_less [rotated]) simp
qed

section \<open>Page by page\<close>

abbreviation descending :: "(string \<times> 'e) list \<Rightarrow> bool" where
  "descending \<equiv> sorted_wrt (\<lambda>x y. fst y < fst x)"

lemma newest_first_descending:
  assumes "wf_map rows"
  shows "descending (newest_first rows)"
proof -
  have "distinct (map fst (sort_key fst rows))" using assms by (simp add: wf_map_def distinct_map inj_on_def)
  then have "sorted_wrt (<) (map fst (sort_key fst rows))" by (simp add: strict_sorted_iff)
  then show ?thesis by (simp add: newest_first_def sorted_wrt_rev sorted_wrt_map)
qed

lemma newest_first_filter: "newest_first (filter P rows) = filter P (newest_first rows)"
  by (simp add: newest_first_def filter_sort flip: rev_filter)

lemma set_newest_first [simp]: "set (newest_first rows) = set rows"
  by (simp add: newest_first_def)

lemma rest_after_page:
  assumes "descending xs" "take k xs \<noteq> []"
  shows "filter (\<lambda>x. fst x < fst (last (take k xs))) xs = drop k xs"
proof -
  have "descending (take k xs @ drop k xs)" using assms(1) by simp
  then have parts: "descending (take k xs)" "\<forall>x \<in> set (take k xs). \<forall>y \<in> set (drop k xs). fst y < fst x"
    unfolding sorted_wrt_append by blast+
  have last: "last (take k xs) \<in> set (take k xs)" using assms(2) by (rule last_in_set)
  have "\<not> fst x < fst (last (take k xs))" if "x \<in> set (take k xs)" for x
  proof -
    obtain ys where ys: "take k xs = ys @ [last (take k xs)]" using assms(2) by (metis append_butlast_last_id)
    with parts(1) have "\<forall>y \<in> set ys. fst (last (take k xs)) < fst y" by (metis sorted_wrt_append list.set_intros(1))
    moreover have "x \<in> set ys \<or> x = last (take k xs)" using that ys by (metis Un_iff set_append set_ConsD empty_iff empty_set)
    ultimately show ?thesis by (metis less_asym less_irrefl)
  qed
  then have "filter (\<lambda>x. fst x < fst (last (take k xs))) (take k xs) = []" by (simp add: filter_empty_conv)
  moreover have "filter (\<lambda>x. fst x < fst (last (take k xs))) (drop k xs) = drop k xs"
    using parts(2) last by (simp add: filter_id_conv)
  ultimately show ?thesis by (metis append_Nil append_take_drop_id filter_append)
qed

text \<open>The view of a row.\<close>

definition row_view :: "string \<times> audit_event \<Rightarrow> event_view" where
  "row_view = (\<lambda>(i, e). \<lparr>ev_ID = i, ev_Timestamp = rfc3339_nano (ae_Timestamp e), ev_Event = e\<rparr>)"

lemma row_view_ID [simp]: "ev_ID (row_view x) = fst x"
  by (simp add: row_view_def split: prod.split)

lemma api_list_events_rows:
  "api_list_events opts tb =
     (let page = take (page_limit opts) (newest_first (filter (event_selected opts) tb))
      in (map row_view page, if page = [] then None else Some (fst (last page))))"
  by (simp add: api_list_events_def events_list_def row_view_def [symmetric] Let_def last_map)

lemma selected_before:
  assumes "event_selected opts x" "fst x \<noteq> []"
  shows "event_selected (opts\<lparr>lo_BeforeID := fst x\<rparr>) y \<longleftrightarrow> event_selected opts y \<and> fst y < fst x"
  using assms by (cases x; cases y) (auto simp: event_selected_def)

text \<open>Rows whose identifiers were made from their times.\<close>

definition timed_ids :: "audit_table \<Rightarrow> bool" where
  "timed_ids tb \<longleftrightarrow>
     (\<forall>(i, e) \<in> set tb. 0 \<le> ae_Timestamp e \<and> ae_Timestamp e < 2 ^ 63 \<and> (\<exists>r. i = new_audit_id (ae_Timestamp e) r))"

lemma timed_ids_order:
  assumes "timed_ids tb" "x \<in> set tb" "y \<in> set tb" "fst y < fst x"
  shows "ae_Timestamp (snd y) \<le> ae_Timestamp (snd x)"
proof (rule ccontr)
  assume "\<not> ?thesis"
  moreover obtain r r' where "fst x = new_audit_id (ae_Timestamp (snd x)) r" "fst y = new_audit_id (ae_Timestamp (snd y)) r'"
    "0 \<le> ae_Timestamp (snd x)" "ae_Timestamp (snd y) < 2 ^ 63"
    using assms(1-3) unfolding timed_ids_def by fastforce
  ultimately have "fst x < fst y" using audit_id_less [of "ae_Timestamp (snd x)" "ae_Timestamp (snd y)" r r'] by simp
  with assms(4) show False by (metis less_asym)
qed

text \<open>
  C24: A client that follows the cursor reads every audit event that fits its filter exactly once, the newest first, whatever
  the size of a page, and then learns that there is no more; with identifiers made from their times, no later event comes after
  an earlier one.
\<close>

theorem audit_pages_complete:
  assumes "wf_map tb" "[] \<notin> fst ` set tb" "length (filter (event_selected opts) tb) < n"
  shows "read_all n opts tb = map row_view (newest_first (filter (event_selected opts) tb)) \<and>
    (timed_ids tb \<longrightarrow> sorted_wrt (\<lambda>v w. ae_Timestamp (ev_Event w) \<le> ae_Timestamp (ev_Event v)) (read_all n opts tb))"
proof -
  have all: "read_all n opts tb = map row_view (newest_first (filter (event_selected opts) tb))"
    using assms(3)
  proof (induction n arbitrary: opts)
    case (Suc n)
    let ?rows = "newest_first (filter (event_selected opts) tb)"
    let ?page = "take (page_limit opts) ?rows"
    show ?case
    proof (cases "?rows = []")
      case True
      then show ?thesis by (simp add: api_list_events_rows)
    next
      case False
      have lim: "0 < page_limit opts" by (simp add: page_limit_def)
      with False have ne: "?page \<noteq> []" by simp
      then have "last ?page \<in> set ?rows" by (meson in_set_takeD last_in_set)
      then have c: "event_selected opts (last ?page)" "fst (last ?page) \<noteq> []" using assms(2) by force+
      let ?o = "opts\<lparr>lo_BeforeID := fst (last ?page)\<rparr>"
      have desc: "descending ?rows" using newest_first_descending assms(1) wf_map_filter by blast
      have "event_selected ?o = (\<lambda>x. event_selected opts x \<and> fst x < fst (last ?page))"
        by (rule ext) (use selected_before [OF c] in blast)
      then have rest: "newest_first (filter (event_selected ?o) tb) = drop (page_limit opts) ?rows"
        using rest_after_page [OF desc ne] by (simp only: newest_first_filter filter_filter)
      moreover have "length (filter (event_selected ?o) tb) < n"
      proof -
        have "length (filter (event_selected ?o) tb) = length ?rows - page_limit opts"
          using arg_cong [OF rest, of length] by (simp add: newest_first_def)
        moreover have "length ?rows = length (filter (event_selected opts) tb)" by (simp add: newest_first_def)
        moreover have "0 < length ?rows" using False by blast
        ultimately show ?thesis using Suc.prems lim by linarith
      qed
      ultimately have "read_all n ?o tb = map row_view (drop (page_limit opts) ?rows)" using Suc.IH by simp
      then show ?thesis using ne by (simp add: api_list_events_rows Let_def flip: map_append)
    qed
  qed simp
  have "sorted_wrt (\<lambda>v w. ae_Timestamp (ev_Event w) \<le> ae_Timestamp (ev_Event v)) (read_all n opts tb)" if "timed_ids tb"
  proof -
    have "descending (newest_first (filter (event_selected opts) tb))" using newest_first_descending assms(1) wf_map_filter by blast
    then show ?thesis unfolding all sorted_wrt_map
      by (rule sorted_wrt_mono_rel [rotated]) (use timed_ids_order [OF that] in \<open>auto simp: row_view_def\<close>)
  qed
  with all show ?thesis by blast
qed

text \<open>Four events on pages of two, one of another type.\<close>

definition demo_row :: "time \<Rightarrow> string \<Rightarrow> string \<times> audit_event" where
  "demo_row t ty = (new_audit_id t ''r'', \<lparr>ae_Timestamp = t, ae_Type = ty, ae_Actor = [], ae_Target = [], ae_Data = []\<rparr>)"

definition demo_table :: audit_table where
  "demo_table = [demo_row 20 ''kick'', demo_row 300 ''kick'', demo_row 1 ''mode'', demo_row 17 ''kick'']"

definition demo_query :: list_events_options where
  "demo_query = \<lparr>lo_Since = zero_time, lo_Type = ''kick'', lo_Limit = 2, lo_BeforeID = []\<rparr>"

lemma audit_pages_complete_witness:
  "wf_map demo_table \<and> [] \<notin> fst ` set demo_table \<and> timed_ids demo_table \<and>
   length (read_all 4 demo_query demo_table) = 3 \<and>
   sorted_wrt (\<lambda>v w. ae_Timestamp (ev_Event w) \<le> ae_Timestamp (ev_Event v)) (read_all 4 demo_query demo_table)"
proof -
  have hyp: "wf_map demo_table" "[] \<notin> fst ` set demo_table" "length (filter (event_selected demo_query) demo_table) = 3"
    by code_simp+
  have timed: "timed_ids demo_table" by (auto simp: timed_ids_def demo_table_def demo_row_def)
  have few: "length (filter (event_selected demo_query) demo_table) < 4" by (simp add: hyp(3))
  note pages = audit_pages_complete [OF hyp(1,2) few]
  have "length (read_all 4 demo_query demo_table) = 3"
    by (simp only: conjunct1 [OF pages] newest_first_def length_map length_rev length_sort hyp(3))
  moreover have "sorted_wrt (\<lambda>v w. ae_Timestamp (ev_Event w) \<le> ae_Timestamp (ev_Event v)) (read_all 4 demo_query demo_table)"
    using conjunct2 [OF pages] timed by blast
  ultimately show ?thesis using hyp(1,2) timed by blast
qed

text \<open>
  What the server adds to its store is what the table gains, when the identifier is new: the model of \<open>Storage\<close> is the table without its
  identifiers.
\<close>

lemma append_event:
  assumes "i \<noteq> []" "\<not> mhas tb i" "ae_Timestamp e \<noteq> zero_time" "st_events st = map snd tb"
  shows "st_events (events_append e st) = map snd (fst (audit_append now i e tb))"
proof -
  have "mput i e tb = tb @ [(i, e)]" using assms(2) by (induction tb) (auto simp: mhas_def split: if_splits)
  then show ?thesis using assms by (simp add: audit_append_def events_append_def)
qed

lemma wf_audit_append: "wf_map tb \<Longrightarrow> [] \<notin> fst ` set tb \<Longrightarrow>
  wf_map (fst (audit_append now i e tb)) \<and> [] \<notin> fst ` set (fst (audit_append now i e tb))"
  by (auto simp: audit_append_def Let_def)

text \<open>Events that arrive while a client turns the pages are on none of the pages to come.\<close>

lemma later_rows_invisible:
  assumes "lo_BeforeID opts \<noteq> []" "\<forall>r \<in> set new. \<not> fst r < lo_BeforeID opts"
  shows "events_list opts (tb @ new) = events_list opts tb"
proof -
  have "filter (event_selected opts) new = []" using assms by (auto simp: event_selected_def filter_empty_conv)
  then show ?thesis by (simp add: events_list_def)
qed

end
