(* ===== verification/Spec2Isabelle.thy ===== *)
theory Spec2Isabelle
  imports System Config_Props Jsonl_Props Admin_Props Bot_Props Portal_Props Log_Stream Listings
begin

text \<open>
  A model of \<^verbatim>\<open>ircat\<close>, an IRC server in Go, and the properties that make it correct.

  \<^bold>\<open>The program.\<close> One process, \<^verbatim>\<open>cmd/ircat\<close>, loads a configuration (\<^verbatim>\<open>internal/config\<close>), opens a store
  (\<^verbatim>\<open>internal/storage\<close>) and starts an IRC server (\<^verbatim>\<open>internal/server\<close>) over a directory of users and channels
  (\<^verbatim>\<open>internal/state\<close>), links to other servers (\<^verbatim>\<open>internal/federation\<close>), three services (\<^verbatim>\<open>internal/services\<close>), bots
  written in Lua (\<^verbatim>\<open>internal/bots\<close>), an event bus (\<^verbatim>\<open>internal/events\<close>), and a dashboard with an admin API
  (\<^verbatim>\<open>internal/dashboard\<close>, \<^verbatim>\<open>internal/api\<close>). The server's record is shared by all of them: connections run command handlers on it,
  links deliver what peers send into it, services and bots are users of it whose messages are delivered by a call, the
  API and the dashboard act on it through a few actions.

  \<^bold>\<open>How code becomes definitions.\<close> A struct is a record, an enumeration a datatype, a Go map an association list in the order of
  one visit, so that a statement about every such list is one about every order of iteration. A method that
  changes its receiver returns the changed one; a handler is a function from state to state; an error is \<^const>\<open>Inl\<close> or an
  option; a nil dereference, which ends the process, is \<^const>\<open>None\<close> of a handler. Whatever holds a mutex in the source is one
  function here, and a handler runs to its end on one state; where the interleaving of goroutines
  matters, it is a step relation (\<open>System\<close>, \<open>Event_Bus\<close>, \<open>Link\<close>). Strings are byte strings. The clock is an
  argument or a field of the state, in nanoseconds.

  \<^bold>\<open>The directory of users and channels.\<close>
  \<open>Casemap\<close> (\<^verbatim>\<open>casemap.go\<close>): folding of names; the locale \<open>name_fold\<close> is what the indexes need of it.
  \<open>Glob\<close>: the backtracking matcher of \<^verbatim>\<open>channel.go\<close>, sound for the textbook relation and complete for subjects without an
  asterisk; its loop ends by a lexicographic measure.
  \<open>Membership\<close>, \<open>Channel\<close> (\<^verbatim>\<open>channel.go\<close>): flags as an 8-bit word, modes, and four mask lists under one locale, \<open>mask_list\<close>.
  \<open>World\<close>, \<open>Join_Part\<close> (\<^verbatim>\<open>world.go\<close>, \<^verbatim>\<open>user.go\<close>): the two user indexes with the locale \<open>nick_directory\<close>
  (one name, one holder), the channel table, and what joining and parting do, with the invariant \<open>wf_world\<close>.
  \<open>History\<close> (\<^verbatim>\<open>whowas.go\<close>, \<^verbatim>\<open>logging/ring.go\<close>, \<^verbatim>\<open>bots/logring.go\<close>): three rings with one contract, the locale \<open>bounded_history\<close>.

  \<^bold>\<open>Wire, store and passwords.\<close>
  \<open>Message\<close> (\<^verbatim>\<open>internal/protocol\<close>): parser and encoder, and their round trip. \<open>Time_Format\<close>: the date layouts the replies use.
  \<open>Storage\<close> (\<^verbatim>\<open>storage/sqlite\<close>): the effect of each statement on its table. \<open>Auth\<close>, \<open>Encoding\<close>: hashes of passwords, base64 and hex.
  \<open>Flood\<close>: the token bucket, with its bounds.

  \<^bold>\<open>The server.\<close>
  \<open>Server_State\<close>: connections, registries, links as queues, local and federated delivery. \<open>Server_Inv\<close>: the invariant \<open>wf_server\<close> and the
  two shapes of a change, \<open>quiet\<close> and \<open>world_step\<close>, that the proofs about handlers compose.
  \<open>Services\<close>, \<open>Service_Hooks\<close>: NickServ, ChanServ, MemoServ and their calls into the server. \<open>Startup\<close>: construction, and
  channels that survive a restart. \<open>Registration\<close>: everything before the welcome, CAP and SASL. \<open>Broadcast\<close>: who gets a channel message.
  \<open>Channel_Cmds\<close>, \<open>Mode_Cmds\<close>, \<open>Message_Cmds\<close>, \<open>Query_Cmds\<close>, \<open>Oper_Cmds\<close>: the commands, one file of handlers each or several.
  \<open>Session\<close>, \<open>Session_Props\<close> (\<^verbatim>\<open>conn.go\<close>, \<^verbatim>\<open>handler.go\<close>): dispatch, the steps of a connection's loops, its end; what a client that never
  registered can do, which lines end the process, when a silent client is dropped.

  \<^bold>\<open>Federation.\<close>
  \<open>Server_Federation\<close> (\<^verbatim>\<open>server/federation.go\<close>): delivery from peers and the loss of one. \<open>Link\<close> (\<^verbatim>\<open>federation.go\<close>): handshake, burst, the
  lines of a peer. \<open>Link_Props\<close>: the Go interface \<^verbatim>\<open>Host\<close> is the locale \<open>federation_host\<close>, interpreted on the server; no peer can break the
  invariant. \<open>Link_Sync\<close>: a burst replicates the users, collisions are settled by time stamps, a remote mode change mirrors the local one.
  \<open>System\<close>: the daemon as a step relation over a server, its connections and links; its invariant holds in every reachable state.

  \<^bold>\<open>Around the server.\<close>
  \<open>Yaml\<close>, \<open>Config\<close>, \<open>Config_Load\<close>, \<open>Config_Props\<close>: from the bytes of a file to checked settings. \<open>Event_Bus\<close>: publishers, workers and Close as
  interleaved steps. \<open>Event_Sinks\<close>, \<open>Jsonl_Props\<close>: webhook retries, and the rotation of the log file as a bounded queue.
  \<open>Admin_Api\<close>, \<open>Admin_Props\<close> (\<^verbatim>\<open>internal/api\<close>): routes behind a bearer token. \<open>Bots\<close>, \<open>Bot_Props\<close>: the bot tables, the functions a script may call, and the
  life cycle of the supervisor. \<open>Dash_Session\<close>, \<open>Dashboard\<close>, \<open>Portal_Props\<close>: signed cookies, every page and every form of \<^verbatim>\<open>pages.go\<close>.
  \<open>Log_Stream\<close>: the live log. \<open>Listings\<close>: the pages of the audit log and the list of links. \<open>Daemon\<close> (\<^verbatim>\<open>cmd/ircat\<close>): the operators a start creates, \<^verbatim>\<open>ircat operator\<close>, reload, and the waits between dials.
  \<open>Prelude\<close>: the parts of Go's \<^verbatim>\<open>strings\<close> and \<^verbatim>\<open>strconv\<close> in use, maps, and the collections \<open>invs\<close> and \<open>frames\<close>.

  \<^bold>\<open>Fuel and bounds.\<close> The YAML parser recurses by indentation and carries fuel, one more than the number of lines; \<open>yaml_total\<close> shows that
  it always returns with that and that more changes nothing. The retries of the webhook count down the configured number. Every
  other loop is structural or has a termination proof. Go's \<^verbatim>\<open>int\<close> is an integer except where the code computes with a width that
  can be exceeded: membership flags, time stamps in cookies and hash parameters are bounded where they are read.

  \<^bold>\<open>Parameters.\<close> Code outside the repository is an argument: argon2 and bcrypt, SHA-256 and HMAC, random bytes, the JSON text parser and
  the integer a JSON float denotes, the Lua interpreter (a loader and a caller that give the tree of calls a script makes, for any replies),
  the environment, the content of files, what an HTTP endpoint answers. Their properties, where a theorem needs one, are its hypotheses, such
  as the length of a derived key.

  \<^bold>\<open>Not modelled.\<close> Sockets, TLS and timers as such (their events are steps); the rounding of the flood control's floats;
  the text of log records (the handlers of \<^verbatim>\<open>slog\<close>) and of HTML pages (templates; a page is the data it is filled with); the metric cards with
  their sparklines and the metrics text, which are computed in floating point;
  the PostgreSQL driver, which keeps the contracts of the SQLite one by other statements; the SQL migrations; the construction order and
  the goroutines of \<^verbatim>\<open>runServer\<close>; flag parsing and usage texts; the load and end-to-end test clients under \<^verbatim>\<open>tests\<close>.
\<close>

end
